(* ===== verification/Prelude.thy ===== *)
theory Prelude
  imports Main "HOL-Library.Word" "HOL-Library.Sublist" "HOL-Library.AList"
begin

text \<open>
  Shared ground of the development: the exception classes of the program as one datatype,
  a monad of state and exceptions in which every coroutine of a service is written, a small
  weakest-precondition calculus for it, and the lemmas on tables (lists of rows) that all
  components use.

  A coroutine of the source has the type \<open>('s, 'a) M\<close>: it takes the state of the session
  and returns either the exception that left the coroutine (\<open>Inl\<close>) or its result
  (\<open>Inr\<close>), and the state at that point. The state is returned with an exception too, because
  an exception does not undo what the coroutine did to the objects of the session; only the
  end of the enclosing transaction does (see \<open>transaction\<close> in \<open>Execution_Context\<close>).
\<close>

named_theorems wp_simps "equations of the weakest-precondition calculus"
named_theorems frame_intros "operations that leave a part of the state alone"
named_theorems inv_intros "operations that keep an invariant, also when they raise"

section \<open>Exceptions\<close>

text \<open>
  One constructor for every exception class, applied to the reason. The reason of an
  exception of the program stands for its message, word for word where it is a constant.
\<close>

datatype job_fault =
    Timestamp_must_be_timezone_aware
  | Reference_is_invalid
  | Job_payload_must_be_deterministic_JSON
  | Sensitive_job_payload_is_prohibited
  | Job_payload_exceeds_256_KiB
  | Attempt_count_exceeds_the_approved_retry_budget
  | Retry_delays_do_not_cover_the_retry_budget
  | Retry_delay_exceeds_the_approved_bound
  | Definition_version_must_be_positive
  | Definition_concurrency_exceeds_the_workspace_ceiling
  | Definition_rate_exceeds_the_workspace_ceiling
  | Deadline_must_follow_availability
  | Job_classification_is_invalid
  | Daily_local_time_is_invalid
  | Schedule_timezone_is_unknown
  | Interval_schedule_requires_a_positive_interval
  | Daily_schedule_requires_local_time_policy
  | Local_time_policy_belongs_only_to_daily_schedules
  | Daily_schedule_has_no_resolvable_occurrence
  | Job_definition_identity_already_exists
  | Job_definition_is_unavailable
  | Workspace_job_backlog_quota_exceeded
  | Workspace_enqueue_rate_quota_exceeded
  | Worker_identity_is_invalid
  | Lease_duration_must_match_the_approved_default
  | Job_cancellation_observed
  | Result_digest_is_invalid
  | Cancelled_job_cannot_succeed
  | Safe_error_code_is_invalid
  | Cancellation_reason_is_invalid
  | Terminal_job_cannot_be_cancelled
  | Job_is_not_available_for_replay
  | Replay_reason_is_invalid
  | Operator_control_scope_is_invalid
  | Workspace_control_does_not_match_execution_context
  | Operator_control_reason_is_invalid
  | Operator_control_version_precondition_failed
  | Schedule_does_not_exist
  | Schedule_version_precondition_failed
  | Completed_schedule_cannot_be_changed
  | Schedule_pause_reason_is_invalid
  | Schedule_identity_already_exists
  | Scheduled_job_deadline_is_invalid
  | Job_does_not_exist
  | Job_definition_does_not_exist
  | Idempotency_key_was_reused_with_changed_input  \<comment> \<open>class \<open>IdempotencyConflict\<close>\<close>
  | Worker_does_not_own_a_live_job_lease           \<comment> \<open>class \<open>LeaseConflict\<close>\<close>
  | Running_job_attempt_is_unavailable             \<comment> \<open>class \<open>LeaseConflict\<close>\<close>

datatype context_fault =
    Execution_context_is_required
  | An_active_transaction_is_required
  | Workspace_context_is_stale_or_unknown
  | Tenant_placement_context_does_not_match
  | Tenant_placement_is_not_active

datatype repository_fault =
    Transaction_execution_context_is_required
  | Repository_and_transaction_contexts_do_not_match
  | Cross_workspace_repository_access_is_prohibited

datatype messaging_fault =
    Sensitive_messaging_payload_is_prohibited
  | Command_workspace_context_does_not_match
  | Command_actor_context_does_not_match
  | Event_workspace_context_does_not_match

datatype messaging_conflict =
    Key_was_reused_with_changed_input
  | Matching_command_is_still_in_progress

datatype replay_fault =
    Replay_authorization_does_not_match_context
  | Quarantined_event_is_unavailable
  | Event_schema_remains_unsupported
  | Event_sequence_gap_remains_unresolved

datatype task_fault =
    Task_transition_is_invalid
  | Task_text_is_invalid
  | Task_priority_is_invalid
  | Task_classification_is_invalid
  | Task_policy_version_is_invalid
  | Task_due_time_must_be_timezone_aware
  | Task_due_time_and_timezone_must_be_supplied_together
  | Task_query_is_invalid
  | Task_query_due_boundary_must_be_timezone_aware
  | Task_identity_already_exists
  | Task_requires_an_active_canonical_task_resource
  | Task_does_not_exist
  | Completion_evidence_is_required
  | Task_participant_is_invalid
  | Task_dependency_cycle_is_prohibited
  | Task_comment_is_invalid
  | Completion_evidence_statement_is_required
  | External_task_reference_is_invalid
  | Task_is_not_eligible_for_a_reminder
  | Deleted_task_cannot_be_changed

datatype workflow_fault =
    Workflow_authorization_denied
  | Workflow_step_does_not_exist
  | Terminal_workflow_instance_cannot_resume
  | Workflow_outcome_is_invalid
  | Active_workflow_definition_version_does_not_exist
  | Workflow_definition_version_does_not_exist
  | Workflow_definition_does_not_exist
  | Workflow_instance_does_not_exist
  | Workflow_version_precondition_failed
  | Workflow_definition_binding_is_invalid

datatype approval_fault =
    Approval_request_is_invalid
  | Authorization_revalidation_failed
  | Approval_was_revoked
  | Approval_expired
  | Approval_action_digest_mismatch
  | Approval_quorum_not_satisfied
  | Approval_requester_cannot_self_approve

datatype py_error =
    JobError job_fault
  | IdempotencyConflict job_fault
  | LeaseConflict job_fault
  | JobAuthorizationError
  | ExecutionContextError context_fault
  | ExecutionContextRequiredError repository_fault
  | MessagingError messaging_fault
  | MessagingIdempotencyConflict messaging_conflict
  | ConcurrencyConflict
  | ReplayDenied replay_fault
  | TaskError task_fault
  | TaskAuthorizationError
  | TaskConcurrencyError
  | WorkflowError workflow_fault
  | ApprovalError approval_fault
  | AgentPlatformError string  \<comment> \<open>with its message\<close>
  | ValueError string
  | TypeError
  | KeyError
  | IndexError
  | AssertionError
  | InvalidRequestError        \<comment> \<open>of the session: a transaction is already begun\<close>
  | MultipleResultsFound       \<comment> \<open>of \<open>one_or_none\<close>\<close>
  | IntegrityError string     \<comment> \<open>the constraint of the database that failed\<close>
  | RaisedByDatabase string   \<comment> \<open>\<open>RAISE EXCEPTION\<close> of a trigger\<close>
  | HandlerError nat          \<comment> \<open>any exception of code that is passed in\<close>
  | ValidationError py_error  \<comment> \<open>of \<open>pydantic\<close>, around the exception of a validator\<close>

text \<open>\<open>except JobError\<close>: the class and its subclasses.\<close>

fun is_job_error :: "py_error \<Rightarrow> bool" where
  "is_job_error (JobError _) = True"
| "is_job_error (IdempotencyConflict _) = True"
| "is_job_error (LeaseConflict _) = True"
| "is_job_error _ = False"

section \<open>State and exceptions\<close>

type_synonym ('s, 'a) M = "'s \<Rightarrow> (py_error + 'a) \<times> 's"

definition returnM :: "'a \<Rightarrow> ('s, 'a) M" where
  "returnM x = (\<lambda>s. (Inr x, s))"

definition raiseM :: "py_error \<Rightarrow> ('s, 'a) M" where
  "raiseM e = (\<lambda>s. (Inl e, s))"

definition bindM :: "('s, 'a) M \<Rightarrow> ('a \<Rightarrow> ('s, 'b) M) \<Rightarrow> ('s, 'b) M" where
  "bindM m f = (\<lambda>s. case m s of (Inl e, s') \<Rightarrow> (Inl e, s') | (Inr x, s') \<Rightarrow> f x s')"

definition thenM :: "('s, 'a) M \<Rightarrow> ('s, 'b) M \<Rightarrow> ('s, 'b) M" where
  "thenM m n = bindM m (\<lambda>_. n)"

definition getsM :: "('s \<Rightarrow> 'a) \<Rightarrow> ('s, 'a) M" where
  "getsM f = (\<lambda>s. (Inr (f s), s))"

definition modifyM :: "('s \<Rightarrow> 's) \<Rightarrow> ('s, unit) M" where
  "modifyM f = (\<lambda>s. (Inr (), f s))"

text \<open>\<open>if not b: raise e\<close>\<close>

definition requireM :: "bool \<Rightarrow> py_error \<Rightarrow> ('s, unit) M" where
  "requireM b e = (if b then returnM () else raiseM e)"

text \<open>\<open>value = ...; if value is None: raise e\<close>\<close>

definition someM :: "'a option \<Rightarrow> py_error \<Rightarrow> ('s, 'a) M" where
  "someM x e = (case x of None \<Rightarrow> raiseM e | Some y \<Rightarrow> returnM y)"

definition liftM :: "py_error + 'a \<Rightarrow> ('s, 'a) M" where
  "liftM r = (case r of Inl e \<Rightarrow> raiseM e | Inr x \<Rightarrow> returnM x)"

text \<open>A \<open>for\<close> loop whose body may raise, and one that collects results.\<close>

fun forM :: "'a list \<Rightarrow> ('a \<Rightarrow> ('s, unit) M) \<Rightarrow> ('s, unit) M" where
  "forM [] f = returnM ()"
| "forM (x # xs) f = thenM (f x) (forM xs f)"

fun mapM :: "('a \<Rightarrow> ('s, 'b) M) \<Rightarrow> 'a list \<Rightarrow> ('s, 'b list) M" where
  "mapM f [] = returnM []"
| "mapM f (x # xs) = bindM (f x) (\<lambda>y. bindM (mapM f xs) (\<lambda>ys. returnM (y # ys)))"

text \<open>\<open>try: m; except e if p(e): h(e)\<close>\<close>

definition catchM :: "(py_error \<Rightarrow> bool) \<Rightarrow> ('s, 'a) M \<Rightarrow> (py_error \<Rightarrow> ('s, 'a) M) \<Rightarrow> ('s, 'a) M" where
  "catchM p m h = (\<lambda>s. case m s of (Inl e, s') \<Rightarrow> (if p e then h e s' else (Inl e, s')) | r \<Rightarrow> r)"

section \<open>Weakest preconditions\<close>

text \<open>
  \<open>wp m Q E s\<close>: run from \<open>s\<close>, \<open>m\<close> returns with \<open>Q\<close> or raises with \<open>E\<close>. Since
  coroutines are functions of the state this is also the strongest statement about them, so
  the calculus consists of equations and \<open>simp add: wp_simps\<close> runs it.
\<close>

definition wp :: "('s, 'a) M \<Rightarrow> ('a \<Rightarrow> 's \<Rightarrow> bool) \<Rightarrow> (py_error \<Rightarrow> 's \<Rightarrow> bool) \<Rightarrow> 's \<Rightarrow> bool" where
  "wp m Q E s = (case m s of (Inl e, s') \<Rightarrow> E e s' | (Inr x, s') \<Rightarrow> Q x s')"

text \<open>
  The equations are between predicates, so that they also apply below the binder of a
  continuation.
\<close>

lemma wp_returnM [wp_simps]: "wp (returnM x) Q E = Q x"
  by (simp add: fun_eq_iff wp_def returnM_def)

lemma wp_raiseM [wp_simps]: "wp (raiseM e) Q E = E e"
  by (simp add: fun_eq_iff wp_def raiseM_def)

lemma wp_bindM [wp_simps]: "wp (bindM m f) Q E = wp m (\<lambda>x. wp (f x) Q E) E"
  by (simp add: fun_eq_iff wp_def bindM_def split: sum.splits prod.splits)

lemma wp_thenM [wp_simps]: "wp (thenM m n) Q E = wp m (\<lambda>_. wp n Q E) E"
  by (simp add: thenM_def wp_bindM)

lemma wp_getsM [wp_simps]: "wp (getsM f) Q E = (\<lambda>s. Q (f s) s)"
  by (simp add: fun_eq_iff wp_def getsM_def)

lemma wp_modifyM [wp_simps]: "wp (modifyM f) Q E = (\<lambda>s. Q () (f s))"
  by (simp add: fun_eq_iff wp_def modifyM_def)

lemma wp_requireM [wp_simps]: "wp (requireM b e) Q E = (\<lambda>s. if b then Q () s else E e s)"
  by (simp add: requireM_def wp_simps)

lemma wp_someM [wp_simps]:
  "wp (someM x e) Q E = (\<lambda>s. case x of None \<Rightarrow> E e s | Some y \<Rightarrow> Q y s)"
  by (simp add: someM_def wp_simps split: option.splits)

lemma wp_liftM [wp_simps]:
  "wp (liftM r) Q E = (\<lambda>s. case r of Inl e \<Rightarrow> E e s | Inr x \<Rightarrow> Q x s)"
  by (simp add: liftM_def wp_simps split: sum.splits)

lemma wp_if [wp_simps]: "wp (if b then m else n) Q E = (\<lambda>s. if b then wp m Q E s else wp n Q E s)"
  by simp

lemma wp_case_option [wp_simps]:
  "wp (case x of None \<Rightarrow> m | Some y \<Rightarrow> f y) Q E =
   (\<lambda>s. case x of None \<Rightarrow> wp m Q E s | Some y \<Rightarrow> wp (f y) Q E s)"
  by (simp split: option.splits)

lemma wp_case_prod [wp_simps]:
  "wp (case x of (a, b) \<Rightarrow> f a b) Q E = (\<lambda>s. case x of (a, b) \<Rightarrow> wp (f a b) Q E s)"
  by (simp split: prod.splits)

lemma wp_catchM [wp_simps]:
  "wp (catchM p m h) Q E = wp m Q (\<lambda>e s'. if p e then wp (h e) Q E s' else E e s')"
  by (simp add: fun_eq_iff wp_def catchM_def split: sum.splits prod.splits)

lemma wp_mono:
  assumes "wp m Q E s" "\<And>x s'. Q x s' \<Longrightarrow> Q' x s'" "\<And>e s'. E e s' \<Longrightarrow> E' e s'"
  shows "wp m Q' E' s"
  using assms by (auto simp: wp_def split: sum.splits prod.splits)

lemma wp_conj: "wp m (\<lambda>x s'. Q x s' \<and> R x s') (\<lambda>e s'. E e s' \<and> F e s') s \<longleftrightarrow> wp m Q E s \<and> wp m R F s"
  by (auto simp: wp_def split: sum.splits prod.splits)

lemma wp_Inr: "wp m Q E s \<Longrightarrow> m s = (Inr x, s') \<Longrightarrow> Q x s'"
  by (simp add: wp_def)

lemma wp_Inl: "wp m Q E s \<Longrightarrow> m s = (Inl e, s') \<Longrightarrow> E e s'"
  by (simp add: wp_def)

lemma wp_cases:
  assumes "wp m Q E s"
  obtains (returns) x s' where "m s = (Inr x, s')" "Q x s'"
  | (raises) e s' where "m s = (Inl e, s')" "E e s'"
  using assms by (cases "m s"; cases "fst (m s)") (auto simp: wp_def)

lemma result_cases:
  obtains (returns) x s' where "m s = (Inr x, s')"
  | (raises) e s' where "m s = (Inl e, s')"
  by (cases "m s"; cases "fst (m s)") auto

lemma wp_snd: "wp m (\<lambda>_. I) (\<lambda>_. I) s \<longleftrightarrow> I (snd (m s))"
  by (auto simp: wp_def split: sum.splits prod.splits)

text \<open>A loop keeps what its body keeps.\<close>

lemma wp_forM:
  assumes "\<And>x s. x \<in> set xs \<Longrightarrow> I s \<Longrightarrow> wp (f x) (\<lambda>_. I) E s" and "I s"
  shows "wp (forM xs f) (\<lambda>_. I) E s"
  using assms
proof (induction xs arbitrary: s)
  case Nil
  then show ?case by (simp add: wp_simps)
next
  case (Cons x xs)
  from Cons.prems have "wp (f x) (\<lambda>_. I) E s" by simp
  moreover have "wp (forM xs f) (\<lambda>_. I) E s'" if "I s'" for s'
    using that Cons.prems by (intro Cons.IH) auto
  ultimately show ?case by (simp add: wp_simps) (erule wp_mono, auto)
qed

text \<open>
  The same for a loop whose rows are read before it starts: \<open>J\<close> may speak of the rows not
  yet visited.
\<close>

lemma wp_forM_rest:
  assumes "\<And>x rest s. J (x # rest) s \<Longrightarrow> wp (f x) (\<lambda>_. J rest) E s" and "J xs s"
  shows "wp (forM xs f) (\<lambda>_. J []) E s"
  using assms(2)
proof (induction xs arbitrary: s)
  case Nil
  then show ?case by (simp add: wp_simps)
next
  case (Cons x xs)
  show ?case
    by (simp add: wp_simps) (rule wp_mono [OF assms(1) [OF Cons.prems]], auto intro: Cons.IH)
qed

lemma wp_mapM:
  assumes "\<And>x s. x \<in> set xs \<Longrightarrow> I s \<Longrightarrow> wp (f x) (\<lambda>_. I) E s" and "I s"
  shows "wp (mapM f xs) (\<lambda>_. I) E s"
  using assms
proof (induction xs arbitrary: s)
  case Nil
  then show ?case by (simp add: wp_simps)
next
  case (Cons x xs)
  from Cons.prems have "wp (f x) (\<lambda>_. I) E s" by simp
  moreover have "wp (mapM f xs) (\<lambda>_. I) E s'" if "I s'" for s'
    using that Cons.prems by (intro Cons.IH) auto
  ultimately show ?case by (simp add: wp_simps) (erule wp_mono, auto simp: wp_simps)
qed

section \<open>Operations that keep a part of the state\<close>

text \<open>
  \<open>keeps v m\<close>: whatever \<open>m\<close> does, returning or raising, the view \<open>v\<close> of the state is
  as before. Every part of a coroutine is checked on its own (\<open>intro: frame_intros\<close>).
\<close>

definition keeps :: "('s \<Rightarrow> 'v) \<Rightarrow> ('s, 'a) M \<Rightarrow> bool" where
  "keeps v m \<longleftrightarrow> (\<forall>s. v (snd (m s)) = v s)"

lemma keeps_returnM [frame_intros]: "keeps v (returnM x)"
  by (simp add: keeps_def returnM_def)

lemma keeps_raiseM [frame_intros]: "keeps v (raiseM e)"
  by (simp add: keeps_def raiseM_def)

lemma keeps_getsM [frame_intros]: "keeps v (getsM f)"
  by (simp add: keeps_def getsM_def)

lemma keeps_modifyM [frame_intros]: "(\<And>s. v (f s) = v s) \<Longrightarrow> keeps v (modifyM f)"
  by (simp add: keeps_def modifyM_def)

lemma keeps_requireM [frame_intros]: "keeps v (requireM b e)"
  by (simp add: requireM_def keeps_returnM keeps_raiseM)

lemma keeps_someM [frame_intros]: "keeps v (someM x e)"
  by (simp add: someM_def keeps_returnM keeps_raiseM split: option.splits)

lemma keeps_liftM [frame_intros]: "keeps v (liftM r)"
  by (simp add: liftM_def keeps_returnM keeps_raiseM split: sum.splits)

lemma keeps_bindM [frame_intros]: "keeps v m \<Longrightarrow> (\<And>x. keeps v (f x)) \<Longrightarrow> keeps v (bindM m f)"
  unfolding keeps_def bindM_def
  by (auto split: sum.splits prod.splits) (metis snd_conv)+

lemma keeps_thenM [frame_intros]: "keeps v m \<Longrightarrow> keeps v n \<Longrightarrow> keeps v (thenM m n)"
  by (simp add: thenM_def keeps_bindM)

lemma keeps_if [frame_intros]: "keeps v m \<Longrightarrow> keeps v n \<Longrightarrow> keeps v (if b then m else n)"
  by simp

lemma keeps_case_option [frame_intros]:
  "keeps v m \<Longrightarrow> (\<And>y. keeps v (f y)) \<Longrightarrow> keeps v (case x of None \<Rightarrow> m | Some y \<Rightarrow> f y)"
  by (simp split: option.splits)

lemma keeps_case_prod [frame_intros]:
  "(\<And>a b. keeps v (f a b)) \<Longrightarrow> keeps v (case x of (a, b) \<Rightarrow> f a b)"
  by (simp split: prod.splits)

lemma keeps_wp: "keeps v m \<Longrightarrow> v s = c \<Longrightarrow> wp m (\<lambda>_ s'. v s' = c) (\<lambda>_ s'. v s' = c) s"
  by (auto simp: keeps_def wp_def split: sum.splits prod.splits) (metis snd_conv)+

text \<open>Symbolic execution past an operation of which only its frame matters.\<close>

lemma wp_frame:
  assumes "keeps v m"
    and "\<And>x s'. v s' = v s \<Longrightarrow> Q x s'"
    and "\<And>e s'. v s' = v s \<Longrightarrow> E e s'"
  shows "wp m Q E s"
  using keeps_wp [OF assms(1) refl] by (rule wp_mono) (auto intro: assms)

lemma keeps_forM [frame_intros]: "(\<And>x. x \<in> set xs \<Longrightarrow> keeps v (f x)) \<Longrightarrow> keeps v (forM xs f)"
  by (induction xs) (auto intro: keeps_returnM keeps_thenM)

lemma keeps_mapM [frame_intros]: "(\<And>x. x \<in> set xs \<Longrightarrow> keeps v (f x)) \<Longrightarrow> keeps v (mapM f xs)"
  by (induction xs) (auto intro: keeps_returnM keeps_bindM)

lemma keeps_catchM [frame_intros]:
  "keeps v m \<Longrightarrow> (\<And>e. keeps v (h e)) \<Longrightarrow> keeps v (catchM p m h)"
  unfolding keeps_def catchM_def
  by (auto split: sum.splits prod.splits) (metis snd_conv)+

text \<open>A view that is a function of a kept view is kept.\<close>

lemma keeps_view: "keeps v m \<Longrightarrow> (\<And>s s'. v s' = v s \<Longrightarrow> w s' = w s) \<Longrightarrow> keeps w m"
  unfolding keeps_def by blast

section \<open>Operations that keep an invariant\<close>

text \<open>
  \<open>preserves I m\<close>: from a state with \<open>I\<close>, \<open>m\<close> ends in one, by returning or by
  raising.
\<close>

definition preserves :: "('s \<Rightarrow> bool) \<Rightarrow> ('s, 'a) M \<Rightarrow> bool" where
  "preserves I m \<longleftrightarrow> (\<forall>s. I s \<longrightarrow> I (snd (m s)))"

lemma preserves_wp: "preserves I m \<longleftrightarrow> (\<forall>s. I s \<longrightarrow> wp m (\<lambda>_. I) (\<lambda>_. I) s)"
  by (simp add: preserves_def wp_snd)

lemma preserves_keeps: "keeps v m \<Longrightarrow> (\<And>s s'. v s' = v s \<Longrightarrow> I s \<Longrightarrow> I s') \<Longrightarrow> preserves I m"
  unfolding keeps_def preserves_def by blast

lemma preserves_returnM [inv_intros]: "preserves I (returnM x)"
  by (simp add: preserves_wp wp_simps)

lemma preserves_raiseM [inv_intros]: "preserves I (raiseM e)"
  by (simp add: preserves_wp wp_simps)

lemma preserves_getsM [inv_intros]: "preserves I (getsM f)"
  by (simp add: preserves_wp wp_simps)

lemma preserves_modifyM [inv_intros]: "(\<And>s. I s \<Longrightarrow> I (f s)) \<Longrightarrow> preserves I (modifyM f)"
  by (simp add: preserves_wp wp_simps)

lemma preserves_requireM [inv_intros]: "preserves I (requireM b e)"
  by (simp add: preserves_wp wp_simps)

lemma preserves_someM [inv_intros]: "preserves I (someM x e)"
  by (simp add: preserves_wp wp_simps split: option.splits)

lemma preserves_liftM [inv_intros]: "preserves I (liftM r)"
  by (simp add: preserves_wp wp_simps split: sum.splits)

lemma preserves_bindM [inv_intros]:
  "preserves I m \<Longrightarrow> (\<And>x. preserves I (f x)) \<Longrightarrow> preserves I (bindM m f)"
  unfolding preserves_wp wp_bindM
  by (intro allI impI, rule wp_mono [of m "\<lambda>_. I" "\<lambda>_. I"]) simp_all

lemma preserves_thenM [inv_intros]: "preserves I m \<Longrightarrow> preserves I n \<Longrightarrow> preserves I (thenM m n)"
  by (simp add: thenM_def preserves_bindM)

lemma preserves_catchM [inv_intros]:
  "preserves I m \<Longrightarrow> (\<And>e. preserves I (h e)) \<Longrightarrow> preserves I (catchM p m h)"
  unfolding preserves_wp wp_catchM
  by (intro allI impI, rule wp_mono [of m "\<lambda>_. I" "\<lambda>_. I"]) simp_all

lemma preserves_if [inv_intros]:
  "(b \<Longrightarrow> preserves I m) \<Longrightarrow> (\<not> b \<Longrightarrow> preserves I n) \<Longrightarrow> preserves I (if b then m else n)"
  by simp

lemma preserves_case_option [inv_intros]:
  "(x = None \<Longrightarrow> preserves I m) \<Longrightarrow> (\<And>y. x = Some y \<Longrightarrow> preserves I (f y)) \<Longrightarrow>
   preserves I (case x of None \<Rightarrow> m | Some y \<Rightarrow> f y)"
  by (simp split: option.splits)

lemma preserves_case_prod [inv_intros]:
  "(\<And>a b. x = (a, b) \<Longrightarrow> preserves I (f a b)) \<Longrightarrow> preserves I (case x of (a, b) \<Rightarrow> f a b)"
  by (simp split: prod.splits)

lemma preserves_forM [inv_intros]: "(\<And>x. x \<in> set xs \<Longrightarrow> preserves I (f x)) \<Longrightarrow> preserves I (forM xs f)"
  unfolding preserves_wp by (auto intro: wp_forM)

lemma preserves_mapM [inv_intros]: "(\<And>x. x \<in> set xs \<Longrightarrow> preserves I (f x)) \<Longrightarrow> preserves I (mapM f xs)"
  unfolding preserves_wp by (auto intro: wp_mapM)

section \<open>Tables\<close>

text \<open>
  A table is the list of its rows in the order of insertion. \<open>replace_row\<close> is what the
  identity map of the session does with a changed object: the row with the same key carries
  the new values.
\<close>

definition replace_row :: "('r \<Rightarrow> 'k) \<Rightarrow> 'r \<Rightarrow> 'r list \<Rightarrow> 'r list" where
  "replace_row key r t = map (\<lambda>x. if key x = key r then r else x) t"

lemma length_replace_row [simp]: "length (replace_row key r t) = length t"
  by (simp add: replace_row_def)

lemma map_key_replace_row [simp]: "map key (replace_row key r t) = map key t"
  by (simp add: replace_row_def)

lemma map_replace_row_same:
  "(\<And>x. x \<in> set t \<Longrightarrow> key x = key r \<Longrightarrow> f x = f r) \<Longrightarrow> map f (replace_row key r t) = map f t"
  by (auto simp: replace_row_def)

lemma set_replace_row:
  "set (replace_row key r t) =
   {x \<in> set t. key x \<noteq> key r} \<union> (if \<exists>x \<in> set t. key x = key r then {r} else {})"
  by (auto simp: replace_row_def)

lemma in_replace_row:
  "x \<in> set (replace_row key r t) \<Longrightarrow> x = r \<or> (x \<in> set t \<and> key x \<noteq> key r)"
  by (auto simp: replace_row_def split: if_splits)

lemma replace_row_present: "x \<in> set t \<Longrightarrow> key x = key r \<Longrightarrow> r \<in> set (replace_row key r t)"
  by (auto simp: set_replace_row)

lemma replace_row_other: "x \<in> set t \<Longrightarrow> key x \<noteq> key r \<Longrightarrow> x \<in> set (replace_row key r t)"
  by (auto simp: set_replace_row)

lemma distinct_keys_unique:
  "distinct (map key t) \<Longrightarrow> x \<in> set t \<Longrightarrow> y \<in> set t \<Longrightarrow> key x = key y \<Longrightarrow> x = y"
  by (induction t) (auto simp: image_iff)

text \<open>Counting the rows that satisfy a condition, before and after a row changes.\<close>

definition count_rows :: "('r \<Rightarrow> bool) \<Rightarrow> 'r list \<Rightarrow> nat" where
  "count_rows p t = length (filter p t)"

lemma count_rows_append [simp]: "count_rows p (t @ u) = count_rows p t + count_rows p u"
  by (simp add: count_rows_def)

lemma count_rows_replace_le:
  assumes "distinct (map key t)"
  shows "count_rows p (replace_row key r t) \<le> Suc (count_rows p t)"
  using assms
proof (induction t)
  case Nil
  then show ?case by (simp add: count_rows_def replace_row_def)
next
  case (Cons x t)
  show ?case
  proof (cases "key x = key r")
    case True
    with Cons.prems have "key r \<notin> key ` set t" by auto
    then have "\<forall>y \<in> set t. key y \<noteq> key r" by (metis imageI)
    then have "replace_row key r t = t" by (simp add: replace_row_def map_idI)
    then have "replace_row key r (x # t) = r # t" using True by (simp add: replace_row_def)
    then show ?thesis by (simp add: count_rows_def)
  next
    case False
    with Cons show ?thesis by (auto simp: count_rows_def replace_row_def)
  qed
qed

lemma count_rows_replace_mono:
  assumes "\<And>x. x \<in> set t \<Longrightarrow> key x = key r \<Longrightarrow> p r \<Longrightarrow> p x"
  shows "count_rows p (replace_row key r t) \<le> count_rows p t"
  using assms
proof (induction t)
  case Nil
  then show ?case by (simp add: count_rows_def replace_row_def)
next
  case (Cons x t)
  have IH: "count_rows p (replace_row key r t) \<le> count_rows p t"
    using Cons by simp
  moreover have "count_rows p (replace_row key r (x # t)) =
      (if p (if key x = key r then r else x) then 1 else 0) + count_rows p (replace_row key r t)"
    by (simp add: count_rows_def replace_row_def)
  moreover have "count_rows p (x # t) = (if p x then 1 else 0) + count_rows p t"
    by (simp add: count_rows_def)
  ultimately show ?case using Cons.prems [of x] by (auto split: if_splits)
qed

lemma find_SomeD: "List.find p t = Some x \<Longrightarrow> x \<in> set t \<and> p x"
  by (auto simp: find_Some_iff)

lemma find_NoneD: "List.find p t = None \<Longrightarrow> x \<in> set t \<Longrightarrow> \<not> p x"
  by (auto simp: find_None_iff)

text \<open>The row that a query by a unique key returns.\<close>

lemma find_unique:
  assumes "x \<in> set t" "p x" "\<And>y. y \<in> set t \<Longrightarrow> p y \<Longrightarrow> y = x"
  shows "List.find p t = Some x"
proof (cases "List.find p t")
  case None
  with assms(1,2) show ?thesis by (auto simp: find_None_iff)
next
  case (Some y)
  then show ?thesis using assms(3) [of y] find_SomeD [OF Some] by simp
qed

end
