(* ===== verification/Py_Values.thy ===== *)
theory Py_Values
  imports Prelude "HOL-Library.List_Lexorder" "HOL-Library.Char_ord"
begin

text \<open>
  The values of Python's language and standard library that the program computes with:
  UUIDs, instants of time and their ISO format, strings, and JSON with \<open>json.dumps\<close>.

  A string is a list of characters with code points below 256. An aware datetime is
  identified with its instant, in microseconds since 1970-01-01T00:00:00Z (the resolution of
  \<open>datetime\<close>); a naive datetime keeps its local reading.
\<close>

section \<open>Strings\<close>

text \<open>\<open>str.isspace\<close> below code point 256, and \<open>str.strip()\<close>.\<close>

definition is_py_space :: "char \<Rightarrow> bool" where
  "is_py_space c \<longleftrightarrow> (let n = of_char c :: nat in
     n \<in> {9, 10, 11, 12, 13, 28, 29, 30, 31, 32, 133, 160})"

definition py_strip :: "string \<Rightarrow> string" where
  "py_strip s = rev (dropWhile is_py_space (rev (dropWhile is_py_space s)))"

text \<open>\<open>needle in haystack\<close>\<close>

fun py_in :: "string \<Rightarrow> string \<Rightarrow> bool" where
  "py_in n [] = (n = [])"
| "py_in n (c # s) = (prefix n (c # s) \<or> py_in n s)"

lemma py_in_sublist: "py_in n s \<longleftrightarrow> sublist n s"
  by (induction s) (auto simp: sublist_Cons_right)

text \<open>\<open>str.lower()\<close> on ASCII text, where \<open>str.casefold()\<close> is the same.\<close>

definition ascii_lower_char :: "char \<Rightarrow> char" where
  "ascii_lower_char c = (let n = of_char c :: nat in
     if 65 \<le> n \<and> n \<le> 90 then char_of (n + 32) else c)"

definition ascii_lower :: "string \<Rightarrow> string" where
  "ascii_lower = map ascii_lower_char"

text \<open>\<open>str(n)\<close> and \<open>int(s)\<close> for decimal numbers.\<close>

definition digit_char :: "nat \<Rightarrow> char" where
  "digit_char d = char_of (48 + d)"

fun nat_digits :: "nat \<Rightarrow> string" where
  "nat_digits n = (if n < 10 then [digit_char n]
     else nat_digits (n div 10) @ [digit_char (n mod 10)])"

declare nat_digits.simps [simp del]

definition int_str :: "int \<Rightarrow> string" where
  "int_str i = (if i < 0 then CHR ''-'' # nat_digits (nat (- i)) else nat_digits (nat i))"

definition digit_value :: "char \<Rightarrow> nat option" where
  "digit_value c = (let n = of_char c :: nat in if 48 \<le> n \<and> n \<le> 57 then Some (n - 48) else None)"

fun digits_value :: "nat \<Rightarrow> string \<Rightarrow> nat option" where
  "digits_value acc [] = Some acc"
| "digits_value acc (c # s) =
     (case digit_value c of None \<Rightarrow> None | Some d \<Rightarrow> digits_value (10 * acc + d) s)"

definition parse_int :: "string \<Rightarrow> int option" where
  "parse_int s = (case s of
     [] \<Rightarrow> None
   | c # t \<Rightarrow> (if c = CHR ''-'' then (if t = [] then None else map_option (\<lambda>n. - int n) (digits_value 0 t))
              else map_option int (digits_value 0 s)))"

lemma digit_value_char: "d < 10 \<Longrightarrow> digit_value (digit_char d) = Some d"
  by (simp add: digit_value_def digit_char_def)

lemma digits_value_append:
  "digits_value acc (s @ t) =
   (case digits_value acc s of None \<Rightarrow> None | Some a \<Rightarrow> digits_value a t)"
  by (induction acc s rule: digits_value.induct) (auto split: option.splits)

lemma digits_value_nat_digits: "digits_value 0 (nat_digits n) = Some n"
proof (induction n rule: nat_digits.induct)
  case (1 n)
  show ?case
  proof (cases "n < 10")
    case True
    then show ?thesis by (subst nat_digits.simps) (simp add: digit_value_char)
  next
    case False
    then show ?thesis
      using "1.IH" by (subst nat_digits.simps) (simp add: digits_value_append digit_value_char)
  qed
qed

lemma nat_digits_Cons: "\<exists>d t. nat_digits n = digit_char d # t \<and> d < 10"
proof (induction n rule: nat_digits.induct)
  case (1 n)
  show ?case
  proof (cases "n < 10")
    case True
    then show ?thesis by (subst nat_digits.simps) auto
  next
    case False
    then obtain d t where "nat_digits (n div 10) = digit_char d # t" "d < 10"
      using 1 by auto
    then show ?thesis using False by (subst nat_digits.simps) auto
  qed
qed

lemma digit_char_not_minus: "d < 10 \<Longrightarrow> digit_char d \<noteq> CHR ''-''"
proof -
  assume "d < 10"
  then have "(of_char (digit_char d) :: nat) = 48 + d" by (simp add: digit_char_def)
  moreover have "(of_char CHR ''-'' :: nat) = 45" by simp
  ultimately show ?thesis by auto
qed

lemma parse_int_str: "parse_int (int_str i) = Some i"
proof (cases "i < 0")
  case True
  obtain d t where "nat_digits (nat (- i)) = digit_char d # t"
    using nat_digits_Cons by blast
  with True digits_value_nat_digits [of "nat (- i)"] show ?thesis
    by (simp add: int_str_def parse_int_def)
next
  case False
  obtain d t where "nat_digits (nat i) = digit_char d # t" "d < 10"
    using nat_digits_Cons by blast
  with False digits_value_nat_digits [of "nat i"] digit_char_not_minus show ?thesis
    by (auto simp: int_str_def parse_int_def)
qed


section \<open>Numbers of a fixed width\<close>

text \<open>The digits of \<open>n\<close> to the base \<open>b\<close>, most significant first, padded to \<open>k\<close> digits.\<close>

fun radix_digits :: "nat \<Rightarrow> nat \<Rightarrow> nat \<Rightarrow> nat list" where
  "radix_digits b 0 n = []"
| "radix_digits b (Suc k) n = radix_digits b k (n div b) @ [n mod b]"

lemma length_radix_digits [simp]: "length (radix_digits b k n) = k"
  by (induction b k n rule: radix_digits.induct) auto

lemma radix_digits_less: "0 < b \<Longrightarrow> d \<in> set (radix_digits b k n) \<Longrightarrow> d < b"
  by (induction b k n rule: radix_digits.induct) auto

definition radix_value :: "nat \<Rightarrow> nat list \<Rightarrow> nat" where
  "radix_value b ds = foldl (\<lambda>acc d. b * acc + d) 0 ds"

lemma radix_value_digits: "radix_value b (radix_digits b k n) = n mod b ^ k"
proof (induction b k n rule: radix_digits.induct)
  case (1 b n)
  then show ?case by (simp add: radix_value_def)
next
  case (2 b k n)
  then show ?case by (simp add: radix_value_def mod_mult2_eq)
qed

section \<open>UUIDs\<close>

type_synonym uuid = "128 word"

definition hex_char :: "nat \<Rightarrow> char" where
  "hex_char d = (if d < 10 then char_of (48 + d) else char_of (87 + d))"

definition hex_value :: "char \<Rightarrow> nat option" where
  "hex_value c = (let n = of_char c :: nat in
     if 48 \<le> n \<and> n \<le> 57 then Some (n - 48)
     else if 97 \<le> n \<and> n \<le> 102 then Some (n - 87)
     else if 65 \<le> n \<and> n \<le> 70 then Some (n - 55)
     else None)"

text \<open>\<open>str(u)\<close>: 32 hexadecimal digits in groups of 8, 4, 4, 4 and 12.\<close>

definition uuid_hex :: "uuid \<Rightarrow> string" where
  "uuid_hex u = map hex_char (radix_digits 16 32 (unat u))"

definition uuid_str :: "uuid \<Rightarrow> string" where
  "uuid_str u = (let h = uuid_hex u in
     take 8 h @ ''-'' @ take 4 (drop 8 h) @ ''-'' @ take 4 (drop 12 h) @ ''-'' @
     take 4 (drop 16 h) @ ''-'' @ drop 20 h)"

text \<open>
  \<open>uuid.UUID(s)\<close>: hyphens are dropped and 32 hexadecimal digits must remain. The forms with
  braces or a URN prefix, which the program never writes, are refused here.
\<close>

definition uuid_parse :: "string \<Rightarrow> uuid option" where
  "uuid_parse s = (let h = filter (\<lambda>c. c \<noteq> CHR ''-'') s in
     if length h = 32 \<and> list_all (\<lambda>c. hex_value c \<noteq> None) h
     then Some (of_nat (radix_value 16 (map (the \<circ> hex_value) h))) else None)"

lemma hex_value_char: "d < 16 \<Longrightarrow> hex_value (hex_char d) = Some d"
  by (auto simp: hex_value_def hex_char_def)

lemma hex_char_not_minus: "d < 16 \<Longrightarrow> hex_char d \<noteq> CHR ''-''"
proof -
  assume "d < 16"
  then have "hex_value (hex_char d) \<noteq> None" by (simp add: hex_value_char)
  moreover have "hex_value CHR ''-'' = None" by (simp add: hex_value_def)
  ultimately show ?thesis by metis
qed

lemma filter_uuid_str: "filter (\<lambda>c. c \<noteq> CHR ''-'') (uuid_str u) = uuid_hex u"
proof -
  have no: "c \<noteq> CHR ''-''" if "c \<in> set (uuid_hex u)" for c
    using that radix_digits_less [of 16] hex_char_not_minus by (auto simp: uuid_hex_def)
  then have id: "filter (\<lambda>c. c \<noteq> CHR ''-'') t = t" if "set t \<subseteq> set (uuid_hex u)" for t
    using that by (auto intro: filter_True)
  define h where "h = uuid_hex u"
  have sub: "set (take n h) \<subseteq> set h" "set (drop n h) \<subseteq> set h"
    "set (take m (drop n h)) \<subseteq> set h" for n m
    using set_take_subset [of m "drop n h"] by (auto dest: in_set_takeD in_set_dropD)
  have "h = take 8 h @ take 4 (drop 8 h) @ take 4 (drop 12 h) @ take 4 (drop 16 h) @ drop 20 h"
    using append_take_drop_id [of 8 h] append_take_drop_id [of 4 "drop 8 h"]
      append_take_drop_id [of 4 "drop 12 h"] append_take_drop_id [of 4 "drop 16 h"] by simp
  then show ?thesis
    using id sub by (simp add: uuid_str_def h_def [symmetric] Let_def)
qed

lemma length_uuid_hex [simp]: "length (uuid_hex u) = 32"
  by (simp add: uuid_hex_def)

lemma uuid_parse_str: "uuid_parse (uuid_str u) = Some u"
proof -
  have hv: "map (the \<circ> hex_value) (uuid_hex u) = radix_digits 16 32 (unat u)"
    using radix_digits_less [of 16] by (auto simp: uuid_hex_def hex_value_char intro!: map_idI)
  have "list_all (\<lambda>c. hex_value c \<noteq> None) (uuid_hex u)"
    using radix_digits_less [of 16] by (auto simp: uuid_hex_def list_all_iff hex_value_char)
  moreover have "unat u < 16 ^ 32"
    using unsigned_less [of u] by simp
  ultimately show ?thesis
    by (simp add: uuid_parse_def filter_uuid_str hv radix_value_digits)
qed

lemma uuid_str_inject [simp]: "uuid_str u = uuid_str v \<longleftrightarrow> u = v"
  by (metis option.inject uuid_parse_str)


section \<open>JSON\<close>

text \<open>
  The objects that the program hands to \<open>json.dumps\<close>. A \<open>dict\<close> is an association list in
  insertion order. \<open>JOpaque\<close> is any object that \<open>json.dumps\<close> refuses with \<open>TypeError\<close> or
  \<open>ValueError\<close>; floats, which the program does not put into its own payloads, count as such.
\<close>

datatype json =
    JNull
  | JBool bool
  | JInt int
  | JStr string
  | JList "json list"
  | JObj "(string \<times> json) list"
  | JOpaque

fun json_serializable :: "json \<Rightarrow> bool" where
  "json_serializable JOpaque = False"
| "json_serializable (JList vs) = list_all json_serializable vs"
| "json_serializable (JObj kvs) = list_all (\<lambda>kv. json_serializable (snd kv)) kvs"
| "json_serializable _ = True"

text \<open>
  \<open>json.encoder\<close>: a quotation mark, a backslash and control characters are escaped, and, when
  \<open>ensure_ascii\<close> holds, every character outside the printable ASCII range.
\<close>

definition json_escape_char :: "bool \<Rightarrow> char \<Rightarrow> string" where
  "json_escape_char ensure_ascii c = (let n = of_char c :: nat in
     if c = CHR 0x22 then [CHR 0x5C, CHR 0x22]
     else if c = CHR 0x5C then [CHR 0x5C, CHR 0x5C]
     else if n = 10 then [CHR 0x5C, CHR ''n'']
     else if n = 13 then [CHR 0x5C, CHR ''r'']
     else if n = 9 then [CHR 0x5C, CHR ''t'']
     else if n = 12 then [CHR 0x5C, CHR ''f'']
     else if n = 8 then [CHR 0x5C, CHR ''b'']
     else if n < 32 \<or> (ensure_ascii \<and> 127 \<le> n)
       then CHR 0x5C # CHR ''u'' # map hex_char (radix_digits 16 4 n)
     else [c])"

definition json_escape :: "bool \<Rightarrow> string \<Rightarrow> string" where
  "json_escape ensure_ascii s = concat (map (json_escape_char ensure_ascii) s)"

definition json_quote :: "bool \<Rightarrow> string \<Rightarrow> string" where
  "json_quote ensure_ascii s = CHR 0x22 # json_escape ensure_ascii s @ [CHR 0x22]"

fun join :: "string \<Rightarrow> string list \<Rightarrow> string" where
  "join sep [] = []"
| "join sep [x] = x"
| "join sep (x # xs) = x @ sep @ join sep xs"

text \<open>
  \<open>json.dumps(v, sort_keys=True, separators=(item, key), ensure_ascii=a)\<close> on an object that it
  accepts: the members of an object are written in the order of their keys.
\<close>

function (sequential) json_text :: "bool \<Rightarrow> string \<Rightarrow> string \<Rightarrow> json \<Rightarrow> string" where
  "json_text a i k JNull = ''null''"
| "json_text a i k (JBool b) = (if b then ''true'' else ''false'')"
| "json_text a i k (JInt n) = int_str n"
| "json_text a i k (JStr s) = json_quote a s"
| "json_text a i k (JList vs) = ''['' @ join i (map (json_text a i k) vs) @ '']''"
| "json_text a i k (JObj kvs) =
     [CHR 0x7B] @ join i (map snd (sort_key fst
       (map (\<lambda>kv. (fst kv, json_quote a (fst kv) @ k @ json_text a i k (snd kv))) kvs))) @ [CHR 0x7D]"
| "json_text a i k JOpaque = []"
  by pat_completeness auto

lemma size_member_json: "size_prod (\<lambda>_. 0) size = (\<lambda>kv. Suc (size (snd kv)))"
  by (simp add: fun_eq_iff size_prod_simp)

lemma size_snd_json: "kv \<in> set kvs \<Longrightarrow> size (snd kv) \<le> size_list (\<lambda>kv. Suc (size (snd kv))) kvs"
  by (induction kvs) auto

termination json_text
proof (relation "measure (\<lambda>(a, i, k, v). size v)", goal_cases)
  case (3 a i k kvs kv)
  then show ?case using size_snd_json [of kv kvs] by (simp add: size_member_json)
qed (auto simp: less_Suc_eq_le size_list_estimation')

definition json_dumps_with :: "bool \<Rightarrow> string \<Rightarrow> string \<Rightarrow> json \<Rightarrow> string option" where
  "json_dumps_with a i k v = (if json_serializable v then Some (json_text a i k v) else None)"

text \<open>\<open>json.dumps(v, sort_keys=True, separators=(",", ":"))\<close>\<close>

definition json_dumps :: "json \<Rightarrow> string option" where
  "json_dumps = json_dumps_with True '','' '':''"

text \<open>The object fields, by name.\<close>

fun json_get :: "string \<Rightarrow> json \<Rightarrow> json option" where
  "json_get k (JObj kvs) = map_of kvs k"
| "json_get k _ = None"

definition json_opt_uuid :: "uuid option \<Rightarrow> json" where
  "json_opt_uuid u = (case u of None \<Rightarrow> JNull | Some v \<Rightarrow> JStr (uuid_str v))"


section \<open>Dates and times\<close>

type_synonym instant = int

datatype py_datetime = Aware instant | Naive int

text \<open>\<open>timedelta\<close> in microseconds.\<close>

definition seconds :: "int \<Rightarrow> int" where "seconds n = n * 1000000"
definition minutes :: "int \<Rightarrow> int" where "minutes n = n * 60000000"
definition days_delta :: "int \<Rightarrow> int" where "days_delta n = n * 86400000000"

text \<open>The calendar of \<open>datetime\<close>: ordinal 1 is 0001-01-01 of the proleptic Gregorian calendar.\<close>

definition is_leap :: "int \<Rightarrow> bool" where
  "is_leap y \<longleftrightarrow> y mod 4 = 0 \<and> (y mod 100 \<noteq> 0 \<or> y mod 400 = 0)"

definition days_before_year :: "int \<Rightarrow> int" where
  "days_before_year y = (let p = y - 1 in p * 365 + p div 4 - p div 100 + p div 400)"

definition days_in_month :: "bool \<Rightarrow> int \<Rightarrow> int" where
  "days_in_month leap m = (if m = 2 then (if leap then 29 else 28)
     else if m \<in> {4, 6, 9, 11} then 30 else 31)"

definition days_before_month :: "bool \<Rightarrow> int \<Rightarrow> int" where
  "days_before_month leap m =
     (if m \<le> 1 then 0 else if m = 2 then 31 else
       (if m = 3 then 59 else if m = 4 then 90 else if m = 5 then 120 else if m = 6 then 151
        else if m = 7 then 181 else if m = 8 then 212 else if m = 9 then 243 else if m = 10 then 273
        else if m = 11 then 304 else 334) + (if leap then 1 else 0))"

definition ymd2ord :: "int \<Rightarrow> int \<Rightarrow> int \<Rightarrow> int" where
  "ymd2ord y m d = days_before_year y + days_before_month (is_leap y) m + d"

text \<open>Month and day of the day with index \<open>n\<close> (from 0) of a year.\<close>

definition month_day :: "bool \<Rightarrow> int \<Rightarrow> int \<times> int" where
  "month_day leap n =
     (let m = (n + 50) div 32;
          before = days_before_month leap m
      in if n < before then (m - 1, n - (before - days_in_month leap (m - 1)) + 1)
         else (m, n - before + 1))"

definition ord2ymd :: "int \<Rightarrow> int \<times> int \<times> int" where
  "ord2ymd n =
     (let n = n - 1;
          n400 = n div 146097; n = n mod 146097;
          n100 = n div 36524; n = n mod 36524;
          n4 = n div 1461; n = n mod 1461;
          n1 = n div 365; n = n mod 365;
          year = n400 * 400 + 1 + n100 * 100 + n4 * 4 + n1
      in if n1 = 4 \<or> n100 = 4 then (year - 1, 12, 31)
         else (year, month_day (n1 = 3 \<and> (n4 \<noteq> 24 \<or> n100 = 3)) n))"

definition decimal :: "nat \<Rightarrow> int \<Rightarrow> string" where
  "decimal width n = map digit_char (radix_digits 10 width (nat n))"

text \<open>\<open>value.isoformat()\<close> of an aware datetime in UTC, and \<open>datetime.fromisoformat\<close> on such text.\<close>

definition epoch_ordinal :: int where "epoch_ordinal = 719163"

definition day_us :: int where "day_us = 86400000000"

definition py_isoformat :: "instant \<Rightarrow> string" where
  "py_isoformat t =
     (let (y, m, d) = ord2ymd (t div day_us + epoch_ordinal);
          r = t mod day_us;
          us = r mod 1000000
      in decimal 4 y @ ''-'' @ decimal 2 m @ ''-'' @ decimal 2 d @ ''T'' @
         decimal 2 (r div 3600000000) @ '':'' @ decimal 2 (r div 60000000 mod 60) @ '':'' @
         decimal 2 (r div 1000000 mod 60) @
         (if us = 0 then [] else ''.'' @ decimal 6 us) @ ''+00:00'')"

definition field_value :: "nat \<Rightarrow> nat \<Rightarrow> string \<Rightarrow> int option" where
  "field_value i k s = map_option int (digits_value 0 (take k (drop i s)))"

definition py_fromisoformat :: "string \<Rightarrow> instant option" where
  "py_fromisoformat s =
     (case (field_value 0 4 s, field_value 5 2 s, field_value 8 2 s,
            field_value 11 2 s, field_value 14 2 s, field_value 17 2 s) of
        (Some y, Some m, Some d, Some hh, Some mm, Some ss) \<Rightarrow>
          (let us = (if drop 19 s = ''+00:00'' then Some 0
                     else if take 1 (drop 19 s) = ''.'' \<and> drop 26 s = ''+00:00''
                     then field_value 20 6 s else None)
           in map_option (\<lambda>u. (ymd2ord y m d - epoch_ordinal) * day_us +
                (hh * 3600 + mm * 60 + ss) * 1000000 + u) us)
      | _ \<Rightarrow> None)"

text \<open>\<open>value.strftime("%Y-%m")\<close>\<close>

definition py_year_month :: "instant \<Rightarrow> string" where
  "py_year_month t = (let (y, m, _) = ord2ymd (t div day_us + epoch_ordinal) in
     decimal 4 y @ ''-'' @ decimal 2 m)"

text \<open>
  The calendar computation is inverted by \<open>ymd2ord\<close>: the year part is linear arithmetic, the
  month part is checked for every day of a common and of a leap year.
\<close>

lemma month_day_table:
  "list_all (\<lambda>n. case month_day False n of (m, d) \<Rightarrow>
      1 \<le> m \<and> m \<le> 12 \<and> 1 \<le> d \<and> d \<le> 31 \<and> days_before_month False m + d = n + 1) [0..364]"
  "list_all (\<lambda>n. case month_day True n of (m, d) \<Rightarrow>
      1 \<le> m \<and> m \<le> 12 \<and> 1 \<le> d \<and> d \<le> 31 \<and> days_before_month True m + d = n + 1) [0..365]"
  by code_simp+


lemma month_day_inverse:
  assumes "0 \<le> n" "n \<le> (if leap then 365 else 364)" "month_day leap n = (m, d)"
  shows "1 \<le> m" "m \<le> 12" "1 \<le> d" "d \<le> 31" "days_before_month leap m + d = n + 1"
proof -
  have "n \<in> set [0..(if leap then 365 else 364)]" using assms by simp
  then have "case month_day leap n of (m, d) \<Rightarrow>
      1 \<le> m \<and> m \<le> 12 \<and> 1 \<le> d \<and> d \<le> 31 \<and> days_before_month leap m + d = n + 1"
    using month_day_table unfolding list_all_iff by (cases leap) auto
  with assms(3) show "1 \<le> m" "m \<le> 12" "1 \<le> d" "d \<le> 31" "days_before_month leap m + d = n + 1"
    by simp_all
qed

lemma days_before_year_cycles:
  assumes "0 \<le> a" "0 \<le> b" "b < 4" "0 \<le> c" "c < 25" "0 \<le> e" "e < 4"
  shows "days_before_year (a * 400 + 1 + b * 100 + c * 4 + e) =
    a * 146097 + b * 36524 + c * 1461 + e * 365"
proof -
  define p where "p = a * 400 + b * 100 + c * 4 + e"
  have "p div 4 = a * 100 + b * 25 + c"
    by (rule int_div_pos_eq [where r = e]) (use assms in \<open>auto simp: p_def\<close>)
  moreover have "p div 100 = a * 4 + b"
    by (rule int_div_pos_eq [where r = "c * 4 + e"]) (use assms in \<open>auto simp: p_def\<close>)
  moreover have "p div 400 = a"
    by (rule int_div_pos_eq [where r = "b * 100 + c * 4 + e"]) (use assms in \<open>auto simp: p_def\<close>)
  ultimately show ?thesis
    using assms by (simp add: days_before_year_def Let_def p_def algebra_simps)
qed

lemma is_leap_cycles:
  assumes "0 \<le> a" "0 \<le> b" "b < 4" "0 \<le> c" "c < 25" "0 \<le> e" "e < 4"
  shows "is_leap (a * 400 + 1 + b * 100 + c * 4 + e) \<longleftrightarrow> e = 3 \<and> (c \<noteq> 24 \<or> b = 3)"
proof -
  define y where "y = a * 400 + 1 + b * 100 + c * 4 + e"
  define e' c' b' where "e' = (if e = 3 then 0 else e + 1)"
    and "c' = (if e = 3 then (if c = 24 then 0 else c + 1) else c)"
    and "b' = (if e = 3 \<and> c = 24 then (if b = 3 then 0 else b + 1) else b)"
  have "y mod 4 = e'"
    by (rule int_mod_pos_eq [where q = "a * 100 + b * 25 + c + (if e = 3 then 1 else 0)"])
      (use assms in \<open>auto simp: y_def e'_def\<close>)
  moreover have "y mod 100 = c' * 4 + e'"
    by (rule int_mod_pos_eq [where q = "a * 4 + b + (if e = 3 \<and> c = 24 then 1 else 0)"])
      (use assms in \<open>auto simp: y_def e'_def c'_def\<close>)
  moreover have "y mod 400 = b' * 100 + c' * 4 + e'"
    by (rule int_mod_pos_eq [where q = "a + (if e = 3 \<and> c = 24 \<and> b = 3 then 1 else 0)"])
      (use assms in \<open>auto simp: y_def e'_def c'_def b'_def\<close>)
  ultimately show ?thesis
    using assms unfolding is_leap_def y_def [symmetric] by (auto simp: e'_def c'_def b'_def)
qed

text \<open>The date of every ordinal from year 1 on is converted back to it.\<close>

lemma ymd2ord_ord2ymd:
  assumes n: "1 \<le> n" and eq: "ord2ymd n = (y, m, d)"
  shows "ymd2ord y m d = n" "1 \<le> m" "m \<le> 12" "1 \<le> d" "d \<le> 31"
    "1 \<le> y" "n < 3652060 \<Longrightarrow> y \<le> 9999"
proof -
  define n400 where "n400 = (n - 1) div 146097"
  define r1 where "r1 = (n - 1) mod 146097"
  define n100 where "n100 = r1 div 36524"
  define r2 where "r2 = r1 mod 36524"
  define n4 where "n4 = r2 div 1461"
  define r3 where "r3 = r2 mod 1461"
  define n1 where "n1 = r3 div 365"
  define r4 where "r4 = r3 mod 365"
  note defs = n400_def r1_def n100_def r2_def n4_def r3_def n1_def r4_def
  have parts: "n - 1 = 146097 * n400 + r1" "r1 = 36524 * n100 + r2" "r2 = 1461 * n4 + r3"
    "r3 = 365 * n1 + r4"
    by (simp_all add: defs)
  have ranges: "0 \<le> r1" "r1 < 146097" "0 \<le> r2" "r2 < 36524" "0 \<le> r3" "r3 < 1461" "0 \<le> r4" "r4 < 365"
    by (simp_all add: defs)
  have total: "n = 1 + n400 * 146097 + n100 * 36524 + n4 * 1461 + n1 * 365 + r4"
    using parts by linarith
  have "0 \<le> n400" using n by (simp add: n400_def)
  then have bounds: "0 \<le> n400" "0 \<le> n100" "n100 \<le> 4" "0 \<le> n4" "n4 < 25" "0 \<le> n1" "n1 \<le> 4"
    "0 \<le> r4" "r4 < 365" "n1 = 4 \<Longrightarrow> r4 = 0" "n4 = 24 \<Longrightarrow> n1 < 4"
    using parts ranges by linarith+
  have late: "n4 = 0 \<and> n1 = 0 \<and> r4 = 0" if "n100 = 4"
  proof -
    have "r2 = 0" using that parts ranges by linarith
    then have "n4 = 0" "r3 = 0" using parts ranges bounds by linarith+
    then show ?thesis using parts ranges bounds by linarith
  qed
  have eq': "(y, m, d) = (if n1 = 4 \<or> n100 = 4
      then (n400 * 400 + 1 + n100 * 100 + n4 * 4 + n1 - 1, 12, 31)
      else (n400 * 400 + 1 + n100 * 100 + n4 * 4 + n1,
            month_day (n1 = 3 \<and> (n4 \<noteq> 24 \<or> n100 = 3)) r4))"
    unfolding eq [symmetric] ord2ymd_def Let_def defs by (rule refl)
  have main: "ymd2ord y m d = n \<and> 1 \<le> m \<and> m \<le> 12 \<and> 1 \<le> d \<and> d \<le> 31"
  proof (cases "n1 = 4 \<or> n100 = 4")
    case True
    then have last: "y = (if n100 = 4 then n400 * 400 + 1 + 3 * 100 + 24 * 4 + 3
        else n400 * 400 + 1 + n100 * 100 + n4 * 4 + 3)" "m = 12" "d = 31"
      using eq' bounds late True by auto
    have leap: "is_leap y"
      using True bounds late is_leap_cycles [of n400 3 24 3] is_leap_cycles [of n400 n100 n4 3] last
      by (auto split: if_splits)
    have "days_before_year y + 366 = n"
      using True bounds late days_before_year_cycles [of n400 3 24 3]
        days_before_year_cycles [of n400 n100 n4 3] last total by (auto split: if_splits)
    with leap last show ?thesis by (simp add: ymd2ord_def days_before_month_def)
  next
    case False
    then have y: "y = n400 * 400 + 1 + n100 * 100 + n4 * 4 + n1"
      and md: "month_day (is_leap y) r4 = (m, d)"
      using eq' bounds is_leap_cycles [of n400 n100 n4 n1] by auto
    have "r4 \<le> (if is_leap y then 365 else 364)" using bounds by simp
    note inv = month_day_inverse [OF \<open>0 \<le> r4\<close> this md]
    have "days_before_year y + r4 + 1 = n"
      using False bounds days_before_year_cycles [of n400 n100 n4 n1] y total by simp
    with inv show ?thesis by (simp add: ymd2ord_def)
  qed
  then show "ymd2ord y m d = n" "1 \<le> m" "m \<le> 12" "1 \<le> d" "d \<le> 31" by simp_all
  have y: "y = n400 * 400 + 1 + n100 * 100 + n4 * 4 + n1 - (if n1 = 4 \<or> n100 = 4 then 1 else 0)"
    using eq' by (auto split: if_splits)
  then show "1 \<le> y" using bounds by (auto split: if_splits)
  show "y \<le> 9999" if "n < 3652060"
    using y bounds late that total by (auto split: if_splits)
qed


lemma digits_value_decimal:
  assumes "0 \<le> n" "n < 10 ^ w"
  shows "digits_value 0 (decimal w n) = Some (nat n)"
proof -
  have *: "digits_value acc (map digit_char ds) = Some (foldl (\<lambda>a d. 10 * a + d) acc ds)"
    if "\<forall>d \<in> set ds. d < 10" for acc ds
    using that by (induction ds arbitrary: acc) (simp_all add: digit_value_char)
  have "nat n < 10 ^ w" using assms by (simp add: nat_less_iff)
  with * [of "radix_digits 10 w (nat n)" 0] show ?thesis
    using radix_digits_less [of 10] radix_value_digits [of 10 w "nat n"]
    by (auto simp: decimal_def radix_value_def)
qed

lemma length_decimal [simp]: "length (decimal w n) = w"
  by (simp add: decimal_def)

lemma field_value_decimal:
  assumes "0 \<le> n" "n < 10 ^ w" "i = length pre"
  shows "field_value i w (pre @ decimal w n @ post) = Some n"
  using assms by (simp add: field_value_def digits_value_decimal)

text \<open>
  \<open>fromisoformat\<close> inverts \<open>isoformat\<close> for the years 1 to 9999, the range of \<open>datetime\<close>.
\<close>

definition datetime_range :: "instant \<Rightarrow> bool" where
  "datetime_range t \<longleftrightarrow> (1 - epoch_ordinal) * day_us \<le> t \<and> t < (3652060 - epoch_ordinal) * day_us"

lemma py_fromisoformat_isoformat:
  assumes "datetime_range t"
  shows "py_fromisoformat (py_isoformat t) = Some t"
proof -
  define n where "n = t div day_us + epoch_ordinal"
  define r where "r = t mod day_us"
  obtain y m d where ymd: "ord2ymd n = (y, m, d)" by (cases "ord2ymd n") auto
  have "1 \<le> n" "n < 3652060"
    using assms by (auto simp: n_def datetime_range_def day_us_def epoch_ordinal_def)
  note date = ymd2ord_ord2ymd [OF this(1) ymd] and yr = ymd2ord_ord2ymd(7) [OF this(1) ymd this(2)]
  have r: "0 \<le> r" "r < day_us" by (simp_all add: r_def day_us_def)
  define hh mm ss us where "hh = r div 3600000000" and "mm = r div 60000000 mod 60"
    and "ss = r div 1000000 mod 60" and "us = r mod 1000000"
  note clock = hh_def mm_def ss_def us_def
  have rng: "0 \<le> hh" "hh < 24" "0 \<le> mm" "mm < 60" "0 \<le> ss" "ss < 60" "0 \<le> us" "us < 1000000"
    using r by (auto simp: clock day_us_def)
  have "r div 60000000 = r div 1000000 div 60" "r div 3600000000 = r div 60000000 div 60"
    by (simp_all add: zdiv_zmult2_eq [symmetric])
  then have "r = 1000000 * (r div 1000000) + us" "r div 1000000 = 60 * (r div 60000000) + ss"
    "r div 60000000 = 60 * hh + mm"
    unfolding clock by simp_all
  moreover have "(hh * 3600 + mm * 60 + ss) * 1000000 + us = r"
    if "r = 1000000 * a + us" "a = 60 * b + ss" "b = 60 * hh + mm" for a b
    using that by simp
  ultimately have sum: "(hh * 3600 + mm * 60 + ss) * 1000000 + us = r" by blast
  define tail where "tail = (if us = 0 then [] else ''.'' @ decimal 6 us) @ ''+00:00''"
  define out where "out = decimal 4 y @ ''-'' @ decimal 2 m @ ''-'' @ decimal 2 d @ ''T'' @
    decimal 2 hh @ '':'' @ decimal 2 mm @ '':'' @ decimal 2 ss @ tail"
  have out: "py_isoformat t = out"
    using ymd by (simp add: py_isoformat_def out_def tail_def n_def r_def clock Let_def)
  have f: "field_value 0 4 out = Some y" "field_value 5 2 out = Some m" "field_value 8 2 out = Some d"
    "field_value 11 2 out = Some hh" "field_value 14 2 out = Some mm" "field_value 17 2 out = Some ss"
    using date yr rng field_value_decimal [of y 4 0 "[]"]
      field_value_decimal [of m 2 5 "decimal 4 y @ ''-''"]
      field_value_decimal [of d 2 8 "decimal 4 y @ ''-'' @ decimal 2 m @ ''-''"]
      field_value_decimal [of hh 2 11 "decimal 4 y @ ''-'' @ decimal 2 m @ ''-'' @ decimal 2 d @ ''T''"]
      field_value_decimal [of mm 2 14 "decimal 4 y @ ''-'' @ decimal 2 m @ ''-'' @ decimal 2 d @ ''T'' @
        decimal 2 hh @ '':''"]
      field_value_decimal [of ss 2 17 "decimal 4 y @ ''-'' @ decimal 2 m @ ''-'' @ decimal 2 d @ ''T'' @
        decimal 2 hh @ '':'' @ decimal 2 mm @ '':''"]
    by (simp_all add: out_def)
  have "drop 19 out = tail" by (simp add: out_def)
  moreover have "drop 26 out = drop 7 tail"
    using \<open>drop 19 out = tail\<close> drop_drop [of 7 19 out] by simp
  moreover have "field_value 20 6 out = field_value 1 6 tail"
    using \<open>drop 19 out = tail\<close> drop_drop [of 1 19 out] by (simp add: field_value_def)
  moreover have "us \<noteq> 0 \<Longrightarrow> field_value 1 6 tail = Some us"
    using rng field_value_decimal [of us 6 1 "''.''" "''+00:00''"] by (simp add: tail_def)
  moreover have "us \<noteq> 0 \<Longrightarrow> tail \<noteq> ''+00:00'' \<and> take 1 tail = ''.'' \<and> drop 7 tail = ''+00:00''"
    by (simp add: tail_def)
  moreover have "us = 0 \<Longrightarrow> tail = ''+00:00''" by (simp add: tail_def)
  ultimately have "py_fromisoformat out = Some ((n - epoch_ordinal) * day_us +
      (hh * 3600 + mm * 60 + ss) * 1000000 + us)"
    unfolding py_fromisoformat_def f using date(1) by (cases "us = 0") (simp_all add: Let_def)
  moreover have "(n - epoch_ordinal) * day_us + r = t"
    by (simp add: n_def r_def)
  ultimately show ?thesis using sum out by (simp add: algebra_simps)
qed

end
