(* ===== verification/Safe_Payload.thy ===== *)
theory Safe_Payload
  imports Py_Values
begin

text \<open>
  The screen that keeps secrets out of persisted payloads: \<open>safe_payload\<close> of
  \<open>app/jobs/contracts.py\<close> and \<open>_safe_payload\<close> of \<open>app/messaging/service.py\<close>. Both look
  for forbidden terms in the JSON text of the whole payload. The lemmas show that this is
  enough: no key and no string value at any depth contains a forbidden term, in any case.
\<close>

definition FORBIDDEN_PAYLOAD_TERMS :: "string list" where
  "FORBIDDEN_PAYLOAD_TERMS =
     [''password'', ''secret'', ''token'', ''credential'', ''ciphertext'', ''private_key'']"

definition sensitive_text :: "string \<Rightarrow> bool" where
  "sensitive_text encoded \<longleftrightarrow> list_ex (\<lambda>w. py_in w (ascii_lower encoded)) FORBIDDEN_PAYLOAD_TERMS"

definition jobs_safe_payload :: "json \<Rightarrow> py_error + json" where
  "jobs_safe_payload payload =
     (case json_dumps payload of
        None \<Rightarrow> Inl (JobError Job_payload_must_be_deterministic_JSON)
      | Some encoded \<Rightarrow>
          if sensitive_text encoded then Inl (JobError Sensitive_job_payload_is_prohibited)
          else if length encoded > 262144 then Inl (JobError Job_payload_exceeds_256_KiB)
          else Inr payload)"

definition messaging_safe_payload :: "json \<Rightarrow> py_error + json" where
  "messaging_safe_payload payload =
     (case json_dumps payload of
        None \<Rightarrow> Inl TypeError
      | Some encoded \<Rightarrow>
          if sensitive_text encoded then Inl (MessagingError Sensitive_messaging_payload_is_prohibited)
          else Inr payload)"

section \<open>Every string of a payload appears in its JSON text\<close>

text \<open>All keys and string values of an object, at any depth.\<close>

fun json_strings :: "json \<Rightarrow> string list" where
  "json_strings (JStr s) = [s]"
| "json_strings (JList vs) = concat (map json_strings vs)"
| "json_strings (JObj kvs) = concat (map (\<lambda>kv. fst kv # json_strings (snd kv)) kvs)"
| "json_strings _ = []"

lemma sublist_inside: "sublist x y \<Longrightarrow> sublist x (l @ y @ r)"
  by (rule sublist_order.order_trans [OF _ sublist_appendI])

lemma sublist_join: "x \<in> set xs \<Longrightarrow> sublist x (join sep xs)"
proof (induction sep xs rule: join.induct)
  case (3 sep y z xs)
  then show ?case
    using sublist_inside [of x y "[]" "sep @ join sep (z # xs)"]
      sublist_inside [of x "join sep (z # xs)" "y @ sep" "[]"] by auto
qed auto

lemma sublist_quote: "sublist (json_escape a s) (json_quote a s)"
  using sublist_inside [of "json_escape a s" "json_escape a s" "[CHR 0x22]"] by (simp add: json_quote_def)

lemma sublist_json_text:
  "s \<in> set (json_strings v) \<Longrightarrow> sublist (json_escape a s) (json_text a i k v)"
proof (induction v)
  case (JStr t)
  then show ?case by (simp add: sublist_quote)
next
  case (JList vs)
  then obtain v where v: "v \<in> set vs" "s \<in> set (json_strings v)" by auto
  then have "sublist (json_escape a s) (json_text a i k v)" by (rule JList.IH)
  moreover have "sublist (json_text a i k v) (join i (map (json_text a i k) vs))"
    using v by (intro sublist_join) simp
  moreover have "sublist (join i (map (json_text a i k) vs)) (json_text a i k (JList vs))"
    using sublist_inside [of _ _ "''[''" "'']''"] by simp
  ultimately show ?case by (blast intro: sublist_order.order_trans)
next
  case (JObj kvs)
  then obtain kv where kv: "kv \<in> set kvs" "s = fst kv \<or> s \<in> set (json_strings (snd kv))" by auto
  define m where "m = json_quote a (fst kv) @ k @ json_text a i k (snd kv)"
  have "sublist (json_escape a s) m"
  proof (cases "s = fst kv")
    case True
    then show ?thesis
      unfolding m_def using sublist_inside [OF sublist_quote, where l = "[]"] by simp
  next
    case False
    have "snd kv \<in> Basic_BNFs.snds kv" by (cases kv) (simp add: snds.simps)
    with JObj.IH kv False have "sublist (json_escape a s) (json_text a i k (snd kv))" by blast
    then show ?thesis
      unfolding m_def using sublist_inside [where l = "json_quote a (fst kv) @ k" and r = "[]"] by simp
  qed
  moreover have "m \<in> set (map snd (sort_key fst
       (map (\<lambda>kv. (fst kv, json_quote a (fst kv) @ k @ json_text a i k (snd kv))) kvs)))"
    using kv by (force simp: m_def)
  then have "sublist m (join i (map snd (sort_key fst
       (map (\<lambda>kv. (fst kv, json_quote a (fst kv) @ k @ json_text a i k (snd kv))) kvs))))"
    by (rule sublist_join)
  then have "sublist m (json_text a i k (JObj kvs))"
    unfolding json_text.simps by (rule sublist_inside)
  ultimately show ?case by (rule sublist_order.order_trans)
qed auto

section \<open>Forbidden terms survive the encoding\<close>

text \<open>The characters of the forbidden terms are written as they are, in either case.\<close>

definition plain_char :: "char \<Rightarrow> bool" where
  "plain_char c \<longleftrightarrow> json_escape_char True c = [c]"

lemma plain_if_lower_is_term_char:
  assumes "w \<in> set FORBIDDEN_PAYLOAD_TERMS" "ascii_lower_char c \<in> set w"
  shows "plain_char c"
proof -
  have "\<forall>d \<in> set w. of_char d = (95 :: nat) \<or> (97 \<le> (of_char d :: nat) \<and> of_char d \<le> (122 :: nat))"
    using assms(1) by (auto simp: FORBIDDEN_PAYLOAD_TERMS_def)
  with assms(2) have low: "of_char (ascii_lower_char c) = (95 :: nat) \<or>
      (97 \<le> (of_char (ascii_lower_char c) :: nat) \<and> of_char (ascii_lower_char c) \<le> (122 :: nat))"
    by blast
  define n where "n = (of_char c :: nat)"
  have "of_char (ascii_lower_char c) = (if 65 \<le> n \<and> n \<le> 90 then n + 32 else n)"
    by (simp add: ascii_lower_char_def n_def Let_def)
  with low have n: "n = 95 \<or> (65 \<le> n \<and> n \<le> 90) \<or> (97 \<le> n \<and> n \<le> 122)"
    by (auto split: if_splits)
  have "(of_char (CHR 0x22) :: nat) = 34" "(of_char (CHR 0x5C) :: nat) = 92" by simp_all
  with n have "c \<noteq> CHR 0x22" "c \<noteq> CHR 0x5C" unfolding n_def by auto
  with n show ?thesis
    by (auto simp: plain_char_def json_escape_char_def n_def [symmetric] Let_def)
qed

lemma escape_plain: "list_all plain_char s \<Longrightarrow> json_escape True s = s"
  by (induction s) (auto simp: json_escape_def plain_char_def)

lemma sublist_escape:
  assumes "sublist s t"
  shows "sublist (json_escape a s) (json_escape a t)"
proof -
  from assms obtain l r where t: "t = l @ s @ r" by (auto simp: sublist_def)
  have "json_escape a t = json_escape a l @ json_escape a s @ json_escape a r"
    by (simp add: t json_escape_def)
  then show ?thesis by simp
qed

lemma sensitive_string:
  assumes w: "w \<in> set FORBIDDEN_PAYLOAD_TERMS" "sublist w (ascii_lower s)"
    and s: "s \<in> set (json_strings v)"
  shows "sensitive_text (json_text True i k v)"
proof -
  obtain z where z: "sublist z s" "w = ascii_lower z"
    using sublist_map_rightE [OF w(2) [unfolded ascii_lower_def]] by (auto simp: ascii_lower_def)
  have "list_all plain_char z"
    using plain_if_lower_is_term_char [OF w(1)] z(2) by (auto simp: list_all_iff ascii_lower_def)
  then have "sublist z (json_escape True s)"
    using sublist_escape [OF z(1), of True] by (simp add: escape_plain)
  then have "sublist z (json_text True i k v)"
    using sublist_json_text [OF s] by (blast intro: sublist_order.order_trans)
  then have "sublist w (ascii_lower (json_text True i k v))"
    unfolding z(2) ascii_lower_def by (rule map_mono_sublist)
  then show ?thesis
    using w(1) by (auto simp: sensitive_text_def list_ex_iff py_in_sublist)
qed

definition clean_strings :: "json \<Rightarrow> bool" where
  "clean_strings v \<longleftrightarrow>
     (\<forall>s \<in> set (json_strings v). \<forall>w \<in> set FORBIDDEN_PAYLOAD_TERMS. \<not> py_in w (ascii_lower s))"

lemma jobs_safe_payload_clean: "jobs_safe_payload p = Inr q \<Longrightarrow> q = p \<and> clean_strings p"
  using sensitive_string
  by (fastforce simp: jobs_safe_payload_def clean_strings_def json_dumps_def json_dumps_with_def
      py_in_sublist split: option.splits if_splits)

lemma messaging_safe_payload_clean: "messaging_safe_payload p = Inr q \<Longrightarrow> q = p \<and> clean_strings p"
  using sensitive_string
  by (fastforce simp: messaging_safe_payload_def clean_strings_def json_dumps_def json_dumps_with_def
      py_in_sublist split: option.splits if_splits)

end
