(* ===== verification/Core_Tables.thy ===== *)
theory Core_Tables
  imports Safe_Payload
begin

text \<open>
  The rows and the session state that every component shares: placement (cells and
  workspaces), identity, membership and permission rows that authorization reads, resources,
  and the audit and outbox tables that every service appends to. Sources:
  \<open>app/tenancy/models.py\<close>, \<open>app/identity/models.py\<close>, \<open>app/identity/lifecycle_models.py\<close>,
  \<open>app/memberships/models.py\<close>, \<open>app/authorization/models.py\<close>,
  \<open>app/resource_graph/models.py\<close>, \<open>app/execution_context/contracts.py\<close>, and the trigger
  functions that the migrations install.

  \<open>py_env\<close> holds what is outside the program: SHA-256, the text form that PostgreSQL gives to
  a JSONB value, the text that \<open>str\<close> gives to a list or a dictionary, the order in which
  iteration visits the elements of a set, the values that the reader of \<open>pydantic\<close> finds in a JSON
  text, the time zone database, and the sources of UUIDs and of the wall clock. The
  latter two are streams; the state counts how many values were drawn.
\<close>

section \<open>Execution context\<close>

record request_context =
  request_id :: string
  correlation_id :: string

record actor_context =
  actor_id :: uuid
  session_id :: uuid
  membership_id :: uuid
  authorization_decision_id :: uuid
  delegation_id :: "uuid option"

text \<open>
  \<open>TenantContext\<close>, and the three columns that \<open>TenantMixin\<close> gives to the tenant-owned tables.
\<close>

record tenant_row =
  organization_id :: uuid
  workspace_id :: uuid
  cell_id :: uuid

record execution_context =
  ec_request :: request_context
  ec_actor :: actor_context
  ec_tenant :: tenant_row
  ec_version :: int

abbreviation ctx_workspace :: "execution_context \<Rightarrow> uuid" where
  "ctx_workspace ctx \<equiv> workspace_id (ec_tenant ctx)"

abbreviation ctx_actor :: "execution_context \<Rightarrow> uuid" where
  "ctx_actor ctx \<equiv> actor_id (ec_actor ctx)"

section \<open>Placement\<close>

record cell =
  cell_key_id :: uuid
  cell_key :: string
  cell_region :: string
  cell_status :: string
  cell_created_at :: instant

datatype workspace_status = WS_ACTIVE | WS_WRITES_FROZEN | WS_CLOSING | WS_CLOSED

record workspace =
  ws_id :: uuid
  ws_organization_id :: uuid
  ws_cell_id :: uuid
  ws_name :: string
  ws_slug :: string
  ws_status :: workspace_status
  ws_time_zone :: string
  ws_locale :: string
  ws_settings :: json
  ws_created_at :: instant
  ws_updated_at :: instant

section \<open>Identity, membership, permissions\<close>

datatype user_status = USER_ACTIVE | USER_SUSPENDED | USER_DISABLED

record user =
  user_id :: uuid
  user_email :: string
  user_email_verified :: bool
  user_email_verified_at :: "instant option"
  user_email_verification_source :: "string option"
  user_display_name :: "string option"
  user_status :: user_status
  user_version :: int
  user_created_at :: instant
  user_updated_at :: instant
  user_mfa_required :: bool

record identity_session =
  is_workspace_id :: uuid
  is_id :: uuid
  is_user_id :: uuid
  is_token_hash :: string
  is_device_id :: string
  is_authentication_strength :: string
  is_authenticated_at :: instant
  is_mfa_authenticated_at :: "instant option"
  is_last_seen_at :: instant
  is_expires_at :: instant
  is_revoked_at :: "instant option"
  is_revocation_reason :: "string option"
  is_created_at :: instant

datatype membership_status = MS_INVITED | MS_ACTIVE | MS_SUSPENDED | MS_REVOKED

record workspace_membership =
  wm_workspace_id :: uuid
  wm_id :: uuid
  wm_organization_id :: uuid
  wm_user_id :: uuid
  wm_role_key :: string
  wm_role_version :: int
  wm_status :: membership_status
  wm_version :: int
  wm_invitation_token_id :: "uuid option"
  wm_accepted_invitation_token_id :: "uuid option"
  wm_invited_by_user_id :: "uuid option"
  wm_activated_at :: "instant option"
  wm_suspended_at :: "instant option"
  wm_revoked_at :: "instant option"
  wm_revocation_reason :: "string option"
  wm_origin :: string
  wm_created_at :: instant
  wm_updated_at :: instant

record permission =
  pm_key :: string
  pm_version :: int
  pm_description :: string
  pm_active :: bool
  pm_created_at :: instant

datatype permission_effect = EFFECT_ALLOW | EFFECT_DENY

record role_permission =
  rp_role_key :: string
  rp_role_version :: int
  rp_permission_key :: string
  rp_permission_version :: int
  rp_effect :: permission_effect
  rp_created_at :: instant

section \<open>Resources\<close>

record resource = tenant_row +
  rs_id :: uuid
  rs_resource_type :: string
  rs_projection_id :: uuid
  rs_status :: string
  rs_version :: int
  rs_created_by_user_id :: uuid
  rs_created_at :: instant
  rs_updated_at :: instant

section \<open>Audit and outbox\<close>

record audit_event =
  ae_workspace_id :: uuid
  ae_id :: uuid
  ae_actor_type :: string
  ae_actor_id :: "uuid option"
  ae_action :: string
  ae_target_type :: string
  ae_target_id :: uuid
  ae_outcome :: string
  ae_details :: json
  ae_decision_id :: "uuid option"
  ae_correlation_id :: "string option"
  ae_causation_id :: "uuid option"
  ae_classification :: string
  ae_chain_sequence :: "int option"
  ae_previous_digest :: "string option"
  ae_safe_digest :: "string option"
  ae_retention_until :: "instant option"
  ae_partition_key :: "string option"
  ae_recorded_at :: instant

record audit_chain_head =
  ach_workspace_id :: uuid
  ach_last_sequence :: int
  ach_last_digest :: string
  ach_verified_sequence :: int
  ach_verified_at :: "instant option"
  ach_updated_at :: instant

record outbox_event =
  oe_workspace_id :: uuid
  oe_id :: uuid
  oe_event_type :: string
  oe_schema_version :: int
  oe_aggregate_type :: string
  oe_aggregate_id :: uuid
  oe_aggregate_sequence :: int
  oe_payload :: json
  oe_actor_id :: "uuid option"
  oe_delegation_id :: "uuid option"
  oe_correlation_id :: "string option"
  oe_causation_id :: "uuid option"
  oe_classification :: string
  oe_schema_major :: int
  oe_schema_minor :: int
  oe_idempotency_key :: "string option"
  oe_payload_digest :: "string option"
  oe_available_at :: instant
  oe_attempt_count :: int
  oe_quarantined :: bool
  oe_retention_until :: "instant option"
  oe_partition_key :: "string option"
  oe_recorded_at :: instant
  oe_published_at :: "instant option"
  oe_last_error :: "string option"

section \<open>The session\<close>

text \<open>
  \<open>current_context\<close> is the context variable of the request, \<open>session_context\<close> is \<open>session.info["atlas.execution_context"]\<close>, \<open>db_settings\<close> the
  transaction-local settings of \<open>set_config\<close>, \<open>locked_rows\<close> the rows that other open
  transactions hold locks on (what \<open>SKIP LOCKED\<close> passes over). The tables of a component
  extend this record.
\<close>

record core_db =
  current_context :: "execution_context option"
  session_context :: "execution_context option"
  in_transaction :: bool
  db_settings :: "(string \<times> string) list"
  closure_operation :: bool
  draws :: nat
  locked_rows :: "uuid list"
  cells :: "cell list"
  workspaces :: "workspace list"
  users :: "user list"
  identity_sessions :: "identity_session list"
  workspace_memberships :: "workspace_membership list"
  permissions :: "permission list"
  role_permissions :: "role_permission list"
  resources :: "resource list"
  audit_events :: "audit_event list"
  audit_chain_heads :: "audit_chain_head list"
  outbox_events :: "outbox_event list"

text \<open>
  A time zone of the IANA database: \<open>zone_local\<close> is the local reading of an instant,
  \<open>zone_utc\<close> the instant that a local reading with a given \<open>fold\<close> denotes.
\<close>

record zone =
  zone_local :: "instant \<Rightarrow> int"
  zone_utc :: "int \<Rightarrow> nat \<Rightarrow> instant"

record py_env =
  sha256_hex :: "string \<Rightarrow> string"
  jsonb_text :: "json \<Rightarrow> string"
  uuid4_stream :: "nat \<Rightarrow> uuid"
  uuid5_url :: "string \<Rightarrow> uuid"
  clock_stream :: "nat \<Rightarrow> instant"
  zone_info :: "string \<Rightarrow> zone option"
  container_str :: "json \<Rightarrow> string"
  set_order :: "uuid list \<Rightarrow> uuid list"
  parse_json :: "string \<Rightarrow> json option"
  json_time :: "py_datetime \<Rightarrow> string"

definition uuid4 :: "py_env \<Rightarrow> ('a core_db_scheme, uuid) M" where
  "uuid4 env = (\<lambda>s. (Inr (uuid4_stream env (draws s)), s\<lparr>draws := Suc (draws s)\<rparr>))"

definition utc_now :: "py_env \<Rightarrow> ('a core_db_scheme, instant) M" where
  "utc_now env = (\<lambda>s. (Inr (clock_stream env (draws s)), s\<lparr>draws := Suc (draws s)\<rparr>))"

text \<open>\<open>now or datetime.now(UTC)\<close>\<close>

definition or_now :: "py_env \<Rightarrow> instant option \<Rightarrow> ('a core_db_scheme, instant) M" where
  "or_now env now = (case now of Some t \<Rightarrow> returnM t | None \<Rightarrow> utc_now env)"

section \<open>Constraints of the database\<close>

text \<open>
  A table's constraints are listed by name with their truth for a new row; the first one that
  fails is the \<open>IntegrityError\<close> of the flush.
\<close>

fun violated :: "(string \<times> bool) list \<Rightarrow> string option" where
  "violated [] = None"
| "violated ((n, ok) # cs) = (if ok then violated cs else Some n)"

definition check_constraints :: "(string \<times> bool) list \<Rightarrow> ('s, unit) M" where
  "check_constraints cs = (case violated cs of None \<Rightarrow> returnM () | Some n \<Rightarrow> raiseM (IntegrityError n))"

lemma violated_None_iff: "violated cs = None \<longleftrightarrow> list_all snd cs"
  by (induction cs rule: violated.induct) auto

lemma wp_check_constraints [wp_simps]:
  "wp (check_constraints cs) Q E =
   (\<lambda>s. case violated cs of None \<Rightarrow> Q () s | Some n \<Rightarrow> E (IntegrityError n) s)"
  by (simp add: check_constraints_def wp_simps split: option.splits)

lemma keeps_check_constraints [frame_intros]: "keeps v (check_constraints cs)"
  by (auto simp: check_constraints_def intro: frame_intros split: option.splits)

definition workspace_exists :: "uuid \<Rightarrow> 'a core_db_scheme \<Rightarrow> bool" where
  "workspace_exists w s \<longleftrightarrow> list_ex (\<lambda>x. ws_id x = w) (workspaces s)"

text \<open>The foreign key \<open>(workspace_id, organization_id, cell_id)\<close> into \<open>workspaces\<close>.\<close>

definition tenant_exists :: "('b tenant_row_scheme) \<Rightarrow> 'a core_db_scheme \<Rightarrow> bool" where
  "tenant_exists r s \<longleftrightarrow> list_ex (\<lambda>x. ws_id x = workspace_id r \<and>
     ws_organization_id x = organization_id r \<and> ws_cell_id x = cell_id r) (workspaces s)"

text \<open>The columns of a tenant-owned primary key, \<open>(*TENANT, "id")\<close>.\<close>

type_synonym tenant_key = "uuid \<times> uuid \<times> uuid \<times> uuid"

definition tenant_pk :: "('b tenant_row_scheme) \<Rightarrow> uuid \<Rightarrow> tenant_key" where
  "tenant_pk r i = (organization_id r, workspace_id r, cell_id r, i)"

lemma tenant_pk_eq [simp]:
  "tenant_pk r i = tenant_pk q j \<longleftrightarrow> organization_id r = organization_id q \<and>
     workspace_id r = workspace_id q \<and> cell_id r = cell_id q \<and> i = j"
  by (simp add: tenant_pk_def)

text \<open>The tenant that a row belongs to.\<close>

type_synonym tenant = "uuid \<times> uuid \<times> uuid"

definition home_of :: "('b tenant_row_scheme) \<Rightarrow> tenant" where
  "home_of r = (organization_id r, workspace_id r, cell_id r)"

lemma home_pk: "tenant_pk r i = tenant_pk q j \<longleftrightarrow> home_of r = home_of q \<and> i = j"
  by (auto simp: home_of_def)

lemma workspace_tenant: "workspace_id r = fst (snd (home_of r))"
  by (simp add: home_of_def)

lemma home_of_extend [simp]: "home_of (tenant_row.extend r x) = home_of r"
  by (cases r) (simp add: home_of_def tenant_row.defs)

lemma workspace_extend [simp]: "workspace_id (tenant_row.extend r x) = workspace_id r"
  by (cases r) (simp add: tenant_row.defs)

definition resource_exists :: "('b tenant_row_scheme) \<Rightarrow> uuid option \<Rightarrow> 'a core_db_scheme \<Rightarrow> bool" where
  "resource_exists r i s \<longleftrightarrow> (case i of None \<Rightarrow> True
     | Some j \<Rightarrow> list_ex (\<lambda>x. tenant_pk x (rs_id x) = tenant_pk r j) (resources s))"

text \<open>
  The trigger \<open>enforce_workspace_write_state\<close>, which guards the tables of the tenant services:
  rows of a workspace that is not active are refused.
\<close>

definition enforce_workspace_write_state :: "uuid \<Rightarrow> ('a core_db_scheme, unit) M" where
  "enforce_workspace_write_state checked_workspace_id = (\<lambda>s.
     if closure_operation s then (Inr (), s)
     else case List.find (\<lambda>w. ws_id w = checked_workspace_id) (workspaces s) of
       Some w \<Rightarrow> (if ws_status w = WS_ACTIVE then (Inr (), s)
                  else (Inl (RaisedByDatabase ''workspace H1 writes are frozen''), s))
     | None \<Rightarrow> (Inl (RaisedByDatabase ''workspace H1 writes are frozen''), s))"

definition writable :: "uuid \<Rightarrow> 'a core_db_scheme \<Rightarrow> bool" where
  "writable w s \<longleftrightarrow> closure_operation s \<or>
     (case List.find (\<lambda>x. ws_id x = w) (workspaces s) of Some x \<Rightarrow> ws_status x = WS_ACTIVE | None \<Rightarrow> False)"

lemma wp_enforce_workspace_write_state [wp_simps]:
  "wp (enforce_workspace_write_state w) Q E = (\<lambda>s. if writable w s then Q () s
     else E (RaisedByDatabase ''workspace H1 writes are frozen'') s)"
  by (auto simp: fun_eq_iff wp_def enforce_workspace_write_state_def writable_def split: option.splits)

lemma keeps_enforce_workspace_write_state [frame_intros]: "keeps v (enforce_workspace_write_state w)"
  by (auto simp: keeps_def enforce_workspace_write_state_def split: option.splits)

section \<open>Frames\<close>

text \<open>
  The parts of the state that the shared services leave alone. \<open>component_part\<close> is everything a
  component adds to the session, \<open>directory_part\<close> the tables that no operation modelled here
  writes.
\<close>

definition directory_part ::
    "'a core_db_scheme \<Rightarrow> cell list \<times> workspace list \<times> user list \<times> identity_session list \<times>
       workspace_membership list \<times> permission list \<times> role_permission list \<times> resource list" where
  "directory_part s = (cells s, workspaces s, users s, identity_sessions s, workspace_memberships s,
     permissions s, role_permissions s, resources s)"

definition session_part :: "'a core_db_scheme \<Rightarrow> execution_context option \<times>
    execution_context option \<times> bool \<times> (string \<times> string) list \<times> bool \<times> uuid list" where
  "session_part s = (current_context s, session_context s, in_transaction s, db_settings s, closure_operation s, locked_rows s)"

definition component_part :: "'a core_db_scheme \<Rightarrow> 'a" where
  "component_part = core_db.more"

text \<open>All of them: what an append to the audit or the outbox table keeps.\<close>

definition rest_part where
  "rest_part s = (component_part s, directory_part s, session_part s)"

lemmas part_defs = rest_part_def component_part_def directory_part_def session_part_def

lemma keeps_uuid4 [frame_intros]: "keeps rest_part (uuid4 env)"
  by (simp add: keeps_def uuid4_def part_defs)

lemma keeps_utc_now [frame_intros]: "keeps rest_part (utc_now env)"
  by (simp add: keeps_def utc_now_def part_defs)

lemma keeps_or_now [frame_intros]: "keeps rest_part (or_now env now)"
  by (auto simp: or_now_def intro: frame_intros split: option.splits)

lemma wp_uuid4 [wp_simps]:
  "wp (uuid4 env) Q E = (\<lambda>s. Q (uuid4_stream env (draws s)) (s\<lparr>draws := Suc (draws s)\<rparr>))"
  by (simp add: fun_eq_iff wp_def uuid4_def)

lemma wp_utc_now [wp_simps]:
  "wp (utc_now env) Q E = (\<lambda>s. Q (clock_stream env (draws s)) (s\<lparr>draws := Suc (draws s)\<rparr>))"
  by (simp add: fun_eq_iff wp_def utc_now_def)

end
