(* ===== verification/Audit_Chain.thy ===== *)
theory Audit_Chain
  imports Core_Tables
begin

text \<open>
  The audit log as a hash chain, and the outbox. Sources: the functions
  \<open>compute_audit_event_digest\<close>, \<open>chain_audit_event\<close> (a \<open>BEFORE INSERT\<close> trigger) and
  \<open>verify_audit_chain\<close> of \<open>alembic/versions/0012_add_audit_messaging.py\<close>, and the tables
  \<open>AuditEvent\<close> and \<open>OutboxEvent\<close> of \<open>app/tenancy/models.py\<close>.

  Shown here: every insert extends a valid chain, so \<open>verify_audit_chain\<close> accepts what the
  trigger wrote; two chains of the same length that both verify and end in the same digest have
  the same contents, unless SHA-256 collides on two of the texts that were hashed; a chain that
  lost its newest events still verifies.
\<close>

section \<open>The digest\<close>

definition audit_body :: "int \<Rightarrow> audit_event \<Rightarrow> json" where
  "audit_body audit_sequence e = JObj
     [(''workspace_id'', JStr (uuid_str (ae_workspace_id e))),
      (''sequence'', JInt audit_sequence),
      (''id'', JStr (uuid_str (ae_id e))),
      (''actor_type'', JStr (ae_actor_type e)),
      (''actor_id'', json_opt_uuid (ae_actor_id e)),
      (''action'', JStr (ae_action e)),
      (''target_type'', JStr (ae_target_type e)),
      (''target_id'', JStr (uuid_str (ae_target_id e))),
      (''outcome'', JStr (ae_outcome e)),
      (''details'', ae_details e),
      (''decision_id'', json_opt_uuid (ae_decision_id e)),
      (''correlation_id'', (case ae_correlation_id e of None \<Rightarrow> JNull | Some c \<Rightarrow> JStr c)),
      (''classification'', JStr (ae_classification e)),
      (''recorded_at'', JStr (py_isoformat (ae_recorded_at e)))]"

definition audit_message :: "py_env \<Rightarrow> string \<Rightarrow> int \<Rightarrow> audit_event \<Rightarrow> string" where
  "audit_message env prior_digest audit_sequence e =
     prior_digest @ ''|'' @ jsonb_text env (audit_body audit_sequence e)"

definition compute_audit_event_digest :: "py_env \<Rightarrow> string \<Rightarrow> int \<Rightarrow> audit_event \<Rightarrow> string" where
  "compute_audit_event_digest env prior_digest audit_sequence e =
     sha256_hex env (audit_message env prior_digest audit_sequence e)"

section \<open>The trigger and the insert\<close>

text \<open>\<open>INSERT ... ON CONFLICT DO NOTHING\<close> and \<open>SELECT ... INTO head\<close>.\<close>

definition audit_head :: "uuid \<Rightarrow> instant \<Rightarrow> audit_chain_head list \<Rightarrow> audit_chain_head" where
  "audit_head w now hs = (case List.find (\<lambda>h. ach_workspace_id h = w) hs of
     Some h \<Rightarrow> h
   | None \<Rightarrow> \<lparr>ach_workspace_id = w, ach_last_sequence = 0, ach_last_digest = [],
       ach_verified_sequence = 0, ach_verified_at = None, ach_updated_at = now\<rparr>)"

definition put_audit_head :: "audit_chain_head \<Rightarrow> audit_chain_head list \<Rightarrow> audit_chain_head list" where
  "put_audit_head h hs =
     (if List.find (\<lambda>x. ach_workspace_id x = ach_workspace_id h) hs = None then hs @ [h]
      else replace_row ach_workspace_id h hs)"

definition chain_audit_event ::
    "py_env \<Rightarrow> instant \<Rightarrow> audit_chain_head list \<Rightarrow> audit_event \<Rightarrow> audit_event \<times> audit_chain_head list" where
  "chain_audit_event env now hs new =
     (let head = audit_head (ae_workspace_id new) now hs;
          sequence = ach_last_sequence head + 1;
          digest = compute_audit_event_digest env (ach_last_digest head) sequence new
      in (new\<lparr>ae_chain_sequence := Some sequence,
              ae_previous_digest := (if ach_last_digest head = [] then None else Some (ach_last_digest head)),
              ae_safe_digest := Some digest,
              ae_partition_key := Some (py_year_month (ae_recorded_at new))\<rparr>,
          put_audit_head (head\<lparr>ach_last_sequence := sequence, ach_last_digest := digest,
              ach_updated_at := now\<rparr>) hs))"

definition audit_event_constraints :: "audit_event \<Rightarrow> 'a core_db_scheme \<Rightarrow> (string \<times> bool) list" where
  "audit_event_constraints e s =
     [(''fk_audit_chain_heads_workspace'', workspace_exists (ae_workspace_id e) s),
      (''pk_audit_events'', list_all (\<lambda>x. (ae_workspace_id x, ae_id x) \<noteq> (ae_workspace_id e, ae_id e))
         (audit_events s)),
      (''fk_audit_events_workspace'', workspace_exists (ae_workspace_id e) s)]"

text \<open>
  \<open>session.add(AuditEvent(...)); flush()\<close>. The row comes with the defaults of the table for the
  columns that the caller leaves out; \<open>recorded_at\<close> is \<open>now()\<close> of the database.
\<close>

definition insert_audit_event :: "py_env \<Rightarrow> (instant \<Rightarrow> audit_event) \<Rightarrow> ('a core_db_scheme, audit_event) M" where
  "insert_audit_event env mk =
     bindM (utc_now env) (\<lambda>now.
     bindM (getsM (\<lambda>s. s)) (\<lambda>s.
     bindM (check_constraints (audit_event_constraints (mk now) s)) (\<lambda>_.
     case chain_audit_event env now (audit_chain_heads s) (mk now) of (e, hs) \<Rightarrow>
       thenM (modifyM (\<lambda>s. s\<lparr>audit_events := audit_events s @ [e], audit_chain_heads := hs\<rparr>))
         (returnM e))))"

definition outbox_event_constraints :: "outbox_event \<Rightarrow> 'a core_db_scheme \<Rightarrow> (string \<times> bool) list" where
  "outbox_event_constraints e s =
     [(''pk_outbox_events'', list_all (\<lambda>x. (oe_workspace_id x, oe_id x) \<noteq> (oe_workspace_id e, oe_id e))
         (outbox_events s)),
      (''fk_outbox_events_workspace'', workspace_exists (oe_workspace_id e) s),
      (''uq_outbox_aggregate_sequence'', list_all (\<lambda>x.
         (oe_workspace_id x, oe_aggregate_type x, oe_aggregate_id x, oe_aggregate_sequence x) \<noteq>
         (oe_workspace_id e, oe_aggregate_type e, oe_aggregate_id e, oe_aggregate_sequence e))
         (outbox_events s))]"

definition insert_outbox_event :: "outbox_event \<Rightarrow> ('a core_db_scheme, unit) M" where
  "insert_outbox_event e =
     thenM (enforce_workspace_write_state (oe_workspace_id e))
     (bindM (getsM (\<lambda>s. s)) (\<lambda>s.
     thenM (check_constraints (outbox_event_constraints e s))
     (modifyM (\<lambda>s. s\<lparr>outbox_events := outbox_events s @ [e]\<rparr>))))"

section \<open>Verification\<close>

text \<open>In SQL a comparison with \<open>NULL\<close> is not true.\<close>

definition sql_differs :: "'x option \<Rightarrow> 'x \<Rightarrow> bool" where
  "sql_differs a b = (case a of None \<Rightarrow> False | Some x \<Rightarrow> x \<noteq> b)"

definition coalesce_text :: "string option \<Rightarrow> string" where
  "coalesce_text x = (case x of None \<Rightarrow> [] | Some t \<Rightarrow> t)"

text \<open>\<open>ORDER BY f\<close>, nulls last.\<close>

definition order_nulls_last :: "('r \<Rightarrow> 'k::linorder option) \<Rightarrow> 'r list \<Rightarrow> 'r list" where
  "order_nulls_last f rows =
     sort_key (\<lambda>r. the (f r)) (filter (\<lambda>r. f r \<noteq> None) rows) @ filter (\<lambda>r. f r = None) rows"

fun chain_valid :: "py_env \<Rightarrow> string \<Rightarrow> int \<Rightarrow> audit_event list \<Rightarrow> bool" where
  "chain_valid env prior expected_sequence [] = True"
| "chain_valid env prior expected_sequence (item # rest) =
     (let expected = expected_sequence + 1;
          computed = compute_audit_event_digest env prior expected item
      in if sql_differs (ae_chain_sequence item) expected
            \<or> coalesce_text (ae_previous_digest item) \<noteq> prior
            \<or> sql_differs (ae_safe_digest item) computed
         then False else chain_valid env computed expected rest)"

definition workspace_audit :: "uuid \<Rightarrow> 'a core_db_scheme \<Rightarrow> audit_event list" where
  "workspace_audit w s = filter (\<lambda>e. ae_workspace_id e = w) (audit_events s)"

definition verify_audit_chain :: "py_env \<Rightarrow> uuid \<Rightarrow> ('a core_db_scheme, bool) M" where
  "verify_audit_chain env checked_workspace_id =
     bindM (utc_now env) (\<lambda>now.
     bindM (getsM (\<lambda>s. order_nulls_last ae_chain_sequence (workspace_audit checked_workspace_id s))) (\<lambda>items.
     if chain_valid env [] 0 items
     then thenM (modifyM (\<lambda>s. s\<lparr>audit_chain_heads :=
            map (\<lambda>h. if ach_workspace_id h = checked_workspace_id
                     then h\<lparr>ach_verified_sequence := int (length items), ach_verified_at := Some now\<rparr>
                     else h) (audit_chain_heads s)\<rparr>))
          (returnM True)
     else returnM False))"

section \<open>Frames\<close>

lemma keeps_insert_audit_event [frame_intros]: "keeps rest_part (insert_audit_event env mk)"
  by (auto simp: insert_audit_event_def part_defs intro!: frame_intros keeps_uuid4
      keeps_utc_now [unfolded part_defs] split: prod.splits)

lemma keeps_insert_outbox_event [frame_intros]: "keeps rest_part (insert_outbox_event e)"
  by (auto simp: insert_outbox_event_def part_defs intro!: frame_intros)


section \<open>The chain invariant\<close>

text \<open>
  \<open>chain_linked\<close> is the verification without the leniency for nulls; \<open>chain_end\<close> the digest of
  the last event, or the digest to start from.
\<close>

definition event_linked :: "py_env \<Rightarrow> string \<Rightarrow> int \<Rightarrow> audit_event \<Rightarrow> bool" where
  "event_linked env prior sequence e \<longleftrightarrow>
     ae_chain_sequence e = Some sequence \<and> coalesce_text (ae_previous_digest e) = prior \<and>
     ae_safe_digest e = Some (compute_audit_event_digest env prior sequence e)"

fun chain_end :: "py_env \<Rightarrow> string \<Rightarrow> int \<Rightarrow> audit_event list \<Rightarrow> string" where
  "chain_end env prior k [] = prior"
| "chain_end env prior k (e # es) =
     chain_end env (compute_audit_event_digest env prior (k + 1) e) (k + 1) es"

fun chain_linked :: "py_env \<Rightarrow> string \<Rightarrow> int \<Rightarrow> audit_event list \<Rightarrow> bool" where
  "chain_linked env prior k [] = True"
| "chain_linked env prior k (e # es) =
     (event_linked env prior (k + 1) e \<and>
      chain_linked env (compute_audit_event_digest env prior (k + 1) e) (k + 1) es)"

lemma chain_end_snoc:
  "chain_end env prior k (es @ [e]) =
     compute_audit_event_digest env (chain_end env prior k es) (k + int (length es) + 1) e"
  by (induction env prior k es rule: chain_end.induct) (simp_all add: algebra_simps)

lemma chain_linked_snoc:
  "chain_linked env prior k (es @ [e]) \<longleftrightarrow>
     chain_linked env prior k es \<and>
     event_linked env (chain_end env prior k es) (k + int (length es) + 1) e"
  by (induction env prior k es rule: chain_linked.induct) (simp_all add: algebra_simps)

lemma chain_linked_append:
  "chain_linked env prior k (es @ fs) \<Longrightarrow> chain_linked env prior k es"
  by (induction env prior k es rule: chain_linked.induct) simp_all

lemma chain_linked_valid: "chain_linked env prior k es \<Longrightarrow> chain_valid env prior k es"
  by (induction env prior k es rule: chain_linked.induct)
    (simp_all add: event_linked_def sql_differs_def Let_def)

lemma chain_linked_sequences:
  "chain_linked env prior k es \<Longrightarrow> map ae_chain_sequence es = map Some [k + 1..k + int (length es)]"
proof (induction env prior k es rule: chain_linked.induct)
  case (2 env prior k e es)
  then have "map ae_chain_sequence (e # es) = map Some ((k + 1) # [k + 1 + 1..k + 1 + int (length es)])"
    by (simp add: event_linked_def)
  also have "(k + 1) # [k + 1 + 1..k + 1 + int (length es)] = [k + 1..k + int (length (e # es))]"
    by (subst upto.simps [of "k + 1" "k + int (length (e # es))"]) (simp add: algebra_simps)
  finally show ?case .
qed simp

lemma sort_key_sorted: "sorted (map f xs) \<Longrightarrow> sort_key f xs = xs"
proof (induction xs)
  case (Cons x xs)
  then show ?case by (cases xs) (simp_all add: insort_key.simps)
qed simp

lemma order_chain_linked:
  assumes "chain_linked env prior k es"
  shows "order_nulls_last ae_chain_sequence es = es"
proof -
  note seqs = chain_linked_sequences [OF assms]
  then have all: "ae_chain_sequence e \<noteq> None" if "e \<in> set es" for e
    using that by (metis (no_types, lifting) imageE image_eqI list.set_map option.distinct(1))
  have "map (\<lambda>e. the (ae_chain_sequence e)) es = map the (map ae_chain_sequence es)" by simp
  also have "\<dots> = [k + 1..k + int (length es)]" unfolding seqs by (simp add: comp_def)
  finally have "sorted (map (\<lambda>e. the (ae_chain_sequence e)) es)" by simp
  then have "sort_key (\<lambda>e. the (ae_chain_sequence e)) es = es" by (rule sort_key_sorted)
  then show ?thesis using all by (simp add: order_nulls_last_def filter_True filter_empty_conv)
qed

definition audit_inv_at :: "py_env \<Rightarrow> uuid \<Rightarrow> 'a core_db_scheme \<Rightarrow> bool" where
  "audit_inv_at env w s \<longleftrightarrow>
     chain_linked env [] 0 (workspace_audit w s) \<and>
     ach_last_sequence (audit_head w 0 (audit_chain_heads s)) = int (length (workspace_audit w s)) \<and>
     ach_last_digest (audit_head w 0 (audit_chain_heads s)) = chain_end env [] 0 (workspace_audit w s) \<and>
     ach_workspace_id (audit_head w 0 (audit_chain_heads s)) = w"

definition audit_inv :: "py_env \<Rightarrow> 'a core_db_scheme \<Rightarrow> bool" where
  "audit_inv env s \<longleftrightarrow> (\<forall>w. audit_inv_at env w s)"

lemma audit_head_time:
  "ach_last_sequence (audit_head w t hs) = ach_last_sequence (audit_head w 0 hs)"
  "ach_last_digest (audit_head w t hs) = ach_last_digest (audit_head w 0 hs)"
  "ach_workspace_id (audit_head w t hs) = ach_workspace_id (audit_head w 0 hs)"
  by (auto simp: audit_head_def split: option.splits)

lemma find_map_replace:
  "List.find (\<lambda>h. key h = w) (replace_row key r hs) =
   (if key r = w then map_option (\<lambda>_. r) (List.find (\<lambda>h. key h = w) hs)
    else List.find (\<lambda>h. key h = w) hs)"
  by (induction hs) (auto simp: replace_row_def)

lemma find_snoc: "List.find p (xs @ [x]) =
    (case List.find p xs of None \<Rightarrow> if p x then Some x else None | Some y \<Rightarrow> Some y)"
  by (induction xs) auto

lemma audit_head_put:
  "audit_head w t (put_audit_head h hs) =
     (if ach_workspace_id h = w then h else audit_head w t hs)"
  by (auto simp: audit_head_def put_audit_head_def find_map_replace find_snoc
      split: option.splits if_splits)

lemma wp_insert_audit_event:
  "wp (insert_audit_event env mk) Q E = (\<lambda>s.
     let now = clock_stream env (draws s); s1 = s\<lparr>draws := Suc (draws s)\<rparr>;
         q = chain_audit_event env now (audit_chain_heads s1) (mk now)
     in case violated (audit_event_constraints (mk now) s1) of
          None \<Rightarrow> Q (fst q) (s1\<lparr>audit_events := audit_events s1 @ [fst q], audit_chain_heads := snd q\<rparr>)
        | Some n \<Rightarrow> E (IntegrityError n) s1)"
  by (simp add: insert_audit_event_def wp_simps Let_def case_prod_beta fun_eq_iff)

lemma audit_inv_insert:
  assumes inv: "audit_inv env s" and run: "insert_audit_event env mk s = (Inr e, s')"
  shows "audit_inv env s'"
proof -
  define now where "now = clock_stream env (draws s)"
  define w0 where "w0 = ae_workspace_id (mk now)"
  define h where "h = audit_head w0 now (audit_chain_heads s)"
  define q where "q = chain_audit_event env now (audit_chain_heads s) (mk now)"
  have "e = fst q \<and> s' = s\<lparr>draws := Suc (draws s), audit_events := audit_events s @ [e],
      audit_chain_heads := snd q\<rparr>"
    using wp_Inr [OF iffD2 [OF fun_cong [OF wp_insert_audit_event]] run,
        of "\<lambda>e s'. e = fst q \<and> s' = s\<lparr>draws := Suc (draws s), audit_events := audit_events s @ [e],
          audit_chain_heads := snd q\<rparr>" "\<lambda>_ _. True"]
    by (simp add: Let_def q_def now_def split: option.splits)
  then have e: "e = fst q" and ev: "s' = s\<lparr>draws := Suc (draws s),
      audit_events := audit_events s @ [e], audit_chain_heads := snd q\<rparr>" by simp_all
  have eh: "e = (mk now)\<lparr>ae_chain_sequence := Some (ach_last_sequence h + 1),
      ae_previous_digest := (if ach_last_digest h = [] then None else Some (ach_last_digest h)),
      ae_safe_digest := Some (compute_audit_event_digest env (ach_last_digest h) (ach_last_sequence h + 1) (mk now)),
      ae_partition_key := Some (py_year_month (ae_recorded_at (mk now)))\<rparr>"
    and hs: "snd q = put_audit_head (h\<lparr>ach_last_sequence := ach_last_sequence h + 1,
      ach_last_digest := compute_audit_event_digest env (ach_last_digest h) (ach_last_sequence h + 1) (mk now),
      ach_updated_at := now\<rparr>) (audit_chain_heads s)"
    unfolding e q_def chain_audit_event_def h_def w0_def by (simp_all add: Let_def)
  have same: "compute_audit_event_digest env p k e = compute_audit_event_digest env p k (mk now)" for p k
    unfolding eh by (simp add: compute_audit_event_digest_def audit_message_def audit_body_def)
  have wse: "ae_workspace_id e = w0" unfolding eh w0_def by simp
  have h: "ach_last_sequence h = int (length (workspace_audit w0 s))"
    "ach_last_digest h = chain_end env [] 0 (workspace_audit w0 s)" "ach_workspace_id h = w0"
    using inv [unfolded audit_inv_def, rule_format, of w0]
    unfolding audit_inv_at_def h_def by (simp_all add: audit_head_time [of w0 now])
  have link: "event_linked env (chain_end env [] 0 (workspace_audit w0 s))
      (int (length (workspace_audit w0 s)) + 1) e"
    unfolding event_linked_def same using h by (simp add: eh coalesce_text_def)
  show ?thesis
    unfolding audit_inv_def
  proof
    fix w
    note at = inv [unfolded audit_inv_def, rule_format, of w, unfolded audit_inv_at_def]
    show "audit_inv_at env w s'"
    proof (cases "w = w0")
      case True
      have rows: "workspace_audit w s' = workspace_audit w0 s @ [e]"
        using True wse by (simp add: workspace_audit_def ev)
      with link h True at show ?thesis
        unfolding audit_inv_at_def rows
        by (simp add: ev hs audit_head_put chain_linked_snoc chain_end_snoc same)
    next
      case False
      have rows: "workspace_audit w s' = workspace_audit w s"
        using False wse by (simp add: workspace_audit_def ev)
      show ?thesis
        using at False h(3) unfolding audit_inv_at_def rows by (simp add: ev hs audit_head_put)
    qed
  qed
qed

lemma verify_linked:
  assumes "chain_linked env [] 0 (workspace_audit w s)"
  shows "fst (verify_audit_chain env w s) = Inr True"
proof -
  have ws: "workspace_audit w (s\<lparr>draws := d\<rparr>) = workspace_audit w s" for d
    by (simp add: workspace_audit_def)
  show ?thesis
    using assms order_chain_linked [OF assms] chain_linked_valid [OF assms]
    by (simp add: verify_audit_chain_def bindM_def utc_now_def getsM_def thenM_def modifyM_def
        returnM_def ws)
qed

text \<open>Nothing but an insert touches the chain.\<close>

lemma audit_inv_cong:
  "audit_events s' = audit_events s \<Longrightarrow> audit_chain_heads s' = audit_chain_heads s \<Longrightarrow>
   audit_inv env s' = audit_inv env s"
  by (simp add: audit_inv_def audit_inv_at_def workspace_audit_def)

lemma audit_inv_draws [simp]: "audit_inv env (s\<lparr>draws := n\<rparr>) = audit_inv env s"
  by (rule audit_inv_cong) simp_all

lemma audit_inv_outbox [simp]: "audit_inv env (s\<lparr>outbox_events := t\<rparr>) = audit_inv env s"
  by (rule audit_inv_cong) simp_all

text \<open>The inserts as steps of a proof. \<open>unchained\<close> forgets what the trigger filled in.\<close>

definition unchained :: "audit_event \<Rightarrow> audit_event" where
  "unchained e = e\<lparr>ae_chain_sequence := None, ae_previous_digest := None, ae_safe_digest := None,
     ae_partition_key := None\<rparr>"

lemma unchained_eqD:
  "unchained e = unchained e' \<Longrightarrow> ae_workspace_id e = ae_workspace_id e' \<and> ae_id e = ae_id e' \<and>
    ae_actor_type e = ae_actor_type e' \<and> ae_actor_id e = ae_actor_id e' \<and>
    ae_action e = ae_action e' \<and> ae_target_type e = ae_target_type e' \<and>
    ae_target_id e = ae_target_id e' \<and> ae_outcome e = ae_outcome e' \<and>
    ae_details e = ae_details e' \<and> ae_recorded_at e = ae_recorded_at e'"
  by (cases e, cases e', simp add: unchained_def)

lemma wp_insert_audit:
  assumes "\<And>now e s1. rest_part s1 = rest_part s \<Longrightarrow> outbox_events s1 = outbox_events s \<Longrightarrow>
      audit_events s1 = audit_events s @ [e] \<Longrightarrow> unchained e = unchained (mk now) \<Longrightarrow> Q e s1"
    and "\<And>x s1. rest_part s1 = rest_part s \<Longrightarrow> outbox_events s1 = outbox_events s \<Longrightarrow>
      audit_events s1 = audit_events s \<Longrightarrow> audit_chain_heads s1 = audit_chain_heads s \<Longrightarrow> E x s1"
  shows "wp (insert_audit_event env mk) Q E s"
  unfolding wp_insert_audit_event Let_def
  by (cases "violated (audit_event_constraints (mk (clock_stream env (draws s))) (s\<lparr>draws := Suc (draws s)\<rparr>))")
    (auto simp: part_defs chain_audit_event_def unchained_def Let_def
      intro!: assms(1) [where now = "clock_stream env (draws s)"] assms(2))

lemma insert_audit_event_succeeds:
  assumes "workspace_exists (ae_workspace_id (mk (clock_stream env (draws s)))) s"
    and "list_all (\<lambda>x. (ae_workspace_id x, ae_id x) \<noteq> (ae_workspace_id (mk (clock_stream env (draws s))),
      ae_id (mk (clock_stream env (draws s))))) (audit_events s)"
  obtains e hs where "insert_audit_event env mk s = (Inr e, s\<lparr>draws := Suc (draws s),
      audit_events := audit_events s @ [e], audit_chain_heads := hs\<rparr>)"
    "unchained e = unchained (mk (clock_stream env (draws s)))" "ae_safe_digest e \<noteq> None"
proof -
  let ?q = "chain_audit_event env (clock_stream env (draws s)) (audit_chain_heads s) (mk (clock_stream env (draws s)))"
  have "wp (insert_audit_event env mk) (\<lambda>e s'. e = fst ?q \<and> s' = s\<lparr>draws := Suc (draws s),
      audit_events := audit_events s @ [fst ?q], audit_chain_heads := snd ?q\<rparr>) (\<lambda>_ _. False) s"
    unfolding wp_insert_audit_event using assms
    by (simp add: Let_def audit_event_constraints_def workspace_exists_def)
  then have "insert_audit_event env mk s = (Inr (fst ?q), s\<lparr>draws := Suc (draws s),
      audit_events := audit_events s @ [fst ?q], audit_chain_heads := snd ?q\<rparr>)"
    by (cases rule: wp_cases) simp_all
  moreover have "unchained (fst (chain_audit_event env n hs x)) = unchained x"
    "ae_safe_digest (fst (chain_audit_event env n hs x)) \<noteq> None" for n hs x
    by (simp_all add: chain_audit_event_def Let_def unchained_def)
  ultimately show ?thesis by (rule that)
qed

lemma wp_insert_outbox_event [wp_simps]:
  "wp (insert_outbox_event e) Q E = (\<lambda>s.
     if \<not> writable (oe_workspace_id e) s then E (RaisedByDatabase ''workspace H1 writes are frozen'') s
     else case violated (outbox_event_constraints e s) of
       None \<Rightarrow> Q () (s\<lparr>outbox_events := outbox_events s @ [e]\<rparr>)
     | Some n \<Rightarrow> E (IntegrityError n) s)"
  by (auto simp: insert_outbox_event_def wp_simps fun_eq_iff)

lemma preserves_audit_draws [inv_intros]:
  "preserves (audit_inv env) (uuid4 env')" "preserves (audit_inv env) (utc_now env')"
  "preserves (audit_inv env) (or_now env' t)"
  by (simp_all add: preserves_wp wp_simps or_now_def split: option.splits)

lemma preserves_audit_insert [inv_intros]: "preserves (audit_inv env) (insert_audit_event env mk)"
  unfolding preserves_def
proof (intro allI impI)
  fix s :: "'b core_db_scheme"
  assume inv: "audit_inv env s"
  show "audit_inv env (snd (insert_audit_event env mk s))"
  proof (cases rule: result_cases [of "insert_audit_event env mk" s])
    case (returns e s')
    with audit_inv_insert [OF inv this] show ?thesis by simp
  next
    case (raises e s')
    have "wp (insert_audit_event env mk) (\<lambda>_ _. True)
        (\<lambda>_ s'. audit_events s' = audit_events s \<and> audit_chain_heads s' = audit_chain_heads s) s"
      by (rule wp_insert_audit) simp_all
    from wp_Inl [OF this raises] inv raises show ?thesis
      by (simp add: audit_inv_cong [of s' s])
  qed
qed

lemma preserves_constraints [inv_intros]: "preserves I (check_constraints cs)"
  by (simp add: preserves_wp wp_simps split: option.splits)

lemma preserves_write_state [inv_intros]: "preserves I (enforce_workspace_write_state w)"
  by (simp add: preserves_wp wp_simps)

lemma preserves_audit_outbox [inv_intros]: "preserves (audit_inv env) (insert_outbox_event e)"
  by (auto simp: preserves_wp wp_simps split: option.splits)

section \<open>Tamper evidence\<close>

text \<open>The texts that are hashed, with and without the digest they are chained to.\<close>

fun chain_messages :: "py_env \<Rightarrow> string \<Rightarrow> int \<Rightarrow> audit_event list \<Rightarrow> string list" where
  "chain_messages env prior k [] = []"
| "chain_messages env prior k (e # es) =
     audit_message env prior (k + 1) e #
     chain_messages env (compute_audit_event_digest env prior (k + 1) e) (k + 1) es"

fun chain_texts :: "py_env \<Rightarrow> int \<Rightarrow> audit_event list \<Rightarrow> string list" where
  "chain_texts env k [] = []"
| "chain_texts env k (e # es) = jsonb_text env (audit_body (k + 1) e) # chain_texts env (k + 1) es"

lemma chain_messages_snoc:
  "chain_messages env prior k (es @ [e]) =
     chain_messages env prior k es @ [audit_message env (chain_end env prior k es) (k + int (length es) + 1) e]"
  by (induction env prior k es rule: chain_messages.induct) (simp_all add: algebra_simps)

lemma chain_texts_snoc:
  "chain_texts env k (es @ [e]) = chain_texts env k es @ [jsonb_text env (audit_body (k + int (length es) + 1) e)]"
  by (induction env k es rule: chain_texts.induct) (simp_all add: algebra_simps)

lemma split_at_bar:
  assumes "p @ ''|'' @ t = q @ ''|'' @ u" "CHR ''|'' \<notin> set p" "CHR ''|'' \<notin> set q"
  shows "p = q \<and> t = u"
proof -
  have "takeWhile (\<lambda>c. c \<noteq> CHR ''|'') (r @ ''|'' @ v) = r" if "CHR ''|'' \<notin> set r" for r v
    using that by (induction r) auto
  with assms have "p = q" by metis
  with assms(1) show ?thesis by simp
qed

lemma chain_end_no_bar:
  "\<forall>m. CHR ''|'' \<notin> set (sha256_hex env m) \<Longrightarrow> CHR ''|'' \<notin> set prior \<Longrightarrow>
   CHR ''|'' \<notin> set (chain_end env prior k es)"
  by (induction env prior k es rule: chain_end.induct) (simp_all add: compute_audit_event_digest_def)

definition sha256_collision :: "py_env \<Rightarrow> string list \<Rightarrow> string list \<Rightarrow> bool" where
  "sha256_collision env ms ns \<longleftrightarrow>
     (\<exists>m \<in> set ms. \<exists>n \<in> set ns. m \<noteq> n \<and> sha256_hex env m = sha256_hex env n)"

lemma chain_end_determines_texts:
  assumes hex: "\<forall>m. CHR ''|'' \<notin> set (sha256_hex env m)" "CHR ''|'' \<notin> set prior"
    and "length es = length fs" "chain_end env prior k es = chain_end env prior k fs"
  shows "chain_texts env k es = chain_texts env k fs \<or>
    sha256_collision env (chain_messages env prior k es) (chain_messages env prior k fs)"
  using assms(3,4)
proof (induction es arbitrary: fs rule: rev_induct)
  case Nil
  then show ?case by simp
next
  case (snoc e es)
  then obtain f gs where fs: "fs = gs @ [f]" by (cases fs rule: rev_cases) auto
  define n where "n = k + int (length es) + 1"
  have len: "length es = length gs" using snoc.prems fs by simp
  define m m' where "m = audit_message env (chain_end env prior k es) n e"
    and "m' = audit_message env (chain_end env prior k gs) n f"
  have sha: "sha256_hex env m = sha256_hex env m'"
    using snoc.prems len by (simp add: fs chain_end_snoc compute_audit_event_digest_def m_def m'_def n_def)
  show ?case
  proof (cases "m = m'")
    case False
    with sha have "sha256_collision env (chain_messages env prior k (es @ [e])) (chain_messages env prior k fs)"
      unfolding sha256_collision_def fs chain_messages_snoc m_def m'_def n_def using len by auto
    then show ?thesis ..
  next
    case True
    then have "chain_end env prior k es = chain_end env prior k gs \<and>
        jsonb_text env (audit_body n e) = jsonb_text env (audit_body n f)"
      unfolding m_def m'_def audit_message_def
      by (intro split_at_bar chain_end_no_bar hex) simp_all
    moreover from this have "chain_texts env k es = chain_texts env k gs \<or>
        sha256_collision env (chain_messages env prior k es) (chain_messages env prior k gs)"
      using len by (intro snoc.IH) simp_all
    ultimately show ?thesis
      unfolding fs chain_texts_snoc chain_messages_snoc sha256_collision_def n_def using len by auto
  qed
qed

lemma chain_valid_end:
  "chain_valid env prior k (es @ [e]) \<Longrightarrow> ae_safe_digest e = Some d \<Longrightarrow>
   chain_end env prior k (es @ [e]) = d"
  by (induction env prior k es rule: chain_valid.induct)
    (auto simp: Let_def sql_differs_def split: if_splits)

lemma chain_valid_append: "chain_valid env prior k (es @ fs) \<Longrightarrow> chain_valid env prior k es"
  by (induction env prior k es rule: chain_valid.induct) (auto simp: Let_def split: if_splits)

end
