(* ===== verification/Execution_Context.thy ===== *)
theory Execution_Context
  imports Audit_Chain
begin

text \<open>
  The execution context: its validation, its propagation into one database transaction, and the
  guard that tenant repositories put in front of every access. Sources:
  \<open>app/execution_context/contracts.py\<close>, \<open>service.py\<close> and \<open>repository.py\<close>.

  Shown here: when \<open>apply\<close> accepts a context and what it sets; a transaction that raises
  leaves every table as it was, and every transaction leaves the session without a context.
\<close>

section \<open>Contracts\<close>

definition EXECUTION_CONTEXT_VERSION :: int where
  "EXECUTION_CONTEXT_VERSION = 1"

definition require_reference :: "string \<Rightarrow> string \<Rightarrow> py_error + unit" where
  "require_reference value name =
     (if py_strip value = [] then Inl (ValueError (name @ '' is required''))
      else if 128 < length value then Inl (ValueError (name @ '' must not exceed 128 characters''))
      else Inr ())"

definition make_request_context :: "string \<Rightarrow> string \<Rightarrow> py_error + request_context" where
  "make_request_context rid cid =
     (case require_reference rid ''request_id'' of Inl e \<Rightarrow> Inl e
      | Inr _ \<Rightarrow> (case require_reference cid ''correlation_id'' of Inl e \<Rightarrow> Inl e
      | Inr _ \<Rightarrow> Inr \<lparr>request_id = rid, correlation_id = cid\<rparr>))"

definition make_execution_context ::
    "request_context \<Rightarrow> actor_context \<Rightarrow> tenant_row \<Rightarrow> int \<Rightarrow> py_error + execution_context" where
  "make_execution_context request actor tenant version =
     (if version \<noteq> EXECUTION_CONTEXT_VERSION then Inl (ValueError ''unsupported execution context version'')
      else Inr \<lparr>ec_request = request, ec_actor = actor, ec_tenant = tenant, ec_version = version\<rparr>)"

definition audit_references :: "execution_context \<Rightarrow> (string \<times> string) list" where
  "audit_references ctx =
     [(''request_id'', request_id (ec_request ctx)),
      (''correlation_id'', correlation_id (ec_request ctx)),
      (''authorization_decision_id'', uuid_str (authorization_decision_id (ec_actor ctx))),
      (''execution_context_version'', int_str (ec_version ctx))] @
     (case delegation_id (ec_actor ctx) of None \<Rightarrow> [] | Some d \<Rightarrow> [(''delegation_id'', uuid_str d)])"

section \<open>Binding\<close>

definition current_execution_context :: "('a core_db_scheme, execution_context) M" where
  "current_execution_context =
     bindM (getsM current_context) (\<lambda>c. someM c (ExecutionContextError Execution_context_is_required))"

text \<open>
  \<open>with self.bind(context): m\<close>: the variable is reset to its former value on every exit.
\<close>

definition bind_context :: "execution_context \<Rightarrow> ('a core_db_scheme, 'b) M \<Rightarrow> ('a core_db_scheme, 'b) M" where
  "bind_context ctx m = (\<lambda>s. case m (s\<lparr>current_context := Some ctx\<rparr>) of
     (r, s') \<Rightarrow> (r, s'\<lparr>current_context := current_context s\<rparr>))"

section \<open>Propagation\<close>

text \<open>
  The rows of \<open>workspaces JOIN cells\<close> for a workspace, and \<open>one_or_none\<close>.
\<close>

definition placement_rows :: "uuid \<Rightarrow> 'a core_db_scheme \<Rightarrow> (workspace \<times> cell) list" where
  "placement_rows w s =
     [(x, c). x \<leftarrow> workspaces s, ws_id x = w, c \<leftarrow> cells s, cell_key_id c = ws_cell_id x]"

definition one_or_none :: "'r list \<Rightarrow> py_error + 'r option" where
  "one_or_none rows = (case rows of [] \<Rightarrow> Inr None | [r] \<Rightarrow> Inr (Some r) | _ \<Rightarrow> Inl MultipleResultsFound)"

definition context_settings :: "execution_context \<Rightarrow> (string \<times> string) list" where
  "context_settings ctx =
     [(''atlas.workspace_id'', uuid_str (workspace_id (ec_tenant ctx))),
      (''atlas.organization_id'', uuid_str (organization_id (ec_tenant ctx))),
      (''atlas.cell_id'', uuid_str (cell_id (ec_tenant ctx))),
      (''atlas.actor_id'', uuid_str (actor_id (ec_actor ctx))),
      (''atlas.session_id'', uuid_str (session_id (ec_actor ctx))),
      (''atlas.membership_id'', uuid_str (membership_id (ec_actor ctx))),
      (''atlas.authorization_decision_id'', uuid_str (authorization_decision_id (ec_actor ctx))),
      (''atlas.request_id'', request_id (ec_request ctx)),
      (''atlas.correlation_id'', correlation_id (ec_request ctx))] @
     (case delegation_id (ec_actor ctx) of None \<Rightarrow> [] | Some d \<Rightarrow> [(''atlas.delegation_id'', uuid_str d)])"

definition set_config :: "string \<times> string \<Rightarrow> ('a core_db_scheme, unit) M" where
  "set_config kv = modifyM (\<lambda>s. s\<lparr>db_settings := AList.update (fst kv) (snd kv) (db_settings s)\<rparr>)"

definition apply_context :: "execution_context \<Rightarrow> ('a core_db_scheme, unit) M" where
  "apply_context ctx =
     bindM (getsM in_transaction) (\<lambda>active.
     thenM (requireM active (ExecutionContextError An_active_transaction_is_required))
     (bindM (getsM (placement_rows (ctx_workspace ctx))) (\<lambda>rows.
      bindM (liftM (one_or_none rows)) (\<lambda>row.
      bindM (someM row (ExecutionContextError Workspace_context_is_stale_or_unknown)) (\<lambda>(w, c).
      thenM (requireM (ws_organization_id w = organization_id (ec_tenant ctx) \<and>
                       ws_cell_id w = cell_id (ec_tenant ctx))
               (ExecutionContextError Tenant_placement_context_does_not_match))
      (thenM (requireM (ws_status w \<noteq> WS_CLOSED \<and> cell_status c = ''active'')
               (ExecutionContextError Tenant_placement_is_not_active))
      (thenM (forM (context_settings ctx) set_config)
      (modifyM (\<lambda>s. s\<lparr>session_context := Some ctx\<rparr>)))))))))"

text \<open>
  \<open>async with transaction(session, context): body\<close>. The settings are local to the
  transaction. An exception rolls the tables back; what stays of the run is that UUIDs and
  clock readings were drawn.
\<close>

definition begin_session :: "('a core_db_scheme, 'b) M \<Rightarrow> ('a core_db_scheme, 'b) M" where
  "begin_session m = (\<lambda>s. if in_transaction s then (Inl InvalidRequestError, s)
     else case m (s\<lparr>in_transaction := True\<rparr>) of
       (Inr x, s') \<Rightarrow> (Inr x, s'\<lparr>in_transaction := False, db_settings := db_settings s\<rparr>)
     | (Inl e, s') \<Rightarrow> (Inl e, s\<lparr>session_context := session_context s', draws := draws s'\<rparr>))"

definition clear_context_after :: "('a core_db_scheme, 'b) M \<Rightarrow> ('a core_db_scheme, 'b) M" where
  "clear_context_after m = (\<lambda>s. case m s of (r, s') \<Rightarrow> (r, s'\<lparr>session_context := None\<rparr>))"

definition transaction :: "execution_context \<Rightarrow> ('a core_db_scheme, 'b) M \<Rightarrow> ('a core_db_scheme, 'b) M" where
  "transaction ctx body =
     bind_context ctx (begin_session (thenM (apply_context ctx) (clear_context_after body)))"

section \<open>The repository guard\<close>

definition require_workspace :: "execution_context \<Rightarrow> uuid \<Rightarrow> ('a core_db_scheme, unit) M" where
  "require_workspace ctx w =
     bindM (getsM session_context) (\<lambda>b.
     bindM (someM b (ExecutionContextRequiredError Transaction_execution_context_is_required)) (\<lambda>bound.
     thenM (requireM (bound = ctx)
              (ExecutionContextRequiredError Repository_and_transaction_contexts_do_not_match))
     (requireM (w = ctx_workspace ctx)
              (ExecutionContextRequiredError Cross_workspace_repository_access_is_prohibited))))"

lemma keeps_require_workspace [frame_intros]: "keeps v (require_workspace ctx w)"
  by (auto simp: require_workspace_def intro!: frame_intros)

lemma wp_require_workspace [wp_simps]:
  "wp (require_workspace ctx w) Q E = (\<lambda>s.
     case session_context s of
       None \<Rightarrow> E (ExecutionContextRequiredError Transaction_execution_context_is_required) s
     | Some b \<Rightarrow>
         if b \<noteq> ctx then E (ExecutionContextRequiredError Repository_and_transaction_contexts_do_not_match) s
         else if w \<noteq> ctx_workspace ctx
           then E (ExecutionContextRequiredError Cross_workspace_repository_access_is_prohibited) s
         else Q () s)"
  by (auto simp: require_workspace_def wp_simps fun_eq_iff split: option.splits)


section \<open>What a transaction does to the state\<close>

definition put_settings :: "(string \<times> string) list \<Rightarrow> (string \<times> string) list \<Rightarrow> (string \<times> string) list" where
  "put_settings kvs l = fold (\<lambda>kv. AList.update (fst kv) (snd kv)) kvs l"

lemma run_set_configs:
  "forM kvs set_config s = (Inr (), s\<lparr>db_settings := put_settings kvs (db_settings s)\<rparr>)"
  by (induction kvs arbitrary: s)
    (simp_all add: put_settings_def returnM_def thenM_def bindM_def set_config_def modifyM_def)

lemma wp_set_configs [wp_simps]:
  "wp (forM kvs set_config) Q E = (\<lambda>s. Q () (s\<lparr>db_settings := put_settings kvs (db_settings s)\<rparr>))"
  by (simp add: wp_def run_set_configs fun_eq_iff)

lemma map_of_put_settings: "map_of (put_settings kvs l) = map_of l ++ map_of (rev kvs)"
  by (induction kvs arbitrary: l)
    (simp_all add: put_settings_def update_conv' map_add_def fun_eq_iff split: option.splits)

definition placed :: "execution_context \<Rightarrow> 'a core_db_scheme \<Rightarrow> bool" where
  "placed ctx s \<longleftrightarrow> (case placement_rows (ctx_workspace ctx) s of
     [(w, c)] \<Rightarrow> ws_organization_id w = organization_id (ec_tenant ctx) \<and>
                ws_cell_id w = cell_id (ec_tenant ctx) \<and>
                ws_status w \<noteq> WS_CLOSED \<and> cell_status c = ''active''
   | _ \<Rightarrow> False)"

definition with_context :: "execution_context \<Rightarrow> 'a core_db_scheme \<Rightarrow> 'a core_db_scheme" where
  "with_context ctx s = s\<lparr>db_settings := put_settings (context_settings ctx) (db_settings s),
     session_context := Some ctx\<rparr>"

lemma apply_context_cases:
  "apply_context ctx s = (Inr (), with_context ctx s) \<and> in_transaction s \<and> placed ctx s \<or>
   (\<exists>e. apply_context ctx s = (Inl e, s)) \<and> \<not> (in_transaction s \<and> placed ctx s)"
proof -
  have "wp (apply_context ctx) (\<lambda>_ s'. s' = with_context ctx s \<and> in_transaction s \<and> placed ctx s)
      (\<lambda>_ s'. s' = s \<and> \<not> (in_transaction s \<and> placed ctx s)) s"
    by (auto simp: apply_context_def wp_simps placed_def with_context_def one_or_none_def
        split: option.splits list.splits)
  then show ?thesis by (cases rule: wp_cases) auto
qed

text \<open>The state in which the body runs, and the one after a commit.\<close>

definition started :: "execution_context \<Rightarrow> 'a core_db_scheme \<Rightarrow> 'a core_db_scheme" where
  "started ctx s = with_context ctx (s\<lparr>current_context := Some ctx, in_transaction := True\<rparr>)"

definition committed :: "'a core_db_scheme \<Rightarrow> 'a core_db_scheme \<Rightarrow> 'a core_db_scheme" where
  "committed s s1 = s1\<lparr>session_context := None, in_transaction := False,
     db_settings := db_settings s, current_context := current_context s\<rparr>"

lemma placed_cong: "cells s = cells s' \<Longrightarrow> workspaces s = workspaces s' \<Longrightarrow> placed ctx s = placed ctx s'"
proof -
  assume "cells s = cells s'" "workspaces s = workspaces s'"
  then have "placement_rows w s = placement_rows w s'" for w
    by (simp add: placement_rows_def cong: if_cong)
  then show ?thesis unfolding placed_def by (simp only:)
qed

lemma placed_started [simp]:
  "placed ctx (s\<lparr>current_context := c, in_transaction := b\<rparr>) = placed ctx s"
  by (rule placed_cong) simp_all

lemma transaction_runs:
  assumes "\<not> in_transaction s" "placed ctx s"
  shows "transaction ctx body s = (case body (started ctx s) of
      (Inr x, s1) \<Rightarrow> (Inr x, committed s s1)
    | (Inl e, s1) \<Rightarrow> (Inl e, s\<lparr>session_context := None, draws := draws s1\<rparr>))"
proof -
  have "apply_context ctx (s\<lparr>current_context := Some ctx, in_transaction := True\<rparr>) = (Inr (), started ctx s)"
    using apply_context_cases [of ctx "s\<lparr>current_context := Some ctx, in_transaction := True\<rparr>"] assms
    by (simp add: started_def)
  with assms(1) show ?thesis
    by (simp add: transaction_def bind_context_def begin_session_def thenM_def bindM_def
        clear_context_after_def committed_def split: sum.splits prod.splits)
qed

lemma transaction_refused:
  assumes "in_transaction s \<or> \<not> placed ctx s"
  shows "\<exists>e. transaction ctx body s = (Inl e, s)"
proof (cases "in_transaction s")
  case True
  then show ?thesis by (auto simp: transaction_def bind_context_def begin_session_def)
next
  case False
  with assms obtain e where
    "apply_context ctx (s\<lparr>current_context := Some ctx, in_transaction := True\<rparr>) =
       (Inl e, s\<lparr>current_context := Some ctx, in_transaction := True\<rparr>)"
    using apply_context_cases [of ctx "s\<lparr>current_context := Some ctx, in_transaction := True\<rparr>"] by auto
  with False show ?thesis
    by (simp add: transaction_def bind_context_def begin_session_def thenM_def bindM_def)
qed

lemma transaction_cases:
  obtains (committed) x s1 where "\<not> in_transaction s" "placed ctx s"
      "body (started ctx s) = (Inr x, s1)" "transaction ctx body s = (Inr x, committed s s1)"
  | (rolled_back) e d c where "transaction ctx body s = (Inl e, s\<lparr>session_context := c, draws := d\<rparr>)"
      "c = None \<or> c = session_context s"
proof (cases "\<not> in_transaction s \<and> placed ctx s")
  case True
  show ?thesis
  proof (cases rule: result_cases [of body "started ctx s"])
    case (returns x s1)
    with True show ?thesis by (intro committed) (simp_all add: transaction_runs)
  next
    case (raises e s1)
    with True show ?thesis
      by (intro rolled_back [where c = None and d = "draws s1" and e = e]) (simp_all add: transaction_runs)
  qed
next
  case False
  then obtain e where "transaction ctx body s = (Inl e, s)" using transaction_refused [of s ctx body] by auto
  then have "transaction ctx body s = (Inl e, s\<lparr>session_context := session_context s, draws := draws s\<rparr>)"
    by simp
  then show ?thesis by (rule rolled_back) simp
qed

text \<open>
  What holds of the tables before a transaction holds after it, if the body keeps it when it
  returns.
\<close>

lemma transaction_invariant:
  assumes "I s"
    and keep: "\<And>x s1. body (started ctx s) = (Inr x, s1) \<Longrightarrow> I (started ctx s) \<Longrightarrow> I s1"
    and tables: "\<And>s s' :: 'a core_db_scheme. I s \<Longrightarrow> component_part s' = component_part s \<Longrightarrow>
      directory_part s' = directory_part s \<Longrightarrow> audit_events s' = audit_events s \<Longrightarrow>
      audit_chain_heads s' = audit_chain_heads s \<Longrightarrow> outbox_events s' = outbox_events s \<Longrightarrow> I s'"
  shows "I (snd (transaction ctx body s))"
proof (cases rule: transaction_cases [of s ctx body])
  case (committed x s1)
  have "I (started ctx s)"
    by (rule tables [OF \<open>I s\<close>]) (simp_all add: started_def with_context_def part_defs)
  with committed have "I s1" by (auto intro!: keep [of x s1])
  then have "I (Execution_Context.committed s s1)"
    by (rule tables) (simp_all add: committed_def part_defs)
  with committed show ?thesis by simp
next
  case (rolled_back e d c)
  have "I (s\<lparr>session_context := c, draws := d\<rparr>)"
    by (rule tables [OF \<open>I s\<close>]) (simp_all add: part_defs)
  with rolled_back show ?thesis by simp
qed

end
