(* ===== verification/Authorization.thy ===== *)
theory Authorization
  imports Execution_Context
begin

text \<open>
  Deny-first authorization of one fixed-role permission. Sources:
  \<open>app/authorization/contracts.py\<close>, \<open>repository.py\<close> and \<open>service.py\<close>, and the authorizer that
  the job and task services build on it (\<open>H1JobAuthorizer\<close>, \<open>H1TaskAuthorizer\<close>).

  Shown here: exactly when a request is allowed, and that every decision, denials included, is
  recorded in the audit log and the outbox. The locale \<open>authorizer\<close> is what the services
  rely on when they ask for a permission.
\<close>

section \<open>Contracts\<close>

definition AUTHORIZATION_POLICY_VERSION :: string where
  "AUTHORIZATION_POLICY_VERSION = ''h1-05-v1''"

definition PERMISSION_DEFINITION_VERSION :: int where
  "PERMISSION_DEFINITION_VERSION = 1"

datatype decision_effect = ALLOW | DENY

fun effect_value :: "decision_effect \<Rightarrow> string" where
  "effect_value ALLOW = ''allow''"
| "effect_value DENY = ''deny''"

datatype reason_code =
    ALLOWED | INVALID_ACTOR | INVALID_SESSION | INVALID_MEMBERSHIP | WORKSPACE_MISMATCH
  | UNKNOWN_PERMISSION | EXPLICIT_DENY | ROLE_PERMISSION_MISSING

fun reason_value :: "reason_code \<Rightarrow> string" where
  "reason_value ALLOWED = ''allowed''"
| "reason_value INVALID_ACTOR = ''invalid_actor''"
| "reason_value INVALID_SESSION = ''invalid_session''"
| "reason_value INVALID_MEMBERSHIP = ''invalid_membership''"
| "reason_value WORKSPACE_MISMATCH = ''workspace_mismatch''"
| "reason_value UNKNOWN_PERMISSION = ''unknown_permission''"
| "reason_value EXPLICIT_DENY = ''explicit_deny''"
| "reason_value ROLE_PERMISSION_MISSING = ''role_permission_missing''"

record authorization_request =
  rq_actor_id :: uuid
  rq_session_id :: uuid
  rq_organization_id :: uuid
  rq_requested_workspace_id :: uuid
  rq_membership_workspace_id :: uuid
  rq_membership_id :: uuid
  rq_permission_key :: string
  rq_permission_version :: int
  rq_request_reference :: string

text \<open>\<open>__post_init__\<close>\<close>

definition make_authorization_request :: "authorization_request \<Rightarrow> py_error + authorization_request" where
  "make_authorization_request r =
     (if py_strip (rq_permission_key r) = [] then Inl (ValueError ''permission key is required'')
      else if rq_permission_version r < 1 then Inl (ValueError ''permission version must be positive'')
      else if py_strip (rq_request_reference r) = [] then Inl (ValueError ''request reference is required'')
      else Inr r)"

record authorization_decision =
  dc_effect :: decision_effect
  dc_reason :: reason_code
  dc_policy_version :: string
  dc_permission_version :: int
  dc_decided_at :: instant

definition decision_allow :: "int \<Rightarrow> instant \<Rightarrow> authorization_decision" where
  "decision_allow version now = \<lparr>dc_effect = ALLOW, dc_reason = ALLOWED,
     dc_policy_version = AUTHORIZATION_POLICY_VERSION, dc_permission_version = version, dc_decided_at = now\<rparr>"

definition decision_deny :: "reason_code \<Rightarrow> int \<Rightarrow> instant \<Rightarrow> authorization_decision" where
  "decision_deny reason version now = \<lparr>dc_effect = DENY, dc_reason = reason,
     dc_policy_version = AUTHORIZATION_POLICY_VERSION, dc_permission_version = version, dc_decided_at = now\<rparr>"

section \<open>Repository\<close>

definition get_actor :: "uuid \<Rightarrow> 'a core_db_scheme \<Rightarrow> user option" where
  "get_actor i s = List.find (\<lambda>u. user_id u = i) (users s)"

definition get_session :: "uuid \<Rightarrow> uuid \<Rightarrow> 'a core_db_scheme \<Rightarrow> identity_session option" where
  "get_session w i s = List.find (\<lambda>x. is_workspace_id x = w \<and> is_id x = i) (identity_sessions s)"

definition get_membership :: "uuid \<Rightarrow> uuid \<Rightarrow> 'a core_db_scheme \<Rightarrow> workspace_membership option" where
  "get_membership w i s = List.find (\<lambda>m. wm_workspace_id m = w \<and> wm_id m = i) (workspace_memberships s)"

definition get_permission :: "string \<Rightarrow> int \<Rightarrow> 'a core_db_scheme \<Rightarrow> permission option" where
  "get_permission k v s = List.find (\<lambda>p. pm_key p = k \<and> pm_version p = v) (permissions s)"

definition list_role_permission_effects ::
    "string \<Rightarrow> int \<Rightarrow> string \<Rightarrow> int \<Rightarrow> 'a core_db_scheme \<Rightarrow> permission_effect list" where
  "list_role_permission_effects role role_version k v s =
     map rp_effect (filter (\<lambda>r. rp_role_key r = role \<and> rp_role_version r = role_version \<and>
       rp_permission_key r = k \<and> rp_permission_version r = v) (role_permissions s))"

section \<open>Service\<close>

definition decision_details :: "authorization_request \<Rightarrow> authorization_decision \<Rightarrow> (string \<times> json) list" where
  "decision_details r d =
     [(''effect'', JStr (effect_value (dc_effect d))),
      (''reason'', JStr (reason_value (dc_reason d))),
      (''policy_version'', JStr (dc_policy_version d)),
      (''permission_key'', JStr (rq_permission_key r)),
      (''permission_version'', JInt (dc_permission_version d)),
      (''request_reference'', JStr (rq_request_reference r))]"

text \<open>
  An audit row with the defaults of the columns that the caller does not name; the trigger fills
  the chain.
\<close>

definition decision_audit_row ::
    "authorization_request \<Rightarrow> authorization_decision \<Rightarrow> uuid \<Rightarrow> instant \<Rightarrow> audit_event" where
  "decision_audit_row r d audit_id now = \<lparr>
     ae_workspace_id = rq_requested_workspace_id r, ae_id = audit_id,
     ae_actor_type = ''user'', ae_actor_id = Some (rq_actor_id r),
     ae_action = ''authorization.decided'', ae_target_type = ''workspace_membership'',
     ae_target_id = rq_membership_id r,
     ae_outcome = (if dc_effect d = ALLOW then ''success'' else ''denied''),
     ae_details = JObj (decision_details r d),
     ae_decision_id = None, ae_correlation_id = None, ae_causation_id = None,
     ae_classification = ''internal'', ae_chain_sequence = None, ae_previous_digest = None,
     ae_safe_digest = None, ae_retention_until = None, ae_partition_key = None, ae_recorded_at = now\<rparr>"

definition decision_outbox_row ::
    "authorization_request \<Rightarrow> authorization_decision \<Rightarrow> uuid \<Rightarrow> uuid \<Rightarrow> instant \<Rightarrow> outbox_event" where
  "decision_outbox_row r d audit_id event_id now = \<lparr>
     oe_workspace_id = rq_requested_workspace_id r, oe_id = event_id,
     oe_event_type = ''authorization.decided'', oe_schema_version = 1,
     oe_aggregate_type = ''authorization_decision'', oe_aggregate_id = audit_id, oe_aggregate_sequence = 1,
     oe_payload = JObj ((''audit_event_id'', JStr (uuid_str audit_id)) # decision_details r d),
     oe_actor_id = None, oe_delegation_id = None, oe_correlation_id = None, oe_causation_id = None,
     oe_classification = ''internal'', oe_schema_major = 1, oe_schema_minor = 0,
     oe_idempotency_key = None, oe_payload_digest = None, oe_available_at = now,
     oe_attempt_count = 0, oe_quarantined = False, oe_retention_until = None, oe_partition_key = None,
     oe_recorded_at = now, oe_published_at = None, oe_last_error = None\<rparr>"

definition record_decision ::
    "py_env \<Rightarrow> authorization_request \<Rightarrow> authorization_decision \<Rightarrow> ('a core_db_scheme, unit) M" where
  "record_decision env r d =
     bindM (uuid4 env) (\<lambda>audit_id.
     bindM (uuid4 env) (\<lambda>event_id.
     bindM (insert_audit_event env (decision_audit_row r d audit_id)) (\<lambda>e.
     insert_outbox_event (decision_outbox_row r d audit_id event_id (ae_recorded_at e)))))"

definition deny :: "py_env \<Rightarrow> authorization_request \<Rightarrow> reason_code \<Rightarrow> instant \<Rightarrow>
    ('a core_db_scheme, authorization_decision) M" where
  "deny env r reason decided_at =
     (let d = decision_deny reason (rq_permission_version r) decided_at
      in thenM (record_decision env r d) (returnM d))"

definition authorize :: "py_env \<Rightarrow> authorization_request \<Rightarrow> instant option \<Rightarrow>
    ('a core_db_scheme, authorization_decision) M" where
  "authorize env r now =
     bindM (or_now env now) (\<lambda>decided_at.
     bindM (getsM (\<lambda>s. s)) (\<lambda>s.
     if rq_requested_workspace_id r \<noteq> rq_membership_workspace_id r
       then deny env r WORKSPACE_MISMATCH decided_at
     else if (case get_actor (rq_actor_id r) s of None \<Rightarrow> True | Some u \<Rightarrow> user_status u \<noteq> USER_ACTIVE)
       then deny env r INVALID_ACTOR decided_at
     else if (case get_session (rq_requested_workspace_id r) (rq_session_id r) s of None \<Rightarrow> True
         | Some i \<Rightarrow> is_user_id i \<noteq> rq_actor_id r \<or> is_revoked_at i \<noteq> None \<or> is_expires_at i \<le> decided_at)
       then deny env r INVALID_SESSION decided_at
     else case get_membership (rq_requested_workspace_id r) (rq_membership_id r) s of
       None \<Rightarrow> deny env r INVALID_MEMBERSHIP decided_at
     | Some m \<Rightarrow>
        if wm_user_id m \<noteq> rq_actor_id r \<or> wm_organization_id m \<noteq> rq_organization_id r \<or>
           wm_status m \<noteq> MS_ACTIVE
          then deny env r INVALID_MEMBERSHIP decided_at
        else case get_permission (rq_permission_key r) (rq_permission_version r) s of
          None \<Rightarrow> deny env r UNKNOWN_PERMISSION decided_at
        | Some p \<Rightarrow>
           if \<not> pm_active p then deny env r UNKNOWN_PERMISSION decided_at
           else
             (let effects = list_role_permission_effects (wm_role_key m) (wm_role_version m)
                    (pm_key p) (pm_version p) s
              in if EFFECT_DENY \<in> set effects then deny env r EXPLICIT_DENY decided_at
                 else if EFFECT_ALLOW \<notin> set effects then deny env r ROLE_PERMISSION_MISSING decided_at
                 else (let d = decision_allow (pm_version p) decided_at
                       in thenM (record_decision env r d) (returnM d)))))"

text \<open>\<open>H1JobAuthorizer.authorize\<close>, and word for word \<open>H1TaskAuthorizer.authorize\<close>.\<close>

definition h1_request :: "execution_context \<Rightarrow> string \<Rightarrow> authorization_request" where
  "h1_request ctx permission_key = \<lparr>
     rq_actor_id = actor_id (ec_actor ctx), rq_session_id = session_id (ec_actor ctx),
     rq_organization_id = organization_id (ec_tenant ctx),
     rq_requested_workspace_id = workspace_id (ec_tenant ctx),
     rq_membership_workspace_id = workspace_id (ec_tenant ctx),
     rq_membership_id = membership_id (ec_actor ctx), rq_permission_key = permission_key,
     rq_permission_version = PERMISSION_DEFINITION_VERSION,
     rq_request_reference = request_id (ec_request ctx)\<rparr>"

definition h1_authorize :: "py_env \<Rightarrow> execution_context \<Rightarrow> string \<Rightarrow> ('a core_db_scheme, bool) M" where
  "h1_authorize env ctx permission_key =
     bindM (liftM (make_authorization_request (h1_request ctx permission_key))) (\<lambda>r.
     bindM (authorize env r None) (\<lambda>d.
     returnM (dc_effect d = ALLOW)))"

section \<open>When a request is allowed\<close>

definition grants :: "authorization_request \<Rightarrow> instant \<Rightarrow> 'a core_db_scheme \<Rightarrow> bool" where
  "grants r t s \<longleftrightarrow>
     rq_requested_workspace_id r = rq_membership_workspace_id r \<and>
     (\<exists>u. get_actor (rq_actor_id r) s = Some u \<and> user_status u = USER_ACTIVE) \<and>
     (\<exists>i. get_session (rq_requested_workspace_id r) (rq_session_id r) s = Some i \<and>
        is_user_id i = rq_actor_id r \<and> is_revoked_at i = None \<and> t < is_expires_at i) \<and>
     (\<exists>m p. get_membership (rq_requested_workspace_id r) (rq_membership_id r) s = Some m \<and>
        wm_user_id m = rq_actor_id r \<and> wm_organization_id m = rq_organization_id r \<and>
        wm_status m = MS_ACTIVE \<and>
        get_permission (rq_permission_key r) (rq_permission_version r) s = Some p \<and> pm_active p \<and>
        (let effects = list_role_permission_effects (wm_role_key m) (wm_role_version m)
               (pm_key p) (pm_version p) s
         in EFFECT_ALLOW \<in> set effects \<and> EFFECT_DENY \<notin> set effects))"

lemma keeps_record_decision [frame_intros]: "keeps rest_part (record_decision env r d)"
  by (auto simp: record_decision_def intro!: frame_intros)

lemma keeps_deny [frame_intros]: "keeps rest_part (deny env r reason t)"
  by (auto simp: deny_def Let_def intro!: frame_intros)

lemma keeps_authorize [frame_intros]: "keeps rest_part (authorize env r now)"
  unfolding authorize_def Let_def by (intro frame_intros)

lemma keeps_h1_authorize [frame_intros]: "keeps rest_part (h1_authorize env ctx k)"
  unfolding h1_authorize_def by (intro frame_intros)


lemma get_permission_key: "get_permission k v s = Some p \<Longrightarrow> pm_key p = k \<and> pm_version p = v"
  unfolding get_permission_def by (drule find_SomeD) simp

lemma wp_authorize:
  assumes "\<And>d. (dc_effect d = ALLOW \<longleftrightarrow> grants r t s) \<Longrightarrow> (dc_effect d = ALLOW \<longleftrightarrow> dc_reason d = ALLOWED) \<Longrightarrow>
      dc_decided_at d = t \<Longrightarrow> dc_permission_version d = rq_permission_version r \<Longrightarrow>
      wp (record_decision env r d) (\<lambda>_. Q d) E s"
  shows "wp (authorize env r (Some t)) Q E s"
proof -
  have no: "wp (deny env r reason t) Q E s" if "\<not> grants r t s" "reason \<noteq> ALLOWED" for reason
    using that unfolding deny_def Let_def wp_thenM wp_returnM
    by (intro assms) (simp_all add: decision_deny_def)
  have yes: "wp (record_decision env r (decision_allow (pm_version p) t)) (\<lambda>_. Q (decision_allow (pm_version p) t)) E s"
    if "grants r t s" "get_permission (rq_permission_key r) (rq_permission_version r) s = Some p" for p
    using that get_permission_key [OF that(2)] by (intro assms) (simp_all add: decision_allow_def)
  show ?thesis
    unfolding authorize_def or_now_def option.case wp_simps
    by (auto simp: Let_def wp_simps split: option.splits intro!: no yes; simp add: grants_def Let_def)
qed

lemma authorize_cases:
  assumes "authorize env r (Some t) s = (Inr d, s')"
  shows "(dc_effect d = ALLOW \<longleftrightarrow> grants r t s) \<and> (dc_effect d = ALLOW \<longleftrightarrow> dc_reason d = ALLOWED) \<and>
    record_decision env r d s = (Inr (), s')"
proof -
  have "wp (authorize env r (Some t)) (\<lambda>d' s''. (dc_effect d' = ALLOW \<longleftrightarrow> grants r t s) \<and>
      (dc_effect d' = ALLOW \<longleftrightarrow> dc_reason d' = ALLOWED) \<and> record_decision env r d' s = (Inr (), s''))
      (\<lambda>_ _. True) s"
    by (rule wp_authorize) (auto simp: wp_def split: sum.splits prod.splits)
  from wp_Inr [OF this assms] show ?thesis .
qed

section \<open>What a decision records\<close>

definition decision_recorded :: "authorization_request \<Rightarrow> authorization_decision \<Rightarrow>
    'a core_db_scheme \<Rightarrow> 'a core_db_scheme \<Rightarrow> bool" where
  "decision_recorded r d s s' \<longleftrightarrow> (\<exists>e x. audit_events s' = audit_events s @ [e] \<and>
     outbox_events s' = outbox_events s @ [x] \<and>
     ae_workspace_id e = rq_requested_workspace_id r \<and> ae_actor_id e = Some (rq_actor_id r) \<and>
     ae_action e = ''authorization.decided'' \<and> ae_target_id e = rq_membership_id r \<and>
     ae_outcome e = (if dc_effect d = ALLOW then ''success'' else ''denied'') \<and>
     ae_details e = JObj (decision_details r d) \<and> oe_aggregate_id x = ae_id e \<and>
     oe_payload x = JObj ((''audit_event_id'', JStr (uuid_str (ae_id e))) # decision_details r d))"

lemma record_decision_records:
  assumes "record_decision env r d s = (Inr (), s')"
  shows "decision_recorded r d s s' \<and> writable (rq_requested_workspace_id r) s"
proof -
  have "wp (record_decision env r d) (\<lambda>_ s'. decision_recorded r d s s' \<and>
      writable (rq_requested_workspace_id r) s) (\<lambda>_ _. True) s"
    unfolding record_decision_def wp_bindM wp_uuid4
  proof (rule wp_insert_audit)
    fix now e and s1 :: "'a core_db_scheme"
    assume *: "rest_part s1 = rest_part (s\<lparr>draws := Suc (draws s),
        draws := Suc (draws (s\<lparr>draws := Suc (draws s)\<rparr>))\<rparr>)"
      "outbox_events s1 = outbox_events (s\<lparr>draws := Suc (draws s),
        draws := Suc (draws (s\<lparr>draws := Suc (draws s)\<rparr>))\<rparr>)"
      "audit_events s1 = audit_events (s\<lparr>draws := Suc (draws s),
        draws := Suc (draws (s\<lparr>draws := Suc (draws s)\<rparr>))\<rparr>) @ [e]"
      "unchained e = unchained (decision_audit_row r d (uuid4_stream env (draws s)) now)"
    from *(1) have w: "writable (rq_requested_workspace_id r) s1 = writable (rq_requested_workspace_id r) s"
      by (simp add: writable_def part_defs)
    from unchained_eqD [OF *(4)]
    show "wp (insert_outbox_event (decision_outbox_row r d (uuid4_stream env (draws s))
          (uuid4_stream env (draws (s\<lparr>draws := Suc (draws s)\<rparr>))) (ae_recorded_at e)))
        (\<lambda>_ s'. decision_recorded r d s s' \<and> writable (rq_requested_workspace_id r) s) (\<lambda>_ _. True) s1"
      using *(2,3) by (simp add: wp_simps w decision_audit_row_def decision_outbox_row_def
          decision_recorded_def split: option.splits)
  qed simp
  from wp_Inr [OF this assms] show ?thesis .
qed

section \<open>The interface of an authorizer\<close>

text \<open>
  What a service relies on when it asks its authorizer: the answer changes nothing but the audit
  and outbox tables, and keeps the audit log verifiable.
\<close>

locale authorizer =
  fixes env :: py_env
    and ask :: "execution_context \<Rightarrow> string \<Rightarrow> ('a core_db_scheme, bool) M"
  assumes ask_frame: "keeps rest_part (ask ctx p)"
    and ask_audit: "preserves (audit_inv env) (ask ctx p)"
begin

lemma ask_component: "keeps component_part (ask ctx p)"
  using ask_frame by (rule keeps_view) (simp add: part_defs)

lemma wp_ask:
  assumes "\<And>x s'. rest_part s' = rest_part s \<Longrightarrow> Q x s'" "\<And>e s'. rest_part s' = rest_part s \<Longrightarrow> E e s'"
  shows "wp (ask ctx p) Q E s"
  using ask_frame assms by (rule wp_frame)

lemma ask_keeps_tables:
  assumes "\<And>s s'. rest_part s' = rest_part s \<Longrightarrow> I s \<Longrightarrow> I s'"
  shows "preserves I (ask ctx p)"
  using ask_frame assms by (rule preserves_keeps)

end

lemma preserves_audit_record_decision [inv_intros]: "preserves (audit_inv env) (record_decision env r d)"
  unfolding record_decision_def by (intro inv_intros)

lemma preserves_audit_authorize [inv_intros]: "preserves (audit_inv env) (authorize env r t)"
  unfolding authorize_def deny_def Let_def by (intro inv_intros)

interpretation h1: authorizer env "h1_authorize env" for env
proof
  fix ctx p
  show "keeps rest_part (h1_authorize env ctx p)" by (rule keeps_h1_authorize)
  show "preserves (audit_inv env) (h1_authorize env ctx p)"
    unfolding h1_authorize_def by (intro inv_intros)
qed

end
