(* ===== verification/Example_World.thy ===== *)
theory Example_World
  imports Authorization
begin

text \<open>
  A small world in which the properties are tried out: one cell with one workspace, one member
  with an open session and a role that grants two permissions. The stand-in for SHA-256 is a
  polynomial checksum in 64 decimal digits; the other parameters are given just as plainly.
  \<open>tables\<close> are the tables that a component adds.
\<close>

definition checksum :: "string \<Rightarrow> nat" where
  "checksum s = foldl (\<lambda>h c. (h * 131 + of_char c) mod 1000003) 7 s"

definition utc_zone :: zone where
  "utc_zone = \<lparr>zone_local = (\<lambda>t. t), zone_utc = (\<lambda>t _. t)\<rparr>"

definition example_env :: py_env where
  "example_env = \<lparr>
     sha256_hex = (\<lambda>s. decimal 64 (int (checksum s))),
     jsonb_text = json_text False '', '' '': '',
     uuid4_stream = (\<lambda>n. of_nat (1000 + n)),
     uuid5_url = (\<lambda>s. of_nat (checksum s)),
     clock_stream = (\<lambda>n. seconds (1767225600 + int n)),
     zone_info = (\<lambda>z. if z = ''UTC'' then Some utc_zone else None),
     container_str = json_text False '', '' '': '',
     set_order = (\<lambda>xs. xs),
     parse_json = (\<lambda>_. None),
     json_time = (\<lambda>t. case t of Aware n \<Rightarrow> py_isoformat n | Naive n \<Rightarrow> py_isoformat n)\<rparr>"

definition example_context :: execution_context where
  "example_context = \<lparr>
     ec_request = \<lparr>request_id = ''request-1'', correlation_id = ''correlation-1''\<rparr>,
     ec_actor = \<lparr>actor_id = 11, session_id = 12, membership_id = 13, authorization_decision_id = 14,
       delegation_id = None\<rparr>,
     ec_tenant = \<lparr>organization_id = 1, workspace_id = 2, cell_id = 3\<rparr>,
     ec_version = EXECUTION_CONTEXT_VERSION\<rparr>"

definition example_permission :: "string \<Rightarrow> permission" where
  "example_permission k = \<lparr>pm_key = k, pm_version = 1, pm_description = [], pm_active = True, pm_created_at = 0\<rparr>"

definition example_grant :: "string \<Rightarrow> role_permission" where
  "example_grant k = \<lparr>rp_role_key = ''owner'', rp_role_version = 1, rp_permission_key = k,
     rp_permission_version = 1, rp_effect = EFFECT_ALLOW, rp_created_at = 0\<rparr>"

definition example_world :: "'a \<Rightarrow> 'a core_db_scheme" where
  "example_world tables = \<lparr>
     current_context = None, session_context = None, in_transaction = False, db_settings = [],
     closure_operation = False, draws = 0, locked_rows = [],
     cells = [\<lparr>cell_key_id = 3, cell_key = ''eu-1'', cell_region = ''eu'', cell_status = ''active'', cell_created_at = 0\<rparr>],
     workspaces = [\<lparr>ws_id = 2, ws_organization_id = 1, ws_cell_id = 3, ws_name = ''Home'', ws_slug = ''home'',
       ws_status = WS_ACTIVE, ws_time_zone = ''UTC'', ws_locale = ''en'', ws_settings = JObj [],
       ws_created_at = 0, ws_updated_at = 0\<rparr>],
     users = [\<lparr>user_id = 11, user_email = ''a@example.org'', user_email_verified = True,
       user_email_verified_at = None, user_email_verification_source = None, user_display_name = None,
       user_status = USER_ACTIVE, user_version = 1, user_created_at = 0, user_updated_at = 0,
       user_mfa_required = False\<rparr>],
     identity_sessions = [\<lparr>is_workspace_id = 2, is_id = 12, is_user_id = 11, is_token_hash = [], is_device_id = [],
       is_authentication_strength = ''password'', is_authenticated_at = 0, is_mfa_authenticated_at = None,
       is_last_seen_at = 0, is_expires_at = seconds 4000000000, is_revoked_at = None,
       is_revocation_reason = None, is_created_at = 0\<rparr>],
     workspace_memberships = [\<lparr>wm_workspace_id = 2, wm_id = 13, wm_organization_id = 1, wm_user_id = 11,
       wm_role_key = ''owner'', wm_role_version = 1, wm_status = MS_ACTIVE, wm_version = 1,
       wm_invitation_token_id = None, wm_accepted_invitation_token_id = None, wm_invited_by_user_id = None,
       wm_activated_at = None, wm_suspended_at = None, wm_revoked_at = None, wm_revocation_reason = None,
       wm_origin = ''bootstrap'', wm_created_at = 0, wm_updated_at = 0\<rparr>],
     permissions = map example_permission [''manage_workspace'', ''update_content'', ''read_content''],
     role_permissions = map example_grant [''manage_workspace'', ''update_content'', ''read_content''],
     resources = [\<lparr>organization_id = 1, workspace_id = 2, cell_id = 3, rs_id = 21, rs_resource_type = ''task'',
       rs_projection_id = 22, rs_status = ''active'', rs_version = 1, rs_created_by_user_id = 11,
       rs_created_at = 0, rs_updated_at = 0\<rparr>],
     audit_events = [], audit_chain_heads = [], outbox_events = [], \<dots> = tables\<rparr>"

text \<open>The world inside a transaction that bound the example context.\<close>

definition example_session :: "'a \<Rightarrow> 'a core_db_scheme" where
  "example_session tables = started example_context (example_world tables)"

lemma example_session_facts [simp]:
  "session_context (example_session x) = Some example_context"
  "audit_events (example_session x) = []" "audit_chain_heads (example_session x) = []"
  "outbox_events (example_session x) = []" "component_part (example_session x) = x"
  by (simp_all add: example_session_def started_def with_context_def example_world_def component_part_def)

lemma example_session_directory [simp]:
  "users (example_session x) = users (example_world x)" "workspaces (example_session x) = workspaces (example_world x)"
  "identity_sessions (example_session x) = identity_sessions (example_world x)"
  "workspace_memberships (example_session x) = workspace_memberships (example_world x)"
  "permissions (example_session x) = permissions (example_world x)"
  "role_permissions (example_session x) = role_permissions (example_world x)"
  "resources (example_session x) = resources (example_world x)"
  "closure_operation (example_session x) = False"
  by (simp_all add: example_session_def started_def with_context_def example_world_def)

lemma example_session_writable [simp]: "writable 2 (example_session x)"
  by (simp add: example_session_def started_def with_context_def example_world_def writable_def)

lemma example_no_bar: "\<forall>m. CHR ''|'' \<notin> set (sha256_hex example_env m)"
proof -
  have "CHR ''|'' \<notin> set (decimal w n)" for w n
  proof -
    have "digit_char d \<noteq> CHR ''|''" if "d < 10" for d
    proof -
      from that have "(of_char (digit_char d) :: nat) = 48 + d" by (simp add: digit_char_def)
      moreover have "(of_char CHR ''|'' :: nat) = 124" by simp
      ultimately show ?thesis using that by auto
    qed
    moreover have "set (decimal w n) \<subseteq> digit_char ` {0..<10}"
      by (auto simp: decimal_def dest: radix_digits_less [of 10, simplified])
    ultimately show ?thesis by force
  qed
  then show ?thesis by (simp add: example_env_def)
qed

end
