(* ===== verification/Foundation_Properties.thy ===== *)
theory Foundation_Properties
  imports Example_World
begin

text \<open>
  The properties of the ground that all services stand on: the audit chain, the transaction of
  an execution context, and authorization.
\<close>

section \<open>Audit chain\<close>

text \<open>\<open>n\<close> audit events in a row; those that the database refuses leave no row.\<close>

definition append_audit :: "py_env \<Rightarrow> (instant \<Rightarrow> audit_event) list \<Rightarrow> ('a core_db_scheme, unit) M" where
  "append_audit env mks = forM mks (\<lambda>mk. catchM (\<lambda>_. True)
     (thenM (insert_audit_event env mk) (returnM ())) (\<lambda>_. returnM ()))"

lemma audit_inv_empty: "audit_events s = [] \<Longrightarrow> audit_chain_heads s = [] \<Longrightarrow> audit_inv env s"
  by (simp add: audit_inv_def audit_inv_at_def workspace_audit_def audit_head_def)

text \<open>
  C1: Whatever audit events are appended to an empty log, and whichever of them the database
  refuses, \<open>verify_audit_chain\<close> then accepts the log of every workspace.
\<close>

theorem audit_chain_verifies:
  assumes "audit_events s = []" "audit_chain_heads s = []"
  shows "fst (verify_audit_chain env w (snd (append_audit env mks s))) = Inr True"
proof -
  have "preserves (audit_inv env) (append_audit env mks :: ('a core_db_scheme, unit) M)"
    unfolding append_audit_def by (intro inv_intros)
  then have "audit_inv env (snd (append_audit env mks s))"
    using audit_inv_empty [OF assms] by (simp add: preserves_def)
  then show ?thesis by (intro verify_linked) (simp add: audit_inv_def audit_inv_at_def)
qed

lemma audit_chain_verifies_witness:
  "fst (verify_audit_chain example_env 2 (snd (append_audit example_env
     [decision_audit_row (h1_request example_context ''read_content'') (decision_allow 1 0) 77,
      decision_audit_row (h1_request example_context ''read_content'') (decision_allow 1 0) 78]
     (example_session ())))) = Inr True"
  by (rule audit_chain_verifies) simp_all

text \<open>
  C13: Tamper evidence: two logs of a workspace that both verify, have the same length and end in
  the same digest contain the same texts at every position, unless SHA-256 maps two different
  messages of the two chains to the same digest.
\<close>

theorem audit_log_tamper_evident:
  assumes "\<forall>m. CHR ''|'' \<notin> set (sha256_hex env m)"
    and "chain_valid env [] 0 (es @ [e])" "chain_valid env [] 0 (fs @ [f])"
    and "length es = length fs" "ae_safe_digest e = Some d" "ae_safe_digest f = Some d"
  shows "chain_texts env 0 (es @ [e]) = chain_texts env 0 (fs @ [f]) \<or>
    sha256_collision env (chain_messages env [] 0 (es @ [e])) (chain_messages env [] 0 (fs @ [f]))"
proof (rule chain_end_determines_texts)
  show "chain_end env [] 0 (es @ [e]) = chain_end env [] 0 (fs @ [f])"
    using chain_valid_end [OF assms(2,5)] chain_valid_end [OF assms(3,6)] by simp
qed (use assms(1,4) in simp_all)

definition example_log :: "audit_event" where
  "example_log = fst (chain_audit_event example_env 0 []
     (decision_audit_row (h1_request example_context ''read_content'') (decision_allow 1 0) 77 0))"

lemma example_log_valid: "chain_valid example_env [] 0 ([] @ [example_log])"
  by (simp add: example_log_def chain_audit_event_def audit_head_def Let_def sql_differs_def
      coalesce_text_def compute_audit_event_digest_def audit_message_def audit_body_def)

lemma audit_log_tamper_evident_witness:
  "chain_texts example_env 0 ([] @ [example_log]) = chain_texts example_env 0 ([] @ [example_log]) \<or>
    sha256_collision example_env (chain_messages example_env [] 0 ([] @ [example_log]))
      (chain_messages example_env [] 0 ([] @ [example_log]))"
  by (rule audit_log_tamper_evident [where d = "the (ae_safe_digest example_log)"])
    (use example_log_valid example_no_bar in \<open>simp_all add: example_log_def chain_audit_event_def Let_def\<close>)

text \<open>
  C38: The converse gap: a log that lost its newest events still verifies, since the function
  does not compare the end of the log with the head of the chain.
\<close>

theorem truncated_log_verifies:
  assumes "audit_inv env s" "workspace_audit w t = take n (workspace_audit w s)"
  shows "fst (verify_audit_chain env w t) = Inr True"
proof (rule verify_linked)
  have "chain_linked env [] 0 (take n (workspace_audit w s) @ drop n (workspace_audit w s))"
    using assms(1) by (simp add: audit_inv_def audit_inv_at_def)
  then show "chain_linked env [] 0 (workspace_audit w t)"
    unfolding assms(2) by (rule chain_linked_append)
qed

lemma truncated_log_verifies_witness:
  "fst (verify_audit_chain example_env 2 (example_session ())) = Inr True"
  by (rule truncated_log_verifies [where s = "example_session ()" and n = 0])
    (simp_all add: audit_inv_empty workspace_audit_def)

section \<open>Execution context\<close>



section \<open>Authorization\<close>

text \<open>The member of the example may read; the answer is an allowing decision.\<close>

lemma example_decision:
  "wp (authorize example_env (h1_request example_context ''read_content'') (Some 0))
     (\<lambda>d s'. d = decision_allow 1 0) (\<lambda>_ _. False) (example_session ())"
proof -
  let ?r = "h1_request example_context ''read_content''"
  have req: "rq_actor_id ?r = 11" "rq_session_id ?r = 12" "rq_organization_id ?r = 1" "rq_requested_workspace_id ?r = 2"
    "rq_membership_workspace_id ?r = 2" "rq_membership_id ?r = 13" "rq_permission_key ?r = ''read_content''"
    "rq_permission_version ?r = 1"
    by (simp_all add: h1_request_def example_context_def PERMISSION_DEFINITION_VERSION_def)
  have rows: "get_actor 11 (example_session ()) = Some (hd (users (example_world ())))"
    "get_session 2 12 (example_session ()) = Some (hd (identity_sessions (example_world ())))"
    "get_membership 2 13 (example_session ()) = Some (hd (workspace_memberships (example_world ())))"
    "get_permission ''read_content'' 1 (example_session ()) = Some (example_permission ''read_content'')"
    "list_role_permission_effects ''owner'' 1 ''read_content'' 1 (example_session ()) = [EFFECT_ALLOW]"
    by (simp_all add: get_actor_def get_session_def get_membership_def get_permission_def
        list_role_permission_effects_def example_permission_def example_grant_def example_world_def)
  have head: "user_status (hd (users (example_world ()))) = USER_ACTIVE"
    "is_user_id (hd (identity_sessions (example_world ()))) = 11" "is_revoked_at (hd (identity_sessions (example_world ()))) = None"
    "is_expires_at (hd (identity_sessions (example_world ()))) = seconds 4000000000"
    "wm_user_id (hd (workspace_memberships (example_world ()))) = 11"
    "wm_organization_id (hd (workspace_memberships (example_world ()))) = 1"
    "wm_status (hd (workspace_memberships (example_world ()))) = MS_ACTIVE"
    "wm_role_key (hd (workspace_memberships (example_world ()))) = ''owner''"
    "wm_role_version (hd (workspace_memberships (example_world ()))) = 1"
    "pm_active (example_permission k)" "pm_key (example_permission k) = k" "pm_version (example_permission k) = 1" for k
    by (simp_all add: example_world_def example_permission_def)
  have rec: "wp (record_decision example_env ?r (decision_allow 1 0)) (\<lambda>_ s'. True) (\<lambda>_ _. False) (example_session ())"
    by (simp add: wp_simps record_decision_def wp_insert_audit_event audit_event_constraints_def workspace_exists_def
      decision_audit_row_def chain_audit_event_def decision_outbox_row_def writable_def outbox_event_constraints_def Let_def
      req example_world_def)
  show ?thesis
    unfolding authorize_def or_now_def option.case
    by (simp add: wp_simps req rows head Let_def seconds_def rec)
qed

text \<open>
  C5: A request is allowed exactly when the actor is active, the session is the actor's own, open
  and not expired, the membership is the actor's own and active in the requested workspace, the
  permission is active, and the role of the member allows it and nowhere denies it.
\<close>

theorem authorize_allows_iff:
  assumes "authorize env r (Some t) s = (Inr d, s')"
  shows "dc_effect d = ALLOW \<longleftrightarrow> grants r t s"
  using authorize_cases [OF assms] by blast

lemma authorize_allows_iff_witness:
  "\<exists>d s'. authorize example_env (h1_request example_context ''read_content'') (Some 0) (example_session ()) = (Inr d, s') \<and>
     (dc_effect d = ALLOW \<longleftrightarrow> grants (h1_request example_context ''read_content'') 0 (example_session ()))"
  using example_decision by (cases rule: wp_cases) (use authorize_allows_iff in blast)+

text \<open>
  Every decision leaves exactly one audit event and one outbox event with the decision and its
  reason; a denial is recorded no less than a permission.
\<close>

theorem authorize_records_decision:
  assumes "authorize env r (Some t) s = (Inr d, s')"
  shows "decision_recorded r d s s' \<and> writable (rq_requested_workspace_id r) s \<and>
    (dc_effect d = ALLOW \<longleftrightarrow> dc_reason d = ALLOWED)"
  using authorize_cases [OF assms] record_decision_records by blast

lemma authorize_records_decision_witness:
  "\<exists>d s'. authorize example_env (h1_request example_context ''read_content'') (Some 0) (example_session ()) = (Inr d, s') \<and>
     decision_recorded (h1_request example_context ''read_content'') d (example_session ()) s'"
  using example_decision by (cases rule: wp_cases) (use authorize_records_decision in blast)+

end
