(* ===== verification/Audit_Writer.thy ===== *)
theory Audit_Writer
  imports Authorization
begin

text \<open>
  \<open>AuditWriterService\<close> of \<open>app/messaging/service.py\<close>, through which every service writes to the
  audit log, and \<open>AuditInput\<close> of \<open>app/messaging/contracts.py\<close>.
\<close>

record audit_input =
  ai_action :: string
  ai_target_type :: string
  ai_target_id :: uuid
  ai_outcome :: string
  ai_decision_id :: "uuid option"
  ai_classification :: string
  ai_details :: "json option"

text \<open>\<open>AuditInput\<close> with the defaults of its last three fields.\<close>

definition audit_input :: "string \<Rightarrow> string \<Rightarrow> uuid \<Rightarrow> string \<Rightarrow> audit_input" where
  "audit_input action target_type target_id outcome = \<lparr>ai_action = action, ai_target_type = target_type,
     ai_target_id = target_id, ai_outcome = outcome, ai_decision_id = None,
     ai_classification = ''internal'', ai_details = None\<rparr>"

definition details_or_empty :: "json option \<Rightarrow> json" where
  "details_or_empty details = (case details of None \<Rightarrow> JObj [] | Some d \<Rightarrow> d)"

definition written_audit_row :: "execution_context \<Rightarrow> audit_input \<Rightarrow> json \<Rightarrow> uuid \<Rightarrow> instant \<Rightarrow> audit_event" where
  "written_audit_row ctx audit details i now = \<lparr>
     ae_workspace_id = ctx_workspace ctx, ae_id = i,
     ae_actor_type = ''user'', ae_actor_id = Some (ctx_actor ctx),
     ae_action = ai_action audit, ae_target_type = ai_target_type audit,
     ae_target_id = ai_target_id audit, ae_outcome = ai_outcome audit,
     ae_details = details,
     ae_decision_id = (case ai_decision_id audit of
        Some d \<Rightarrow> Some d | None \<Rightarrow> Some (authorization_decision_id (ec_actor ctx))),
     ae_correlation_id = Some (correlation_id (ec_request ctx)), ae_causation_id = None,
     ae_classification = ai_classification audit, ae_chain_sequence = None, ae_previous_digest = None,
     ae_safe_digest = None, ae_retention_until = None, ae_partition_key = None, ae_recorded_at = now\<rparr>"

definition audit_write :: "py_env \<Rightarrow> execution_context \<Rightarrow> audit_input \<Rightarrow> ('a core_db_scheme, audit_event) M" where
  "audit_write env ctx audit =
     bindM (liftM (messaging_safe_payload (details_or_empty (ai_details audit)))) (\<lambda>details.
     bindM (uuid4 env) (\<lambda>i.
     insert_audit_event env (written_audit_row ctx audit details i)))"

definition verify_chain :: "py_env \<Rightarrow> execution_context \<Rightarrow> ('a core_db_scheme, bool) M" where
  "verify_chain env ctx = verify_audit_chain env (ctx_workspace ctx)"

section \<open>Steps of a proof\<close>

lemma keeps_audit_write [frame_intros]: "keeps rest_part (audit_write env ctx a)"
  unfolding audit_write_def by (intro frame_intros)

lemma preserves_audit_write [inv_intros]: "preserves (audit_inv env) (audit_write env ctx a)"
  unfolding audit_write_def by (intro inv_intros)

text \<open>What is known of the row that a write appends.\<close>

definition audit_row_of :: "execution_context \<Rightarrow> audit_input \<Rightarrow> audit_event \<Rightarrow> bool" where
  "audit_row_of ctx a e \<longleftrightarrow> ae_workspace_id e = ctx_workspace ctx \<and>
     ae_actor_id e = Some (ctx_actor ctx) \<and> ae_action e = ai_action a \<and>
     ae_target_type e = ai_target_type a \<and> ae_target_id e = ai_target_id a \<and>
     ae_outcome e = ai_outcome a \<and> ae_details e = details_or_empty (ai_details a)"

lemma wp_audit_write:
  assumes "\<And>e s1. rest_part s1 = rest_part s \<Longrightarrow> outbox_events s1 = outbox_events s \<Longrightarrow>
      audit_events s1 = audit_events s @ [e] \<Longrightarrow> audit_row_of ctx a e \<Longrightarrow> Q e s1"
    and "\<And>x s1. rest_part s1 = rest_part s \<Longrightarrow> E x s1"
  shows "wp (audit_write env ctx a) Q E s"
proof (cases "messaging_safe_payload (details_or_empty (ai_details a))")
  case (Inl x)
  then show ?thesis by (simp add: audit_write_def wp_simps assms(2))
next
  case (Inr d)
  then have d: "d = details_or_empty (ai_details a)" using messaging_safe_payload_clean by blast
  show ?thesis
    unfolding audit_write_def wp_bindM wp_liftM Inr sum.case wp_uuid4
  proof (rule wp_insert_audit)
    fix now e and s1 :: "'a core_db_scheme"
    let ?s = "s\<lparr>draws := Suc (draws s)\<rparr>"
    assume *: "rest_part s1 = rest_part ?s" "outbox_events s1 = outbox_events ?s"
      "audit_events s1 = audit_events ?s @ [e]"
      "unchained e = unchained (written_audit_row ctx a d (uuid4_stream env (draws s)) now)"
    from unchained_eqD [OF *(4)] have "audit_row_of ctx a e"
      by (simp add: audit_row_of_def written_audit_row_def d)
    with * show "Q e s1" by (intro assms(1)) (simp_all add: part_defs)
  next
    fix x and s1 :: "'a core_db_scheme"
    assume "rest_part s1 = rest_part (s\<lparr>draws := Suc (draws s)\<rparr>)"
    then show "E x s1" by (intro assms(2)) (simp add: part_defs)
  qed
qed

text \<open>A write that succeeds, for runs that are followed step by step.\<close>

lemma wp_audit_write_succeeds:
  assumes "messaging_safe_payload (details_or_empty (ai_details a)) = Inr (details_or_empty (ai_details a))"
    and "workspace_exists (ctx_workspace ctx) s"
    and "list_all (\<lambda>x. ae_id x \<noteq> uuid4_stream env (draws s)) (audit_events s)"
    and "\<And>e hs. ae_safe_digest e \<noteq> None \<Longrightarrow> audit_row_of ctx a e \<Longrightarrow> ae_id e = uuid4_stream env (draws s) \<Longrightarrow>
      Q e (s\<lparr>draws := Suc (Suc (draws s)), audit_events := audit_events s @ [e], audit_chain_heads := hs\<rparr>)"
  shows "wp (audit_write env ctx a) Q E s"
proof -
  let ?mk = "written_audit_row ctx a (details_or_empty (ai_details a)) (uuid4_stream env (draws s))"
  let ?s = "s\<lparr>draws := Suc (draws s)\<rparr>"
  have ws: "ae_workspace_id (?mk n) = ctx_workspace ctx" "ae_id (?mk n) = uuid4_stream env (draws s)" for n
    by (simp_all add: written_audit_row_def)
  have p: "workspace_exists (ae_workspace_id (?mk (clock_stream env (draws ?s)))) ?s"
    "list_all (\<lambda>x. (ae_workspace_id x, ae_id x) \<noteq> (ae_workspace_id (?mk (clock_stream env (draws ?s))),
      ae_id (?mk (clock_stream env (draws ?s))))) (audit_events ?s)"
    using assms(2,3) unfolding ws by (simp_all add: workspace_exists_def list_all_iff)
  obtain e hs where e: "insert_audit_event env ?mk ?s = (Inr e, ?s\<lparr>draws := Suc (draws ?s),
      audit_events := audit_events ?s @ [e], audit_chain_heads := hs\<rparr>)"
    "unchained e = unchained (?mk (clock_stream env (draws ?s)))" "ae_safe_digest e \<noteq> None"
    by (rule insert_audit_event_succeeds [of ?mk env ?s, OF p])
  have "audit_row_of ctx a e"
    using unchained_eqD [OF e(2)] by (simp add: audit_row_of_def written_audit_row_def)
  moreover have "ae_id e = uuid4_stream env (draws s)" using unchained_eqD [OF e(2)] ws by simp
  ultimately have "Q e (s\<lparr>draws := Suc (Suc (draws s)), audit_events := audit_events s @ [e],
      audit_chain_heads := hs\<rparr>)"
    by (intro assms(4) e(3))
  then have "wp (insert_audit_event env ?mk) Q E ?s" unfolding wp_def e(1) by simp
  then show ?thesis
    unfolding audit_write_def wp_bindM wp_liftM assms(1) sum.case wp_uuid4 .
qed

end
