(* ===== verification/Messaging.thy ===== *)
theory Messaging
  imports Audit_Writer
begin

text \<open>
  Commands with caller-owned idempotency keys and optimistic versions, and the consumer side:
  inbox, per-aggregate sequence, quarantine and replay. Sources: \<open>app/messaging/contracts.py\<close>,
  \<open>models.py\<close>, \<open>repository.py\<close> and \<open>service.py\<close>.

  \<open>apply\<close>, the handler of an event, is a parameter. An event payload is stored as JSON and
  read back key by key, so the order of its keys does not matter.
\<close>

section \<open>Contracts\<close>

datatype consumer_result = PROCESSED | DUPLICATE | GAP | QUARANTINED | DRY_RUN

record command_envelope =
  cm_workspace_id :: uuid
  cm_actor_id :: uuid
  cm_command_type :: string
  cm_idempotency_key :: string
  cm_aggregate_type :: string
  cm_aggregate_id :: uuid
  cm_expected_version :: int
  cm_correlation_id :: string
  cm_payload :: json
  cm_causation_id :: "uuid option"
  cm_delegation_id :: "uuid option"

text \<open>The loop over \<open>(value, name)\<close> pairs of the two \<open>__post_init__\<close>.\<close>

fun require_named :: "(string \<times> string) list \<Rightarrow> py_error + unit" where
  "require_named [] = Inr ()"
| "require_named ((value, name) # rest) =
     (if py_strip value = [] then Inl (ValueError (name @ '' is required'')) else require_named rest)"

definition make_command :: "command_envelope \<Rightarrow> py_error + command_envelope" where
  "make_command c =
     (case require_named [(cm_command_type c, ''command type''), (cm_idempotency_key c, ''idempotency key''),
         (cm_aggregate_type c, ''aggregate type''), (cm_correlation_id c, ''correlation id'')] of
        Inl e \<Rightarrow> Inl e
      | Inr _ \<Rightarrow> if cm_expected_version c < 0
          then Inl (ValueError ''expected version cannot be negative'') else Inr c)"

definition command_json :: "command_envelope \<Rightarrow> json" where
  "command_json c = JObj
     [(''workspace_id'', JStr (uuid_str (cm_workspace_id c))),
      (''actor_id'', JStr (uuid_str (cm_actor_id c))),
      (''command_type'', JStr (cm_command_type c)),
      (''aggregate_type'', JStr (cm_aggregate_type c)),
      (''aggregate_id'', JStr (uuid_str (cm_aggregate_id c))),
      (''expected_version'', JInt (cm_expected_version c)),
      (''correlation_id'', JStr (cm_correlation_id c)),
      (''causation_id'', json_opt_uuid (cm_causation_id c)),
      (''delegation_id'', json_opt_uuid (cm_delegation_id c)),
      (''payload'', cm_payload c)]"

definition payload_digest :: "py_env \<Rightarrow> json \<Rightarrow> py_error + string" where
  "payload_digest env payload =
     (case json_dumps payload of None \<Rightarrow> Inl TypeError | Some encoded \<Rightarrow> Inr (sha256_hex env encoded))"

definition request_digest :: "py_env \<Rightarrow> command_envelope \<Rightarrow> py_error + string" where
  "request_digest env c = payload_digest env (command_json c)"

record event_envelope =
  ev_event_id :: uuid
  ev_event_type :: string
  ev_schema_major :: int
  ev_schema_minor :: int
  ev_workspace_id :: uuid
  ev_aggregate_type :: string
  ev_aggregate_id :: uuid
  ev_aggregate_sequence :: int
  ev_actor_id :: "uuid option"
  ev_correlation_id :: string
  ev_occurred_at :: instant
  ev_classification :: string
  ev_payload :: json
  ev_causation_id :: "uuid option"
  ev_delegation_id :: "uuid option"

definition make_event :: "event_envelope \<Rightarrow> py_error + event_envelope" where
  "make_event e =
     (if ev_schema_major e < 1 \<or> ev_schema_minor e < 0 then Inl (ValueError ''event schema version is invalid'')
      else if ev_aggregate_sequence e < 1 then Inl (ValueError ''aggregate sequence must be positive'')
      else case require_named [(ev_event_type e, ''event type''), (ev_aggregate_type e, ''aggregate type''),
             (ev_correlation_id e, ''correlation id''), (ev_classification e, ''classification'')] of
        Inl x \<Rightarrow> Inl x
      | Inr _ \<Rightarrow> Inr e)"

record command_result =
  cr_event_id :: uuid
  cr_aggregate_version :: int
  cr_replayed :: bool

section \<open>Tables\<close>

datatype command_status = STARTED | COMPLETED

record command_idempotency =
  ci_workspace_id :: uuid
  ci_actor_id :: uuid
  ci_command_type :: string
  ci_idempotency_key :: string
  ci_request_digest :: string
  ci_status :: command_status
  ci_outcome_event_id :: "uuid option"
  ci_aggregate_version :: "int option"
  ci_correlation_id :: string
  ci_created_at :: instant
  ci_completed_at :: "instant option"
  ci_retention_until :: "instant option"

record aggregate_version =
  av_workspace_id :: uuid
  av_aggregate_type :: string
  av_aggregate_id :: uuid
  av_version :: int
  av_updated_at :: instant

datatype inbox_status = INBOX_PROCESSED | INBOX_QUARANTINED

record inbox_event =
  in_workspace_id :: uuid
  in_consumer_id :: string
  in_event_id :: uuid
  in_event_type :: string
  in_schema_major :: int
  in_schema_minor :: int
  in_aggregate_type :: string
  in_aggregate_id :: uuid
  in_aggregate_sequence :: int
  in_status :: inbox_status
  in_payload_digest :: string
  in_processed_at :: instant
  in_retention_until :: "instant option"

record consumer_sequence =
  cs_workspace_id :: uuid
  cs_consumer_id :: string
  cs_aggregate_type :: string
  cs_aggregate_id :: uuid
  cs_last_sequence :: int
  cs_updated_at :: instant

datatype quarantine_reason = Unknown_schema | Sequence_gap | Stale_sequence | Poison_message

datatype quarantine_status = EQ_QUARANTINED | EQ_REPLAYED

record event_quarantine =
  eq_workspace_id :: uuid
  eq_id :: uuid
  eq_consumer_id :: string
  eq_event_id :: uuid
  eq_reason :: quarantine_reason
  eq_expected_sequence :: "int option"
  eq_observed_sequence :: "int option"
  eq_event_payload :: json
  eq_payload_digest :: string
  eq_status :: quarantine_status
  eq_quarantined_at :: instant
  eq_replayed_at :: "instant option"
  eq_replayed_by :: "uuid option"
  eq_replay_decision_id :: "uuid option"
  eq_retention_until :: "instant option"

text \<open>The session with the tables of this component, and the primary keys.\<close>

record msg_db = core_db +
  command_records :: "command_idempotency list"
  aggregate_versions :: "aggregate_version list"
  inbox_events :: "inbox_event list"
  consumer_sequences :: "consumer_sequence list"
  quarantined_events :: "event_quarantine list"

definition ci_key :: "command_idempotency \<Rightarrow> uuid \<times> uuid \<times> string \<times> string" where
  "ci_key r = (ci_workspace_id r, ci_actor_id r, ci_command_type r, ci_idempotency_key r)"

definition command_key :: "command_envelope \<Rightarrow> uuid \<times> uuid \<times> string \<times> string" where
  "command_key c = (cm_workspace_id c, cm_actor_id c, cm_command_type c, cm_idempotency_key c)"

definition av_key :: "aggregate_version \<Rightarrow> uuid \<times> string \<times> uuid" where
  "av_key r = (av_workspace_id r, av_aggregate_type r, av_aggregate_id r)"

definition in_key :: "inbox_event \<Rightarrow> uuid \<times> string \<times> uuid" where
  "in_key r = (in_workspace_id r, in_consumer_id r, in_event_id r)"

definition cs_key :: "consumer_sequence \<Rightarrow> uuid \<times> string \<times> string \<times> uuid" where
  "cs_key r = (cs_workspace_id r, cs_consumer_id r, cs_aggregate_type r, cs_aggregate_id r)"

definition event_sequence_key :: "event_envelope \<Rightarrow> string \<Rightarrow> uuid \<times> string \<times> string \<times> uuid" where
  "event_sequence_key e consumer = (ev_workspace_id e, consumer, ev_aggregate_type e, ev_aggregate_id e)"

definition eq_key :: "event_quarantine \<Rightarrow> uuid \<times> uuid" where
  "eq_key r = (eq_workspace_id r, eq_id r)"

section \<open>Repository\<close>

text \<open>
  \<open>INSERT ... ON CONFLICT DO NOTHING RETURNING\<close>: nothing happens when a row has the key. The
  foreign key into \<open>workspaces\<close> holds since the write guard found the workspace.
\<close>

definition claim_command :: "py_env \<Rightarrow> execution_context \<Rightarrow> command_envelope \<Rightarrow>
    ('a msg_db_scheme, command_idempotency \<times> bool) M" where
  "claim_command env ctx c =
     thenM (require_workspace ctx (cm_workspace_id c))
     (bindM (liftM (request_digest env c)) (\<lambda>digest.
      thenM (enforce_workspace_write_state (cm_workspace_id c))
      (bindM (utc_now env) (\<lambda>now.
       bindM (getsM (\<lambda>s. List.find (\<lambda>r. ci_key r = command_key c) (command_records s))) (\<lambda>found.
       case found of
         Some r \<Rightarrow> returnM (r, False)
       | None \<Rightarrow>
           (let r = \<lparr>ci_workspace_id = cm_workspace_id c, ci_actor_id = cm_actor_id c,
                 ci_command_type = cm_command_type c, ci_idempotency_key = cm_idempotency_key c,
                 ci_request_digest = digest, ci_status = STARTED, ci_outcome_event_id = None,
                 ci_aggregate_version = None, ci_correlation_id = cm_correlation_id c,
                 ci_created_at = now, ci_completed_at = None, ci_retention_until = None\<rparr>
            in thenM (modifyM (\<lambda>s. s\<lparr>command_records := command_records s @ [r]\<rparr>)) (returnM (r, True))))))))"

definition lock_aggregate :: "py_env \<Rightarrow> execution_context \<Rightarrow> uuid \<Rightarrow> string \<Rightarrow> uuid \<Rightarrow>
    ('a msg_db_scheme, aggregate_version) M" where
  "lock_aggregate env ctx w t i =
     thenM (require_workspace ctx w)
     (thenM (enforce_workspace_write_state w)
     (bindM (utc_now env) (\<lambda>now.
      bindM (getsM (\<lambda>s. List.find (\<lambda>r. av_key r = (w, t, i)) (aggregate_versions s))) (\<lambda>found.
      case found of
        Some r \<Rightarrow> returnM r
      | None \<Rightarrow>
          (let r = \<lparr>av_workspace_id = w, av_aggregate_type = t, av_aggregate_id = i, av_version = 0,
                av_updated_at = now\<rparr>
           in thenM (modifyM (\<lambda>s. s\<lparr>aggregate_versions := aggregate_versions s @ [r]\<rparr>)) (returnM r))))))"

definition claim_inbox :: "py_env \<Rightarrow> execution_context \<Rightarrow> event_envelope \<Rightarrow> string \<Rightarrow> inbox_status \<Rightarrow> string \<Rightarrow>
    ('a msg_db_scheme, bool) M" where
  "claim_inbox env ctx e consumer status digest =
     thenM (require_workspace ctx (ev_workspace_id e))
     (thenM (enforce_workspace_write_state (ev_workspace_id e))
     (bindM (utc_now env) (\<lambda>now.
      bindM (getsM (\<lambda>s. List.find (\<lambda>r. in_key r = (ev_workspace_id e, consumer, ev_event_id e))
        (inbox_events s))) (\<lambda>found.
      case found of
        Some r \<Rightarrow> returnM False
      | None \<Rightarrow> thenM (modifyM (\<lambda>s. s\<lparr>inbox_events := inbox_events s @
            [\<lparr>in_workspace_id = ev_workspace_id e, in_consumer_id = consumer, in_event_id = ev_event_id e,
              in_event_type = ev_event_type e, in_schema_major = ev_schema_major e,
              in_schema_minor = ev_schema_minor e, in_aggregate_type = ev_aggregate_type e,
              in_aggregate_id = ev_aggregate_id e, in_aggregate_sequence = ev_aggregate_sequence e,
              in_status = status, in_payload_digest = digest, in_processed_at = now,
              in_retention_until = None\<rparr>]\<rparr>)) (returnM True)))))"

definition lock_consumer_sequence :: "py_env \<Rightarrow> execution_context \<Rightarrow> event_envelope \<Rightarrow> string \<Rightarrow>
    ('a msg_db_scheme, consumer_sequence) M" where
  "lock_consumer_sequence env ctx e consumer =
     thenM (require_workspace ctx (ev_workspace_id e))
     (thenM (enforce_workspace_write_state (ev_workspace_id e))
     (bindM (utc_now env) (\<lambda>now.
      bindM (getsM (\<lambda>s. List.find (\<lambda>r. cs_key r = event_sequence_key e consumer) (consumer_sequences s))) (\<lambda>found.
      case found of
        Some r \<Rightarrow> returnM r
      | None \<Rightarrow>
          (let r = \<lparr>cs_workspace_id = ev_workspace_id e, cs_consumer_id = consumer,
                cs_aggregate_type = ev_aggregate_type e, cs_aggregate_id = ev_aggregate_id e,
                cs_last_sequence = 0, cs_updated_at = now\<rparr>
           in thenM (modifyM (\<lambda>s. s\<lparr>consumer_sequences := consumer_sequences s @ [r]\<rparr>)) (returnM r))))))"

definition event_quarantine_constraints :: "event_quarantine \<Rightarrow> 'a msg_db_scheme \<Rightarrow> (string \<times> bool) list" where
  "event_quarantine_constraints q s =
     [(''pk_event_quarantine'', list_all (\<lambda>r. eq_key r \<noteq> eq_key q) (quarantined_events s)),
      (''uq_event_quarantine_consumer_event'', list_all (\<lambda>r.
         (eq_workspace_id r, eq_consumer_id r, eq_event_id r) \<noteq>
         (eq_workspace_id q, eq_consumer_id q, eq_event_id q)) (quarantined_events s))]"

definition add_quarantine :: "execution_context \<Rightarrow> event_quarantine \<Rightarrow> ('a msg_db_scheme, unit) M" where
  "add_quarantine ctx q =
     thenM (require_workspace ctx (eq_workspace_id q))
     (thenM (enforce_workspace_write_state (eq_workspace_id q))
     (bindM (getsM (event_quarantine_constraints q)) (\<lambda>cs.
      thenM (check_constraints cs)
      (modifyM (\<lambda>s. s\<lparr>quarantined_events := quarantined_events s @ [q]\<rparr>)))))"

definition get_quarantine :: "execution_context \<Rightarrow> uuid \<Rightarrow> uuid \<Rightarrow> ('a msg_db_scheme, event_quarantine option) M" where
  "get_quarantine ctx w i =
     thenM (require_workspace ctx w)
     (getsM (\<lambda>s. List.find (\<lambda>q. eq_key q = (w, i)) (quarantined_events s)))"

definition get_inbox :: "execution_context \<Rightarrow> uuid \<Rightarrow> string \<Rightarrow> uuid \<Rightarrow> ('a msg_db_scheme, inbox_event option) M" where
  "get_inbox ctx w consumer i =
     thenM (require_workspace ctx w)
     (getsM (\<lambda>s. List.find (\<lambda>r. in_key r = (w, consumer, i)) (inbox_events s)))"

text \<open>A changed object is flushed: the write guard fires, the row is replaced.\<close>

definition save_command :: "command_idempotency \<Rightarrow> ('a msg_db_scheme, unit) M" where
  "save_command r = thenM (enforce_workspace_write_state (ci_workspace_id r))
     (modifyM (\<lambda>s. s\<lparr>command_records := replace_row ci_key r (command_records s)\<rparr>))"

definition save_aggregate :: "py_env \<Rightarrow> aggregate_version \<Rightarrow> ('a msg_db_scheme, unit) M" where
  "save_aggregate env r = thenM (enforce_workspace_write_state (av_workspace_id r))
     (bindM (utc_now env) (\<lambda>now.
      modifyM (\<lambda>s. s\<lparr>aggregate_versions := replace_row av_key (r\<lparr>av_updated_at := now\<rparr>) (aggregate_versions s)\<rparr>)))"

definition save_inbox :: "inbox_event \<Rightarrow> ('a msg_db_scheme, unit) M" where
  "save_inbox r = thenM (enforce_workspace_write_state (in_workspace_id r))
     (modifyM (\<lambda>s. s\<lparr>inbox_events := replace_row in_key r (inbox_events s)\<rparr>))"

definition save_sequence :: "py_env \<Rightarrow> consumer_sequence \<Rightarrow> ('a msg_db_scheme, unit) M" where
  "save_sequence env r = thenM (enforce_workspace_write_state (cs_workspace_id r))
     (bindM (utc_now env) (\<lambda>now.
      modifyM (\<lambda>s. s\<lparr>consumer_sequences := replace_row cs_key (r\<lparr>cs_updated_at := now\<rparr>) (consumer_sequences s)\<rparr>)))"

definition save_quarantine :: "event_quarantine \<Rightarrow> ('a msg_db_scheme, unit) M" where
  "save_quarantine r = thenM (enforce_workspace_write_state (eq_workspace_id r))
     (modifyM (\<lambda>s. s\<lparr>quarantined_events := replace_row eq_key r (quarantined_events s)\<rparr>))"


section \<open>Commands\<close>

definition command_outbox_row :: "command_envelope \<Rightarrow> string \<Rightarrow> json \<Rightarrow> string \<Rightarrow> int \<Rightarrow> int \<Rightarrow> uuid \<Rightarrow> int \<Rightarrow>
    instant \<Rightarrow> instant \<Rightarrow> outbox_event" where
  "command_outbox_row c event_type payload digest schema_major schema_minor event_id version occurred_at now = \<lparr>
     oe_workspace_id = cm_workspace_id c, oe_id = event_id, oe_event_type = event_type,
     oe_schema_version = schema_major, oe_aggregate_type = cm_aggregate_type c,
     oe_aggregate_id = cm_aggregate_id c, oe_aggregate_sequence = version, oe_payload = payload,
     oe_actor_id = Some (cm_actor_id c), oe_delegation_id = cm_delegation_id c,
     oe_correlation_id = Some (cm_correlation_id c), oe_causation_id = cm_causation_id c,
     oe_classification = ''internal'', oe_schema_major = schema_major, oe_schema_minor = schema_minor,
     oe_idempotency_key = Some (cm_idempotency_key c), oe_payload_digest = Some digest,
     oe_available_at = now, oe_attempt_count = 0, oe_quarantined = False, oe_retention_until = None,
     oe_partition_key = Some (py_year_month occurred_at), oe_recorded_at = occurred_at,
     oe_published_at = None, oe_last_error = None\<rparr>"

text \<open>
  What follows when the key was new: \<open>idempotency\<close> is the row that was inserted, \<open>aggregate\<close>
  the locked row of the aggregate.
\<close>

definition complete_command :: "py_env \<Rightarrow> execution_context \<Rightarrow> command_envelope \<Rightarrow> string \<Rightarrow> json \<Rightarrow> int \<Rightarrow> int \<Rightarrow>
    instant option \<Rightarrow> command_idempotency \<Rightarrow> aggregate_version \<Rightarrow> ('a msg_db_scheme, command_result) M" where
  "complete_command env ctx c event_type safe_event_payload schema_major schema_minor now idempotency aggregate =
     (let version = av_version aggregate + 1 in
      bindM (uuid4 env) (\<lambda>event_id.
      bindM (or_now env now) (\<lambda>occurred_at.
      thenM (save_aggregate env (aggregate\<lparr>av_version := version\<rparr>))
      (bindM (audit_write env ctx ((audit_input (cm_command_type c) (cm_aggregate_type c)
           (cm_aggregate_id c) ''success'')\<lparr>ai_details := Some (JObj
             [(''aggregate_version'', JInt version), (''event_id'', JStr (uuid_str event_id))])\<rparr>)) (\<lambda>audit.
       bindM (liftM (payload_digest env safe_event_payload)) (\<lambda>digest.
       thenM (insert_outbox_event (command_outbox_row c event_type safe_event_payload digest
                schema_major schema_minor event_id version occurred_at (ae_recorded_at audit)))
       (thenM (save_command (idempotency\<lparr>ci_status := COMPLETED, ci_outcome_event_id := Some event_id,
                ci_aggregate_version := Some version, ci_completed_at := Some occurred_at\<rparr>))
       (thenM (requireM (ae_safe_digest audit \<noteq> None) AssertionError)
       (returnM \<lparr>cr_event_id = event_id, cr_aggregate_version = version, cr_replayed = False\<rparr>)))))))))"

definition record_new_command :: "py_env \<Rightarrow> execution_context \<Rightarrow> command_envelope \<Rightarrow> string \<Rightarrow> json \<Rightarrow> int \<Rightarrow> int \<Rightarrow>
    instant option \<Rightarrow> command_idempotency \<Rightarrow> ('a msg_db_scheme, command_result) M" where
  "record_new_command env ctx c event_type safe_event_payload schema_major schema_minor now idempotency =
     bindM (lock_aggregate env ctx (cm_workspace_id c) (cm_aggregate_type c) (cm_aggregate_id c)) (\<lambda>aggregate.
     thenM (requireM (av_version aggregate = cm_expected_version c) ConcurrencyConflict)
     (complete_command env ctx c event_type safe_event_payload schema_major schema_minor now idempotency aggregate))"

definition record_command :: "py_env \<Rightarrow> execution_context \<Rightarrow> command_envelope \<Rightarrow> string \<Rightarrow> json \<Rightarrow> int \<Rightarrow> int \<Rightarrow>
    instant option \<Rightarrow> ('a msg_db_scheme, command_result) M" where
  "record_command env ctx c event_type event_payload schema_major schema_minor now =
     thenM (requireM (cm_workspace_id c = ctx_workspace ctx)
              (MessagingError Command_workspace_context_does_not_match))
     (thenM (requireM (cm_actor_id c = ctx_actor ctx) (MessagingError Command_actor_context_does_not_match))
     (bindM (liftM (messaging_safe_payload event_payload)) (\<lambda>safe_event_payload.
      bindM (claim_command env ctx c) (\<lambda>(idempotency, created).
      if created
        then record_new_command env ctx c event_type safe_event_payload schema_major schema_minor now idempotency
      else
        bindM (liftM (request_digest env c)) (\<lambda>digest.
        thenM (requireM (ci_request_digest idempotency = digest)
                 (MessagingIdempotencyConflict Key_was_reused_with_changed_input))
        (case (ci_status idempotency, ci_outcome_event_id idempotency, ci_aggregate_version idempotency) of
           (COMPLETED, Some event_id, Some version) \<Rightarrow>
             returnM \<lparr>cr_event_id = event_id, cr_aggregate_version = version, cr_replayed = True\<rparr>
         | _ \<Rightarrow> raiseM (MessagingIdempotencyConflict Matching_command_is_still_in_progress)))))))"

section \<open>Events as JSON\<close>

definition serialize_event :: "event_envelope \<Rightarrow> json" where
  "serialize_event e = JObj
     [(''event_id'', JStr (uuid_str (ev_event_id e))),
      (''event_type'', JStr (ev_event_type e)),
      (''schema_major'', JInt (ev_schema_major e)),
      (''schema_minor'', JInt (ev_schema_minor e)),
      (''workspace_id'', JStr (uuid_str (ev_workspace_id e))),
      (''aggregate_type'', JStr (ev_aggregate_type e)),
      (''aggregate_id'', JStr (uuid_str (ev_aggregate_id e))),
      (''aggregate_sequence'', JInt (ev_aggregate_sequence e)),
      (''actor_id'', json_opt_uuid (ev_actor_id e)),
      (''correlation_id'', JStr (ev_correlation_id e)),
      (''occurred_at'', JStr (py_isoformat (ev_occurred_at e))),
      (''classification'', JStr (ev_classification e)),
      (''payload'', ev_payload e),
      (''causation_id'', json_opt_uuid (ev_causation_id e)),
      (''delegation_id'', json_opt_uuid (ev_delegation_id e))]"

text \<open>\<open>str\<close> of a value that was decoded from JSON, and the truth of one.\<close>

fun py_str :: "py_env \<Rightarrow> json \<Rightarrow> string" where
  "py_str env (JStr s) = s"
| "py_str env (JInt n) = int_str n"
| "py_str env (JBool b) = (if b then ''True'' else ''False'')"
| "py_str env JNull = ''None''"
| "py_str env v = container_str env v"

fun json_truthy :: "json \<Rightarrow> bool" where
  "json_truthy JNull = False"
| "json_truthy (JBool b) = b"
| "json_truthy (JInt n) = (n \<noteq> 0)"
| "json_truthy (JStr s) = (s \<noteq> [])"
| "json_truthy (JList vs) = (vs \<noteq> [])"
| "json_truthy (JObj kvs) = (kvs \<noteq> [])"
| "json_truthy JOpaque = True"

text \<open>\<open>convert(str(value[key]))\<close> and \<open>convert(str(value[key])) if value.get(key) else None\<close>.\<close>

definition field :: "py_env \<Rightarrow> string \<Rightarrow> json \<Rightarrow> py_error + string" where
  "field env k v = (case json_get k v of None \<Rightarrow> Inl KeyError | Some x \<Rightarrow> Inr (py_str env x))"

definition converted :: "(string \<Rightarrow> 'b option) \<Rightarrow> string \<Rightarrow> py_error + string \<Rightarrow> py_error + 'b" where
  "converted f what r = (case r of Inl e \<Rightarrow> Inl e
     | Inr t \<Rightarrow> (case f t of None \<Rightarrow> Inl (ValueError what) | Some x \<Rightarrow> Inr x))"

definition uuid_field :: "py_env \<Rightarrow> string \<Rightarrow> json \<Rightarrow> py_error + uuid" where
  "uuid_field env k v = converted uuid_parse ''badly formed hexadecimal UUID string'' (field env k v)"

definition int_field :: "py_env \<Rightarrow> string \<Rightarrow> json \<Rightarrow> py_error + int" where
  "int_field env k v = converted parse_int ''invalid literal for int()'' (field env k v)"

definition time_field :: "py_env \<Rightarrow> string \<Rightarrow> json \<Rightarrow> py_error + instant" where
  "time_field env k v = converted py_fromisoformat ''Invalid isoformat string'' (field env k v)"

definition optional_uuid_field :: "py_env \<Rightarrow> string \<Rightarrow> json \<Rightarrow> py_error + uuid option" where
  "optional_uuid_field env k v = (case json_get k v of
     None \<Rightarrow> Inr None
   | Some x \<Rightarrow> if json_truthy x
       then converted (\<lambda>t. map_option Some (uuid_parse t)) ''badly formed hexadecimal UUID string'' (Inr (py_str env x))
       else Inr None)"

text \<open>\<open>dict(value["payload"])\<close>; the stored payload of an event is an object.\<close>

definition payload_field :: "string \<Rightarrow> json \<Rightarrow> py_error + json" where
  "payload_field k v = (case json_get k v of
     None \<Rightarrow> Inl KeyError
   | Some (JObj kvs) \<Rightarrow> Inr (JObj kvs)
   | Some _ \<Rightarrow> Inl TypeError)"

definition bindE :: "py_error + 'a \<Rightarrow> ('a \<Rightarrow> py_error + 'b) \<Rightarrow> py_error + 'b" where
  "bindE r f = (case r of Inl e \<Rightarrow> Inl e | Inr x \<Rightarrow> f x)"

lemma bindE_simps [simp]: "bindE (Inl e) f = Inl e" "bindE (Inr x) f = f x"
  by (simp_all add: bindE_def)

definition deserialize_event :: "py_env \<Rightarrow> json \<Rightarrow> py_error + event_envelope" where
  "deserialize_event env v =
     bindE (uuid_field env ''event_id'' v) (\<lambda>event_id.
     bindE (field env ''event_type'' v) (\<lambda>event_type.
     bindE (int_field env ''schema_major'' v) (\<lambda>schema_major.
     bindE (int_field env ''schema_minor'' v) (\<lambda>schema_minor.
     bindE (uuid_field env ''workspace_id'' v) (\<lambda>w.
     bindE (field env ''aggregate_type'' v) (\<lambda>aggregate_type.
     bindE (uuid_field env ''aggregate_id'' v) (\<lambda>aggregate_id.
     bindE (int_field env ''aggregate_sequence'' v) (\<lambda>aggregate_sequence.
     bindE (optional_uuid_field env ''actor_id'' v) (\<lambda>actor.
     bindE (field env ''correlation_id'' v) (\<lambda>correlation.
     bindE (time_field env ''occurred_at'' v) (\<lambda>occurred_at.
     bindE (field env ''classification'' v) (\<lambda>classification.
     bindE (payload_field ''payload'' v) (\<lambda>payload.
     bindE (optional_uuid_field env ''causation_id'' v) (\<lambda>causation.
     bindE (optional_uuid_field env ''delegation_id'' v) (\<lambda>delegation.
     make_event \<lparr>ev_event_id = event_id, ev_event_type = event_type, ev_schema_major = schema_major,
       ev_schema_minor = schema_minor, ev_workspace_id = w, ev_aggregate_type = aggregate_type,
       ev_aggregate_id = aggregate_id, ev_aggregate_sequence = aggregate_sequence,
       ev_actor_id = actor, ev_correlation_id = correlation, ev_occurred_at = occurred_at,
       ev_classification = classification, ev_payload = payload, ev_causation_id = causation,
       ev_delegation_id = delegation\<rparr>)))))))))))))))"

section \<open>Consumers\<close>

definition add_quarantine_row :: "py_env \<Rightarrow> execution_context \<Rightarrow> event_envelope \<Rightarrow> string \<Rightarrow> quarantine_reason \<Rightarrow>
    int option \<Rightarrow> string \<Rightarrow> ('a msg_db_scheme, consumer_result) M" where
  "add_quarantine_row env ctx e consumer reason expected digest =
     bindM (uuid4 env) (\<lambda>i.
     bindM (utc_now env) (\<lambda>now.
     thenM (add_quarantine ctx \<lparr>eq_workspace_id = ev_workspace_id e, eq_id = i, eq_consumer_id = consumer,
        eq_event_id = ev_event_id e, eq_reason = reason, eq_expected_sequence = expected,
        eq_observed_sequence = Some (ev_aggregate_sequence e), eq_event_payload = serialize_event e,
        eq_payload_digest = digest, eq_status = EQ_QUARANTINED, eq_quarantined_at = now,
        eq_replayed_at = None, eq_replayed_by = None, eq_replay_decision_id = None,
        eq_retention_until = None\<rparr>)
     (returnM (if reason = Sequence_gap then GAP else QUARANTINED))))"

definition quarantine_event :: "py_env \<Rightarrow> execution_context \<Rightarrow> event_envelope \<Rightarrow> string \<Rightarrow> quarantine_reason \<Rightarrow>
    int option \<Rightarrow> string \<Rightarrow> ('a msg_db_scheme, consumer_result) M" where
  "quarantine_event env ctx e consumer reason expected digest =
     bindM (claim_inbox env ctx e consumer INBOX_QUARANTINED digest) (\<lambda>claimed.
     if \<not> claimed then returnM DUPLICATE
     else add_quarantine_row env ctx e consumer reason expected digest)"

definition quarantine_claimed :: "py_env \<Rightarrow> execution_context \<Rightarrow> event_envelope \<Rightarrow> string \<Rightarrow> quarantine_reason \<Rightarrow>
    int option \<Rightarrow> string \<Rightarrow> ('a msg_db_scheme, consumer_result) M" where
  "quarantine_claimed env ctx e consumer reason expected digest =
     bindM (get_inbox ctx (ev_workspace_id e) consumer (ev_event_id e)) (\<lambda>found.
     bindM (someM found AssertionError) (\<lambda>inbox.
     thenM (save_inbox (inbox\<lparr>in_status := INBOX_QUARANTINED\<rparr>))
     (add_quarantine_row env ctx e consumer reason expected digest)))"

text \<open>
  \<open>async with session.begin_nested(): m\<close>, a savepoint: an exception undoes what \<open>m\<close> did to the
  tables.
\<close>

definition begin_nested :: "('a core_db_scheme, 'b) M \<Rightarrow> ('a core_db_scheme, 'b) M" where
  "begin_nested m = (\<lambda>s. case m s of
     (Inl e, s') \<Rightarrow> (Inl e, s\<lparr>draws := draws s', session_context := session_context s',
        current_context := current_context s'\<rparr>)
   | r \<Rightarrow> r)"

text \<open>The \<open>try\<close> around the handler: whether it was applied.\<close>

definition run_handler :: "('a core_db_scheme, unit) M option \<Rightarrow> ('a core_db_scheme, bool) M" where
  "run_handler apply = (case apply of
     None \<Rightarrow> returnM True
   | Some handler \<Rightarrow> catchM (\<lambda>_. True) (thenM (begin_nested handler) (returnM True)) (\<lambda>_. returnM False))"

text \<open>The part of \<open>consume\<close> for an event that has the expected sequence number.\<close>

definition consume_expected :: "py_env \<Rightarrow> execution_context \<Rightarrow> event_envelope \<Rightarrow> string \<Rightarrow>
    ('a msg_db_scheme, unit) M option \<Rightarrow> consumer_sequence \<Rightarrow> string \<Rightarrow> ('a msg_db_scheme, consumer_result) M" where
  "consume_expected env ctx e consumer apply sequence digest =
     bindM (claim_inbox env ctx e consumer INBOX_PROCESSED digest) (\<lambda>claimed.
     if \<not> claimed then returnM DUPLICATE
     else
       bindM (run_handler apply) (\<lambda>applied.
       if \<not> applied
         then quarantine_claimed env ctx e consumer Poison_message (Some (cs_last_sequence sequence + 1)) digest
       else thenM (save_sequence env (sequence\<lparr>cs_last_sequence := ev_aggregate_sequence e\<rparr>))
              (returnM PROCESSED)))"

definition consume :: "py_env \<Rightarrow> execution_context \<Rightarrow> (string \<times> int) list \<Rightarrow> event_envelope \<Rightarrow> string \<Rightarrow>
    ('a msg_db_scheme, unit) M option \<Rightarrow> ('a msg_db_scheme, consumer_result) M" where
  "consume env ctx supported_schemas e consumer apply =
     thenM (requireM (ev_workspace_id e = ctx_workspace ctx)
              (MessagingError Event_workspace_context_does_not_match))
     (bindM (liftM (messaging_safe_payload (ev_payload e))) (\<lambda>payload.
      bindM (liftM (payload_digest env payload)) (\<lambda>digest.
      if map_of supported_schemas (ev_event_type e) \<noteq> Some (ev_schema_major e)
        then quarantine_event env ctx e consumer Unknown_schema None digest
      else
        bindM (lock_consumer_sequence env ctx e consumer) (\<lambda>sequence.
        let expected = cs_last_sequence sequence + 1 in
        if ev_aggregate_sequence e \<noteq> expected
          then quarantine_event env ctx e consumer
            (if ev_aggregate_sequence e > expected then Sequence_gap else Stale_sequence) (Some expected) digest
        else consume_expected env ctx e consumer apply sequence digest))))"

definition replay_event :: "py_env \<Rightarrow> execution_context \<Rightarrow> (string \<times> int) list \<Rightarrow> uuid \<Rightarrow> uuid \<Rightarrow> bool \<Rightarrow>
    ('a msg_db_scheme, consumer_result) M" where
  "replay_event env ctx supported_schemas quarantine_id decision dry_run =
     thenM (requireM (decision = authorization_decision_id (ec_actor ctx))
              (ReplayDenied Replay_authorization_does_not_match_context))
     (bindM (get_quarantine ctx (ctx_workspace ctx) quarantine_id) (\<lambda>found.
      bindM (someM found (ReplayDenied Quarantined_event_is_unavailable)) (\<lambda>quarantine.
      thenM (requireM (eq_status quarantine = EQ_QUARANTINED) (ReplayDenied Quarantined_event_is_unavailable))
      (if dry_run then returnM DRY_RUN
       else
         bindM (liftM (deserialize_event env (eq_event_payload quarantine))) (\<lambda>e.
         thenM (requireM (map_of supported_schemas (ev_event_type e) = Some (ev_schema_major e))
                  (ReplayDenied Event_schema_remains_unsupported))
         (bindM (lock_consumer_sequence env ctx e (eq_consumer_id quarantine)) (\<lambda>sequence.
          thenM (requireM (ev_aggregate_sequence e = cs_last_sequence sequence + 1)
                   (ReplayDenied Event_sequence_gap_remains_unresolved))
          (bindM (get_inbox ctx (ev_workspace_id e) (eq_consumer_id quarantine) (ev_event_id e)) (\<lambda>row.
           bindM (someM row AssertionError) (\<lambda>inbox.
           bindM (utc_now env) (\<lambda>now.
           thenM (save_inbox (inbox\<lparr>in_status := INBOX_PROCESSED\<rparr>))
           (thenM (save_sequence env (sequence\<lparr>cs_last_sequence := ev_aggregate_sequence e\<rparr>))
           (thenM (save_quarantine (quarantine\<lparr>eq_status := EQ_REPLAYED, eq_replayed_at := Some now,
                     eq_replayed_by := Some (ctx_actor ctx), eq_replay_decision_id := Some decision\<rparr>))
           (bindM (audit_write env ctx ((audit_input ''event.replayed'' ''event_quarantine''
                (eq_id quarantine) ''success'')\<lparr>ai_decision_id := Some decision,
                  ai_details := Some (JObj [(''event_id'', JStr (uuid_str (ev_event_id e)))])\<rparr>)) (\<lambda>_.
            returnM PROCESSED)))))))))))))))"

end
