(* ===== verification/Messaging_Laws.thy ===== *)
theory Messaging_Laws
  imports Messaging Example_World
begin

text \<open>
  What the messaging services guarantee: a stored event reads back as it was; a command takes
  effect once and only on the version it expects; a consumer processes the events of an
  aggregate in the order of their sequence numbers, each once.
\<close>

section \<open>Frames\<close>

lemma component_msg:
  fixes s s' :: "'a msg_db_scheme"
  assumes "component_part s' = component_part s"
  shows "command_records s' = command_records s \<and> aggregate_versions s' = aggregate_versions s \<and>
    inbox_events s' = inbox_events s \<and> consumer_sequences s' = consumer_sequences s \<and>
    quarantined_events s' = quarantined_events s"
  using assms by (cases s; cases s') (simp add: component_part_def)

lemma rest_writable: "rest_part s' = rest_part s \<Longrightarrow> writable w s' = writable w s"
  by (simp add: writable_def part_defs)

lemma rest_msg:
  fixes s s' :: "'a msg_db_scheme"
  shows "rest_part s' = rest_part s \<Longrightarrow> command_records s' = command_records s \<and>
    aggregate_versions s' = aggregate_versions s \<and> inbox_events s' = inbox_events s \<and>
    consumer_sequences s' = consumer_sequences s \<and> quarantined_events s' = quarantined_events s \<and>
    session_context s' = session_context s"
  using component_msg [of s' s] by (simp add: rest_part_def session_part_def)

section \<open>Round trip\<close>

lemma optional_uuid_roundtrip:
  "json_get k v = Some (json_opt_uuid u) \<Longrightarrow> optional_uuid_field env k v = Inr u"
proof (cases u)
  case (Some a)
  have "uuid_str a \<noteq> []" by (simp add: uuid_str_def Let_def)
  moreover assume "json_get k v = Some (json_opt_uuid u)"
  ultimately show ?thesis
    by (simp add: Some optional_uuid_field_def json_opt_uuid_def converted_def uuid_parse_str)
qed (simp add: optional_uuid_field_def json_opt_uuid_def)

lemma field_roundtrips:
  "json_get k v = Some (JStr t) \<Longrightarrow> field env k v = Inr t"
  "json_get k v = Some (JStr (uuid_str u)) \<Longrightarrow> uuid_field env k v = Inr u"
  "json_get k v = Some (JInt n) \<Longrightarrow> int_field env k v = Inr n"
  "json_get k v = Some (JStr (py_isoformat d)) \<Longrightarrow> datetime_range d \<Longrightarrow> time_field env k v = Inr d"
  "json_get k v = Some (JObj kvs) \<Longrightarrow> payload_field k v = Inr (JObj kvs)"
  by (simp_all add: field_def uuid_field_def int_field_def time_field_def payload_field_def converted_def
      uuid_parse_str parse_int_str py_fromisoformat_isoformat)

lemma serialized_fields:
  "json_get ''event_id'' (serialize_event e) = Some (JStr (uuid_str (ev_event_id e)))"
  "json_get ''event_type'' (serialize_event e) = Some (JStr (ev_event_type e))"
  "json_get ''schema_major'' (serialize_event e) = Some (JInt (ev_schema_major e))"
  "json_get ''schema_minor'' (serialize_event e) = Some (JInt (ev_schema_minor e))"
  "json_get ''workspace_id'' (serialize_event e) = Some (JStr (uuid_str (ev_workspace_id e)))"
  "json_get ''aggregate_type'' (serialize_event e) = Some (JStr (ev_aggregate_type e))"
  "json_get ''aggregate_id'' (serialize_event e) = Some (JStr (uuid_str (ev_aggregate_id e)))"
  "json_get ''aggregate_sequence'' (serialize_event e) = Some (JInt (ev_aggregate_sequence e))"
  "json_get ''actor_id'' (serialize_event e) = Some (json_opt_uuid (ev_actor_id e))"
  "json_get ''correlation_id'' (serialize_event e) = Some (JStr (ev_correlation_id e))"
  "json_get ''occurred_at'' (serialize_event e) = Some (JStr (py_isoformat (ev_occurred_at e)))"
  "json_get ''classification'' (serialize_event e) = Some (JStr (ev_classification e))"
  "json_get ''payload'' (serialize_event e) = Some (ev_payload e)"
  "json_get ''causation_id'' (serialize_event e) = Some (json_opt_uuid (ev_causation_id e))"
  "json_get ''delegation_id'' (serialize_event e) = Some (json_opt_uuid (ev_delegation_id e))"
  by (simp_all add: serialize_event_def)

lemma deserialize_serialize:
  assumes "make_event e = Inr e" "ev_payload e = JObj kvs" "datetime_range (ev_occurred_at e)"
  shows "deserialize_event env (serialize_event e) = Inr e"
  using assms
  by (cases e) (simp add: deserialize_event_def field_roundtrips serialized_fields optional_uuid_roundtrip)

section \<open>Commands\<close>

lemma find_replaced:
  assumes "List.find (\<lambda>r. key r = k) t = None" "key r = k" "key r' = k"
  shows "List.find (\<lambda>r. key r = k) (replace_row key r' (t @ [r])) = Some r'"
  using assms by (induction t) (auto simp: replace_row_def)

lemma ci_key_simps [simp]:
  "ci_key (r\<lparr>ci_status := a\<rparr>) = ci_key r" "ci_key (r\<lparr>ci_outcome_event_id := b\<rparr>) = ci_key r"
  "ci_key (r\<lparr>ci_aggregate_version := v\<rparr>) = ci_key r" "ci_key (r\<lparr>ci_completed_at := t\<rparr>) = ci_key r"
  by (simp_all add: ci_key_def)

lemma av_key_simps [simp]:
  "av_key (r\<lparr>av_version := a\<rparr>) = av_key r" "av_key (r\<lparr>av_updated_at := t\<rparr>) = av_key r"
  by (simp_all add: av_key_def)

lemma find_snoc_key: "List.find p (t @ [r]) = (case List.find p t of None \<Rightarrow> if p r then Some r else None | Some x \<Rightarrow> Some x)"
  by (rule find_snoc)

lemma wp_lock_aggregate:
  assumes "\<And>a t. List.find (\<lambda>r. av_key r = (w, ty, i)) t = Some a \<Longrightarrow>
      (t = aggregate_versions s \<or>
        List.find (\<lambda>r. av_key r = (w, ty, i)) (aggregate_versions s) = None \<and> av_version a = 0 \<and>
        t = aggregate_versions s @ [a]) \<Longrightarrow>
      av_key a = (w, ty, i) \<Longrightarrow>
      Q a (s\<lparr>draws := Suc (draws s), aggregate_versions := t\<rparr>)"
    and "\<And>e. E e s"
  shows "wp (lock_aggregate env ctx w ty i) Q E s"
proof -
  have found: "Q a (s\<lparr>draws := Suc (draws s)\<rparr>)"
    if "List.find (\<lambda>r. av_key r = (w, ty, i)) (aggregate_versions s) = Some a" for a
    using assms(1) [OF that] find_SomeD [OF that] by simp
  show ?thesis
    by (auto simp: lock_aggregate_def wp_simps Let_def find_snoc_key av_key_def
        split: option.splits intro!: assms found [unfolded av_key_def])
qed

lemma find_replace_row:
  "List.find (\<lambda>r. key r = k) t = Some a \<Longrightarrow> key a' = k \<Longrightarrow>
   List.find (\<lambda>r. key r = k) (replace_row key a' t) = Some a'"
  by (induction t) (auto simp: replace_row_def split: if_splits)

text \<open>The effect of a command that was not recorded before, on the tables it touches.\<close>

abbreviation find_aggregate :: "command_envelope \<Rightarrow> 'a msg_db_scheme \<Rightarrow> aggregate_version option" where
  "find_aggregate c s \<equiv> List.find (\<lambda>a. av_key a = (cm_workspace_id c, cm_aggregate_type c, cm_aggregate_id c))
     (aggregate_versions s)"

definition aggregate_at :: "command_envelope \<Rightarrow> 'a msg_db_scheme \<Rightarrow> int" where
  "aggregate_at c s = (case find_aggregate c s of None \<Rightarrow> 0 | Some a \<Rightarrow> av_version a)"

definition command_effect :: "command_envelope \<Rightarrow> command_result \<Rightarrow>
    'a msg_db_scheme \<Rightarrow> 'a msg_db_scheme \<Rightarrow> bool" where
  "command_effect c res s s' \<longleftrightarrow>
     \<not> cr_replayed res \<and> cr_aggregate_version res = cm_expected_version c + 1 \<and>
     aggregate_at c s = cm_expected_version c \<and> aggregate_at c s' = cm_expected_version c + 1 \<and>
     (\<exists>x. outbox_events s' = outbox_events s @ [x] \<and> oe_id x = cr_event_id res \<and>
         oe_aggregate_type x = cm_aggregate_type c \<and> oe_aggregate_id x = cm_aggregate_id c \<and>
         oe_aggregate_sequence x = cm_expected_version c + 1) \<and>
     (\<exists>e. audit_events s' = audit_events s @ [e] \<and> ae_action e = cm_command_type c \<and>
         ae_target_id e = cm_aggregate_id c)"

definition completed_record :: "command_idempotency \<Rightarrow> command_result \<Rightarrow> instant \<Rightarrow> command_idempotency" where
  "completed_record r res t = r\<lparr>ci_status := COMPLETED, ci_outcome_event_id := Some (cr_event_id res),
     ci_aggregate_version := Some (cr_aggregate_version res), ci_completed_at := Some t\<rparr>"

lemma complete_command_effect:
  assumes "find_aggregate c s = Some a" "av_version a = cm_expected_version c"
  shows "wp (complete_command env ctx c event_type payload mj mn now r a)
     (\<lambda>res s'. command_effect c res s s' \<and>
        (\<exists>t. command_records s' = replace_row ci_key (completed_record r res t) (command_records s)))
     (\<lambda>_ _. True) s"
proof -
  let ?v = "cm_expected_version c + 1"
  let ?k = "(cm_workspace_id c, cm_aggregate_type c, cm_aggregate_id c)"
  have a: "av_key a = ?k" using find_SomeD [OF assms(1)] by simp
  have at: "aggregate_at c s = cm_expected_version c" using assms by (simp add: aggregate_at_def)
  have at': "aggregate_at c s' = ?v"
    if "aggregate_versions s' = replace_row av_key (a\<lparr>av_version := ?v, av_updated_at := n\<rparr>) (aggregate_versions s)"
    for s' :: "'a msg_db_scheme" and n
    unfolding aggregate_at_def that by (subst find_replace_row [OF assms(1)]) (simp_all add: a)
  show ?thesis
    unfolding complete_command_def Let_def or_now_def assms(2)
    by (auto simp: wp_simps save_aggregate_def save_command_def at' at command_effect_def audit_row_of_def
        completed_record_def audit_input_def command_outbox_row_def
        split: option.splits sum.splits intro!: wp_audit_write dest!: rest_msg)
qed

lemma record_new_command_effect:
  "wp (record_new_command env ctx c event_type payload mj mn now r)
     (\<lambda>res s'. command_effect c res s s' \<and>
        (\<exists>t. command_records s' = replace_row ci_key (completed_record r res t) (command_records s)))
     (\<lambda>_ _. True) s"
  unfolding record_new_command_def wp_bindM wp_thenM wp_requireM
proof (rule wp_lock_aggregate)
  fix a t
  let ?p = "\<lambda>r. av_key r = (cm_workspace_id c, cm_aggregate_type c, cm_aggregate_id c)"
  let ?s = "s\<lparr>draws := Suc (draws s), aggregate_versions := t\<rparr>"
  assume a: "List.find ?p t = Some a" "t = aggregate_versions s \<or>
      List.find ?p (aggregate_versions s) = None \<and> av_version a = 0 \<and> t = aggregate_versions s @ [a]"
  then have at: "aggregate_at c s = av_version a" by (auto simp: aggregate_at_def)
  show "if av_version a = cm_expected_version c
     then wp (complete_command env ctx c event_type payload mj mn now r a)
       (\<lambda>res s'. command_effect c res s s' \<and>
          (\<exists>t. command_records s' = replace_row ci_key (completed_record r res t) (command_records s)))
       (\<lambda>_ _. True) ?s
     else True"
  proof (cases "av_version a = cm_expected_version c")
    case True
    have "wp (complete_command env ctx c event_type payload mj mn now r a)
       (\<lambda>res s'. command_effect c res ?s s' \<and>
          (\<exists>t. command_records s' = replace_row ci_key (completed_record r res t) (command_records ?s)))
       (\<lambda>_ _. True) ?s"
      using a True by (intro complete_command_effect) simp_all
    then have "wp (complete_command env ctx c event_type payload mj mn now r a)
       (\<lambda>res s'. command_effect c res s s' \<and>
          (\<exists>t. command_records s' = replace_row ci_key (completed_record r res t) (command_records s)))
       (\<lambda>_ _. True) ?s"
      by (rule wp_mono) (auto simp: command_effect_def at True)
    with True show ?thesis by simp
  qed simp
qed simp

lemma wp_claim_command:
  assumes "\<And>r d. List.find (\<lambda>r. ci_key r = command_key c) (command_records s) = Some r \<Longrightarrow>
      Q (r, False) (s\<lparr>draws := d\<rparr>)"
    and "\<And>r d. List.find (\<lambda>r. ci_key r = command_key c) (command_records s) = None \<Longrightarrow>
      request_digest env c = Inr (ci_request_digest r) \<Longrightarrow> ci_key r = command_key c \<Longrightarrow>
      Q (r, True) (s\<lparr>draws := d, command_records := command_records s @ [r]\<rparr>)"
    and "\<And>e. E e s"
  shows "wp (claim_command env ctx c) Q E s"
  by (auto simp: claim_command_def wp_simps Let_def ci_key_def command_key_def
      split: option.splits sum.splits intro!: assms)

text \<open>
  A command that is recorded anew has its effect, and its row is then the one found under its
  key, completed and with the digest of the request.
\<close>

definition remembered :: "py_env \<Rightarrow> command_envelope \<Rightarrow> command_result \<Rightarrow> 'a msg_db_scheme \<Rightarrow> bool" where
  "remembered env c res s \<longleftrightarrow> (\<exists>r. List.find (\<lambda>r. ci_key r = command_key c) (command_records s) = Some r \<and>
     request_digest env c = Inr (ci_request_digest r) \<and> ci_status r = COMPLETED \<and>
     ci_outcome_event_id r = Some (cr_event_id res) \<and>
     ci_aggregate_version r = Some (cr_aggregate_version res))"

lemma remembered_draws: "s' = s\<lparr>draws := d\<rparr> \<Longrightarrow> remembered env c res s' = remembered env c res s"
  by (simp add: remembered_def)

lemma record_command_outcome:
  assumes "record_command env ctx c event_type payload mj mn now s = (Inr res, s')"
  shows "(cr_replayed res \<and> remembered env c res s \<and> s' = s\<lparr>draws := draws s'\<rparr>) \<or>
    (\<not> cr_replayed res \<and> command_effect c res s s' \<and> remembered env c res s')"
proof -
  let ?Q = "\<lambda>res s'. (cr_replayed res \<and> remembered env c res s \<and> s' = s\<lparr>draws := draws s'\<rparr>) \<or>
    (\<not> cr_replayed res \<and> command_effect c res s s' \<and> remembered env c res s')"
  have new: "wp (record_new_command env ctx c event_type p mj mn now r) ?Q (\<lambda>_ _. True) s1"
    if none: "List.find (\<lambda>r. ci_key r = command_key c) (command_records s) = None"
      and r: "request_digest env c = Inr (ci_request_digest r)" "ci_key r = command_key c"
      and s1: "s1 = s\<lparr>draws := d, command_records := command_records s @ [r]\<rparr>" for p r d s1
    using record_new_command_effect [of env ctx c event_type p mj mn now r s1]
  proof (rule wp_mono)
    fix res and s2 :: "'a msg_db_scheme"
    assume *: "command_effect c res s1 s2 \<and>
        (\<exists>t. command_records s2 = replace_row ci_key (completed_record r res t) (command_records s1))"
    then obtain t where t: "command_records s2 =
        replace_row ci_key (completed_record r res t) (command_records s @ [r])" by (auto simp: s1)
    have "List.find (\<lambda>r. ci_key r = command_key c) (command_records s2) = Some (completed_record r res t)"
      unfolding t by (rule find_replaced [OF none]) (simp_all add: r completed_record_def)
    then have "remembered env c res s2" by (simp add: remembered_def completed_record_def r)
    moreover have "command_effect c res s s2"
      using * by (simp add: s1 command_effect_def aggregate_at_def)
    ultimately show "?Q res s2" by (simp add: command_effect_def)
  qed simp
  have replayed: "remembered env c \<lparr>cr_event_id = i, cr_aggregate_version = v, cr_replayed = True\<rparr> s"
    if "List.find (\<lambda>r. ci_key r = command_key c) (command_records s) = Some r"
      "request_digest env c = Inr (ci_request_digest r)" "ci_status r = COMPLETED"
      "ci_outcome_event_id r = Some i" "ci_aggregate_version r = Some v" for r i v
    using that by (simp add: remembered_def)
  have "wp (record_command env ctx c event_type payload mj mn now) ?Q (\<lambda>_ _. True) s"
    by (auto simp: record_command_def wp_simps split: sum.splits option.splits command_status.splits
        intro!: wp_claim_command new replayed)
  from wp_Inr [OF this assms] show ?thesis .
qed

section \<open>Consumers\<close>

text \<open>
  How far a consumer has come with an aggregate, and whether an event has reached it before.
\<close>

definition position :: "uuid \<times> string \<times> string \<times> uuid \<Rightarrow> 'a msg_db_scheme \<Rightarrow> int" where
  "position k s = (case List.find (\<lambda>r. cs_key r = k) (consumer_sequences s) of
     None \<Rightarrow> 0 | Some r \<Rightarrow> cs_last_sequence r)"

definition delivered :: "event_envelope \<Rightarrow> string \<Rightarrow> 'a msg_db_scheme \<Rightarrow> bool" where
  "delivered e consumer s \<longleftrightarrow> (ev_workspace_id e, consumer, ev_event_id e) \<in> in_key ` set (inbox_events s)"

definition consumer_part :: "'a msg_db_scheme \<Rightarrow> inbox_event list \<times> consumer_sequence list" where
  "consumer_part s = (inbox_events s, consumer_sequences s)"

lemma position_part: "consumer_part s' = consumer_part s \<Longrightarrow> position k s' = position k s"
  by (simp add: position_def consumer_part_def)

lemma cs_key_simps [simp]:
  "cs_key (r\<lparr>cs_last_sequence := n\<rparr>) = cs_key r" "cs_key (r\<lparr>cs_updated_at := t\<rparr>) = cs_key r"
  by (simp_all add: cs_key_def)

lemma in_key_simps [simp]: "in_key (r\<lparr>in_status := x\<rparr>) = in_key r"
  by (simp add: in_key_def)

definition consumed :: "event_envelope \<Rightarrow> string \<Rightarrow> 'a msg_db_scheme \<Rightarrow> consumer_result \<Rightarrow> 'a msg_db_scheme \<Rightarrow> bool" where
  "consumed e consumer s res s' \<longleftrightarrow>
     (\<forall>k. position k s' = position k s +
        (if k = event_sequence_key e consumer \<and> res = PROCESSED then 1 else 0)) \<and>
     (res = PROCESSED \<longrightarrow> ev_aggregate_sequence e = position (event_sequence_key e consumer) s + 1) \<and>
     (res = DUPLICATE \<longleftrightarrow> delivered e consumer s) \<and>
     in_key ` set (inbox_events s') =
       insert (ev_workspace_id e, consumer, ev_event_id e) (in_key ` set (inbox_events s))"

lemma consumedD:
  assumes "consumed e consumer s res s'"
  shows "position k s' = position k s + (if k = event_sequence_key e consumer \<and> res = PROCESSED then 1 else 0)"
    "res = PROCESSED \<Longrightarrow> ev_aggregate_sequence e = position (event_sequence_key e consumer) s + 1"
    "res = DUPLICATE \<longleftrightarrow> delivered e consumer s" "delivered e consumer s'"
  using assms by (simp_all add: consumed_def delivered_def del: split_paired_All)

lemma wp_lock_consumer_sequence:
  assumes "\<And>a t. List.find (\<lambda>r. cs_key r = event_sequence_key e consumer) t = Some a \<Longrightarrow>
      (\<And>k. position k (s\<lparr>consumer_sequences := t\<rparr>) = position k s) \<Longrightarrow>
      cs_last_sequence a = position (event_sequence_key e consumer) s \<Longrightarrow>
      Q a (s\<lparr>draws := Suc (draws s), consumer_sequences := t\<rparr>)"
    and "\<And>x. E x s"
  shows "wp (lock_consumer_sequence env ctx e consumer) Q E s"
proof -
  let ?k = "event_sequence_key e consumer"
  have found: "Q a (s\<lparr>draws := Suc (draws s)\<rparr>)"
    if "List.find (\<lambda>r. cs_key r = ?k) (consumer_sequences s) = Some a" for a
    using assms(1) [OF that] that by (simp add: position_def)
  have fresh: "Q a (s\<lparr>draws := Suc (draws s), consumer_sequences := consumer_sequences s @ [a]\<rparr>)"
    if none: "List.find (\<lambda>r. cs_key r = ?k) (consumer_sequences s) = None"
      and a: "cs_key a = ?k" "cs_last_sequence a = 0" for a
  proof (rule assms(1))
    show "List.find (\<lambda>r. cs_key r = ?k) (consumer_sequences s @ [a]) = Some a"
      using none a by (simp add: find_snoc)
    show "position k (s\<lparr>consumer_sequences := consumer_sequences s @ [a]\<rparr>) = position k s" for k
      using none a by (cases "k = ?k") (auto simp: position_def find_snoc split: option.splits)
    show "cs_last_sequence a = position ?k s" using none a by (simp add: position_def)
  qed
  show ?thesis
    by (auto simp: lock_consumer_sequence_def wp_simps Let_def split: option.splits
        intro!: assms(2) found fresh; simp add: cs_key_def event_sequence_key_def)
qed

lemma wp_claim_inbox:
  assumes "\<And>d. delivered e consumer s \<Longrightarrow> Q False (s\<lparr>draws := d\<rparr>)"
    and "\<And>d r. \<not> delivered e consumer s \<Longrightarrow> in_key r = (ev_workspace_id e, consumer, ev_event_id e) \<Longrightarrow>
      Q True (s\<lparr>draws := d, inbox_events := inbox_events s @ [r]\<rparr>)"
    and "\<And>x. E x s"
  shows "wp (claim_inbox env ctx e consumer st digest) Q E s"
proof -
  let ?found = "List.find (\<lambda>r. in_key r = (ev_workspace_id e, consumer, ev_event_id e)) (inbox_events s)"
  have "delivered e consumer s" if "?found = Some r" for r
    using find_SomeD [OF that] unfolding delivered_def by force
  moreover have "\<not> delivered e consumer s" if "?found = None"
    using find_NoneD [OF that] unfolding delivered_def by (metis (no_types, lifting) imageE)
  ultimately show ?thesis
    by (auto simp: claim_inbox_def wp_simps in_key_def split: option.splits intro!: assms)
qed

lemma quarantine_row_frame:
  "wp (add_quarantine_row env ctx e consumer reason expected digest)
     (\<lambda>res s'. (res = GAP \<or> res = QUARANTINED) \<and> consumer_part s' = consumer_part s) (\<lambda>_ _. True) s"
  by (auto simp: add_quarantine_row_def add_quarantine_def wp_simps consumer_part_def split: option.splits)

lemma consumed_quarantine:
  "wp (quarantine_event env ctx e consumer reason expected digest)
     (consumed e consumer s) (\<lambda>_ _. True) s"
proof -
  have row: "wp (add_quarantine_row env ctx e consumer reason expected digest)
      (consumed e consumer s) (\<lambda>_ _. True) s1"
    if "\<not> delivered e consumer s" "in_key r = (ev_workspace_id e, consumer, ev_event_id e)"
      "s1 = s\<lparr>draws := d, inbox_events := inbox_events s @ [r]\<rparr>" for s1 :: "'a msg_db_scheme" and d r
    using quarantine_row_frame [of env ctx e consumer reason expected digest s1]
    by (rule wp_mono) (use that in \<open>auto simp: consumed_def position_def consumer_part_def\<close>)
  have dup: "consumed e consumer s DUPLICATE (s\<lparr>draws := d\<rparr>)" if "delivered e consumer s" for d
    using that by (auto simp: consumed_def position_def delivered_def insert_absorb)
  show ?thesis
    unfolding quarantine_event_def wp_bindM
    by (rule wp_claim_inbox) (auto simp: wp_simps intro!: row dup)
qed

lemma consumed_after_lock:
  assumes "wp m (consumed e consumer (s\<lparr>draws := d, consumer_sequences := t\<rparr>)) E s1"
    and same: "\<And>k. position k (s\<lparr>consumer_sequences := t\<rparr>) = position k s"
  shows "wp m (consumed e consumer s) E s1"
proof -
  have "position k (s\<lparr>draws := d, consumer_sequences := t\<rparr>) = position k s" for k
    using same [of k] by (simp add: position_def)
  with assms(1) show ?thesis
    by (elim wp_mono) (auto simp: consumed_def delivered_def)
qed

lemma keeps_begin_nested:
  "keeps consumer_part h \<Longrightarrow> keeps consumer_part (begin_nested (h :: ('a msg_db_scheme, 'b) M))"
  unfolding keeps_def
proof
  fix s :: "'a msg_db_scheme"
  assume h: "\<forall>s. consumer_part (snd (h s)) = consumer_part s"
  show "consumer_part (snd (begin_nested h s)) = consumer_part s"
    using h [rule_format, of s]
    by (cases rule: result_cases [of h s]) (simp_all add: begin_nested_def consumer_part_def)
qed

text \<open>The end of a delivery whose event was claimed: \<open>s1\<close> is the state after the handler.\<close>

lemma consumed_processed:
  assumes a: "List.find (\<lambda>r. cs_key r = event_sequence_key e consumer) (consumer_sequences s) = Some a"
    and seq: "ev_aggregate_sequence e = cs_last_sequence a + 1"
    and new: "\<not> delivered e consumer s" "in_key r = (ev_workspace_id e, consumer, ev_event_id e)"
    and s1: "consumer_part s1 = (inbox_events s @ [r], consumer_sequences s)"
  shows "wp (thenM (save_sequence env (a\<lparr>cs_last_sequence := ev_aggregate_sequence e\<rparr>)) (returnM PROCESSED))
     (consumed e consumer s) (\<lambda>_ _. True) s1"
proof -
  let ?k = "event_sequence_key e consumer"
  have ka: "cs_key a = ?k" using find_SomeD [OF a] by simp
  have "consumed e consumer s PROCESSED s'"
    if s': "consumer_sequences s' = replace_row cs_key (a\<lparr>cs_last_sequence := ev_aggregate_sequence e,
        cs_updated_at := n\<rparr>) (consumer_sequences s)" "inbox_events s' = inbox_events s @ [r]"
    for s' :: "'a msg_db_scheme" and n
  proof -
    have "position k s' = position k s + (if k = ?k then 1 else 0)" for k
      using find_replace_row [OF a, of "a\<lparr>cs_last_sequence := ev_aggregate_sequence e, cs_updated_at := n\<rparr>"]
      by (cases "k = ?k") (simp_all add: position_def s' seq ka a find_map_replace)
    then show ?thesis using new a seq s' by (simp add: consumed_def position_def)
  qed
  with s1 show ?thesis by (simp add: wp_simps save_sequence_def consumer_part_def)
qed

lemma consumed_poisoned:
  assumes new: "\<not> delivered e consumer s" "in_key r = (ev_workspace_id e, consumer, ev_event_id e)"
    and s1: "consumer_part s1 = (inbox_events s @ [r], consumer_sequences s)"
  shows "wp (quarantine_claimed env ctx e consumer Poison_message expected digest)
     (consumed e consumer s) (\<lambda>_ _. True) s1"
proof -
  have row: "wp (add_quarantine_row env ctx e consumer Poison_message expected digest)
      (consumed e consumer s) (\<lambda>_ _. True) s2"
    if "inbox_events s2 = replace_row in_key (q\<lparr>in_status := INBOX_QUARANTINED\<rparr>) (inbox_events s1)"
      "consumer_sequences s2 = consumer_sequences s1" for s2 :: "'a msg_db_scheme" and q
    using quarantine_row_frame [of env ctx e consumer Poison_message expected digest s2]
  proof (rule wp_mono)
    fix res and s' :: "'a msg_db_scheme"
    assume *: "(res = GAP \<or> res = QUARANTINED) \<and> consumer_part s' = consumer_part s2"
    have "in_key ` set (inbox_events s') = set (map in_key (inbox_events s1))"
      using * that by (simp add: consumer_part_def flip: set_map)
    with * that s1 new show "consumed e consumer s res s'"
      by (auto simp: consumed_def position_def consumer_part_def)
  qed simp
  show ?thesis
    by (auto simp: quarantine_claimed_def get_inbox_def save_inbox_def wp_simps
        split: option.splits intro!: row)
qed

lemma consumed_duplicate: "delivered e consumer s \<Longrightarrow> consumed e consumer s DUPLICATE (s\<lparr>draws := d\<rparr>)"
  by (auto simp: consumed_def position_def delivered_def insert_absorb)

lemma wp_run_handler:
  assumes "\<And>h. apply = Some h \<Longrightarrow> keeps consumer_part h"
    and "\<And>b s'. consumer_part s' = consumer_part s \<Longrightarrow> Q b s'"
  shows "wp (run_handler apply) Q E (s :: 'a msg_db_scheme)"
proof (cases "apply")
  case None
  then show ?thesis by (simp add: run_handler_def wp_simps assms(2))
next
  case (Some h)
  show ?thesis
    unfolding run_handler_def Some option.case wp_catchM wp_thenM wp_returnM
    by (rule wp_frame [OF keeps_begin_nested [OF assms(1) [OF Some]]]) (simp_all add: assms(2))
qed

lemma wp_consume_expected:
  assumes handler: "\<And>h. apply = Some h \<Longrightarrow> keeps consumer_part h"
    and a: "List.find (\<lambda>r. cs_key r = event_sequence_key e consumer) (consumer_sequences s) = Some a"
      "ev_aggregate_sequence e = cs_last_sequence a + 1"
  shows "wp (consume_expected env ctx e consumer apply a digest)
     (consumed e consumer s) (\<lambda>_ _. True) s"
  unfolding consume_expected_def wp_bindM
proof (rule wp_claim_inbox)
  fix d r
  assume r: "\<not> delivered e consumer s" "in_key r = (ev_workspace_id e, consumer, ev_event_id e)"
  show "wp (if \<not> True then returnM DUPLICATE
      else bindM (run_handler apply) (\<lambda>applied.
        if \<not> applied
          then quarantine_claimed env ctx e consumer Poison_message (Some (cs_last_sequence a + 1)) digest
        else thenM (save_sequence env (a\<lparr>cs_last_sequence := ev_aggregate_sequence e\<rparr>)) (returnM PROCESSED)))
      (consumed e consumer s) (\<lambda>_ _. True)
      (s\<lparr>draws := d, inbox_events := inbox_events s @ [r]\<rparr>)"
    unfolding if_False not_True_eq_False wp_bindM
  proof (rule wp_run_handler [OF handler])
    fix applied and s1 :: "'a msg_db_scheme"
    assume "consumer_part s1 = consumer_part (s\<lparr>draws := d, inbox_events := inbox_events s @ [r]\<rparr>)"
    then have "consumer_part s1 = (inbox_events s @ [r], consumer_sequences s)"
      by (simp add: consumer_part_def)
    from consumed_processed [OF a r this] consumed_poisoned [OF r this]
    show "wp (if \<not> applied
          then quarantine_claimed env ctx e consumer Poison_message (Some (cs_last_sequence a + 1)) digest
        else thenM (save_sequence env (a\<lparr>cs_last_sequence := ev_aggregate_sequence e\<rparr>)) (returnM PROCESSED))
        (consumed e consumer s) (\<lambda>_ _. True) s1"
      by simp
  qed
qed (simp_all add: wp_simps consumed_duplicate)

lemma wp_consume:
  assumes "\<And>h. apply = Some h \<Longrightarrow> keeps consumer_part h"
  shows "wp (consume env ctx schemas e consumer apply)
     (consumed e consumer s) (\<lambda>_ _. True) s"
proof -
  have locked: "wp (lock_consumer_sequence env ctx e consumer) (\<lambda>sequence.
      wp (let expected = cs_last_sequence sequence + 1 in
        if ev_aggregate_sequence e \<noteq> expected
          then quarantine_event env ctx e consumer
            (if ev_aggregate_sequence e > expected then Sequence_gap else Stale_sequence) (Some expected) digest
        else consume_expected env ctx e consumer apply sequence digest)
        (consumed e consumer s) (\<lambda>_ _. True)) (\<lambda>_ _. True) s" for digest
  proof (rule wp_lock_consumer_sequence)
    fix a t
    assume a: "List.find (\<lambda>r. cs_key r = event_sequence_key e consumer) t = Some a"
      and same: "\<And>k. position k (s\<lparr>consumer_sequences := t\<rparr>) = position k s"
    let ?s = "s\<lparr>draws := Suc (draws s), consumer_sequences := t\<rparr>"
    have "wp (consume_expected env ctx e consumer apply a digest)
        (consumed e consumer ?s) (\<lambda>_ _. True) ?s"
      if "ev_aggregate_sequence e = cs_last_sequence a + 1"
      using that a by (intro wp_consume_expected assms) simp_all
    then show "wp (let expected = cs_last_sequence a + 1 in
        if ev_aggregate_sequence e \<noteq> expected
          then quarantine_event env ctx e consumer
            (if ev_aggregate_sequence e > expected then Sequence_gap else Stale_sequence) (Some expected) digest
        else consume_expected env ctx e consumer apply a digest)
        (consumed e consumer s) (\<lambda>_ _. True) ?s"
      by (intro consumed_after_lock [where d = "Suc (draws s)" and t = t, OF _ same])
        (simp add: Let_def consumed_quarantine)
  qed simp
  show ?thesis
    unfolding consume_def wp_thenM wp_bindM wp_liftM wp_requireM
    by (auto simp: wp_if wp_bindM consumed_quarantine split: sum.splits intro!: locked [simplified])
qed

section \<open>Deliveries\<close>







text \<open>
  C26: An event that has reached a consumer before, in any state of the inbox, is a duplicate: it
  is neither processed nor quarantined again, and the position of the consumer stays. This is also
  the fate of an event that was quarantined for a sequence gap and is redelivered after the gap
  was closed.
\<close>

theorem redelivery_is_duplicate:
  assumes "consume env ctx schemas e consumer handler s = (Inr r, s')"
    and "\<forall>h. handler = Some h \<longrightarrow> keeps consumer_part h" "delivered e consumer s"
  shows "r = DUPLICATE \<and> position k s' = position k s \<and> delivered e consumer s'"
proof -
  have "wp (consume env ctx schemas e consumer handler) (consumed e consumer s) (\<lambda>_ _. True) s"
    by (rule wp_consume) (use assms(2) in blast)
  from consumedD [OF wp_Inr [OF this assms(1)]] assms(3) show ?thesis by auto
qed

text \<open>
  A command takes effect once. When recording it returned an outcome, recording it again, in
  any later state that still has the record, returns the same event and version, marked as
  replayed, and changes no table.
\<close>

theorem command_takes_effect_once:
  assumes "record_command env ctx c event_type payload mj mn now s = (Inr res, s1)"
    and "command_records s2 = command_records s1"
    and "session_context s2 = Some ctx" "writable (cm_workspace_id c) s2"
  shows "\<exists>s3. record_command env ctx c event_type payload mj mn now' s2 = (Inr (res\<lparr>cr_replayed := True\<rparr>), s3) \<and>
    s3 = s2\<lparr>draws := draws s3\<rparr>"
proof -
  have "remembered env c res s1"
    using record_command_outcome [OF assms(1)] remembered_draws by metis
  then obtain r where r: "List.find (\<lambda>r. ci_key r = command_key c) (command_records s2) = Some r"
    "request_digest env c = Inr (ci_request_digest r)" "ci_status r = COMPLETED"
    "ci_outcome_event_id r = Some (cr_event_id res)"
    "ci_aggregate_version r = Some (cr_aggregate_version res)"
    unfolding remembered_def assms(2) by blast
  have pre: "cm_workspace_id c = ctx_workspace ctx" "cm_actor_id c = ctx_actor ctx"
    "messaging_safe_payload payload = Inr payload"
  proof -
    have "wp (record_command env ctx c event_type payload mj mn now) (\<lambda>_ _. cm_workspace_id c = ctx_workspace ctx \<and>
        cm_actor_id c = ctx_actor ctx \<and> messaging_safe_payload payload = Inr payload) (\<lambda>_ _. True) s"
      using messaging_safe_payload_clean [of payload]
      by (auto simp: record_command_def wp_simps wp_def split: sum.splits prod.splits)
    from wp_Inr [OF this assms(1)] show "cm_workspace_id c = ctx_workspace ctx"
      "cm_actor_id c = ctx_actor ctx" "messaging_safe_payload payload = Inr payload" by auto
  qed
  have "wp (record_command env ctx c event_type payload mj mn now')
      (\<lambda>x s3. x = res\<lparr>cr_replayed := True\<rparr> \<and> s3 = s2\<lparr>draws := draws s3\<rparr>) (\<lambda>_ _. False) s2"
    using assms(3,4) r pre
    by (simp add: record_command_def claim_command_def wp_simps)
  then show ?thesis by (cases rule: wp_cases) auto
qed

text \<open>
  C17: A new command is recorded only on the version of the aggregate that it expects; it then
  raises that version by one and appends one outbox event with the new version as its sequence
  number, and one audit event.
\<close>

theorem command_is_optimistic:
  assumes "record_command env ctx c event_type payload mj mn now s = (Inr res, s')" "\<not> cr_replayed res"
  shows "command_effect c res s s'"
  using record_command_outcome [OF assms(1)] assms(2) by blast

text \<open>
  A stored event reads back as it was written, for every valid event whose time is within the
  range of \<open>datetime\<close>.
\<close>

theorem event_roundtrip:
  assumes "make_event e = Inr e" "ev_payload e = JObj kvs" "datetime_range (ev_occurred_at e)"
  shows "deserialize_event env (serialize_event e) = Inr e"
  using assms by (rule deserialize_serialize)

end
