(* ===== verification/Messaging_Examples.thy ===== *)
theory Messaging_Examples
  imports Messaging_Laws
begin

text \<open>
  The properties of the messaging services at concrete inputs: a session with empty tables, one
  command, and the events of one aggregate.
\<close>


text \<open>A session with empty messaging tables, a command and an event.\<close>

definition example_messages :: msg_db where
  "example_messages = example_session (msg_db_ext [] [] [] [] [] ())"

definition example_command :: command_envelope where
  "example_command = \<lparr>cm_workspace_id = 2, cm_actor_id = 11, cm_command_type = ''note.create'',
     cm_idempotency_key = ''k1'', cm_aggregate_type = ''note'', cm_aggregate_id = 5, cm_expected_version = 0,
     cm_correlation_id = ''correlation-1'', cm_payload = JObj [], cm_causation_id = None, cm_delegation_id = None\<rparr>"

lemma example_messages_tables [simp]:
  "command_records example_messages = []" "aggregate_versions example_messages = []"
  "inbox_events example_messages = []" "consumer_sequences example_messages = []"
  "quarantined_events example_messages = []" "draws example_messages = 0"
  "closure_operation example_messages = False" "session_context example_messages = Some example_context"
  "outbox_events example_messages = []" "audit_events example_messages = []"
  "workspaces example_messages = workspaces (example_world ())" "in_transaction example_messages = True"
  by (simp_all add: example_messages_def example_session_def started_def with_context_def example_world_def)

lemma example_workspace:
  "ctx_workspace example_context = 2" "ctx_actor example_context = 11"
  "List.find (\<lambda>x. ws_id x = 2) (workspaces (example_world ())) = Some (hd (workspaces (example_world ())))"
  "ws_status (hd (workspaces (example_world ()))) = WS_ACTIVE"
  "list_ex (\<lambda>x. ws_id x = 2) (workspaces (example_world ()))"
  by (simp_all add: example_context_def example_world_def)

lemma example_command_fields:
  "cm_workspace_id example_command = 2" "cm_actor_id example_command = 11"
  "cm_aggregate_type example_command = ''note''" "cm_aggregate_id example_command = 5"
  "cm_expected_version example_command = 0" "cm_command_type example_command = ''note.create''"
  by (simp_all add: example_command_def)

lemma example_payloads:
  "messaging_safe_payload (JObj []) = Inr (JObj [])" "json_dumps (JObj []) = Some ''{}''"
  "messaging_safe_payload (JObj [(''aggregate_version'', JInt 1), (''event_id'', JStr (uuid_str 1002))]) =
   Inr (JObj [(''aggregate_version'', JInt 1), (''event_id'', JStr (uuid_str 1002))])"
  "json_dumps (command_json example_command) \<noteq> None"
  by code_simp+

lemma example_uuid4: "uuid4_stream example_env n = of_nat (1000 + n)"
  by (simp add: example_env_def)

lemma example_writable: "workspaces s = workspaces (example_world ()) \<Longrightarrow> writable 2 s"
  by (simp add: writable_def example_workspace)

lemma example_complete:
  assumes "av_version a = 0" "av_workspace_id a = 2" "ci_workspace_id r = 2"
    and s: "workspaces s = workspaces (example_world ())" "audit_events s = []" "outbox_events s = []"
      "draws s = 2" "session_context s = Some example_context"
  shows "wp (complete_command example_env example_context example_command ''note.created'' (JObj []) 1 0 (Some 0) r a)
    (\<lambda>res s'. \<not> cr_replayed res \<and> session_context s' = Some example_context \<and>
      workspaces s' = workspaces (example_world ())) (\<lambda>_ _. False) s"
proof -
  have written: "wp (audit_write example_env example_context
      ((audit_input ''note.create'' ''note'' 5 ''success'')\<lparr>ai_details := Some (JObj
         [(''aggregate_version'', JInt 1), (''event_id'', JStr (uuid_str 1002))])\<rparr>)) Q E s"
    if "workspaces s = workspaces (example_world ())" "audit_events s = []"
      "\<And>e d hs. ae_safe_digest e \<noteq> None \<Longrightarrow>
         Q e (s\<lparr>draws := d, audit_events := [e], audit_chain_heads := hs\<rparr>)"
    for Q E and s :: "'a msg_db_scheme"
    using that by (intro wp_audit_write_succeeds)
      (simp_all add: audit_input_def details_or_empty_def example_payloads workspace_exists_def example_workspace)
  show ?thesis
    unfolding complete_command_def Let_def or_now_def option.case example_command_fields
    by (simp add: assms wp_simps save_aggregate_def example_uuid4 example_writable
        save_command_def payload_digest_def example_payloads)
      (rule written, simp_all add: s outbox_event_constraints_def workspace_exists_def example_writable
        example_workspace command_outbox_row_def example_command_fields)
qed

lemma example_recorded:
  "wp (record_command example_env example_context example_command ''note.created'' (JObj []) 1 0 (Some 0))
    (\<lambda>res s'. \<not> cr_replayed res \<and> session_context s' = Some example_context \<and>
      workspaces s' = workspaces (example_world ())) (\<lambda>_ _. False) example_messages"
proof -
  obtain j where j: "json_dumps (command_json example_command) = Some j" using example_payloads(4) by blast
  show ?thesis
    by (simp add: record_command_def wp_simps example_command_fields example_workspace example_payloads
        claim_command_def example_writable Let_def request_digest_def payload_digest_def j
        record_new_command_def lock_aggregate_def example_complete)
qed

lemma command_takes_effect_once_witness:
  "\<exists>res s1 s3. record_command example_env example_context example_command ''note.created'' (JObj []) 1 0 (Some 0)
      example_messages = (Inr res, s1) \<and>
    record_command example_env example_context example_command ''note.created'' (JObj []) 1 0 None s1 =
      (Inr (res\<lparr>cr_replayed := True\<rparr>), s3)"
  using example_recorded
proof (cases rule: wp_cases)
  case (returns res s1)
  then show ?thesis
    using command_takes_effect_once [OF returns(1) refl, of None] example_command_fields(1)
      example_writable [of s1] by auto
qed simp

lemma command_is_optimistic_witness:
  "\<exists>res s1. record_command example_env example_context example_command ''note.created'' (JObj []) 1 0 (Some 0)
      example_messages = (Inr res, s1) \<and> command_effect example_command res example_messages s1"
  using example_recorded by (cases rule: wp_cases) (use command_is_optimistic in blast)+

definition example_event :: "int \<Rightarrow> event_envelope" where
  "example_event n = \<lparr>ev_event_id = word_of_int (100 + n), ev_event_type = ''note.created'', ev_schema_major = 1,
     ev_schema_minor = 0, ev_workspace_id = 2, ev_aggregate_type = ''note'', ev_aggregate_id = 5,
     ev_aggregate_sequence = n, ev_actor_id = Some 11, ev_correlation_id = ''correlation-1'', ev_occurred_at = 0,
     ev_classification = ''internal'', ev_payload = JObj [], ev_causation_id = None, ev_delegation_id = None\<rparr>"



lemma redelivery_is_duplicate_witness:
  "\<exists>s1 s2. consume example_env example_context [(''note.created'', 1)] (example_event 1) ''mail'' None example_messages =
      (Inr PROCESSED, s1) \<and>
    consume example_env example_context [(''note.created'', 1)] (example_event 1) ''mail'' None s1 = (Inr DUPLICATE, s2)"
proof -
  have e: "ev_workspace_id (example_event 1) = 2" "ev_payload (example_event 1) = JObj []"
    "ev_event_type (example_event 1) = ''note.created''" "ev_schema_major (example_event 1) = 1"
    "ev_aggregate_sequence (example_event 1) = 1"
    by (simp_all add: example_event_def)
  have first: "wp (consume example_env example_context [(''note.created'', 1)] (example_event 1) ''mail'' None)
      (\<lambda>r s1. r = PROCESSED \<and> session_context s1 = Some example_context \<and> writable 2 s1 \<and>
         delivered (example_event 1) ''mail'' s1 \<and> length (consumer_sequences s1) = 1) (\<lambda>_ _. False) example_messages"
    by (simp add: consume_def wp_simps e example_workspace example_payloads payload_digest_def
        lock_consumer_sequence_def example_writable consume_expected_def claim_inbox_def run_handler_def
        save_sequence_def delivered_def in_key_def Let_def)
  then obtain s1 where s1: "consume example_env example_context [(''note.created'', 1)] (example_event 1) ''mail'' None
      example_messages = (Inr PROCESSED, s1)" "session_context s1 = Some example_context" "writable 2 s1"
      "delivered (example_event 1) ''mail'' s1"
    by (cases rule: wp_cases) auto
  have "wp (consume example_env example_context [(''note.created'', 1)] (example_event 1) ''mail'' None)
      (\<lambda>_ _. True) (\<lambda>_ _. False) s1"
    using s1(2-4)
    by (auto simp: consume_def wp_simps e example_workspace example_payloads payload_digest_def
        lock_consumer_sequence_def consume_expected_def claim_inbox_def run_handler_def
        save_sequence_def Let_def writable_def quarantine_event_def delivered_def find_None_iff in_key_def split: option.splits)
  then obtain r s2 where "consume example_env example_context [(''note.created'', 1)] (example_event 1) ''mail'' None s1 =
      (Inr r, s2)"
    by (cases rule: wp_cases) auto
  with redelivery_is_duplicate [OF this, of "(2, ''mail'', ''note'', 5)"] s1 show ?thesis by auto
qed

lemma event_roundtrip_witness:
  "deserialize_event example_env (serialize_event (example_event 7)) = Inr (example_event 7)"
  by (rule event_roundtrip [where kvs = "[]"])
    (simp_all add: make_event_def example_event_def py_strip_def is_py_space_def datetime_range_def epoch_ordinal_def day_us_def)

end
