(* ===== verification/Job_Contracts.thy ===== *)
theory Job_Contracts
  imports Core_Tables
begin

text \<open>
  The contracts of durable execution: retry policy and decision, the validation of definitions,
  enqueue commands and schedules, and the computation of due occurrences. Source:
  \<open>app/jobs/contracts.py\<close>.

  A \<open>datetime\<close> that reaches a constructor may be naive (\<open>py_datetime\<close>); once accepted it is an
  instant. Local readings of a time zone are counted in microseconds like instants, a local day
  is a number of days.
\<close>

section \<open>Statuses and policies\<close>

datatype job_status = QUEUED | RUNNING | RETRY_WAIT | SUCCEEDED | CANCELLED | DEAD_LETTERED | EXPIRED

datatype attempt_status =
  ATTEMPT_RUNNING | ATTEMPT_SUCCEEDED | ATTEMPT_FAILED | ATTEMPT_ABANDONED | ATTEMPT_CANCELLED

datatype failure_category =
  TRANSIENT | RATE_LIMIT | QUOTA | PERMANENT | FC_AUTHORIZATION | VALIDATION | FC_CANCELLED | FC_DEADLINE | POISON

datatype schedule_kind = ONCE | INTERVAL | DAILY_LOCAL

datatype misfire_policy = MISFIRE_SKIP | FIRE_ONCE | CATCH_UP

datatype local_time_policy = LT_SKIP | NEXT_VALID | EARLIEST | LATEST

definition aware :: "py_datetime \<Rightarrow> py_error + instant" where
  "aware value = (case value of Aware t \<Rightarrow> Inr t | Naive _ \<Rightarrow> Inl (JobError Timestamp_must_be_timezone_aware))"

definition reference :: "string \<Rightarrow> nat \<Rightarrow> py_error + string" where
  "reference value limit =
     (let normalized = py_strip value in
      if normalized = [] \<or> limit < length normalized then Inl (JobError Reference_is_invalid)
      else Inr normalized)"

section \<open>Retry\<close>

record retry_policy =
  max_attempts :: int
  delays :: "int list"

definition make_retry_policy :: "int \<Rightarrow> int list \<Rightarrow> py_error + retry_policy" where
  "make_retry_policy attempts ds =
     (if \<not> (1 \<le> attempts \<and> attempts \<le> 5) then Inl (JobError Attempt_count_exceeds_the_approved_retry_budget)
      else if int (length ds) < attempts - 1 then Inl (JobError Retry_delays_do_not_cover_the_retry_budget)
      else if list_ex (\<lambda>d. d \<le> 0 \<or> 120 < d) ds then Inl (JobError Retry_delay_exceeds_the_approved_bound)
      else Inr \<lparr>max_attempts = attempts, delays = ds\<rparr>)"

definition APPROVED_RETRY_DELAYS :: "int list" where
  "APPROVED_RETRY_DELAYS = [1, 5, 30, 120]"

record retry_result =
  rd_retry :: bool
  rd_retry_at :: "instant option"
  rd_terminal_status :: "job_status option"

text \<open>\<open>xs[i]\<close>: a negative index counts from the end.\<close>

definition py_index :: "'x list \<Rightarrow> int \<Rightarrow> py_error + 'x" where
  "py_index xs i =
     (let j = (if i < 0 then i + int (length xs) else i) in
      if 0 \<le> j \<and> j < int (length xs) then Inr (xs ! nat j) else Inl IndexError)"

definition retryable :: "failure_category \<Rightarrow> bool" where
  "retryable category \<longleftrightarrow> category \<in> {TRANSIENT, RATE_LIMIT, QUOTA}"

definition decide_retry :: "retry_policy \<Rightarrow> failure_category \<Rightarrow> int \<Rightarrow> instant \<Rightarrow> instant \<Rightarrow> py_error + retry_result" where
  "decide_retry policy category attempt_number now deadline =
     (if \<not> retryable category \<or> max_attempts policy \<le> attempt_number
        then Inr \<lparr>rd_retry = False, rd_retry_at = None, rd_terminal_status = Some DEAD_LETTERED\<rparr>
      else case py_index (delays policy) (attempt_number - 1) of
        Inl e \<Rightarrow> Inl e
      | Inr d \<Rightarrow>
          (let retry_at = now + seconds d in
           if deadline \<le> retry_at
             then Inr \<lparr>rd_retry = False, rd_retry_at = None, rd_terminal_status = Some EXPIRED\<rparr>
           else Inr \<lparr>rd_retry = True, rd_retry_at = Some retry_at, rd_terminal_status = None\<rparr>))"

definition retry_decision ::
    "retry_policy \<Rightarrow> failure_category \<Rightarrow> int \<Rightarrow> py_datetime \<Rightarrow> py_datetime \<Rightarrow> py_error + retry_result" where
  "retry_decision policy category attempt_number now deadline =
     (case aware now of Inl e \<Rightarrow> Inl e
      | Inr n \<Rightarrow> (case aware deadline of Inl e \<Rightarrow> Inl e
      | Inr d \<Rightarrow> decide_retry policy category attempt_number n d))"

section \<open>Definitions and commands\<close>

record job_definition_spec =
  ds_definition_id :: uuid
  ds_key :: string
  ds_version :: int
  ds_handler_key :: string
  ds_retry_policy :: retry_policy
  ds_max_concurrency :: int
  ds_rate_limit_per_minute :: int

definition make_job_definition_spec :: "job_definition_spec \<Rightarrow> py_error + job_definition_spec" where
  "make_job_definition_spec d =
     (case reference (ds_key d) 96 of Inl e \<Rightarrow> Inl e
      | Inr key \<Rightarrow> (case reference (ds_handler_key d) 128 of Inl e \<Rightarrow> Inl e
      | Inr handler \<Rightarrow>
        if ds_version d < 1 then Inl (JobError Definition_version_must_be_positive)
        else if \<not> (1 \<le> ds_max_concurrency d \<and> ds_max_concurrency d \<le> 20)
          then Inl (JobError Definition_concurrency_exceeds_the_workspace_ceiling)
        else if \<not> (1 \<le> ds_rate_limit_per_minute d \<and> ds_rate_limit_per_minute d \<le> 120)
          then Inl (JobError Definition_rate_exceeds_the_workspace_ceiling)
        else Inr (d\<lparr>ds_key := key, ds_handler_key := handler\<rparr>)))"

record job_enqueue =
  je_job_id :: uuid
  je_definition_id :: uuid
  je_idempotency_key :: string
  je_command_type :: string
  je_payload :: json
  je_available_at :: instant
  je_deadline :: instant
  je_resource_id :: "uuid option"
  je_classification :: string
  je_causation_id :: "uuid option"

definition CLASSIFICATIONS :: "string list" where
  "CLASSIFICATIONS = [''public'', ''internal'', ''confidential'', ''restricted'']"

definition make_job_enqueue ::
    "uuid \<Rightarrow> uuid \<Rightarrow> string \<Rightarrow> string \<Rightarrow> json \<Rightarrow> py_datetime \<Rightarrow> py_datetime \<Rightarrow> uuid option \<Rightarrow> string \<Rightarrow> uuid option \<Rightarrow>
     py_error + job_enqueue" where
  "make_job_enqueue job_id definition_id idempotency_key command_type payload available_at deadline
      resource_id classification causation_id =
     (case reference idempotency_key 128 of Inl e \<Rightarrow> Inl e
      | Inr key \<Rightarrow> (case reference command_type 128 of Inl e \<Rightarrow> Inl e
      | Inr command \<Rightarrow> (case aware available_at of Inl e \<Rightarrow> Inl e
      | Inr available \<Rightarrow> (case aware deadline of Inl e \<Rightarrow> Inl e
      | Inr dead \<Rightarrow>
        if dead \<le> available then Inl (JobError Deadline_must_follow_availability)
        else if classification \<notin> set CLASSIFICATIONS then Inl (JobError Job_classification_is_invalid)
        else case jobs_safe_payload payload of Inl e \<Rightarrow> Inl e
        | Inr _ \<Rightarrow> Inr \<lparr>je_job_id = job_id, je_definition_id = definition_id, je_idempotency_key = key,
            je_command_type = command, je_payload = payload, je_available_at = available, je_deadline = dead,
            je_resource_id = resource_id, je_classification = classification,
            je_causation_id = causation_id\<rparr>))))"

section \<open>Schedules\<close>

record daily_schedule =
  dy_hour :: int
  dy_minute :: int
  dy_timezone :: string
  dy_local_time_policy :: local_time_policy

definition make_daily_schedule ::
    "py_env \<Rightarrow> int \<Rightarrow> int \<Rightarrow> string \<Rightarrow> local_time_policy \<Rightarrow> py_error + daily_schedule" where
  "make_daily_schedule env hour minute timezone policy =
     (if \<not> (0 \<le> hour \<and> hour \<le> 23) \<or> \<not> (0 \<le> minute \<and> minute \<le> 59)
        then Inl (JobError Daily_local_time_is_invalid)
      else case zone_info env timezone of
        None \<Rightarrow> Inl (JobError Schedule_timezone_is_unknown)
      | Some _ \<Rightarrow> Inr \<lparr>dy_hour = hour, dy_minute = minute, dy_timezone = timezone, dy_local_time_policy = policy\<rparr>)"

record schedule_spec =
  sp_schedule_id :: uuid
  sp_definition_id :: uuid
  sp_kind :: schedule_kind
  sp_first_due_at :: instant
  sp_misfire_policy :: misfire_policy
  sp_interval_seconds :: "int option"
  sp_daily :: "daily_schedule option"

definition make_schedule_spec ::
    "uuid \<Rightarrow> uuid \<Rightarrow> schedule_kind \<Rightarrow> py_datetime \<Rightarrow> misfire_policy \<Rightarrow> int option \<Rightarrow> daily_schedule option \<Rightarrow>
     py_error + schedule_spec" where
  "make_schedule_spec schedule_id definition_id kind first_due_at misfire interval daily =
     (case aware first_due_at of Inl e \<Rightarrow> Inl e
      | Inr first \<Rightarrow>
        if kind = INTERVAL \<and> (case interval of None \<Rightarrow> True | Some i \<Rightarrow> i < 1)
          then Inl (JobError Interval_schedule_requires_a_positive_interval)
        else if kind = DAILY_LOCAL \<and> daily = None
          then Inl (JobError Daily_schedule_requires_local_time_policy)
        else if kind \<noteq> DAILY_LOCAL \<and> daily \<noteq> None
          then Inl (JobError Local_time_policy_belongs_only_to_daily_schedules)
        else Inr \<lparr>sp_schedule_id = schedule_id, sp_definition_id = definition_id, sp_kind = kind,
          sp_first_due_at = first, sp_misfire_policy = misfire, sp_interval_seconds = interval,
          sp_daily = daily\<rparr>)"

text \<open>
  \<open>ZoneInfo(daily.timezone)\<close> was found when the schedule was made; the database of time zones
  does not change during a run, so \<open>None\<close> does not occur here.
\<close>

definition reads_back :: "zone \<Rightarrow> int \<Rightarrow> instant \<Rightarrow> bool" where
  "reads_back z naive utc \<longleftrightarrow> zone_local z utc = naive"

fun fold_candidates :: "zone \<Rightarrow> int \<Rightarrow> nat list \<Rightarrow> instant list \<Rightarrow> instant list" where
  "fold_candidates z naive [] candidates = candidates"
| "fold_candidates z naive (fld # folds) candidates =
     (let utc = zone_utc z naive fld in
      fold_candidates z naive folds
        (if reads_back z naive utc \<and> utc \<notin> set candidates then candidates @ [utc] else candidates))"

fun next_valid :: "zone \<Rightarrow> int \<Rightarrow> int list \<Rightarrow> instant option" where
  "next_valid z naive [] = None"
| "next_valid z naive (offset # offsets) =
     (let shifted = naive + minutes offset; utc = zone_utc z shifted 0 in
      if reads_back z shifted utc then Some utc else next_valid z naive offsets)"

definition resolve_in_zone :: "zone \<Rightarrow> int \<Rightarrow> daily_schedule \<Rightarrow> instant option" where
  "resolve_in_zone z day daily =
     (let naive = day * day_us + minutes (dy_hour daily * 60 + dy_minute daily);
          candidates = fold_candidates z naive [0, 1] []
      in if candidates = []
         then (if dy_local_time_policy daily = NEXT_VALID then next_valid z naive [1..180] else None)
         else if dy_local_time_policy daily = LATEST then Some (Max (set candidates))
         else Some (Min (set candidates)))"

definition resolve_local :: "py_env \<Rightarrow> int \<Rightarrow> daily_schedule \<Rightarrow> instant option" where
  "resolve_local env day daily =
     (case zone_info env (dy_timezone daily) of None \<Rightarrow> None | Some z \<Rightarrow> resolve_in_zone z day daily)"

text \<open>\<open>value.astimezone(zone).date()\<close>\<close>

definition local_day :: "py_env \<Rightarrow> daily_schedule \<Rightarrow> instant \<Rightarrow> int" where
  "local_day env daily t =
     (case zone_info env (dy_timezone daily) of None \<Rightarrow> 0 | Some z \<Rightarrow> zone_local z t div day_us)"

definition take_last :: "nat \<Rightarrow> 'x list \<Rightarrow> 'x list" where
  "take_last n xs = drop (length xs - n) xs"

text \<open>\<open>int((later - earlier).total_seconds())\<close>; the difference is not negative where it is used.\<close>

definition total_seconds :: "int \<Rightarrow> int" where
  "total_seconds us = us div 1000000"

definition interval_due :: "instant \<Rightarrow> int \<Rightarrow> instant \<Rightarrow> instant list" where
  "interval_due first interval now =
     (let elapsed = total_seconds (now - first);
          count = elapsed div interval + 1;
          start = max 0 (count - 10)
      in map (\<lambda>value. first + seconds (interval * value)) [start..count - 1])"

definition daily_due :: "py_env \<Rightarrow> instant \<Rightarrow> daily_schedule \<Rightarrow> instant \<Rightarrow> instant list" where
  "daily_due env first daily now =
     (let first_day = local_day env daily first;
          days = local_day env daily now - first_day
      in take_last 10 (List.map_filter (\<lambda>offset.
           case resolve_local env (first_day + offset) daily of
             None \<Rightarrow> None
           | Some occurrence \<Rightarrow> if first \<le> occurrence \<and> occurrence \<le> now then Some occurrence else None)
         [max 0 (days - 10)..days]))"

definition all_due :: "py_env \<Rightarrow> schedule_spec \<Rightarrow> instant \<Rightarrow> py_error + instant list" where
  "all_due env spec now =
     (let first = sp_first_due_at spec in
      if first > now then Inr []
      else case sp_kind spec of
        ONCE \<Rightarrow> Inr [first]
      | INTERVAL \<Rightarrow> (case sp_interval_seconds spec of
          None \<Rightarrow> Inl AssertionError | Some i \<Rightarrow> Inr (interval_due first i now))
      | DAILY_LOCAL \<Rightarrow> (case sp_daily spec of
          None \<Rightarrow> Inl AssertionError | Some daily \<Rightarrow> Inr (daily_due env first daily now)))"

definition due_occurrences :: "py_env \<Rightarrow> schedule_spec \<Rightarrow> instant \<Rightarrow> py_error + instant list" where
  "due_occurrences env spec now =
     (case all_due env spec now of Inl e \<Rightarrow> Inl e
      | Inr due \<Rightarrow>
        if due = [] \<or> sp_misfire_policy spec = MISFIRE_SKIP then Inr []
        else if sp_misfire_policy spec = FIRE_ONCE then Inr [now]
        else Inr (take_last 10 due))"

fun first_candidate :: "py_env \<Rightarrow> instant \<Rightarrow> daily_schedule \<Rightarrow> instant \<Rightarrow> int \<Rightarrow> int list \<Rightarrow> instant option" where
  "first_candidate env first daily after day [] = None"
| "first_candidate env first daily after day (offset # offsets) =
     (case resolve_local env (day + offset) daily of
        Some candidate \<Rightarrow>
          if first \<le> candidate \<and> after < candidate then Some candidate
          else first_candidate env first daily after day offsets
      | None \<Rightarrow> first_candidate env first daily after day offsets)"

definition next_occurrence :: "py_env \<Rightarrow> schedule_spec \<Rightarrow> instant \<Rightarrow> py_error + instant option" where
  "next_occurrence env spec after =
     (let first = sp_first_due_at spec in
      case sp_kind spec of
        ONCE \<Rightarrow> Inr (if after < first then Some first else None)
      | INTERVAL \<Rightarrow> (case sp_interval_seconds spec of
          None \<Rightarrow> Inl AssertionError
        | Some interval \<Rightarrow>
            if after < first then Inr (Some first)
            else (let elapsed = total_seconds (after - first)
                  in Inr (Some (first + seconds ((elapsed div interval + 1) * interval)))))
      | DAILY_LOCAL \<Rightarrow> (case sp_daily spec of
          None \<Rightarrow> Inl AssertionError
        | Some daily \<Rightarrow>
            (case first_candidate env first daily after (local_day env daily after) [0..369] of
               None \<Rightarrow> Inl (JobError Daily_schedule_has_no_resolvable_occurrence)
             | Some candidate \<Rightarrow> Inr (Some candidate))))"

end
