(* ===== verification/Job_Contract_Laws.thy ===== *)
theory Job_Contract_Laws
  imports Job_Contracts Example_World
begin

text \<open>
  The retry budget and the schedules: a retry is always within the budget, the delay bound and the
  deadline; due occurrences are bounded and, for intervals, exactly the last ten of the reference
  list of all occurrences; the next occurrence is strictly later and the first such one.
\<close>

section \<open>Retry\<close>

lemma make_retry_policyD:
  assumes "make_retry_policy a ds = Inr p"
  shows "max_attempts p = a" "delays p = ds" "1 \<le> a" "a \<le> 5" "a - 1 \<le> int (length ds)"
    "\<forall>d \<in> set ds. 1 \<le> d \<and> d \<le> 120"
  using assms by (auto simp: make_retry_policy_def list_ex_iff split: if_splits)

text \<open>
  Under an accepted policy a retry decision never fails on the delay table. It is exactly one of
  retrying and ending; it retries only a transient, rate-limit or quota failure, only while the
  attempt number is below the budget of at most five, between one and 120 seconds later, and
  before the deadline.
\<close>

theorem retry_decision_sound:
  assumes "make_retry_policy a ds = Inr p" "1 \<le> n"
  shows "\<exists>r. retry_decision p c n (Aware now) (Aware deadline) = Inr r \<and>
    (rd_retry r \<longleftrightarrow> rd_terminal_status r = None) \<and>
    (case rd_retry_at r of
       None \<Rightarrow> \<not> rd_retry r \<and> rd_terminal_status r \<in> {Some DEAD_LETTERED, Some EXPIRED}
     | Some t \<Rightarrow> rd_retry r \<and> retryable c \<and> n < max_attempts p \<and> n < 5 \<and>
         now + seconds 1 \<le> t \<and> t \<le> now + seconds 120 \<and> t < deadline)"
proof (cases "\<not> retryable c \<or> max_attempts p \<le> n")
  case True
  then show ?thesis by (auto simp: retry_decision_def aware_def decide_retry_def)
next
  case False
  note p = make_retry_policyD [OF assms(1)]
  have n: "0 \<le> n - 1" "n - 1 < int (length (delays p))" using False p assms(2) by auto
  then have "delays p ! nat (n - 1) \<in> set (delays p)" by (intro nth_mem) auto
  with p have d: "1 \<le> delays p ! nat (n - 1)" "delays p ! nat (n - 1) \<le> 120" by auto
  with False n p(1,4) show ?thesis
    by (auto simp: retry_decision_def aware_def decide_retry_def py_index_def Let_def seconds_def)
qed

lemma retry_decision_sound_witness:
  "\<exists>r. retry_decision \<lparr>max_attempts = 5, delays = APPROVED_RETRY_DELAYS\<rparr> QUOTA 2 (Aware 0) (Aware (seconds 60)) = Inr r \<and>
    rd_retry_at r = Some (seconds 5)"
proof -
  have "make_retry_policy 5 APPROVED_RETRY_DELAYS = Inr \<lparr>max_attempts = 5, delays = APPROVED_RETRY_DELAYS\<rparr>"
    by (simp add: make_retry_policy_def APPROVED_RETRY_DELAYS_def)
  from retry_decision_sound [OF this, of 2 QUOTA 0 "seconds 60"] obtain r where
    "retry_decision \<lparr>max_attempts = 5, delays = APPROVED_RETRY_DELAYS\<rparr> QUOTA 2 (Aware 0) (Aware (seconds 60)) = Inr r"
    by auto
  then show ?thesis
    by (auto simp: retry_decision_def aware_def decide_retry_def py_index_def Let_def seconds_def
        retryable_def APPROVED_RETRY_DELAYS_def)
qed

section \<open>Due occurrences\<close>

lemma length_take_last: "length (take_last n xs) = min n (length xs)"
  by (simp add: take_last_def)

lemma take_last_idem: "length xs \<le> n \<Longrightarrow> take_last n xs = xs"
  by (simp add: take_last_def)

lemma set_take_last: "x \<in> set (take_last n xs) \<Longrightarrow> x \<in> set xs"
  unfolding take_last_def by (rule in_set_dropD)

text \<open>The reference: all occurrences of an interval schedule up to now.\<close>

definition interval_occurrences :: "instant \<Rightarrow> int \<Rightarrow> instant \<Rightarrow> instant list" where
  "interval_occurrences first interval now =
     map (\<lambda>k. first + seconds (interval * k)) [0..total_seconds (now - first) div interval]"

lemma seconds_le_iff: "seconds k \<le> d \<longleftrightarrow> k \<le> total_seconds d"
  by (simp add: seconds_def total_seconds_def) linarith

lemma mult_le_div_iff: "0 < (i::int) \<Longrightarrow> i * k \<le> n \<longleftrightarrow> k \<le> n div i"
proof
  assume "0 < i" "i * k \<le> n"
  then have "(i * k) div i \<le> n div i" by (intro zdiv_mono1)
  with \<open>0 < i\<close> show "k \<le> n div i" by simp
next
  assume "0 < i" "k \<le> n div i"
  then have "i * k \<le> i * (n div i)" by (intro mult_left_mono) simp_all
  also have "\<dots> \<le> n" using \<open>0 < i\<close> by (metis add_increasing2 div_mult_mod_eq mult.commute order_refl pos_mod_sign)
  finally show "i * k \<le> n" .
qed

lemma grid_le_iff:
  assumes "0 < i"
  shows "first + seconds (i * k) \<le> now \<longleftrightarrow> k \<le> total_seconds (now - first) div i"
proof -
  have "first + seconds (i * k) \<le> now \<longleftrightarrow> i * k \<le> total_seconds (now - first)"
    using seconds_le_iff [of "i * k" "now - first"] by linarith
  also have "\<dots> \<longleftrightarrow> k \<le> total_seconds (now - first) div i"
    by (rule mult_le_div_iff [OF assms])
  finally show ?thesis .
qed

lemma set_interval_occurrences:
  assumes "0 < i"
  shows "t \<in> set (interval_occurrences first i now) \<longleftrightarrow> (\<exists>k \<ge> 0. t = first + seconds (i * k) \<and> t \<le> now)"
  using grid_le_iff [OF assms, of first _ now] by (auto simp: interval_occurrences_def)

lemma drop_upto: "drop n [i..j] = [i + int n..j]"
proof (induction n arbitrary: i)
  case (Suc n)
  then show ?case by (cases "i \<le> j") (simp_all add: upto_rec1 algebra_simps)
qed simp

lemma interval_due_reference:
  assumes "0 < i" "first \<le> now"
  shows "interval_due first i now = take_last 10 (interval_occurrences first i now)"
proof -
  define m where "m = total_seconds (now - first) div i"
  have m: "0 \<le> m" using assms by (simp add: m_def total_seconds_def pos_imp_zdiv_nonneg_iff)
  have "drop (nat (m + 1) - 10) [0..m] = [max 0 (m + 1 - 10)..m]"
    unfolding drop_upto using m by (simp add: max_def nat_diff_distrib')
  then show ?thesis
    using m by (simp add: interval_due_def interval_occurrences_def take_last_def drop_map Let_def
        flip: m_def)
qed

lemma daily_due_bounds:
  "t \<in> set (daily_due env first daily now) \<Longrightarrow> first \<le> t \<and> t \<le> now"
  unfolding daily_due_def Let_def
  by (drule set_take_last) (auto simp: List.map_filter_def split: option.splits if_splits)

text \<open>
  C37: At most ten occurrences come due at an evaluation. Skipping gives none, firing once gives the
  instant of the evaluation; catching up gives only instants between the first one and now, and for
  an interval schedule exactly the last ten of all the instants of its grid up to now.
\<close>

theorem due_occurrences_spec:
  assumes "make_schedule_spec i d kind (Aware first) misfire interval daily = Inr spec"
  shows "\<exists>due. due_occurrences env spec now = Inr due \<and> length due \<le> 10 \<and>
    (\<forall>t \<in> set due. first \<le> t \<and> t \<le> now) \<and>
    (misfire = MISFIRE_SKIP \<longrightarrow> due = []) \<and> (misfire = FIRE_ONCE \<longrightarrow> due = [] \<or> due = [now]) \<and>
    (misfire = CATCH_UP \<and> kind = INTERVAL \<longrightarrow>
       due = take_last 10 (if first \<le> now then interval_occurrences first (the interval) now else []))"
proof -
  have spec: "sp_kind spec = kind" "sp_first_due_at spec = first" "sp_misfire_policy spec = misfire"
    "sp_interval_seconds spec = interval" "sp_daily spec = daily"
    "kind = INTERVAL \<Longrightarrow> \<exists>k. interval = Some k \<and> 0 < k" "kind = DAILY_LOCAL \<Longrightarrow> daily \<noteq> None"
    using assms by (auto simp: make_schedule_spec_def aware_def split: if_splits option.splits)
  have "\<exists>due. all_due env spec now = Inr due"
    using spec by (cases kind) (auto simp: all_due_def Let_def)
  then obtain due where due: "all_due env spec now = Inr due" ..
  have bounds: "\<forall>t \<in> set due. first \<le> t \<and> t \<le> now"
    using due spec
    by (cases kind) (auto simp: all_due_def Let_def interval_due_reference set_interval_occurrences
        seconds_def dest!: set_take_last daily_due_bounds split: if_splits)
  define res where "res = (if due = [] \<or> misfire = MISFIRE_SKIP then [] else if misfire = FIRE_ONCE then [now]
      else take_last 10 due)"
  have result: "due_occurrences env spec now = Inr res"
    using due spec by (simp add: due_occurrences_def res_def)
  have now: "first \<le> now" if "due \<noteq> []" using bounds that by (cases due) auto
  have "res = take_last 10 (if first \<le> now then interval_occurrences first (the interval) now else [])"
    if "kind = INTERVAL" "misfire = CATCH_UP"
  proof -
    have "due = take_last 10 (if first \<le> now then interval_occurrences first (the interval) now else [])"
      using that(1) due spec by (auto simp: all_due_def Let_def interval_due_reference take_last_def split: if_splits)
    then show ?thesis
      using that(2) by (simp add: res_def take_last_idem length_take_last)
  qed
  moreover have "length res \<le> 10" by (simp add: res_def length_take_last)
  moreover have "\<forall>t \<in> set res. first \<le> t \<and> t \<le> now"
    using bounds now by (auto simp: res_def dest: set_take_last)
  moreover have "misfire = MISFIRE_SKIP \<longrightarrow> res = []" "misfire = FIRE_ONCE \<longrightarrow> res = [] \<or> res = [now]"
    by (simp_all add: res_def)
  ultimately show ?thesis using result by blast
qed

lemma due_occurrences_spec_witness:
  "\<exists>due. due_occurrences example_env \<lparr>sp_schedule_id = 1, sp_definition_id = 2, sp_kind = INTERVAL, sp_first_due_at = 0,
      sp_misfire_policy = CATCH_UP, sp_interval_seconds = Some 60, sp_daily = None\<rparr> (seconds 130) = Inr due \<and>
    due = take_last 10 (interval_occurrences 0 60 (seconds 130))"
  using due_occurrences_spec [of 1 2 INTERVAL 0 CATCH_UP "Some 60" None _ example_env "seconds 130"]
  by (simp add: make_schedule_spec_def aware_def seconds_def)

section \<open>Next occurrence\<close>

lemma first_candidate_sound:
  "first_candidate env first daily after day offsets = Some t \<Longrightarrow>
     first \<le> t \<and> after < t \<and> (\<exists>offset \<in> set offsets. resolve_local env (day + offset) daily = Some t)"
  by (induction offsets) (auto split: option.splits if_splits)

text \<open>
  The next occurrence of a schedule is later than the given instant and not before the first
  one, so a schedule that was just evaluated is not due again at the same instant. For an interval
  schedule it is on the grid, and no instant of the grid lies between.
\<close>

theorem next_occurrence_spec:
  assumes "make_schedule_spec i d kind (Aware first) misfire interval daily = Inr spec"
    and "next_occurrence env spec after = Inr (Some t)"
  shows "after < t \<and> first \<le> t \<and>
    (kind = INTERVAL \<longrightarrow> (\<exists>k \<ge> 0. t = first + seconds (the interval * k)) \<and>
       (\<forall>k \<ge> 0. after < first + seconds (the interval * k) \<longrightarrow> t \<le> first + seconds (the interval * k)))"
proof -
  have spec: "sp_kind spec = kind" "sp_first_due_at spec = first" "sp_interval_seconds spec = interval"
    "kind = INTERVAL \<Longrightarrow> \<exists>k. interval = Some k \<and> 0 < k"
    using assms(1) by (auto simp: make_schedule_spec_def aware_def split: if_splits option.splits)
  show ?thesis
  proof (cases kind)
    case ONCE
    with assms(2) spec show ?thesis by (auto simp: next_occurrence_def Let_def split: if_splits)
  next
    case DAILY_LOCAL
    with assms(2) spec show ?thesis
      by (auto simp: next_occurrence_def Let_def split: option.splits dest!: first_candidate_sound)
  next
    case INTERVAL
    then obtain k where k: "interval = Some k" "0 < k" using spec(4) by blast
    show ?thesis
    proof (cases "after < first")
      case True
      with INTERVAL k assms(2) spec show ?thesis
        by (auto simp: next_occurrence_def seconds_def intro!: exI [of _ 0])
    next
      case False
      define m where "m = total_seconds (after - first) div k"
      have m: "0 \<le> m" using False k by (simp add: m_def total_seconds_def pos_imp_zdiv_nonneg_iff)
      have t: "t = first + seconds (k * (m + 1))"
        using False INTERVAL k assms(2) spec by (simp add: next_occurrence_def Let_def m_def mult.commute)
      have later: "after < first + seconds (k * l) \<longleftrightarrow> m + 1 \<le> l" for l
        using grid_le_iff [OF k(2), of first l "after"] unfolding m_def by linarith
      have "seconds (k * (m + 1)) \<le> seconds (k * l)" if "m + 1 \<le> l" for l
        using that k by (simp add: seconds_def)
      moreover have "0 \<le> seconds (k * (m + 1))" using m k by (simp add: seconds_def)
      ultimately show ?thesis
        using later [of "m + 1"] later k m unfolding t by (auto intro: exI [of _ "m + 1"])
    qed
  qed
qed

lemma next_occurrence_spec_witness:
  "seconds 130 < seconds 180 \<and> (\<exists>k \<ge> 0. seconds 180 = 0 + seconds (60 * k))"
  using next_occurrence_spec [of 1 2 INTERVAL 0 CATCH_UP "Some 60" None _ example_env "seconds 130" "seconds 180"]
  by (simp add: make_schedule_spec_def aware_def next_occurrence_def total_seconds_def seconds_def)

end
