(* ===== verification/Dispatcher.thy ===== *)
theory Dispatcher
  imports Core_Tables
begin

text \<open>
  \<open>FairWorkspaceDispatcher\<close> of \<open>app/jobs/dispatcher.py\<close>: the order in which workers claim from
  the workspaces of an organization. A dictionary is the list of its items in insertion order,
  with distinct keys.

  Shown here: the loop ends; the order is bounded by the limits; it is fair, round by round; and it
  stops early only when no workspace has work left.
\<close>

fun dispatch_pass :: "int \<Rightarrow> (uuid \<times> int) list \<Rightarrow> uuid list \<Rightarrow> (uuid \<times> int) list \<times> uuid list \<times> bool" where
  "dispatch_pass limit [] ordered = ([], ordered, False)"
| "dispatch_pass limit ((workspace, count) # items) ordered =
     (if count \<le> 0 \<or> int (length ordered) \<ge> limit
      then (case dispatch_pass limit items ordered of
              (rest, ordered', progressed) \<Rightarrow> ((workspace, count) # rest, ordered', progressed))
      else (case dispatch_pass limit items (ordered @ [workspace]) of
              (rest, ordered', progressed) \<Rightarrow> ((workspace, count - 1) # rest, ordered', True)))"

lemma dispatch_pass_progress:
  "dispatch_pass limit items ordered = (rest, ordered', p) \<Longrightarrow>
     length ordered \<le> length ordered' \<and> (p \<longrightarrow> length ordered < length ordered')"
  by (induction limit items ordered arbitrary: rest ordered' p rule: dispatch_pass.induct)
    (fastforce split: if_splits prod.splits)+

function dispatch_rounds :: "int \<Rightarrow> (uuid \<times> int) list \<Rightarrow> uuid list \<Rightarrow> uuid list" where
  "dispatch_rounds limit remaining ordered =
     (if int (length ordered) < limit
      then (case dispatch_pass limit remaining ordered of
              (remaining', ordered', progressed) \<Rightarrow>
                if progressed then dispatch_rounds limit remaining' ordered' else ordered')
      else ordered)"
  by pat_completeness auto

termination
  by (relation "measure (\<lambda>(limit, remaining, ordered). nat (limit - int (length ordered)))")
    (auto dest!: dispatch_pass_progress [OF sym])

declare dispatch_rounds.simps [simp del]

definition order :: "(uuid \<times> int) list \<Rightarrow> int \<Rightarrow> int \<Rightarrow> int \<Rightarrow> uuid list" where
  "order eligible limit organization_running organization_limit =
     (let organization_capacity = max 0 (organization_limit - organization_running);
          limit' = min limit organization_capacity
      in if limit' \<le> 0 then []
         else dispatch_rounds limit' (map (\<lambda>(w, c). (w, max 0 c)) eligible) [])"

section \<open>One pass\<close>

definition takes :: "int \<Rightarrow> (uuid \<Rightarrow> int) \<Rightarrow> uuid list \<Rightarrow> uuid list \<Rightarrow> uuid list" where
  "takes limit f ks ordered = take (nat (limit - int (length ordered))) (filter (\<lambda>w. 0 < f w) ks)"

lemma dispatch_pass_takes:
  assumes "distinct ks"
  shows "dispatch_pass limit (map (\<lambda>w. (w, f w)) ks) ordered =
    (map (\<lambda>w. (w, if w \<in> set (takes limit f ks ordered) then f w - 1 else f w)) ks,
     ordered @ takes limit f ks ordered, takes limit f ks ordered \<noteq> [])"
  using assms
proof (induction ks arbitrary: ordered)
  case Nil
  then show ?case by (simp add: takes_def)
next
  case (Cons w ks)
  have sub: "set (takes limit f ks o') \<subseteq> set ks" for o'
    by (auto simp: takes_def dest: in_set_takeD)
  show ?case
  proof (cases "f w \<le> 0 \<or> limit \<le> int (length ordered)")
    case True
    then have same: "takes limit f (w # ks) ordered = takes limit f ks ordered" by (auto simp: takes_def)
    have "w \<notin> set (takes limit f ks ordered)" using sub [of ordered] Cons.prems by auto
    with True Cons show ?thesis by (auto simp: same)
  next
    case False
    define d where "d = nat (limit - int (length (ordered @ [w])))"
    have "nat (limit - int (length ordered)) = Suc d" using False by (simp add: d_def) arith
    then have more: "takes limit f (w # ks) ordered = w # takes limit f ks (ordered @ [w])"
      using False by (simp add: takes_def d_def)
    have "w \<notin> set ks" using Cons.prems by simp
    with False Cons show ?thesis by (auto simp: more)
  qed
qed

section \<open>The rounds\<close>

text \<open>What is left after \<open>k\<close> full rounds, and how often each workspace was named by then.\<close>

definition left_after :: "(uuid \<Rightarrow> int) \<Rightarrow> int \<Rightarrow> uuid list \<Rightarrow> (uuid \<times> int) list" where
  "left_after e k ks = map (\<lambda>w. (w, e w - min (e w) k)) ks"

lemma count_list_distinct: "distinct xs \<Longrightarrow> count_list xs w = (if w \<in> set xs then 1 else 0)"
  by (induction xs) auto

lemma dispatch_rounds_fair:
  assumes "distinct ks" "\<forall>w. 0 \<le> e w" "0 \<le> k"
    and "\<forall>w \<in> set ks. int (count_list ordered w) = min (e w) k"
    and "int (length ordered) \<le> limit"
  defines "res \<equiv> dispatch_rounds limit (left_after e k ks) ordered"
  shows "\<exists>n \<ge> k. (\<forall>w \<in> set ks. int (count_list res w) = min (e w) n \<or> int (count_list res w) = min (e w) (n + 1)) \<and>
    int (length res) \<le> limit \<and>
    (int (length res) < limit \<longrightarrow> (\<forall>w \<in> set ks. int (count_list res w) = e w))"
  using assms(3-5) unfolding res_def
proof (induction "nat (limit - int (length ordered))" arbitrary: k ordered rule: less_induct)
  case less
  define T where "T = takes limit (\<lambda>w. e w - min (e w) k) ks ordered"
  have pass: "dispatch_pass limit (left_after e k ks) ordered =
      (map (\<lambda>w. (w, if w \<in> set T then e w - min (e w) k - 1 else e w - min (e w) k)) ks, ordered @ T, T \<noteq> [])"
    unfolding left_after_def T_def by (rule dispatch_pass_takes [OF assms(1)])
  have pos: "filter (\<lambda>w. 0 < e w - min (e w) k) ks = filter (\<lambda>w. k < e w) ks" by (auto intro: filter_cong)
  have Tset: "set T \<subseteq> {w \<in> set ks. k < e w}"
    unfolding T_def takes_def pos by (auto dest: in_set_takeD)
  have dT: "distinct T" unfolding T_def takes_def using assms(1) by simp
  have counts: "int (count_list (ordered @ T) w) = (if w \<in> set T then min (e w) (k + 1) else min (e w) k)"
    if "w \<in> set ks" for w
    using that less.prems(2) Tset dT by (auto simp: count_list_distinct)
  show ?case
  proof (cases "int (length ordered) < limit \<and> T \<noteq> []")
    case False
    have res: "dispatch_rounds limit (left_after e k ks) ordered = ordered"
      using False by (subst dispatch_rounds.simps) (auto simp: pass)
    have "e w \<le> k" if "int (length ordered) < limit" "w \<in> set ks" for w
    proof -
      have "filter (\<lambda>w. k < e w) ks = []" using False that(1) unfolding T_def takes_def pos by auto
      with that(2) show ?thesis by (auto simp: filter_empty_conv)
    qed
    then show ?thesis using less.prems unfolding res by (intro exI [of _ k]) auto
  next
    case True
    have step: "dispatch_rounds limit (left_after e k ks) ordered =
        dispatch_rounds limit (map (\<lambda>w. (w, if w \<in> set T then e w - min (e w) k - 1 else e w - min (e w) k)) ks)
          (ordered @ T)"
      using True by (subst dispatch_rounds.simps) (simp add: pass)
    have len: "int (length (ordered @ T)) \<le> limit"
      using True unfolding T_def takes_def by simp linarith
    show ?thesis
    proof (cases "set T = {w \<in> set ks. k < e w}")
      case full: True
      have "map (\<lambda>w. (w, if w \<in> set T then e w - min (e w) k - 1 else e w - min (e w) k)) ks = left_after e (k + 1) ks"
        unfolding left_after_def full by auto
      then have rest: "dispatch_rounds limit (left_after e k ks) ordered =
          dispatch_rounds limit (left_after e (k + 1) ks) (ordered @ T)" using step by simp
      have "\<exists>n \<ge> k + 1. (\<forall>w \<in> set ks.
            int (count_list (dispatch_rounds limit (left_after e (k + 1) ks) (ordered @ T)) w) = min (e w) n \<or>
            int (count_list (dispatch_rounds limit (left_after e (k + 1) ks) (ordered @ T)) w) = min (e w) (n + 1)) \<and>
          int (length (dispatch_rounds limit (left_after e (k + 1) ks) (ordered @ T))) \<le> limit \<and>
          (int (length (dispatch_rounds limit (left_after e (k + 1) ks) (ordered @ T))) < limit \<longrightarrow>
            (\<forall>w \<in> set ks. int (count_list (dispatch_rounds limit (left_after e (k + 1) ks) (ordered @ T)) w) = e w))"
        using True less.prems(1) len counts full by (intro less.hyps) auto
      then show ?thesis unfolding rest by (elim exE conjE) (rule exI, intro conjI, auto)
    next
      case cut: False
      have "length T = nat (limit - int (length ordered))"
      proof (rule ccontr)
        assume "length T \<noteq> nat (limit - int (length ordered))"
        then have "T = filter (\<lambda>w. k < e w) ks" unfolding T_def takes_def pos by auto
        with cut show False by auto
      qed
      then have full: "int (length (ordered @ T)) = limit" using True by simp
      then have "dispatch_rounds limit r (ordered @ T) = ordered @ T" for r
        by (subst dispatch_rounds.simps) simp
      then show ?thesis unfolding step using counts full by (intro exI [of _ k]) auto
    qed
  qed
qed

text \<open>
  C38: The dispatch order names a workspace at most as often as it has waiting jobs, and in all at
  most as often as the limit and the free capacity of the organization allow. It is fair: a
  workspace that is named fewer times than another, by more than one, has all its jobs named. And
  it stops below the limit only when every workspace has all its jobs named.
\<close>

theorem dispatch_order_fair:
  assumes "distinct (map fst eligible)" "(w, c) \<in> set eligible" "(v, d) \<in> set eligible"
  shows "let res = order eligible limit running organization_limit;
      capacity = max 0 (min limit (max 0 (organization_limit - running)))
    in int (count_list res w) \<le> max 0 c \<and> int (length res) \<le> capacity \<and>
      (count_list res v + 1 < count_list res w \<longrightarrow> int (count_list res v) = max 0 d) \<and>
      (int (length res) < capacity \<longrightarrow> int (count_list res w) = max 0 c)"
proof (cases "min limit (max 0 (organization_limit - running)) \<le> 0")
  case True
  then show ?thesis by (auto simp: order_def Let_def)
next
  case False
  define m where "m = min limit (max 0 (organization_limit - running))"
  define e where "e x = max 0 (case map_of eligible x of None \<Rightarrow> 0 | Some n \<Rightarrow> n)" for x
  have e: "e x = max 0 n" if "(x, n) \<in> set eligible" for x n
    using assms(1) that by (simp add: e_def)
  have nonneg: "\<forall>x. 0 \<le> e x" by (simp add: e_def)
  have start: "map (\<lambda>(w, c). (w, max 0 c)) eligible = left_after e 0 (map fst eligible)"
    using e nonneg by (auto simp: left_after_def)
  have res: "order eligible limit running organization_limit =
      dispatch_rounds m (left_after e 0 (map fst eligible)) []"
    using False unfolding order_def Let_def start m_def by (simp only: if_False)
  have keys: "w \<in> set (map fst eligible)" "v \<in> set (map fst eligible)" using assms(2,3) by force+
  define r where "r = order eligible limit running organization_limit"
  have m: "0 < m" using False unfolding m_def by linarith
  have "\<exists>n \<ge> 0. (\<forall>x \<in> set (map fst eligible). int (count_list r x) = min (e x) n \<or>
      int (count_list r x) = min (e x) (n + 1)) \<and> int (length r) \<le> m \<and>
      (int (length r) < m \<longrightarrow> (\<forall>x \<in> set (map fst eligible). int (count_list r x) = e x))"
    unfolding r_def res by (rule dispatch_rounds_fair [OF assms(1) nonneg]) (use m nonneg in simp_all)
  then obtain n where n: "0 \<le> n"
    "\<forall>x \<in> set (map fst eligible). int (count_list r x) = min (e x) n \<or> int (count_list r x) = min (e x) (n + 1)"
    "int (length r) \<le> m"
    "int (length r) < m \<longrightarrow> (\<forall>x \<in> set (map fst eligible). int (count_list r x) = e x)"
    by (elim exE conjE) (rule that)
  have w: "int (count_list r w) = min (e w) n \<or> int (count_list r w) = min (e w) (n + 1)"
    and v: "int (count_list r v) = min (e v) n \<or> int (count_list r v) = min (e v) (n + 1)"
    using n(2) keys by blast+
  have "int (count_list r w) \<le> e w" using w by auto
  moreover have "count_list r v + 1 < count_list r w \<longrightarrow> int (count_list r v) = e v" using w v by linarith
  moreover have "int (length r) < m \<longrightarrow> int (count_list r w) = e w" using n(4) keys by blast
  moreover have "max 0 m = m" using m by simp
  ultimately show ?thesis
    using n(3) unfolding Let_def m_def [symmetric] r_def [symmetric] e [OF assms(2)] e [OF assms(3)] by simp
qed

lemma dispatch_order_fair_witness:
  "let res = order [(1, 3), (2, 1)] 3 0 100
   in int (count_list res 1) \<le> 3 \<and> int (length res) \<le> 3 \<and>
      (count_list res 2 + 1 < count_list res 1 \<longrightarrow> int (count_list res 2) = 1)"
  using dispatch_order_fair [of "[(1, 3), (2, 1)]" 1 3 2 1 3 0 100] by (simp add: Let_def)

end
