(* ===== verification/Job_Store.thy ===== *)
theory Job_Store
  imports Job_Contracts Audit_Writer
begin

text \<open>
  The tables of durable execution and the repository on them. Sources: \<open>app/jobs/models.py\<close> and
  \<open>app/jobs/repository.py\<close>. A row is a record that extends \<open>tenant_row\<close>; the constraints of a
  table are listed by name for a new row. A query with \<open>FOR UPDATE SKIP LOCKED\<close> passes over the
  rows in \<open>locked_rows\<close>; advisory locks only order concurrent transactions and have no effect
  within one.
\<close>

section \<open>Rows\<close>

datatype job_definition_status = JD_ACTIVE | JD_PAUSED | JD_RETIRED

record job_definition = tenant_row +
  jd_id :: uuid
  jd_definition_key :: string
  jd_definition_version :: int
  jd_handler_key :: string
  jd_max_attempts :: int
  jd_retry_delays :: "int list"
  jd_max_concurrency :: int
  jd_rate_limit_per_minute :: int
  jd_status :: job_definition_status
  jd_state_version :: int
  jd_created_by_user_id :: uuid
  jd_created_at :: instant
  jd_updated_at :: instant

record job_instance = tenant_row +
  ji_id :: uuid
  ji_definition_id :: uuid
  ji_resource_id :: "uuid option"
  ji_idempotency_key :: string
  ji_request_digest :: string
  ji_command_type :: string
  ji_payload :: json
  ji_classification :: string
  ji_status :: job_status
  ji_available_at :: instant
  ji_deadline :: instant
  ji_attempt_count :: int
  ji_lease_owner :: "string option"
  ji_lease_expires_at :: "instant option"
  ji_heartbeat_at :: "instant option"
  ji_cancellation_requested_at :: "instant option"
  ji_cancellation_reason :: "string option"
  ji_replay_of_job_id :: "uuid option"
  ji_causation_id :: "uuid option"
  ji_correlation_id :: string
  ji_state_version :: int
  ji_created_by_user_id :: uuid
  ji_created_at :: instant
  ji_updated_at :: instant
  ji_completed_at :: "instant option"
  ji_result_digest :: "string option"

record job_attempt = tenant_row +
  ja_id :: uuid
  ja_job_id :: uuid
  ja_attempt_number :: int
  ja_worker_id :: string
  ja_status :: attempt_status
  ja_failure_category :: "failure_category option"
  ja_error_code :: "string option"
  ja_started_at :: instant
  ja_heartbeat_at :: instant
  ja_lease_expires_at :: instant
  ja_finished_at :: "instant option"

datatype dead_letter_status = DL_OPEN | DL_REPLAYED

record job_dead_letter = tenant_row +
  dl_id :: uuid
  dl_job_id :: uuid
  dl_failure_category :: failure_category
  dl_error_code :: string
  dl_status :: dead_letter_status
  dl_created_at :: instant
  dl_replayed_at :: "instant option"
  dl_replayed_by_user_id :: "uuid option"
  dl_replay_job_id :: "uuid option"
  dl_replay_reason :: "string option"

datatype schedule_status = JS_ACTIVE | JS_PAUSED | JS_COMPLETED

record job_schedule = tenant_row +
  js_id :: uuid
  js_definition_id :: uuid
  js_schedule_kind :: schedule_kind
  js_misfire_policy :: misfire_policy
  js_first_due_at :: instant
  js_interval_seconds :: "int option"
  js_timezone :: "string option"
  js_local_hour :: "int option"
  js_local_minute :: "int option"
  js_local_time_policy :: "local_time_policy option"
  js_command_type :: string
  js_command_payload :: json
  js_idempotency_prefix :: string
  js_job_deadline_seconds :: int
  js_status :: schedule_status
  js_next_due_at :: instant
  js_last_evaluated_at :: "instant option"
  js_state_version :: int
  js_created_by_user_id :: uuid
  js_created_at :: instant
  js_updated_at :: instant

datatype control_scope = SCOPE_WORKSPACE | SCOPE_DEFINITION

record job_operator_control = tenant_row +
  jc_id :: uuid
  jc_scope_type :: control_scope
  jc_scope_reference :: string
  jc_paused :: bool
  jc_reason :: string
  jc_state_version :: int
  jc_changed_by_user_id :: uuid
  jc_changed_at :: instant

record job_db = core_db +
  job_definitions :: "job_definition list"
  job_instances :: "job_instance list"
  job_attempts :: "job_attempt list"
  job_dead_letters :: "job_dead_letter list"
  job_schedules :: "job_schedule list"
  job_operator_controls :: "job_operator_control list"

section \<open>Constraints\<close>

definition jd_pk :: "job_definition \<Rightarrow> tenant_key" where "jd_pk r = tenant_pk r (jd_id r)"
definition ji_pk :: "job_instance \<Rightarrow> tenant_key" where "ji_pk r = tenant_pk r (ji_id r)"
definition ja_pk :: "job_attempt \<Rightarrow> tenant_key" where "ja_pk r = tenant_pk r (ja_id r)"
definition dl_pk :: "job_dead_letter \<Rightarrow> tenant_key" where "dl_pk r = tenant_pk r (dl_id r)"
definition js_pk :: "job_schedule \<Rightarrow> tenant_key" where "js_pk r = tenant_pk r (js_id r)"
definition jc_pk :: "job_operator_control \<Rightarrow> tenant_key" where "jc_pk r = tenant_pk r (jc_id r)"

definition definition_exists :: "tenant_key \<Rightarrow> 'a job_db_scheme \<Rightarrow> bool" where
  "definition_exists k s \<longleftrightarrow> list_ex (\<lambda>r. jd_pk r = k) (job_definitions s)"

definition job_exists :: "tenant_key \<Rightarrow> 'a job_db_scheme \<Rightarrow> bool" where
  "job_exists k s \<longleftrightarrow> list_ex (\<lambda>r. ji_pk r = k) (job_instances s)"

definition job_definition_constraints :: "job_definition \<Rightarrow> 'a job_db_scheme \<Rightarrow> (string \<times> bool) list" where
  "job_definition_constraints r s =
     [(''pk_job_definitions'', list_all (\<lambda>x. jd_pk x \<noteq> jd_pk r) (job_definitions s)),
      (''uq_job_definitions_key_version'', list_all (\<lambda>x.
         \<not> (tenant_pk x 0 = tenant_pk r 0 \<and> jd_definition_key x = jd_definition_key r \<and>
            jd_definition_version x = jd_definition_version r)) (job_definitions s)),
      (''fk_job_definitions_workspace'', tenant_exists r s),
      (''ck_job_definitions_version'', 0 < jd_definition_version r),
      (''ck_job_definitions_attempts'', 1 \<le> jd_max_attempts r \<and> jd_max_attempts r \<le> 5),
      (''ck_job_definitions_concurrency'', 1 \<le> jd_max_concurrency r \<and> jd_max_concurrency r \<le> 20),
      (''ck_job_definitions_rate'', 1 \<le> jd_rate_limit_per_minute r \<and> jd_rate_limit_per_minute r \<le> 120)]"

text \<open>The checks of a job row, which an update has to satisfy too.\<close>

definition job_instance_checks :: "job_instance \<Rightarrow> (string \<times> bool) list" where
  "job_instance_checks r =
     [(''ck_job_instances_attempt_count'', 0 \<le> ji_attempt_count r \<and> ji_attempt_count r \<le> 5),
      (''ck_job_instances_state_version'', 0 < ji_state_version r),
      (''ck_job_instances_deadline'', ji_available_at r < ji_deadline r),
      (''ck_job_instances_classification'', ji_classification r \<in> set CLASSIFICATIONS)]"

definition replay_source_exists :: "job_instance \<Rightarrow> 'a job_db_scheme \<Rightarrow> bool" where
  "replay_source_exists r s \<longleftrightarrow>
     (case ji_replay_of_job_id r of None \<Rightarrow> True | Some i \<Rightarrow> job_exists (tenant_pk r i) s)"

definition job_instance_constraints :: "job_instance \<Rightarrow> 'a job_db_scheme \<Rightarrow> (string \<times> bool) list" where
  "job_instance_constraints r s =
     [(''pk_job_instances'', list_all (\<lambda>x. ji_pk x \<noteq> ji_pk r) (job_instances s)),
      (''uq_job_instances_idempotency'', list_all (\<lambda>x.
         \<not> (tenant_pk x (ji_definition_id x) = tenant_pk r (ji_definition_id r) \<and>
            ji_idempotency_key x = ji_idempotency_key r)) (job_instances s)),
      (''fk_job_instances_workspace'', tenant_exists r s),
      (''fk_job_instances_definition'', definition_exists (tenant_pk r (ji_definition_id r)) s),
      (''fk_job_instances_resource'', resource_exists r (ji_resource_id r) s),
      (''fk_job_instances_replay_source'', replay_source_exists r s)] @ job_instance_checks r"

definition job_attempt_constraints :: "job_attempt \<Rightarrow> 'a job_db_scheme \<Rightarrow> (string \<times> bool) list" where
  "job_attempt_constraints r s =
     [(''pk_job_attempts'', list_all (\<lambda>x. ja_pk x \<noteq> ja_pk r) (job_attempts s)),
      (''uq_job_attempts_number'', list_all (\<lambda>x.
         \<not> (tenant_pk x (ja_job_id x) = tenant_pk r (ja_job_id r) \<and>
            ja_attempt_number x = ja_attempt_number r)) (job_attempts s)),
      (''fk_job_attempts_job'', job_exists (tenant_pk r (ja_job_id r)) s),
      (''ck_job_attempts_number'', 1 \<le> ja_attempt_number r \<and> ja_attempt_number r \<le> 5)]"

definition job_dead_letter_constraints :: "job_dead_letter \<Rightarrow> 'a job_db_scheme \<Rightarrow> (string \<times> bool) list" where
  "job_dead_letter_constraints r s =
     [(''pk_job_dead_letters'', list_all (\<lambda>x. dl_pk x \<noteq> dl_pk r) (job_dead_letters s)),
      (''uq_job_dead_letters_job'', list_all (\<lambda>x.
         tenant_pk x (dl_job_id x) \<noteq> tenant_pk r (dl_job_id r)) (job_dead_letters s)),
      (''fk_job_dead_letters_job'', job_exists (tenant_pk r (dl_job_id r)) s)]"

definition job_schedule_constraints :: "job_schedule \<Rightarrow> 'a job_db_scheme \<Rightarrow> (string \<times> bool) list" where
  "job_schedule_constraints r s =
     [(''pk_job_schedules'', list_all (\<lambda>x. js_pk x \<noteq> js_pk r) (job_schedules s)),
      (''fk_job_schedules_definition'', definition_exists (tenant_pk r (js_definition_id r)) s),
      (''fk_job_schedules_workspace'', tenant_exists r s),
      (''character varying(128)'', length (js_command_type r) \<le> 128),
      (''character varying(96)'', length (js_idempotency_prefix r) \<le> 96)]"

definition job_operator_control_constraints ::
    "job_operator_control \<Rightarrow> 'a job_db_scheme \<Rightarrow> (string \<times> bool) list" where
  "job_operator_control_constraints r s =
     [(''pk_job_operator_controls'', list_all (\<lambda>x. jc_pk x \<noteq> jc_pk r) (job_operator_controls s)),
      (''uq_job_operator_controls_scope'', list_all (\<lambda>x.
         \<not> (tenant_pk x 0 = tenant_pk r 0 \<and> jc_scope_type x = jc_scope_type r \<and>
            jc_scope_reference x = jc_scope_reference r)) (job_operator_controls s)),
      (''fk_job_operator_controls_workspace'', tenant_exists r s),
      (''ck_job_operator_controls_version'', 0 < jc_state_version r)]"

section \<open>Inserts and updates\<close>

text \<open>
  \<open>repository.add(value)\<close>: the guard on the workspace, then the flush, in which the write guard
  fires and the constraints are checked.
\<close>

definition add_row :: "execution_context \<Rightarrow> uuid \<Rightarrow> ('a core_db_scheme \<Rightarrow> (string \<times> bool) list) \<Rightarrow>
    ('a core_db_scheme \<Rightarrow> 'a core_db_scheme) \<Rightarrow> ('a core_db_scheme, unit) M" where
  "add_row ctx w constraints put =
     thenM (require_workspace ctx w)
     (thenM (enforce_workspace_write_state w)
     (bindM (getsM constraints) (\<lambda>cs.
      thenM (check_constraints cs) (modifyM put))))"

definition add_definition :: "execution_context \<Rightarrow> job_definition \<Rightarrow> ('a job_db_scheme, unit) M" where
  "add_definition ctx r = add_row ctx (workspace_id r) (job_definition_constraints r)
     (\<lambda>s. s\<lparr>job_definitions := job_definitions s @ [r]\<rparr>)"

definition add_job :: "execution_context \<Rightarrow> job_instance \<Rightarrow> ('a job_db_scheme, unit) M" where
  "add_job ctx r = add_row ctx (workspace_id r) (job_instance_constraints r)
     (\<lambda>s. s\<lparr>job_instances := job_instances s @ [r]\<rparr>)"

definition add_attempt :: "execution_context \<Rightarrow> job_attempt \<Rightarrow> ('a job_db_scheme, unit) M" where
  "add_attempt ctx r = add_row ctx (workspace_id r) (job_attempt_constraints r)
     (\<lambda>s. s\<lparr>job_attempts := job_attempts s @ [r]\<rparr>)"

definition add_dead_letter :: "execution_context \<Rightarrow> job_dead_letter \<Rightarrow> ('a job_db_scheme, unit) M" where
  "add_dead_letter ctx r = add_row ctx (workspace_id r) (job_dead_letter_constraints r)
     (\<lambda>s. s\<lparr>job_dead_letters := job_dead_letters s @ [r]\<rparr>)"

definition add_schedule :: "execution_context \<Rightarrow> job_schedule \<Rightarrow> ('a job_db_scheme, unit) M" where
  "add_schedule ctx r = add_row ctx (workspace_id r) (job_schedule_constraints r)
     (\<lambda>s. s\<lparr>job_schedules := job_schedules s @ [r]\<rparr>)"

definition add_control :: "execution_context \<Rightarrow> job_operator_control \<Rightarrow> ('a job_db_scheme, unit) M" where
  "add_control ctx r = add_row ctx (workspace_id r) (job_operator_control_constraints r)
     (\<lambda>s. s\<lparr>job_operator_controls := job_operator_controls s @ [r]\<rparr>)"

text \<open>The flush of a changed object.\<close>

definition save_job :: "job_instance \<Rightarrow> ('a job_db_scheme, unit) M" where
  "save_job r =
     thenM (enforce_workspace_write_state (workspace_id r))
     (bindM (getsM (replay_source_exists r)) (\<lambda>fk.
      thenM (check_constraints ((''fk_job_instances_replay_source'', fk) # job_instance_checks r))
      (modifyM (\<lambda>s. s\<lparr>job_instances := replace_row ji_pk r (job_instances s)\<rparr>))))"

definition save_attempt :: "job_attempt \<Rightarrow> ('a job_db_scheme, unit) M" where
  "save_attempt r = thenM (enforce_workspace_write_state (workspace_id r))
     (modifyM (\<lambda>s. s\<lparr>job_attempts := replace_row ja_pk r (job_attempts s)\<rparr>))"

definition replay_job_exists :: "job_dead_letter \<Rightarrow> 'a job_db_scheme \<Rightarrow> bool" where
  "replay_job_exists r s \<longleftrightarrow>
     (case dl_replay_job_id r of None \<Rightarrow> True | Some i \<Rightarrow> job_exists (tenant_pk r i) s)"

definition save_dead_letter :: "job_dead_letter \<Rightarrow> ('a job_db_scheme, unit) M" where
  "save_dead_letter r =
     thenM (enforce_workspace_write_state (workspace_id r))
     (bindM (getsM (replay_job_exists r)) (\<lambda>fk.
      thenM (check_constraints [(''fk_job_dead_letters_replay_job'', fk)])
      (modifyM (\<lambda>s. s\<lparr>job_dead_letters := replace_row dl_pk r (job_dead_letters s)\<rparr>))))"

definition save_schedule :: "job_schedule \<Rightarrow> ('a job_db_scheme, unit) M" where
  "save_schedule r = thenM (enforce_workspace_write_state (workspace_id r))
     (modifyM (\<lambda>s. s\<lparr>job_schedules := replace_row js_pk r (job_schedules s)\<rparr>))"

definition save_control :: "job_operator_control \<Rightarrow> ('a job_db_scheme, unit) M" where
  "save_control r = thenM (enforce_workspace_write_state (workspace_id r))
     (modifyM (\<lambda>s. s\<lparr>job_operator_controls := replace_row jc_pk r (job_operator_controls s)\<rparr>))"

section \<open>Queries\<close>

definition find_definition :: "execution_context \<Rightarrow> uuid \<Rightarrow> 'a job_db_scheme \<Rightarrow> job_definition option" where
  "find_definition ctx i s = List.find (\<lambda>r. workspace_id r = ctx_workspace ctx \<and> jd_id r = i) (job_definitions s)"

definition find_job :: "execution_context \<Rightarrow> uuid \<Rightarrow> 'a job_db_scheme \<Rightarrow> job_instance option" where
  "find_job ctx i s = List.find (\<lambda>r. workspace_id r = ctx_workspace ctx \<and> ji_id r = i) (job_instances s)"

definition job_by_idempotency :: "execution_context \<Rightarrow> uuid \<Rightarrow> string \<Rightarrow> 'a job_db_scheme \<Rightarrow> job_instance option" where
  "job_by_idempotency ctx d k s = List.find (\<lambda>r. workspace_id r = ctx_workspace ctx \<and>
     ji_definition_id r = d \<and> ji_idempotency_key r = k) (job_instances s)"

definition lock_enqueue_boundary :: "execution_context \<Rightarrow> uuid \<Rightarrow> string \<Rightarrow> ('a job_db_scheme, unit) M" where
  "lock_enqueue_boundary ctx d k = returnM ()"

definition backlog_count :: "execution_context \<Rightarrow> 'a job_db_scheme \<Rightarrow> nat" where
  "backlog_count ctx s = count_rows (\<lambda>r. workspace_id r = ctx_workspace ctx \<and>
     ji_status r \<in> {QUEUED, RUNNING, RETRY_WAIT}) (job_instances s)"

definition recent_enqueue_count :: "execution_context \<Rightarrow> instant \<Rightarrow> 'a job_db_scheme \<Rightarrow> nat" where
  "recent_enqueue_count ctx now s = count_rows (\<lambda>r. workspace_id r = ctx_workspace ctx \<and>
     now - minutes 1 < ji_created_at r) (job_instances s)"

definition workspace_paused :: "execution_context \<Rightarrow> 'a job_db_scheme \<Rightarrow> bool" where
  "workspace_paused ctx s \<longleftrightarrow> list_ex (\<lambda>c. workspace_id c = ctx_workspace ctx \<and>
     jc_scope_type c = SCOPE_WORKSPACE \<and> jc_scope_reference c = uuid_str (ctx_workspace ctx) \<and> jc_paused c)
     (job_operator_controls s)"

definition definition_paused :: "execution_context \<Rightarrow> uuid \<Rightarrow> 'a job_db_scheme \<Rightarrow> bool" where
  "definition_paused ctx d s \<longleftrightarrow> list_ex (\<lambda>c. workspace_id c = ctx_workspace ctx \<and>
     jc_scope_type c = SCOPE_DEFINITION \<and> jc_scope_reference c = uuid_str d \<and> jc_paused c)
     (job_operator_controls s)"

text \<open>\<open>ORDER BY available_at, created_at, id\<close>\<close>

datatype claim_key = Claim_key instant instant uuid

instantiation claim_key :: linorder
begin

fun less_eq_claim_key :: "claim_key \<Rightarrow> claim_key \<Rightarrow> bool" where
  "less_eq_claim_key (Claim_key a b c) (Claim_key a' b' c') =
     (a < a' \<or> a = a' \<and> (b < b' \<or> b = b' \<and> c \<le> c'))"

definition less_claim_key :: "claim_key \<Rightarrow> claim_key \<Rightarrow> bool" where
  "less_claim_key x y \<longleftrightarrow> x \<le> y \<and> \<not> y \<le> (x :: claim_key)"

instance
proof
  fix x y z :: claim_key
  show "x < y \<longleftrightarrow> x \<le> y \<and> \<not> y \<le> x" by (rule less_claim_key_def)
  show "x \<le> x" by (cases x) simp
  show "x \<le> y \<Longrightarrow> y \<le> z \<Longrightarrow> x \<le> z" by (cases x; cases y; cases z) auto
  show "x \<le> y \<Longrightarrow> y \<le> x \<Longrightarrow> x = y" by (cases x; cases y) auto
  show "x \<le> y \<or> y \<le> x" by (cases x; cases y) auto
qed

end

definition claim_order :: "job_instance \<Rightarrow> claim_key" where
  "claim_order j = Claim_key (ji_available_at j) (ji_created_at j) (ji_id j)"

definition running_in_workspace :: "execution_context \<Rightarrow> 'a job_db_scheme \<Rightarrow> nat" where
  "running_in_workspace ctx s = count_rows (\<lambda>r. workspace_id r = ctx_workspace ctx \<and> ji_status r = RUNNING)
     (job_instances s)"

definition running_of_definition :: "execution_context \<Rightarrow> uuid \<Rightarrow> 'a job_db_scheme \<Rightarrow> nat" where
  "running_of_definition ctx d s = count_rows (\<lambda>r. workspace_id r = ctx_workspace ctx \<and>
     ji_definition_id r = d \<and> ji_status r = RUNNING) (job_instances s)"

definition recent_attempts :: "execution_context \<Rightarrow> uuid \<Rightarrow> instant \<Rightarrow> 'a job_db_scheme \<Rightarrow> nat" where
  "recent_attempts ctx d now s = count_rows (\<lambda>a. workspace_id a = ctx_workspace ctx \<and>
     now - minutes 1 < ja_started_at a \<and>
     list_ex (\<lambda>j. ji_id j = ja_job_id a \<and> workspace_id j = ctx_workspace ctx \<and> ji_definition_id j = d)
       (job_instances s)) (job_attempts s)"

definition claimable :: "execution_context \<Rightarrow> instant \<Rightarrow> job_instance \<Rightarrow> bool" where
  "claimable ctx now j \<longleftrightarrow> workspace_id j = ctx_workspace ctx \<and> ji_status j \<in> {QUEUED, RETRY_WAIT} \<and>
     ji_available_at j \<le> now \<and> now < ji_deadline j"

definition claim_rows :: "execution_context \<Rightarrow> instant \<Rightarrow> 'a job_db_scheme \<Rightarrow> (job_instance \<times> job_definition) list" where
  "claim_rows ctx now s =
     [(j, d). j \<leftarrow> job_instances s, claimable ctx now j \<and> ji_id j \<notin> set (locked_rows s),
        d \<leftarrow> job_definitions s, jd_pk d = tenant_pk j (ji_definition_id j) \<and> jd_status d = JD_ACTIVE \<and>
          \<not> definition_paused ctx (jd_id d) s]"

definition claim_candidate :: "execution_context \<Rightarrow> instant \<Rightarrow> 'a job_db_scheme \<Rightarrow>
    (job_instance \<times> job_definition) option" where
  "claim_candidate ctx now s =
     (if workspace_paused ctx s then None
      else if running_in_workspace ctx s \<ge> 20 then None
      else case sort_key (\<lambda>(j, d). claim_order j) (claim_rows ctx now s) of
        [] \<Rightarrow> None
      | (j, d) # _ \<Rightarrow>
          if int (running_of_definition ctx (jd_id d) s) \<ge> jd_max_concurrency d then None
          else if int (recent_attempts ctx (jd_id d) now s) \<ge> jd_rate_limit_per_minute d then None
          else Some (j, d))"

definition current_attempt :: "execution_context \<Rightarrow> job_instance \<Rightarrow> 'a job_db_scheme \<Rightarrow> job_attempt option" where
  "current_attempt ctx j s = List.find (\<lambda>a. workspace_id a = ctx_workspace ctx \<and> ja_job_id a = ji_id j \<and>
     ja_attempt_number a = ji_attempt_count j) (job_attempts s)"

definition expired_leases :: "execution_context \<Rightarrow> instant \<Rightarrow> 'a job_db_scheme \<Rightarrow> job_instance list" where
  "expired_leases ctx now s =
     sort_key (\<lambda>j. the (ji_lease_expires_at j))
       (filter (\<lambda>j. workspace_id j = ctx_workspace ctx \<and> ji_status j = RUNNING \<and>
          (case ji_lease_expires_at j of None \<Rightarrow> False | Some t \<Rightarrow> t \<le> now) \<and> ji_id j \<notin> set (locked_rows s))
        (job_instances s))"

definition expired_waiting :: "execution_context \<Rightarrow> instant \<Rightarrow> 'a job_db_scheme \<Rightarrow> job_instance list" where
  "expired_waiting ctx now s =
     filter (\<lambda>j. workspace_id j = ctx_workspace ctx \<and> ji_status j \<in> {QUEUED, RETRY_WAIT} \<and>
       ji_deadline j \<le> now \<and> ji_id j \<notin> set (locked_rows s)) (job_instances s)"

definition find_dead_letter :: "execution_context \<Rightarrow> uuid \<Rightarrow> 'a job_db_scheme \<Rightarrow> job_dead_letter option" where
  "find_dead_letter ctx i s =
     List.find (\<lambda>r. workspace_id r = ctx_workspace ctx \<and> dl_job_id r = i) (job_dead_letters s)"

definition find_schedule :: "execution_context \<Rightarrow> uuid \<Rightarrow> 'a job_db_scheme \<Rightarrow> job_schedule option" where
  "find_schedule ctx i s = List.find (\<lambda>r. workspace_id r = ctx_workspace ctx \<and> js_id r = i) (job_schedules s)"

definition due_schedules :: "execution_context \<Rightarrow> instant \<Rightarrow> 'a job_db_scheme \<Rightarrow> job_schedule list" where
  "due_schedules ctx now s =
     take 100 (sort_key (\<lambda>r. Claim_key (js_next_due_at r) 0 (js_id r))
       (filter (\<lambda>r. workspace_id r = ctx_workspace ctx \<and> js_status r = JS_ACTIVE \<and> js_next_due_at r \<le> now \<and>
          js_id r \<notin> set (locked_rows s)) (job_schedules s)))"

definition find_control :: "execution_context \<Rightarrow> control_scope \<Rightarrow> string \<Rightarrow> 'a job_db_scheme \<Rightarrow>
    job_operator_control option" where
  "find_control ctx scope ref s = List.find (\<lambda>r. workspace_id r = ctx_workspace ctx \<and>
     jc_scope_type r = scope \<and> jc_scope_reference r = ref) (job_operator_controls s)"

end
