(* ===== verification/Job_Service.thy ===== *)
theory Job_Service
  imports Job_Store
begin

text \<open>
  \<open>JobService\<close> of \<open>app/jobs/service.py\<close>: every operation of durable execution, inside the
  transaction of its caller. \<open>ask\<close> is the authorizer the service was built with, \<open>env\<close> its
  source of identifiers and of the clock. The object of a row that the source mutates in place is
  the changed record here; it is written where the source flushes it.
\<close>

section \<open>Recording\<close>

datatype job_event =
    Job_definition_registered | Job_enqueued | Job_claimed | Job_cancelled | Job_heartbeat
  | Job_succeeded | Job_retry_scheduled | Job_expired | Job_cancellation_requested | Job_replayed
  | Job_control_changed | Job_schedule_paused | Job_schedule_resumed | Job_schedule_registered
  | Job_schedule_evaluated | Job_lease_recovered | Job_dead_lettered

fun job_event_value :: "job_event \<Rightarrow> string" where
  "job_event_value Job_definition_registered = ''job_definition.registered''"
| "job_event_value Job_enqueued = ''job.enqueued''"
| "job_event_value Job_claimed = ''job.claimed''"
| "job_event_value Job_cancelled = ''job.cancelled''"
| "job_event_value Job_heartbeat = ''job.heartbeat''"
| "job_event_value Job_succeeded = ''job.succeeded''"
| "job_event_value Job_retry_scheduled = ''job.retry_scheduled''"
| "job_event_value Job_expired = ''job.expired''"
| "job_event_value Job_cancellation_requested = ''job.cancellation_requested''"
| "job_event_value Job_replayed = ''job.replayed''"
| "job_event_value Job_control_changed = ''job_control.changed''"
| "job_event_value Job_schedule_paused = ''job_schedule.paused''"
| "job_event_value Job_schedule_resumed = ''job_schedule.resumed''"
| "job_event_value Job_schedule_registered = ''job_schedule.registered''"
| "job_event_value Job_schedule_evaluated = ''job_schedule.evaluated''"
| "job_event_value Job_lease_recovered = ''job.lease_recovered''"
| "job_event_value Job_dead_lettered = ''job.dead_lettered''"

datatype job_aggregate = Agg_job_definition | Agg_job | Agg_job_schedule | Agg_job_control

fun job_aggregate_value :: "job_aggregate \<Rightarrow> string" where
  "job_aggregate_value Agg_job_definition = ''job_definition''"
| "job_aggregate_value Agg_job = ''job''"
| "job_aggregate_value Agg_job_schedule = ''job_schedule''"
| "job_aggregate_value Agg_job_control = ''job_control''"

definition job_outbox_row :: "execution_context \<Rightarrow> uuid \<Rightarrow> int \<Rightarrow> job_event \<Rightarrow> job_aggregate \<Rightarrow> instant \<Rightarrow>
    uuid \<Rightarrow> instant \<Rightarrow> outbox_event" where
  "job_outbox_row ctx aggregate_id sequence event aggregate now event_id written_at = \<lparr>
     oe_workspace_id = ctx_workspace ctx, oe_id = event_id, oe_event_type = job_event_value event,
     oe_schema_version = 1, oe_aggregate_type = job_aggregate_value aggregate,
     oe_aggregate_id = aggregate_id, oe_aggregate_sequence = sequence,
     oe_payload = JObj [(job_aggregate_value aggregate @ ''_id'', JStr (uuid_str aggregate_id)),
                        (''state_version'', JInt sequence)],
     oe_actor_id = Some (ctx_actor ctx), oe_delegation_id = delegation_id (ec_actor ctx),
     oe_correlation_id = Some (correlation_id (ec_request ctx)), oe_causation_id = None,
     oe_classification = ''internal'', oe_schema_major = 1, oe_schema_minor = 0,
     oe_idempotency_key = None, oe_payload_digest = None, oe_available_at = written_at,
     oe_attempt_count = 0, oe_quarantined = False, oe_retention_until = None,
     oe_partition_key = Some (py_year_month now), oe_recorded_at = now,
     oe_published_at = None, oe_last_error = None\<rparr>"

definition record_change :: "py_env \<Rightarrow> execution_context \<Rightarrow> uuid \<Rightarrow> int \<Rightarrow> job_event \<Rightarrow> job_aggregate \<Rightarrow> instant \<Rightarrow>
    ('a core_db_scheme, unit) M" where
  "record_change env ctx aggregate_id sequence event aggregate now =
     bindM (audit_write env ctx ((audit_input (job_event_value event) (job_aggregate_value aggregate)
         aggregate_id ''success'')\<lparr>ai_details := Some (JObj [(''state_version'', JInt sequence)])\<rparr>)) (\<lambda>audit.
     bindM (uuid4 env) (\<lambda>event_id.
     insert_outbox_event (job_outbox_row ctx aggregate_id sequence event aggregate now event_id
       (ae_recorded_at audit))))"

definition record_job :: "py_env \<Rightarrow> execution_context \<Rightarrow> job_instance \<Rightarrow> job_event \<Rightarrow> instant \<Rightarrow>
    ('a core_db_scheme, unit) M" where
  "record_job env ctx j event now = record_change env ctx (ji_id j) (ji_state_version j) event Agg_job now"

section \<open>Guards\<close>

type_synonym 's authorizer = "execution_context \<Rightarrow> string \<Rightarrow> ('s, bool) M"

definition require_authorized :: "'s authorizer \<Rightarrow> execution_context \<Rightarrow> string \<Rightarrow> ('s, unit) M" where
  "require_authorized ask ctx permission_key =
     bindM (ask ctx permission_key) (\<lambda>allowed. requireM allowed JobAuthorizationError)"

definition require_job :: "execution_context \<Rightarrow> uuid \<Rightarrow> ('a job_db_scheme, job_instance) M" where
  "require_job ctx i = bindM (getsM (find_job ctx i)) (\<lambda>j. someM j (JobError Job_does_not_exist))"

definition require_definition :: "execution_context \<Rightarrow> uuid \<Rightarrow> ('a job_db_scheme, job_definition) M" where
  "require_definition ctx i =
     bindM (getsM (find_definition ctx i)) (\<lambda>d. someM d (JobError Job_definition_does_not_exist))"

definition require_attempt :: "execution_context \<Rightarrow> job_instance \<Rightarrow> ('a job_db_scheme, job_attempt) M" where
  "require_attempt ctx j =
     bindM (getsM (current_attempt ctx j)) (\<lambda>found.
     bindM (someM found (LeaseConflict Running_job_attempt_is_unavailable)) (\<lambda>a.
     thenM (requireM (ja_status a = ATTEMPT_RUNNING) (LeaseConflict Running_job_attempt_is_unavailable))
     (returnM a)))"

definition owns_lease :: "string \<Rightarrow> instant \<Rightarrow> job_instance \<Rightarrow> bool" where
  "owns_lease worker_id now j \<longleftrightarrow> ji_status j = RUNNING \<and> ji_lease_owner j = Some worker_id \<and>
     (case ji_lease_expires_at j of None \<Rightarrow> False | Some t \<Rightarrow> now < t)"

definition leased_job :: "'a job_db_scheme authorizer \<Rightarrow> execution_context \<Rightarrow> uuid \<Rightarrow> string \<Rightarrow> instant \<Rightarrow>
    ('a job_db_scheme, job_instance) M" where
  "leased_job ask ctx job_id worker_id now =
     thenM (require_authorized ask ctx ''update_content'')
     (bindM (require_job ctx job_id) (\<lambda>j.
      thenM (requireM (owns_lease worker_id now j) (LeaseConflict Worker_does_not_own_a_live_job_lease))
      (returnM j)))"

definition clear_lease :: "job_instance \<Rightarrow> job_instance" where
  "clear_lease j = j\<lparr>ji_lease_owner := None, ji_lease_expires_at := None, ji_heartbeat_at := None\<rparr>"

section \<open>Definitions and enqueueing\<close>

definition context_tenant :: "execution_context \<Rightarrow> tenant_row" where
  "context_tenant ctx = ec_tenant ctx"

abbreviation ctx_home :: "execution_context \<Rightarrow> tenant" where
  "ctx_home ctx \<equiv> home_of (context_tenant ctx)"

lemma context_home: "ctx_home ctx = (organization_id (ec_tenant ctx), ctx_workspace ctx, cell_id (ec_tenant ctx))"
  by (simp add: home_of_def context_tenant_def)

lemma ctx_home_workspace [simp]: "fst (snd (ctx_home ctx)) = ctx_workspace ctx"
  by (simp add: context_home)

definition register_definition :: "py_env \<Rightarrow> 'a job_db_scheme authorizer \<Rightarrow> execution_context \<Rightarrow>
    job_definition_spec \<Rightarrow> instant option \<Rightarrow> ('a job_db_scheme, job_definition) M" where
  "register_definition env ask ctx spec now =
     thenM (require_authorized ask ctx ''manage_workspace'')
     (bindM (getsM (find_definition ctx (ds_definition_id spec))) (\<lambda>found.
      thenM (requireM (found = None) (JobError Job_definition_identity_already_exists))
      (bindM (or_now env now) (\<lambda>occurred_at.
       let value = tenant_row.extend (context_tenant ctx) (job_definition.fields
             (ds_definition_id spec) (ds_key spec) (ds_version spec) (ds_handler_key spec)
             (max_attempts (ds_retry_policy spec)) (delays (ds_retry_policy spec))
             (ds_max_concurrency spec) (ds_rate_limit_per_minute spec) JD_ACTIVE 1
             (ctx_actor ctx) occurred_at occurred_at)
       in thenM (add_definition ctx value)
         (thenM (record_change env ctx (jd_id value) (jd_state_version value)
            Job_definition_registered Agg_job_definition occurred_at)
         (returnM value))))))"

definition enqueue_json :: "job_enqueue \<Rightarrow> json" where
  "enqueue_json c = JObj
     [(''definition_id'', JStr (uuid_str (je_definition_id c))),
      (''command_type'', JStr (je_command_type c)),
      (''payload'', je_payload c),
      (''resource_id'', json_opt_uuid (je_resource_id c)),
      (''classification'', JStr (je_classification c)),
      (''available_at'', JStr (py_isoformat (je_available_at c))),
      (''deadline'', JStr (py_isoformat (je_deadline c))),
      (''causation_id'', json_opt_uuid (je_causation_id c))]"

definition enqueue_digest :: "py_env \<Rightarrow> job_enqueue \<Rightarrow> py_error + string" where
  "enqueue_digest env c =
     (case json_dumps (enqueue_json c) of None \<Rightarrow> Inl TypeError | Some encoded \<Rightarrow> Inr (sha256_hex env encoded))"

definition queued_job :: "execution_context \<Rightarrow> job_enqueue \<Rightarrow> string \<Rightarrow> json \<Rightarrow> instant \<Rightarrow> job_instance" where
  "queued_job ctx c digest payload occurred_at =
     \<lparr>organization_id = organization_id (ec_tenant ctx), workspace_id = workspace_id (ec_tenant ctx),
      cell_id = cell_id (ec_tenant ctx),
      ji_id = je_job_id c, ji_definition_id = je_definition_id c, ji_resource_id = je_resource_id c,
      ji_idempotency_key = je_idempotency_key c, ji_request_digest = digest,
      ji_command_type = je_command_type c, ji_payload = payload, ji_classification = je_classification c,
      ji_status = QUEUED, ji_available_at = je_available_at c, ji_deadline = je_deadline c,
      ji_attempt_count = 0, ji_lease_owner = None, ji_lease_expires_at = None, ji_heartbeat_at = None,
      ji_cancellation_requested_at = None, ji_cancellation_reason = None, ji_replay_of_job_id = None,
      ji_causation_id = je_causation_id c, ji_correlation_id = correlation_id (ec_request ctx),
      ji_state_version = 1, ji_created_by_user_id = ctx_actor ctx, ji_created_at = occurred_at,
      ji_updated_at = occurred_at, ji_completed_at = None, ji_result_digest = None\<rparr>"

definition enqueue :: "py_env \<Rightarrow> 'a job_db_scheme authorizer \<Rightarrow> execution_context \<Rightarrow> job_enqueue \<Rightarrow> instant option \<Rightarrow>
    ('a job_db_scheme, job_instance) M" where
  "enqueue env ask ctx c now =
     thenM (require_authorized ask ctx ''update_content'')
     (bindM (getsM (find_definition ctx (je_definition_id c))) (\<lambda>found.
      thenM (requireM (case found of None \<Rightarrow> False | Some d \<Rightarrow> jd_status d \<noteq> JD_RETIRED)
               (JobError Job_definition_is_unavailable))
      (bindM (liftM (enqueue_digest env c)) (\<lambda>digest.
       thenM (lock_enqueue_boundary ctx (je_definition_id c) (je_idempotency_key c))
       (bindM (getsM (job_by_idempotency ctx (je_definition_id c) (je_idempotency_key c))) (\<lambda>existing.
        case existing of
          Some j \<Rightarrow>
            thenM (requireM (ji_request_digest j = digest)
                     (IdempotencyConflict Idempotency_key_was_reused_with_changed_input))
            (returnM j)
        | None \<Rightarrow>
            bindM (or_now env now) (\<lambda>occurred_at.
            bindM (getsM (backlog_count ctx)) (\<lambda>backlog.
            thenM (requireM (backlog < 10000) (JobError Workspace_job_backlog_quota_exceeded))
            (bindM (getsM (recent_enqueue_count ctx occurred_at)) (\<lambda>recent.
             thenM (requireM (recent < 120) (JobError Workspace_enqueue_rate_quota_exceeded))
             (bindM (liftM (jobs_safe_payload (je_payload c))) (\<lambda>payload.
              let value = queued_job ctx c digest payload occurred_at in
              thenM (add_job ctx value)
              (thenM (record_job env ctx value Job_enqueued occurred_at)
              (returnM value))))))))))))))"

section \<open>Ending an attempt\<close>

definition dead_letter_job :: "py_env \<Rightarrow> execution_context \<Rightarrow> job_instance \<Rightarrow> failure_category \<Rightarrow> string \<Rightarrow> instant \<Rightarrow>
    ('a job_db_scheme, job_instance) M" where
  "dead_letter_job env ctx job category error_code now =
     (let j = job\<lparr>ji_status := DEAD_LETTERED, ji_completed_at := Some now\<rparr> in
      bindM (uuid4 env) (\<lambda>i.
      thenM (save_job j)
      (thenM (add_dead_letter ctx
         \<lparr>organization_id = organization_id (ec_tenant ctx), workspace_id = workspace_id (ec_tenant ctx),
          cell_id = cell_id (ec_tenant ctx), dl_id = i, dl_job_id = ji_id j,
          dl_failure_category = category, dl_error_code = error_code, dl_status = DL_OPEN,
          dl_created_at = now, dl_replayed_at = None, dl_replayed_by_user_id = None,
          dl_replay_job_id = None, dl_replay_reason = None\<rparr>)
      (thenM (record_job env ctx j Job_dead_lettered now)
      (returnM j)))))"

definition definition_policy :: "job_definition \<Rightarrow> py_error + retry_policy" where
  "definition_policy d = make_retry_policy (jd_max_attempts d) (jd_retry_delays d)"

text \<open>
  The common end of \<open>fail\<close> and \<open>_recover_expired\<close>: the attempt is closed, the policy of the
  definition decides, and the job waits, expires or is dead-lettered. \<open>event\<close> is what a retry is
  recorded as.
\<close>

definition end_attempt :: "py_env \<Rightarrow> execution_context \<Rightarrow> job_instance \<Rightarrow> job_attempt \<Rightarrow> failure_category \<Rightarrow> string \<Rightarrow>
    job_event \<Rightarrow> instant \<Rightarrow> ('a job_db_scheme, job_instance) M" where
  "end_attempt env ctx job attempt category code event now =
     bindM (require_definition ctx (ji_definition_id job)) (\<lambda>d.
     bindM (liftM (definition_policy d)) (\<lambda>policy.
     bindM (liftM (retry_decision policy category (ji_attempt_count job) (Aware now) (Aware (ji_deadline job)))) (\<lambda>r.
     thenM (save_attempt attempt)
     (let j = (clear_lease job)\<lparr>ji_updated_at := now, ji_state_version := ji_state_version job + 1\<rparr> in
      if rd_retry r then
        bindM (someM (rd_retry_at r) AssertionError) (\<lambda>retry_at.
        let waiting = j\<lparr>ji_status := RETRY_WAIT, ji_available_at := retry_at\<rparr> in
        thenM (save_job waiting) (thenM (record_job env ctx waiting event now) (returnM waiting)))
      else if rd_terminal_status r = Some EXPIRED then
        (let expired = j\<lparr>ji_status := EXPIRED, ji_completed_at := Some now\<rparr> in
         thenM (save_job expired) (thenM (record_job env ctx expired Job_expired now) (returnM expired)))
      else dead_letter_job env ctx j category code now))))"

definition recover_job :: "py_env \<Rightarrow> execution_context \<Rightarrow> instant \<Rightarrow> job_instance \<Rightarrow> ('a job_db_scheme, unit) M" where
  "recover_job env ctx now job =
     bindM (require_attempt ctx job) (\<lambda>a.
     bindM (end_attempt env ctx job (a\<lparr>ja_status := ATTEMPT_ABANDONED, ja_failure_category := Some TRANSIENT,
         ja_error_code := Some ''lease_expired'', ja_finished_at := Some now\<rparr>)
       TRANSIENT ''lease_expired'' Job_lease_recovered now) (\<lambda>_.
     returnM ()))"

definition recover_expired :: "py_env \<Rightarrow> execution_context \<Rightarrow> instant \<Rightarrow> ('a job_db_scheme, unit) M" where
  "recover_expired env ctx now =
     bindM (getsM (expired_leases ctx now)) (\<lambda>jobs. forM jobs (recover_job env ctx now))"

definition expire_job :: "py_env \<Rightarrow> execution_context \<Rightarrow> instant \<Rightarrow> job_instance \<Rightarrow> ('a job_db_scheme, unit) M" where
  "expire_job env ctx now job =
     (let j = job\<lparr>ji_status := EXPIRED, ji_completed_at := Some now, ji_updated_at := now,
            ji_state_version := ji_state_version job + 1\<rparr>
      in thenM (save_job j) (record_job env ctx j Job_expired now))"

definition expire_waiting :: "py_env \<Rightarrow> execution_context \<Rightarrow> instant \<Rightarrow> ('a job_db_scheme, unit) M" where
  "expire_waiting env ctx now =
     bindM (getsM (expired_waiting ctx now)) (\<lambda>jobs. forM jobs (expire_job env ctx now))"

section \<open>Claiming\<close>

record job_lease =
  le_job_id :: uuid
  le_definition_id :: uuid
  le_handler_key :: string
  le_command_type :: string
  le_payload :: json
  le_idempotency_key :: string
  le_attempt_number :: int
  le_deadline :: instant
  le_correlation_id :: string

definition make_lease :: "job_instance \<Rightarrow> job_definition \<Rightarrow> job_lease" where
  "make_lease j d = \<lparr>le_job_id = ji_id j, le_definition_id = jd_id d, le_handler_key = jd_handler_key d,
     le_command_type = ji_command_type j, le_payload = ji_payload j,
     le_idempotency_key = ji_idempotency_key j, le_attempt_number = ji_attempt_count j,
     le_deadline = ji_deadline j, le_correlation_id = ji_correlation_id j\<rparr>"

definition claimed_job :: "job_instance \<Rightarrow> string \<Rightarrow> instant \<Rightarrow> int \<Rightarrow> job_instance" where
  "claimed_job job worker_id now lease_seconds = job\<lparr>
     ji_attempt_count := ji_attempt_count job + 1, ji_status := RUNNING, ji_lease_owner := Some worker_id,
     ji_heartbeat_at := Some now, ji_lease_expires_at := Some (now + seconds lease_seconds),
     ji_updated_at := now, ji_state_version := ji_state_version job + 1\<rparr>"

definition claim_job :: "py_env \<Rightarrow> execution_context \<Rightarrow> string \<Rightarrow> instant \<Rightarrow> int \<Rightarrow> job_instance \<Rightarrow> job_definition \<Rightarrow>
    ('a job_db_scheme, job_lease) M" where
  "claim_job env ctx worker_id now lease_seconds job d =
     (let j = claimed_job job worker_id now lease_seconds in
      bindM (uuid4 env) (\<lambda>i.
      thenM (save_job j)
      (thenM (add_attempt ctx
         \<lparr>organization_id = organization_id (ec_tenant ctx), workspace_id = workspace_id (ec_tenant ctx),
          cell_id = cell_id (ec_tenant ctx), ja_id = i, ja_job_id = ji_id j,
          ja_attempt_number = ji_attempt_count j, ja_worker_id = worker_id, ja_status = ATTEMPT_RUNNING,
          ja_failure_category = None, ja_error_code = None, ja_started_at = now, ja_heartbeat_at = now,
          ja_lease_expires_at = now + seconds lease_seconds, ja_finished_at = None\<rparr>)
      (thenM (record_job env ctx j Job_claimed now)
      (returnM (make_lease j d))))))"

definition claim_next :: "py_env \<Rightarrow> 'a job_db_scheme authorizer \<Rightarrow> execution_context \<Rightarrow> string \<Rightarrow> instant \<Rightarrow> int \<Rightarrow>
    ('a job_db_scheme, job_lease option) M" where
  "claim_next env ask ctx worker now lease_seconds =
     thenM (require_authorized ask ctx ''update_content'')
     (let worker_id = py_strip worker in
      thenM (requireM (worker_id \<noteq> [] \<and> length worker_id \<le> 128) (JobError Worker_identity_is_invalid))
      (thenM (requireM (lease_seconds = 30) (JobError Lease_duration_must_match_the_approved_default))
      (thenM (recover_expired env ctx now)
      (thenM (expire_waiting env ctx now)
      (bindM (getsM (claim_candidate ctx now)) (\<lambda>candidate.
       case candidate of
         None \<Rightarrow> returnM None
       | Some jd \<Rightarrow>
           bindM (claim_job env ctx worker_id now lease_seconds (fst jd) (snd jd)) (\<lambda>lease.
           returnM (Some lease))))))))"

section \<open>Running jobs\<close>

definition heartbeat :: "py_env \<Rightarrow> 'a job_db_scheme authorizer \<Rightarrow> execution_context \<Rightarrow> uuid \<Rightarrow> string \<Rightarrow> instant \<Rightarrow>
    ('a job_db_scheme, unit) M" where
  "heartbeat env ask ctx job_id worker_id now =
     bindM (leased_job ask ctx job_id worker_id now) (\<lambda>job.
     bindM (require_attempt ctx job) (\<lambda>attempt.
     if ji_cancellation_requested_at job \<noteq> None then
       (let j = (clear_lease job)\<lparr>ji_status := CANCELLED, ji_completed_at := Some now,
              ji_state_version := ji_state_version job + 1\<rparr>
        in thenM (save_attempt (attempt\<lparr>ja_status := ATTEMPT_CANCELLED, ja_finished_at := Some now\<rparr>))
          (thenM (save_job j)
          (thenM (record_job env ctx j Job_cancelled now)
          (raiseM (JobError Job_cancellation_observed)))))
     else
       (let j = job\<lparr>ji_heartbeat_at := Some now, ji_lease_expires_at := Some (now + seconds 30),
              ji_updated_at := now, ji_state_version := ji_state_version job + 1\<rparr>
        in thenM (save_attempt (attempt\<lparr>ja_heartbeat_at := now, ja_lease_expires_at := now + seconds 30\<rparr>))
          (thenM (save_job j)
          (record_job env ctx j Job_heartbeat now)))))"

definition succeed :: "py_env \<Rightarrow> 'a job_db_scheme authorizer \<Rightarrow> execution_context \<Rightarrow> uuid \<Rightarrow> string \<Rightarrow> string \<Rightarrow> instant \<Rightarrow>
    ('a job_db_scheme, job_instance) M" where
  "succeed env ask ctx job_id worker_id result_digest now =
     thenM (requireM (length result_digest = 64) (JobError Result_digest_is_invalid))
     (bindM (leased_job ask ctx job_id worker_id now) (\<lambda>job.
      thenM (requireM (ji_cancellation_requested_at job = None) (JobError Cancelled_job_cannot_succeed))
      (bindM (require_attempt ctx job) (\<lambda>attempt.
       let j = clear_lease (job\<lparr>ji_status := SUCCEEDED, ji_result_digest := Some result_digest,
             ji_completed_at := Some now, ji_updated_at := now, ji_state_version := ji_state_version job + 1\<rparr>)
       in thenM (save_attempt (attempt\<lparr>ja_status := ATTEMPT_SUCCEEDED, ja_finished_at := Some now\<rparr>))
         (thenM (save_job j)
         (thenM (record_job env ctx j Job_succeeded now)
         (returnM j)))))))"

definition fail :: "py_env \<Rightarrow> 'a job_db_scheme authorizer \<Rightarrow> execution_context \<Rightarrow> uuid \<Rightarrow> string \<Rightarrow> failure_category \<Rightarrow>
    string \<Rightarrow> instant \<Rightarrow> ('a job_db_scheme, job_instance) M" where
  "fail env ask ctx job_id worker_id category error_code now =
     bindM (leased_job ask ctx job_id worker_id now) (\<lambda>job.
     bindM (require_attempt ctx job) (\<lambda>attempt.
     let code = py_strip error_code in
     thenM (requireM (code \<noteq> [] \<and> length code \<le> 96) (JobError Safe_error_code_is_invalid))
     (end_attempt env ctx job (attempt\<lparr>ja_status := ATTEMPT_FAILED, ja_failure_category := Some category,
        ja_error_code := Some code, ja_finished_at := Some now\<rparr>) category code Job_retry_scheduled now)))"

definition terminal :: "job_status \<Rightarrow> bool" where
  "terminal st \<longleftrightarrow> st \<in> {SUCCEEDED, CANCELLED, DEAD_LETTERED, EXPIRED}"

definition cancel :: "py_env \<Rightarrow> 'a job_db_scheme authorizer \<Rightarrow> execution_context \<Rightarrow> uuid \<Rightarrow> string \<Rightarrow> instant option \<Rightarrow>
    ('a job_db_scheme, job_instance) M" where
  "cancel env ask ctx job_id reason0 now =
     thenM (require_authorized ask ctx ''update_content'')
     (bindM (require_job ctx job_id) (\<lambda>job.
      bindM (or_now env now) (\<lambda>occurred_at.
      let reason = py_strip reason0 in
      thenM (requireM (reason \<noteq> [] \<and> length reason \<le> 256) (JobError Cancellation_reason_is_invalid))
      (thenM (requireM (\<not> terminal (ji_status job)) (JobError Terminal_job_cannot_be_cancelled))
      (let requested = job\<lparr>ji_cancellation_requested_at := Some occurred_at,
             ji_cancellation_reason := Some reason, ji_updated_at := occurred_at,
             ji_state_version := ji_state_version job + 1\<rparr>;
           j = (if ji_status job \<noteq> RUNNING
                then clear_lease (requested\<lparr>ji_status := CANCELLED, ji_completed_at := Some occurred_at\<rparr>)
                else requested)
       in thenM (save_job j)
         (thenM (record_job env ctx j Job_cancellation_requested occurred_at)
         (returnM j)))))))"

definition replay_deadline :: "job_instance \<Rightarrow> instant \<Rightarrow> instant" where
  "replay_deadline original now = now + max (ji_deadline original - ji_created_at original) (seconds 30)"

text \<open>
  The enqueue of a replay may find the original itself under the idempotency key; then both names
  stand for one object of the session.
\<close>

definition replay_job :: "py_env \<Rightarrow> 'a job_db_scheme authorizer \<Rightarrow> execution_context \<Rightarrow> uuid \<Rightarrow> uuid \<Rightarrow> string \<Rightarrow> string \<Rightarrow>
    instant \<Rightarrow> ('a job_db_scheme, job_instance) M" where
  "replay_job env ask ctx job_id new_job_id idempotency_key reason0 now =
     thenM (require_authorized ask ctx ''manage_workspace'')
     (bindM (require_job ctx job_id) (\<lambda>original.
      bindM (getsM (find_dead_letter ctx job_id)) (\<lambda>found.
      thenM (requireM (ji_status original = DEAD_LETTERED) (JobError Job_is_not_available_for_replay))
      (bindM (someM found (JobError Job_is_not_available_for_replay)) (\<lambda>letter.
       thenM (requireM (dl_status letter = DL_OPEN) (JobError Job_is_not_available_for_replay))
       (let reason = py_strip reason0 in
        thenM (requireM (reason \<noteq> [] \<and> length reason \<le> 256) (JobError Replay_reason_is_invalid))
        (bindM (liftM (make_job_enqueue new_job_id (ji_definition_id original) idempotency_key
             (ji_command_type original) (ji_payload original) (Aware now) (Aware (replay_deadline original now))
             (ji_resource_id original) (ji_classification original) (Some (ji_id original)))) (\<lambda>command.
         bindM (enqueue env ask ctx command (Some now)) (\<lambda>queued.
         let replay = queued\<lparr>ji_replay_of_job_id := Some (ji_id original)\<rparr>;
             held = (if ji_id queued = ji_id original then replay else original);
             original' = held\<lparr>ji_state_version := ji_state_version held + 1, ji_updated_at := now\<rparr>
         in thenM (save_job replay)
           (thenM (save_dead_letter (letter\<lparr>dl_status := DL_REPLAYED, dl_replayed_at := Some now,
              dl_replayed_by_user_id := Some (ctx_actor ctx), dl_replay_job_id := Some (ji_id replay),
              dl_replay_reason := Some reason\<rparr>))
           (thenM (save_job original')
           (thenM (record_job env ctx original' Job_replayed now)
           (returnM (if ji_id queued = ji_id original then original' else replay))))))))))))))"

section \<open>Operator controls and schedules\<close>

definition control_scope_of :: "string \<Rightarrow> control_scope option" where
  "control_scope_of t = (if t = ''workspace'' then Some SCOPE_WORKSPACE
     else if t = ''definition'' then Some SCOPE_DEFINITION else None)"

definition set_paused :: "py_env \<Rightarrow> 'a job_db_scheme authorizer \<Rightarrow> execution_context \<Rightarrow> string \<Rightarrow> string \<Rightarrow> bool \<Rightarrow> string \<Rightarrow>
    int \<Rightarrow> instant option \<Rightarrow> ('a job_db_scheme, job_operator_control) M" where
  "set_paused env ask ctx scope_type scope_reference paused reason0 expected_version now =
     thenM (require_authorized ask ctx ''manage_workspace'')
     (bindM (someM (control_scope_of scope_type) (JobError Operator_control_scope_is_invalid)) (\<lambda>scope.
      thenM (requireM (\<not> (scope = SCOPE_WORKSPACE \<and> scope_reference \<noteq> uuid_str (ctx_workspace ctx)))
               (JobError Workspace_control_does_not_match_execution_context))
      (bindM (or_now env now) (\<lambda>occurred_at.
       let reason = py_strip reason0 in
       thenM (requireM (reason \<noteq> [] \<and> length reason \<le> 256) (JobError Operator_control_reason_is_invalid))
       (bindM (getsM (find_control ctx scope scope_reference)) (\<lambda>found.
        bindM (case found of
            None \<Rightarrow>
              thenM (requireM (expected_version = 0) (JobError Operator_control_version_precondition_failed))
              (bindM (uuid4 env) (\<lambda>i.
               let value = \<lparr>organization_id = organization_id (ec_tenant ctx),
                     workspace_id = workspace_id (ec_tenant ctx), cell_id = cell_id (ec_tenant ctx),
                     jc_id = i, jc_scope_type = scope, jc_scope_reference = scope_reference,
                     jc_paused = paused, jc_reason = reason, jc_state_version = 1,
                     jc_changed_by_user_id = ctx_actor ctx, jc_changed_at = occurred_at\<rparr>
               in thenM (add_control ctx value) (returnM value)))
          | Some c \<Rightarrow>
              thenM (requireM (jc_state_version c = expected_version)
                       (JobError Operator_control_version_precondition_failed))
              (let value = c\<lparr>jc_paused := paused, jc_reason := reason,
                     jc_state_version := jc_state_version c + 1, jc_changed_by_user_id := ctx_actor ctx,
                     jc_changed_at := occurred_at\<rparr>
               in thenM (save_control value) (returnM value))) (\<lambda>value.
        thenM (record_change env ctx (jc_id value) (jc_state_version value) Job_control_changed
                 Agg_job_control occurred_at)
        (returnM value))))))))"

definition set_schedule_paused :: "py_env \<Rightarrow> 'a job_db_scheme authorizer \<Rightarrow> execution_context \<Rightarrow> uuid \<Rightarrow> bool \<Rightarrow> string \<Rightarrow>
    int \<Rightarrow> instant option \<Rightarrow> ('a job_db_scheme, job_schedule) M" where
  "set_schedule_paused env ask ctx schedule_id paused reason0 expected_version now =
     thenM (require_authorized ask ctx ''manage_workspace'')
     (bindM (getsM (find_schedule ctx schedule_id)) (\<lambda>found.
      bindM (someM found (JobError Schedule_does_not_exist)) (\<lambda>schedule.
      thenM (requireM (js_state_version schedule = expected_version)
               (JobError Schedule_version_precondition_failed))
      (thenM (requireM (js_status schedule \<noteq> JS_COMPLETED) (JobError Completed_schedule_cannot_be_changed))
      (let reason = py_strip reason0 in
       thenM (requireM (reason \<noteq> [] \<and> length reason \<le> 256) (JobError Schedule_pause_reason_is_invalid))
       (bindM (or_now env now) (\<lambda>occurred_at.
        let value = schedule\<lparr>js_status := (if paused then JS_PAUSED else JS_ACTIVE),
              js_state_version := js_state_version schedule + 1, js_updated_at := occurred_at\<rparr>
        in thenM (save_schedule value)
          (thenM (record_change env ctx (js_id value) (js_state_version value)
             (if paused then Job_schedule_paused else Job_schedule_resumed) Agg_job_schedule occurred_at)
          (returnM value)))))))))"

definition register_schedule :: "py_env \<Rightarrow> 'a job_db_scheme authorizer \<Rightarrow> execution_context \<Rightarrow> schedule_spec \<Rightarrow> string \<Rightarrow>
    json \<Rightarrow> string \<Rightarrow> int \<Rightarrow> instant option \<Rightarrow> ('a job_db_scheme, job_schedule) M" where
  "register_schedule env ask ctx spec command_type payload0 idempotency_prefix job_deadline_seconds now =
     thenM (require_authorized ask ctx ''manage_workspace'')
     (thenM (bindM (require_definition ctx (sp_definition_id spec)) (\<lambda>_. returnM ()))
     (bindM (getsM (find_schedule ctx (sp_schedule_id spec))) (\<lambda>found.
      thenM (requireM (found = None) (JobError Schedule_identity_already_exists))
      (thenM (requireM (1 \<le> job_deadline_seconds \<and> job_deadline_seconds \<le> 86400)
               (JobError Scheduled_job_deadline_is_invalid))
      (bindM (or_now env now) (\<lambda>occurred_at.
       bindM (liftM (jobs_safe_payload payload0)) (\<lambda>payload.
       let value = \<lparr>organization_id = organization_id (ec_tenant ctx),
             workspace_id = workspace_id (ec_tenant ctx), cell_id = cell_id (ec_tenant ctx),
             js_id = sp_schedule_id spec, js_definition_id = sp_definition_id spec,
             js_schedule_kind = sp_kind spec, js_misfire_policy = sp_misfire_policy spec,
             js_first_due_at = sp_first_due_at spec, js_interval_seconds = sp_interval_seconds spec,
             js_timezone = map_option dy_timezone (sp_daily spec),
             js_local_hour = map_option dy_hour (sp_daily spec),
             js_local_minute = map_option dy_minute (sp_daily spec),
             js_local_time_policy = map_option dy_local_time_policy (sp_daily spec),
             js_command_type = command_type, js_command_payload = payload,
             js_idempotency_prefix = idempotency_prefix, js_job_deadline_seconds = job_deadline_seconds,
             js_status = JS_ACTIVE, js_next_due_at = sp_first_due_at spec, js_last_evaluated_at = None,
             js_state_version = 1, js_created_by_user_id = ctx_actor ctx, js_created_at = occurred_at,
             js_updated_at = occurred_at\<rparr>
       in thenM (add_schedule ctx value)
         (thenM (record_change env ctx (js_id value) (js_state_version value) Job_schedule_registered
            Agg_job_schedule occurred_at)
         (returnM value)))))))))"

definition schedule_daily :: "py_env \<Rightarrow> job_schedule \<Rightarrow> py_error + daily_schedule option" where
  "schedule_daily env value =
     (if js_schedule_kind value \<noteq> DAILY_LOCAL then Inr None
      else case (js_local_hour value, js_local_minute value, js_timezone value, js_local_time_policy value) of
        (Some h, Some m, Some z, Some p) \<Rightarrow>
          (case make_daily_schedule env h m z p of Inl e \<Rightarrow> Inl e | Inr d \<Rightarrow> Inr (Some d))
      | _ \<Rightarrow> Inl AssertionError)"

definition schedule_spec_of :: "py_env \<Rightarrow> job_schedule \<Rightarrow> py_error + schedule_spec" where
  "schedule_spec_of env value =
     (case schedule_daily env value of Inl e \<Rightarrow> Inl e
      | Inr daily \<Rightarrow> make_schedule_spec (js_id value) (js_definition_id value) (js_schedule_kind value)
          (Aware (js_first_due_at value)) (js_misfire_policy value) (js_interval_seconds value) daily)"

definition enqueue_occurrence :: "py_env \<Rightarrow> 'a job_db_scheme authorizer \<Rightarrow> execution_context \<Rightarrow> instant \<Rightarrow> job_schedule \<Rightarrow>
    instant \<Rightarrow> ('a job_db_scheme, job_instance) M" where
  "enqueue_occurrence env ask ctx now schedule occurrence =
     bindM (uuid4 env) (\<lambda>i.
     bindM (liftM (make_job_enqueue i (js_definition_id schedule)
         (js_idempotency_prefix schedule @ '':'' @ py_isoformat occurrence) (js_command_type schedule)
         (js_command_payload schedule) (Aware occurrence)
         (Aware (occurrence + seconds (js_job_deadline_seconds schedule))) None ''internal''
         (Some (js_id schedule)))) (\<lambda>command.
     enqueue env ask ctx command (Some now)))"

definition dispatch_schedule :: "py_env \<Rightarrow> 'a job_db_scheme authorizer \<Rightarrow> execution_context \<Rightarrow> instant \<Rightarrow> job_schedule \<Rightarrow>
    ('a job_db_scheme, job_instance list) M" where
  "dispatch_schedule env ask ctx now schedule =
     bindM (liftM (schedule_spec_of env schedule)) (\<lambda>spec.
     bindM (liftM (due_occurrences env spec now)) (\<lambda>occurrences.
     bindM (mapM (enqueue_occurrence env ask ctx now schedule) occurrences) (\<lambda>created.
     bindM (liftM (next_occurrence env spec now)) (\<lambda>following.
     let evaluated = schedule\<lparr>js_last_evaluated_at := Some now, js_updated_at := now,
           js_state_version := js_state_version schedule + 1\<rparr>;
         value = (case following of None \<Rightarrow> evaluated\<lparr>js_status := JS_COMPLETED\<rparr>
                  | Some t \<Rightarrow> evaluated\<lparr>js_next_due_at := t\<rparr>)
     in thenM (save_schedule value)
       (thenM (record_change env ctx (js_id value) (js_state_version value) Job_schedule_evaluated
          Agg_job_schedule now)
       (returnM created))))))"

definition dispatch_due_schedules :: "py_env \<Rightarrow> 'a job_db_scheme authorizer \<Rightarrow> execution_context \<Rightarrow> instant \<Rightarrow>
    ('a job_db_scheme, job_instance list) M" where
  "dispatch_due_schedules env ask ctx now =
     thenM (require_authorized ask ctx ''update_content'')
     (bindM (getsM (due_schedules ctx now)) (\<lambda>schedules.
      bindM (mapM (dispatch_schedule env ask ctx now) schedules) (\<lambda>created.
      returnM (concat created))))"

end
