(* ===== verification/Job_Steps.thy ===== *)
theory Job_Steps
  imports Job_Service
begin

text \<open>
  The abstract machine of durable execution: what an operation may do to the rows of definitions,
  jobs, attempts and dead letters, as one step relation with eight kinds of steps, and the
  invariant that every step keeps. \<open>Job_Refinement\<close> shows that the operations of the service
  are runs of this machine.
\<close>

section \<open>The tables\<close>

record job_tables =
  jt_tenants :: "(uuid \<times> uuid \<times> uuid) list"
  jt_definitions :: "job_definition list"
  jt_jobs :: "job_instance list"
  jt_attempts :: "job_attempt list"
  jt_letters :: "job_dead_letter list"

definition tenant_of :: "'b tenant_row_scheme \<Rightarrow> uuid \<times> uuid \<times> uuid" where
  "tenant_of r = (workspace_id r, organization_id r, cell_id r)"

lemma tenant_of_eq:
  "tenant_of r = tenant_of q \<longleftrightarrow> workspace_id r = workspace_id q \<and> organization_id r = organization_id q \<and>
     cell_id r = cell_id q"
  by (auto simp: tenant_of_def)

lemma tenant_pk_tenant_of: "tenant_pk r i = tenant_pk q j \<longleftrightarrow> tenant_of r = tenant_of q \<and> i = j"
  by (auto simp: tenant_of_def)

definition waiting :: "job_instance \<Rightarrow> bool" where
  "waiting j \<longleftrightarrow> ji_status j \<in> {QUEUED, RETRY_WAIT}"

text \<open>A well-formed job row.\<close>

definition job_ok :: "job_instance \<Rightarrow> bool" where
  "job_ok j \<longleftrightarrow> 0 \<le> ji_attempt_count j \<and> ji_attempt_count j \<le> 5 \<and> ji_available_at j < ji_deadline j \<and>
     0 < ji_state_version j \<and>
     (ji_status j = RUNNING \<longleftrightarrow> ji_lease_owner j \<noteq> None) \<and>
     (ji_status j = RUNNING \<longleftrightarrow> ji_lease_expires_at j \<noteq> None) \<and>
     (terminal (ji_status j) \<longleftrightarrow> ji_completed_at j \<noteq> None) \<and>
     (ji_status j = SUCCEEDED \<longrightarrow> (\<exists>d. ji_result_digest j = Some d \<and> length d = 64))"

text \<open>What no step changes in a job row.\<close>

definition same_job :: "job_instance \<Rightarrow> job_instance \<Rightarrow> bool" where
  "same_job j j' \<longleftrightarrow> tenant_of j' = tenant_of j \<and> ji_id j' = ji_id j \<and>
     ji_definition_id j' = ji_definition_id j \<and> ji_idempotency_key j' = ji_idempotency_key j \<and>
     ji_request_digest j' = ji_request_digest j \<and> ji_payload j' = ji_payload j \<and>
     ji_deadline j' = ji_deadline j \<and> ji_created_at j' = ji_created_at j"

definition same_attempt :: "job_attempt \<Rightarrow> job_attempt \<Rightarrow> bool" where
  "same_attempt a a' \<longleftrightarrow> tenant_of a' = tenant_of a \<and> ja_id a' = ja_id a \<and> ja_job_id a' = ja_job_id a \<and>
     ja_attempt_number a' = ja_attempt_number a \<and> ja_started_at a' = ja_started_at a"

definition job_key :: "job_instance \<Rightarrow> tenant_key \<times> string" where
  "job_key j = (tenant_pk j (ji_definition_id j), ji_idempotency_key j)"

definition attempt_key :: "job_attempt \<Rightarrow> tenant_key \<times> int" where
  "attempt_key a = (tenant_pk a (ja_job_id a), ja_attempt_number a)"

definition of_job :: "job_instance \<Rightarrow> job_attempt \<Rightarrow> bool" where
  "of_job j a \<longleftrightarrow> tenant_pk a (ja_job_id a) = ji_pk j"

definition of_definition :: "job_definition \<Rightarrow> job_instance \<Rightarrow> bool" where
  "of_definition d j \<longleftrightarrow> tenant_pk j (ji_definition_id j) = jd_pk d"

definition running_in :: "uuid \<Rightarrow> job_instance list \<Rightarrow> nat" where
  "running_in w js = count_rows (\<lambda>j. workspace_id j = w \<and> ji_status j = RUNNING) js"

definition running_for :: "job_definition \<Rightarrow> job_instance list \<Rightarrow> nat" where
  "running_for d js = count_rows (\<lambda>j. of_definition d j \<and> ji_status j = RUNNING) js"

section \<open>Steps\<close>

inductive job_step :: "job_tables \<Rightarrow> job_tables \<Rightarrow> bool" where
  register: "\<lbrakk> tenant_of d \<in> set (jt_tenants t); jd_pk d \<notin> jd_pk ` set (jt_definitions t);
      1 \<le> jd_max_attempts d; jd_max_attempts d \<le> 5; 1 \<le> jd_max_concurrency d; jd_max_concurrency d \<le> 20 \<rbrakk>
    \<Longrightarrow> job_step t (t\<lparr>jt_definitions := jt_definitions t @ [d]\<rparr>)"
| enqueue: "\<lbrakk> tenant_of j \<in> set (jt_tenants t); ji_pk j \<notin> ji_pk ` set (jt_jobs t);
      job_key j \<notin> job_key ` set (jt_jobs t); d \<in> set (jt_definitions t); of_definition d j;
      ji_status j = QUEUED; ji_attempt_count j = 0; job_ok j \<rbrakk>
    \<Longrightarrow> job_step t (t\<lparr>jt_jobs := jt_jobs t @ [j]\<rparr>)"
| claim: "\<lbrakk> j \<in> set (jt_jobs t); waiting j; ji_available_at j \<le> now; now < ji_deadline j;
      d \<in> set (jt_definitions t); of_definition d j;
      running_in (workspace_id j) (jt_jobs t) < 20; int (running_for d (jt_jobs t)) < jd_max_concurrency d;
      j' = claimed_job j worker now 30; job_ok j';
      tenant_of a = tenant_of j; ja_job_id a = ji_id j; ja_attempt_number a = ji_attempt_count j';
      ja_status a = ATTEMPT_RUNNING; ja_pk a \<notin> ja_pk ` set (jt_attempts t);
      attempt_key a \<notin> attempt_key ` set (jt_attempts t) \<rbrakk>
    \<Longrightarrow> job_step t (t\<lparr>jt_jobs := replace_row ji_pk j' (jt_jobs t), jt_attempts := jt_attempts t @ [a]\<rparr>)"
| beat: "\<lbrakk> j \<in> set (jt_jobs t); ji_status j = RUNNING; same_job j j'; ji_status j' = RUNNING;
      ji_lease_owner j' = ji_lease_owner j; ji_attempt_count j' = ji_attempt_count j; job_ok j';
      a \<in> set (jt_attempts t); of_job j a; same_attempt a a'; ja_status a' = ja_status a \<rbrakk>
    \<Longrightarrow> job_step t (t\<lparr>jt_jobs := replace_row ji_pk j' (jt_jobs t),
          jt_attempts := replace_row ja_pk a' (jt_attempts t)\<rparr>)"
| close: "\<lbrakk> j \<in> set (jt_jobs t); ji_status j = RUNNING; same_job j j';
      ji_attempt_count j' = ji_attempt_count j; job_ok j';
      ji_status j' \<in> {SUCCEEDED, CANCELLED, EXPIRED, RETRY_WAIT, DEAD_LETTERED};
      ji_status j' = RETRY_WAIT \<Longrightarrow> \<exists>d \<in> set (jt_definitions t). of_definition d j \<and> ji_attempt_count j < jd_max_attempts d;
      a \<in> set (jt_attempts t); of_job j a; ja_attempt_number a = ji_attempt_count j;
      ja_status a = ATTEMPT_RUNNING; same_attempt a a'; ja_status a' \<noteq> ATTEMPT_RUNNING;
      if ji_status j' = DEAD_LETTERED
        then \<exists>l. letters = jt_letters t @ [l] \<and> tenant_pk l (dl_job_id l) = ji_pk j \<and>
          dl_pk l \<notin> dl_pk ` set (jt_letters t)
        else letters = jt_letters t \<rbrakk>
    \<Longrightarrow> job_step t (t\<lparr>jt_jobs := replace_row ji_pk j' (jt_jobs t),
          jt_attempts := replace_row ja_pk a' (jt_attempts t), jt_letters := letters\<rparr>)"
| withdraw: "\<lbrakk> j \<in> set (jt_jobs t); waiting j; same_job j j'; ji_attempt_count j' = ji_attempt_count j;
      ji_status j' \<in> {EXPIRED, CANCELLED}; job_ok j' \<rbrakk>
    \<Longrightarrow> job_step t (t\<lparr>jt_jobs := replace_row ji_pk j' (jt_jobs t)\<rparr>)"
| touch: "\<lbrakk> j \<in> set (jt_jobs t); same_job j j'; ji_status j' = ji_status j;
      ji_attempt_count j' = ji_attempt_count j; ji_lease_owner j' = ji_lease_owner j; job_ok j' \<rbrakk>
    \<Longrightarrow> job_step t (t\<lparr>jt_jobs := replace_row ji_pk j' (jt_jobs t)\<rparr>)"
| letter: "\<lbrakk> l \<in> set (jt_letters t); tenant_of l' = tenant_of l; dl_id l' = dl_id l; dl_job_id l' = dl_job_id l \<rbrakk>
    \<Longrightarrow> job_step t (t\<lparr>jt_letters := replace_row dl_pk l' (jt_letters t)\<rparr>)"

abbreviation job_steps :: "job_tables \<Rightarrow> job_tables \<Rightarrow> bool" where
  "job_steps \<equiv> job_step\<^sup>*\<^sup>*"

section \<open>The invariant\<close>

definition tenants_ok :: "job_tables \<Rightarrow> bool" where
  "tenants_ok t \<longleftrightarrow> distinct (map fst (jt_tenants t)) \<and>
     tenant_of ` set (jt_definitions t) \<subseteq> set (jt_tenants t) \<and>
     tenant_of ` set (jt_jobs t) \<subseteq> set (jt_tenants t) \<and>
     tenant_of ` set (jt_attempts t) \<subseteq> set (jt_tenants t) \<and>
     tenant_of ` set (jt_letters t) \<subseteq> set (jt_tenants t)"

definition keys_ok :: "job_tables \<Rightarrow> bool" where
  "keys_ok t \<longleftrightarrow> distinct (map jd_pk (jt_definitions t)) \<and> distinct (map ji_pk (jt_jobs t)) \<and>
     distinct (map job_key (jt_jobs t)) \<and> distinct (map ja_pk (jt_attempts t)) \<and>
     distinct (map attempt_key (jt_attempts t)) \<and> distinct (map dl_pk (jt_letters t))"

definition budget_ok :: "job_tables \<Rightarrow> bool" where
  "budget_ok t \<longleftrightarrow> (\<forall>d \<in> set (jt_definitions t). 1 \<le> jd_max_attempts d \<and> jd_max_attempts d \<le> 5) \<and>
     (\<forall>j \<in> set (jt_jobs t). job_ok j \<and> (\<exists>d \<in> set (jt_definitions t). of_definition d j \<and>
        ji_attempt_count j \<le> jd_max_attempts d \<and> (waiting j \<longrightarrow> ji_attempt_count j < jd_max_attempts d)))"

definition attempts_ok :: "job_tables \<Rightarrow> bool" where
  "attempts_ok t \<longleftrightarrow>
     (\<forall>a \<in> set (jt_attempts t). \<exists>j \<in> set (jt_jobs t). of_job j a \<and> ja_attempt_number a \<le> ji_attempt_count j \<and>
        (ja_status a = ATTEMPT_RUNNING \<longrightarrow> ji_status j = RUNNING \<and> ja_attempt_number a = ji_attempt_count j)) \<and>
     (\<forall>j \<in> set (jt_jobs t). ji_status j = RUNNING \<longrightarrow>
        (\<exists>a \<in> set (jt_attempts t). of_job j a \<and> ja_attempt_number a = ji_attempt_count j \<and>
           ja_status a = ATTEMPT_RUNNING))"

definition letters_ok :: "job_tables \<Rightarrow> bool" where
  "letters_ok t \<longleftrightarrow> (\<forall>j \<in> set (jt_jobs t). ji_status j = DEAD_LETTERED \<longleftrightarrow>
     (\<exists>l \<in> set (jt_letters t). tenant_pk l (dl_job_id l) = ji_pk j)) \<and>
     (\<forall>l \<in> set (jt_letters t). \<exists>j \<in> set (jt_jobs t). tenant_pk l (dl_job_id l) = ji_pk j)"

definition ceilings_ok :: "job_tables \<Rightarrow> bool" where
  "ceilings_ok t \<longleftrightarrow> (\<forall>w. running_in w (jt_jobs t) \<le> 20) \<and>
     (\<forall>d \<in> set (jt_definitions t). int (running_for d (jt_jobs t)) \<le> jd_max_concurrency d)"

definition job_inv :: "job_tables \<Rightarrow> bool" where
  "job_inv t \<longleftrightarrow> tenants_ok t \<and> keys_ok t \<and> budget_ok t \<and> attempts_ok t \<and> letters_ok t \<and> ceilings_ok t"

lemmas job_inv_parts = tenants_ok_def keys_ok_def budget_ok_def attempts_ok_def letters_ok_def ceilings_ok_def

section \<open>Every step keeps it\<close>

lemma ji_pk_eq: "ji_pk j = ji_pk j' \<longleftrightarrow> tenant_of j = tenant_of j' \<and> ji_id j = ji_id j'"
  by (auto simp: ji_pk_def tenant_of_eq)

lemma same_job_pk: "same_job j j' \<Longrightarrow> ji_pk j' = ji_pk j"
  by (simp add: same_job_def ji_pk_eq)

lemma same_job_key: "same_job j j' \<Longrightarrow> job_key j' = job_key j"
  by (simp add: same_job_def job_key_def tenant_of_eq)

lemma same_job_definition: "same_job j j' \<Longrightarrow> of_definition d j' = of_definition d j"
  by (auto simp: same_job_def of_definition_def jd_pk_def tenant_of_eq)

lemma same_job_of_job: "same_job j j' \<Longrightarrow> of_job j' a = of_job j a"
  by (simp add: of_job_def same_job_pk)

lemma same_job_workspace: "same_job j j' \<Longrightarrow> workspace_id j' = workspace_id j"
  by (simp add: same_job_def tenant_of_eq)

lemma same_attempt_keys:
  "same_attempt a a' \<Longrightarrow> ja_pk a' = ja_pk a \<and> attempt_key a' = attempt_key a \<and> of_job j a' = of_job j a"
  by (simp add: same_attempt_def ja_pk_def attempt_key_def of_job_def tenant_of_eq tenant_pk_def)

lemma claimed_same: "same_job j (claimed_job j w now n)"
  by (simp add: same_job_def claimed_job_def tenant_of_def)

lemma replace_distinct_set:
  assumes "distinct (map key t)" "x \<in> set t" "key x' = key x"
  shows "set (replace_row key x' t) = insert x' (set t - {x})"
  using assms distinct_keys_unique [OF assms(1)]
  by (auto simp: set_replace_row)

text \<open>Replacing one job, in the terms of the invariant.\<close>

lemma replaced_tenants:
  assumes "tenants_ok t" "j \<in> set (jt_jobs t)" "same_job j j'"
  shows "tenant_of ` set (replace_row ji_pk j' (jt_jobs t)) \<subseteq> set (jt_tenants t)"
  using assms by (auto simp: tenants_ok_def same_job_def dest!: in_replace_row)

lemma replaced_keys:
  assumes "distinct (map ji_pk js)" "distinct (map job_key js)" "j \<in> set js" "same_job j j'"
  shows "distinct (map ji_pk (replace_row ji_pk j' js))" "distinct (map job_key (replace_row ji_pk j' js))"
proof -
  show "distinct (map ji_pk (replace_row ji_pk j' js))" using assms(1) by simp
  have "map job_key (replace_row ji_pk j' js) = map job_key js"
  proof (rule map_replace_row_same)
    fix x assume "x \<in> set js" "ji_pk x = ji_pk j'"
    then have "x = j" using distinct_keys_unique [OF assms(1), of x j] assms(3,4) by (simp add: same_job_pk)
    then show "job_key x = job_key j'" using assms(4) by (simp add: same_job_key)
  qed
  then show "distinct (map job_key (replace_row ji_pk j' js))" using assms(2) by simp
qed

lemma replaced_attempt_keys:
  assumes "distinct (map ja_pk as)" "distinct (map attempt_key as)" "a \<in> set as" "same_attempt a a'"
  shows "distinct (map ja_pk (replace_row ja_pk a' as))" "distinct (map attempt_key (replace_row ja_pk a' as))"
proof -
  show "distinct (map ja_pk (replace_row ja_pk a' as))" using assms(1) by simp
  have "map attempt_key (replace_row ja_pk a' as) = map attempt_key as"
  proof (rule map_replace_row_same)
    fix x assume "x \<in> set as" "ja_pk x = ja_pk a'"
    then have "x = a"
      using distinct_keys_unique [OF assms(1), of x a] assms(3) same_attempt_keys [OF assms(4)] by simp
    then show "attempt_key x = attempt_key a'" using same_attempt_keys [OF assms(4)] by simp
  qed
  then show "distinct (map attempt_key (replace_row ja_pk a' as))" using assms(2) by simp
qed

text \<open>A row that was running, or is not running now, does not raise a count of running jobs.\<close>

lemma replaced_running_mono:
  assumes "distinct (map ji_pk js)" "j \<in> set js" "same_job j j'"
    and "ji_status j' = RUNNING \<Longrightarrow> ji_status j = RUNNING"
  shows "running_in w (replace_row ji_pk j' js) \<le> running_in w js"
    "running_for d (replace_row ji_pk j' js) \<le> running_for d js"
proof -
  have "x = j" if "x \<in> set js" "ji_pk x = ji_pk j'" for x
    using distinct_keys_unique [OF assms(1) that(1) assms(2)] that(2) assms(3) by (simp add: same_job_pk)
  then show "running_in w (replace_row ji_pk j' js) \<le> running_in w js"
    "running_for d (replace_row ji_pk j' js) \<le> running_for d js"
    unfolding running_in_def running_for_def
    using assms(3,4) by (auto intro!: count_rows_replace_mono simp: same_job_workspace same_job_definition)
qed

lemma replaced_running_other:
  assumes "distinct (map ji_pk js)" "j \<in> set js" "same_job j j'"
  shows "workspace_id j \<noteq> w \<Longrightarrow> running_in w (replace_row ji_pk j' js) \<le> running_in w js"
    "\<not> of_definition d j \<Longrightarrow> running_for d (replace_row ji_pk j' js) \<le> running_for d js"
  unfolding running_in_def running_for_def
  using assms(3) by (auto intro!: count_rows_replace_mono simp: same_job_workspace same_job_definition)

text \<open>The other tables of a step, and the rows that a step changes.\<close>

lemma unique_job:
  "keys_ok t \<Longrightarrow> x \<in> set (jt_jobs t) \<Longrightarrow> y \<in> set (jt_jobs t) \<Longrightarrow> ji_pk x = ji_pk y \<Longrightarrow> x = y"
  unfolding keys_ok_def by (blast intro: distinct_keys_unique)

lemma unique_definition:
  "keys_ok t \<Longrightarrow> d \<in> set (jt_definitions t) \<Longrightarrow> e \<in> set (jt_definitions t) \<Longrightarrow> jd_pk d = jd_pk e \<Longrightarrow> d = e"
  unfolding keys_ok_def by (blast intro: distinct_keys_unique)

lemma unique_attempt:
  "keys_ok t \<Longrightarrow> a \<in> set (jt_attempts t) \<Longrightarrow> b \<in> set (jt_attempts t) \<Longrightarrow> attempt_key a = attempt_key b \<Longrightarrow> a = b"
  unfolding keys_ok_def by (blast intro: distinct_keys_unique)

lemma jobs_after:
  assumes "keys_ok t" "j \<in> set (jt_jobs t)" "same_job j j'"
  shows "set (replace_row ji_pk j' (jt_jobs t)) = insert j' (set (jt_jobs t) - {j})"
  using assms by (intro replace_distinct_set) (simp_all add: keys_ok_def same_job_pk)

lemma attempts_after:
  assumes "keys_ok t" "a \<in> set (jt_attempts t)" "same_attempt a a'"
  shows "set (replace_row ja_pk a' (jt_attempts t)) = insert a' (set (jt_attempts t) - {a})"
  using assms same_attempt_keys by (intro replace_distinct_set) (simp_all add: keys_ok_def)

lemma letters_after:
  assumes "keys_ok t" "l \<in> set (jt_letters t)" "dl_pk l' = dl_pk l"
  shows "set (replace_row dl_pk l' (jt_letters t)) = insert l' (set (jt_letters t) - {l})"
  using assms by (intro replace_distinct_set) (simp_all add: keys_ok_def)

lemma replaced_attempt_tenants:
  assumes "tenants_ok t" "a \<in> set (jt_attempts t)" "same_attempt a a'"
  shows "tenant_of ` set (replace_row ja_pk a' (jt_attempts t)) \<subseteq> set (jt_tenants t)"
proof -
  have "tenant_of a' \<in> set (jt_tenants t)" using assms by (simp add: tenants_ok_def same_attempt_def image_subset_iff)
  then show ?thesis
    using assms(1) by (force simp: tenants_ok_def image_subset_iff dest: in_replace_row)
qed

lemma job_step_tenants:
  assumes "job_step t t'" "job_inv t"
  shows "tenants_ok t'"
  using assms
proof (induction rule: job_step.induct)
  case (claim j t now d j' worker a)
  then have "tenants_ok t" "same_job j j'" by (simp_all add: job_inv_def claimed_same)
  with claim(1,11) replaced_tenants [OF this(1) claim(1) this(2)] show ?case
    by (simp add: tenants_ok_def image_subset_iff)
next
  case (beat j t j' a a')
  then have "tenants_ok t" by (simp add: job_inv_def)
  with replaced_tenants [OF this beat(1,3)] replaced_attempt_tenants [OF this beat(8,10)] show ?case
    by (simp add: tenants_ok_def)
next
  case (close j t j' a a' letters)
  then have ok: "tenants_ok t" by (simp add: job_inv_def)
  have "tenant_of ` set letters \<subseteq> set (jt_tenants t)"
  proof (cases "ji_status j' = DEAD_LETTERED")
    case True
    with close(14) obtain l where l: "letters = jt_letters t @ [l]" "tenant_pk l (dl_job_id l) = ji_pk j"
      by auto
    then have "tenant_of l = tenant_of j" by (simp add: ji_pk_def tenant_of_eq)
    then show ?thesis using ok close(1) l(1) by (simp add: tenants_ok_def image_subset_iff)
  next
    case False
    then show ?thesis using ok close(14) by (simp add: tenants_ok_def)
  qed
  with ok replaced_tenants [OF ok close(1,3)] replaced_attempt_tenants [OF ok close(8,12)] show ?case
    by (simp add: tenants_ok_def)
next
  case (withdraw j t j')
  then have "tenants_ok t" by (simp add: job_inv_def)
  with replaced_tenants [OF this withdraw(1,3)] show ?case by (simp add: tenants_ok_def)
next
  case (touch j t j')
  then have "tenants_ok t" by (simp add: job_inv_def)
  with replaced_tenants [OF this touch(1,2)] show ?case by (simp add: tenants_ok_def)
next
  case (letter l t l')
  then have ok: "tenants_ok t" by (simp add: job_inv_def)
  then have "tenant_of l' \<in> set (jt_tenants t)" using letter by (simp add: tenants_ok_def image_subset_iff)
  with ok show ?case by (force simp: tenants_ok_def image_subset_iff dest: in_replace_row)
qed (simp_all add: job_inv_def tenants_ok_def image_subset_iff)

lemma job_step_keys:
  assumes "job_step t t'" "job_inv t"
  shows "keys_ok t'"
  using assms
proof (induction rule: job_step.induct)
  case (claim j t now d j' worker a)
  then have "same_job j j'" by (simp add: claimed_same)
  with claim show ?case
    using replaced_keys [of "jt_jobs t" j j'] by (simp add: job_inv_def keys_ok_def)
next
  case (beat j t j' a a')
  then show ?case
    using replaced_keys [of "jt_jobs t" j j'] replaced_attempt_keys [of "jt_attempts t" a a']
    by (simp add: job_inv_def keys_ok_def)
next
  case (close j t j' a a' letters)
  then have "distinct (map dl_pk letters)" by (auto simp: job_inv_def keys_ok_def split: if_splits)
  with close show ?case
    using replaced_keys [of "jt_jobs t" j j'] replaced_attempt_keys [of "jt_attempts t" a a']
    by (simp add: job_inv_def keys_ok_def)
next
  case (withdraw j t j')
  then show ?case
    using replaced_keys [of "jt_jobs t" j j'] by (simp add: job_inv_def keys_ok_def)
next
  case (touch j t j')
  then show ?case
    using replaced_keys [of "jt_jobs t" j j'] by (simp add: job_inv_def keys_ok_def)
qed (simp_all add: job_inv_def keys_ok_def)

text \<open>Whether a changed job row is still within the budget of its definition.\<close>

definition in_budget :: "job_definition list \<Rightarrow> job_instance \<Rightarrow> bool" where
  "in_budget ds j \<longleftrightarrow> job_ok j \<and> (\<exists>d \<in> set ds. of_definition d j \<and>
     ji_attempt_count j \<le> jd_max_attempts d \<and> (waiting j \<longrightarrow> ji_attempt_count j < jd_max_attempts d))"

lemma budget_ok_eq:
  "budget_ok t \<longleftrightarrow> (\<forall>d \<in> set (jt_definitions t). 1 \<le> jd_max_attempts d \<and> jd_max_attempts d \<le> 5) \<and>
     (\<forall>j \<in> set (jt_jobs t). in_budget (jt_definitions t) j)"
  by (simp add: budget_ok_def in_budget_def)

lemma budget_replaced:
  assumes "job_inv t" "j \<in> set (jt_jobs t)" "same_job j j'"
    and "in_budget (jt_definitions t) j \<Longrightarrow> in_budget (jt_definitions t) j'"
    and "jt_definitions t' = jt_definitions t" "jt_jobs t' = replace_row ji_pk j' (jt_jobs t)"
  shows "budget_ok t'"
  using assms jobs_after [OF _ assms(2,3)] by (auto simp: job_inv_def budget_ok_eq)

lemma in_budget_kept:
  assumes "in_budget ds j" "same_job j j'" "ji_attempt_count j' = ji_attempt_count j" "job_ok j'"
    and "waiting j' \<Longrightarrow> waiting j"
  shows "in_budget ds j'"
  using assms same_job_definition [OF assms(2)] by (auto simp: in_budget_def)

lemma job_step_budget:
  assumes "job_step t t'" "job_inv t"
  shows "budget_ok t'"
  using assms
proof (induction rule: job_step.induct)
  case (register d t)
  then show ?case by (auto simp: job_inv_def budget_ok_def)
next
  case (enqueue j t d)
  then show ?case by (fastforce simp: job_inv_def budget_ok_def)
next
  case (claim j t now d j' worker a)
  have "in_budget (jt_definitions t) j'" if "in_budget (jt_definitions t) j"
  proof -
    from that claim(2) obtain e where e: "e \<in> set (jt_definitions t)" "of_definition e j"
      "ji_attempt_count j < jd_max_attempts e" by (auto simp: in_budget_def)
    have "of_definition e j'" using e(2) same_job_definition [OF claimed_same] claim(9) by blast
    moreover have "ji_attempt_count j' = ji_attempt_count j + 1" "\<not> waiting j'"
      using claim(9) by (simp_all add: claimed_job_def waiting_def)
    ultimately show ?thesis using e claim(10) by (auto simp: in_budget_def)
  qed
  then show ?case
    using claim by (intro budget_replaced [of t j j']) (simp_all add: claimed_same)
next
  case (beat j t j' a a')
  then show ?case
    by (intro budget_replaced [of t j j']) (auto intro: in_budget_kept simp: waiting_def)
next
  case (close j t j' a a' letters)
  have "in_budget (jt_definitions t) j'" if "in_budget (jt_definitions t) j"
  proof (cases "ji_status j' = RETRY_WAIT")
    case True
    then obtain d where "d \<in> set (jt_definitions t)" "of_definition d j" "ji_attempt_count j < jd_max_attempts d"
      using close(7) by blast
    then show ?thesis
      using same_job_definition [OF close(3)] close(4,5) by (auto simp: in_budget_def)
  next
    case False
    then have "\<not> waiting j'" using close(6) by (auto simp: waiting_def)
    with that close show ?thesis by (blast intro: in_budget_kept)
  qed
  with close show ?case by (intro budget_replaced [of t j j']) simp_all
next
  case (withdraw j t j')
  then show ?case
    by (intro budget_replaced [of t j j']) (auto intro: in_budget_kept simp: waiting_def)
next
  case (touch j t j')
  then show ?case
    by (intro budget_replaced [of t j j']) (auto intro: in_budget_kept simp: waiting_def)
next
  case (letter l t l')
  then show ?case by (simp add: job_inv_def budget_ok_def)
qed

text \<open>
  Attempts: \<open>backed\<close> says that an attempt belongs to a job of the table, \<open>attended\<close> that a
  running job has its current attempt running.
\<close>

definition backed :: "job_instance list \<Rightarrow> job_attempt \<Rightarrow> bool" where
  "backed js a \<longleftrightarrow> (\<exists>j \<in> set js. of_job j a \<and> ja_attempt_number a \<le> ji_attempt_count j \<and>
     (ja_status a = ATTEMPT_RUNNING \<longrightarrow> ji_status j = RUNNING \<and> ja_attempt_number a = ji_attempt_count j))"

definition attended :: "job_attempt list \<Rightarrow> job_instance \<Rightarrow> bool" where
  "attended as j \<longleftrightarrow> (ji_status j = RUNNING \<longrightarrow> (\<exists>a \<in> set as. of_job j a \<and>
     ja_attempt_number a = ji_attempt_count j \<and> ja_status a = ATTEMPT_RUNNING))"

lemma attempts_ok_eq:
  "attempts_ok t \<longleftrightarrow> (\<forall>a \<in> set (jt_attempts t). backed (jt_jobs t) a) \<and>
     (\<forall>j \<in> set (jt_jobs t). attended (jt_attempts t) j)"
  by (simp add: attempts_ok_def backed_def attended_def)

lemma of_job_unique: "of_job j a \<Longrightarrow> of_job i a \<Longrightarrow> ji_pk i = ji_pk j"
  by (simp add: of_job_def)

lemma of_job_key: "of_job j a \<Longrightarrow> of_job j b \<Longrightarrow> ja_attempt_number a = ja_attempt_number b \<Longrightarrow>
    attempt_key a = attempt_key b"
  by (simp add: of_job_def attempt_key_def)

text \<open>An attempt of another job is backed as before.\<close>

lemma backed_replaced:
  assumes "keys_ok t" "j \<in> set (jt_jobs t)" "same_job j j'" "backed (jt_jobs t) a"
    and "of_job j a \<Longrightarrow> ja_attempt_number a \<le> ji_attempt_count j \<Longrightarrow>
      (ja_status a = ATTEMPT_RUNNING \<Longrightarrow> ji_status j = RUNNING \<and> ja_attempt_number a = ji_attempt_count j) \<Longrightarrow>
      ja_attempt_number a \<le> ji_attempt_count j' \<and>
      (ja_status a = ATTEMPT_RUNNING \<longrightarrow> ji_status j' = RUNNING \<and> ja_attempt_number a = ji_attempt_count j')"
  shows "backed (replace_row ji_pk j' (jt_jobs t)) a"
proof -
  from assms(4) obtain i where i: "i \<in> set (jt_jobs t)" "of_job i a" "ja_attempt_number a \<le> ji_attempt_count i"
    "ja_status a = ATTEMPT_RUNNING \<longrightarrow> ji_status i = RUNNING \<and> ja_attempt_number a = ji_attempt_count i"
    by (auto simp: backed_def)
  show ?thesis
  proof (cases "i = j")
    case True
    then have "ja_attempt_number a \<le> ji_attempt_count j' \<and>
      (ja_status a = ATTEMPT_RUNNING \<longrightarrow> ji_status j' = RUNNING \<and> ja_attempt_number a = ji_attempt_count j')"
      using i(2,3,4) by (intro assms(5)) auto
    then show ?thesis
      unfolding backed_def jobs_after [OF assms(1,2,3)] using i(2) True same_job_of_job [OF assms(3)] by blast
  next
    case False
    then show ?thesis unfolding backed_def jobs_after [OF assms(1,2,3)] using i by blast
  qed
qed

lemma backed_same_attempt:
  assumes "same_attempt a a'" "ja_status a' = ATTEMPT_RUNNING \<Longrightarrow> ja_status a = ATTEMPT_RUNNING" "backed js a"
  shows "backed js a'"
proof -
  have "of_job j a' = of_job j a" for j using same_attempt_keys [OF assms(1)] by blast
  moreover have "ja_attempt_number a' = ja_attempt_number a" using assms(1) by (simp add: same_attempt_def)
  ultimately show ?thesis using assms(2,3) by (auto simp: backed_def)
qed

lemma attended_append: "attended as j \<Longrightarrow> attended (as @ bs) j"
  by (auto simp: attended_def)

text \<open>Replacing an attempt that stays as it was in what counts, or one of another job.\<close>

lemma attended_replaced:
  assumes "keys_ok t" "a \<in> set (jt_attempts t)" "same_attempt a a'" "attended (jt_attempts t) i"
    and "of_job i a \<Longrightarrow> ji_status i = RUNNING \<Longrightarrow> ja_status a = ATTEMPT_RUNNING \<Longrightarrow> ja_status a' = ATTEMPT_RUNNING"
  shows "attended (replace_row ja_pk a' (jt_attempts t)) i"
  unfolding attended_def
proof (intro impI)
  assume run: "ji_status i = RUNNING"
  with assms(4) obtain b where b: "b \<in> set (jt_attempts t)" "of_job i b" "ja_attempt_number b = ji_attempt_count i"
    "ja_status b = ATTEMPT_RUNNING" by (auto simp: attended_def)
  show "\<exists>c \<in> set (replace_row ja_pk a' (jt_attempts t)). of_job i c \<and>
      ja_attempt_number c = ji_attempt_count i \<and> ja_status c = ATTEMPT_RUNNING"
  proof (cases "b = a")
    case True
    then have "of_job i a'" "ja_attempt_number a' = ji_attempt_count i" "ja_status a' = ATTEMPT_RUNNING"
      using b assms(3,5) run same_attempt_keys [OF assms(3)] by (auto simp: same_attempt_def)
    then show ?thesis unfolding attempts_after [OF assms(1,2,3)] by blast
  next
    case False
    then show ?thesis unfolding attempts_after [OF assms(1,2,3)] using b by blast
  qed
qed

lemma attended_same_job:
  assumes "same_job j j'" "attended as j" "ji_attempt_count j' = ji_attempt_count j"
    "ji_status j' = RUNNING \<Longrightarrow> ji_status j = RUNNING"
  shows "attended as j'"
  using assms by (auto simp: attended_def same_job_of_job)

text \<open>Steps that change a job but start or end no attempt.\<close>

lemma attempts_ok_job_replaced:
  assumes "job_inv t" "j \<in> set (jt_jobs t)" "same_job j j'" "ji_attempt_count j' = ji_attempt_count j"
    and "ji_status j' = RUNNING \<longleftrightarrow> ji_status j = RUNNING"
    and "jt_attempts t' = jt_attempts t" "jt_jobs t' = replace_row ji_pk j' (jt_jobs t)"
  shows "attempts_ok t'"
proof -
  have ok: "keys_ok t" "attempts_ok t" using assms(1) by (simp_all add: job_inv_def)
  have "backed (jt_jobs t') a" if "a \<in> set (jt_attempts t)" for a
    unfolding assms(7) using ok that assms(4,5)
    by (intro backed_replaced [OF ok(1) assms(2,3)]) (auto simp: attempts_ok_eq)
  moreover have "attended (jt_attempts t) i" if "i \<in> set (jt_jobs t')" for i
    using that ok(2) attended_same_job [OF assms(3) _ assms(4)] assms(2,5)
    unfolding assms(7) jobs_after [OF ok(1) assms(2,3)] by (auto simp: attempts_ok_eq)
  ultimately show ?thesis by (simp add: attempts_ok_eq assms(6))
qed

lemma job_step_attempts:
  assumes "job_step t t'" "job_inv t"
  shows "attempts_ok t'"
  using assms
proof (induction rule: job_step.induct)
  case (register d t)
  then show ?case by (simp add: job_inv_def attempts_ok_def)
next
  case (enqueue j t d)
  then show ?case by (fastforce simp: job_inv_def attempts_ok_def)
next
  case (claim j t now d j' worker a)
  have ok: "keys_ok t" "attempts_ok t" using claim(17) by (simp_all add: job_inv_def)
  have same: "same_job j j'" using claim(9) by (simp add: claimed_same)
  have j': "ji_attempt_count j' = ji_attempt_count j + 1" "ji_status j' = RUNNING"
    using claim(9) by (simp_all add: claimed_job_def)
  have idle: "ji_status j \<noteq> RUNNING" using claim(2) by (auto simp: waiting_def)
  have "of_job j a" using claim(11,12) by (simp add: of_job_def ji_pk_def tenant_of_eq)
  then have mine: "of_job j' a" using same_job_of_job [OF same] by simp
  let ?jobs = "replace_row ji_pk j' (jt_jobs t)"
  have "backed ?jobs b" if "b \<in> set (jt_attempts t)" for b
    using ok(2) that idle j'(1) by (intro backed_replaced [OF ok(1) claim(1) same]) (auto simp: attempts_ok_eq)
  moreover have "backed ?jobs a"
    unfolding backed_def jobs_after [OF ok(1) claim(1) same]
    using mine claim(13) j'(2) by (intro bexI [of _ j']) auto
  moreover have "attended (jt_attempts t @ [a]) i" if "i \<in> set ?jobs" for i
  proof (cases "i = j'")
    case True
    then show ?thesis using mine claim(13,14) by (auto simp: attended_def)
  next
    case False
    then have "i \<in> set (jt_jobs t)" using that jobs_after [OF ok(1) claim(1) same] by blast
    then show ?thesis using ok(2) by (auto simp: attempts_ok_eq intro: attended_append)
  qed
  ultimately show ?case by (auto simp: attempts_ok_eq)
next
  case (beat j t j' a a')
  have ok: "keys_ok t" "attempts_ok t" using beat(12) by (simp_all add: job_inv_def)
  let ?jobs = "replace_row ji_pk j' (jt_jobs t)"
  have old: "backed ?jobs b" if "b \<in> set (jt_attempts t)" for b
    using ok(2) that beat(4,6) by (intro backed_replaced [OF ok(1) beat(1,3)]) (auto simp: attempts_ok_eq)
  have "backed ?jobs a'" using old [OF beat(8)] beat(10,11) by (auto intro: backed_same_attempt)
  moreover have "attended (replace_row ja_pk a' (jt_attempts t)) i" if "i \<in> set ?jobs" for i
  proof (rule attended_replaced [OF ok(1) beat(8,10)])
    show "attended (jt_attempts t) i"
      using that ok(2) beat(1,2) attended_same_job [OF beat(3) _ beat(6)]
      unfolding jobs_after [OF ok(1) beat(1,3)] by (auto simp: attempts_ok_eq)
  qed (use beat(11) in simp)
  ultimately show ?case using old by (auto simp: attempts_ok_eq attempts_after [OF ok(1) beat(8,10)])
next
  case (close j t j' a a' letters)
  have ok: "keys_ok t" "attempts_ok t" using close(15) by (simp_all add: job_inv_def)
  have ended: "ji_status j' \<noteq> RUNNING" using close(6) by auto
  let ?jobs = "replace_row ji_pk j' (jt_jobs t)"
  have old: "backed ?jobs b" if "b \<in> set (jt_attempts t)" "b \<noteq> a" for b
  proof (rule backed_replaced [OF ok(1) close(1,3)])
    show "backed (jt_jobs t) b" using ok(2) that by (simp add: attempts_ok_eq)
    assume b: "of_job j b" "ja_attempt_number b \<le> ji_attempt_count j"
      "ja_status b = ATTEMPT_RUNNING \<Longrightarrow> ji_status j = RUNNING \<and> ja_attempt_number b = ji_attempt_count j"
    have "ja_status b \<noteq> ATTEMPT_RUNNING"
    proof
      assume "ja_status b = ATTEMPT_RUNNING"
      then have "attempt_key b = attempt_key a" using b close(9,10) by (intro of_job_key [of j]) auto
      then show False using unique_attempt [OF ok(1) that(1) close(8)] that(2) by simp
    qed
    then show "ja_attempt_number b \<le> ji_attempt_count j' \<and>
      (ja_status b = ATTEMPT_RUNNING \<longrightarrow> ji_status j' = RUNNING \<and> ja_attempt_number b = ji_attempt_count j')"
      using b(2) close(4) by simp
  qed
  have "of_job j' a'" using close(9) same_attempt_keys [OF close(12)] same_job_of_job [OF close(3)] by blast
  then have "backed ?jobs a'"
    unfolding backed_def jobs_after [OF ok(1) close(1,3)] using close(4,10,12,13) by (auto simp: same_attempt_def)
  moreover have "attended (replace_row ja_pk a' (jt_attempts t)) i" if "i \<in> set ?jobs" for i
  proof (cases "i = j'")
    case True
    then show ?thesis using ended by (simp add: attended_def)
  next
    case False
    then have i: "i \<in> set (jt_jobs t)" "i \<noteq> j" using that jobs_after [OF ok(1) close(1,3)] by blast+
    then have "\<not> of_job i a" using close(1,9) of_job_unique unique_job [OF ok(1)] by metis
    then show ?thesis using i ok(2) by (intro attended_replaced [OF ok(1) close(8,12)]) (auto simp: attempts_ok_eq)
  qed
  ultimately show ?case using old by (auto simp: attempts_ok_eq attempts_after [OF ok(1) close(8,12)])
next
  case (withdraw j t j')
  then show ?case by (intro attempts_ok_job_replaced [of t j j']) (auto simp: waiting_def)
next
  case (touch j t j')
  then show ?case by (intro attempts_ok_job_replaced [of t j j']) auto
next
  case (letter l t l')
  then show ?case by (simp add: job_inv_def attempts_ok_def)
qed

text \<open>Dead letters.\<close>

definition letter_key :: "job_dead_letter \<Rightarrow> tenant_key" where
  "letter_key l = tenant_pk l (dl_job_id l)"

lemma letters_ok_eq:
  "letters_ok t \<longleftrightarrow> (\<forall>j \<in> set (jt_jobs t). ji_status j = DEAD_LETTERED \<longleftrightarrow> ji_pk j \<in> letter_key ` set (jt_letters t)) \<and>
     letter_key ` set (jt_letters t) \<subseteq> ji_pk ` set (jt_jobs t)"
  unfolding letters_ok_def letter_key_def image_iff subset_eq ball_simps
  by (simp only: eq_commute [of "ji_pk _"])

lemma letters_ok_job_replaced:
  assumes "job_inv t" "j \<in> set (jt_jobs t)" "same_job j j'"
    and "ji_status j' = DEAD_LETTERED \<longleftrightarrow> ji_status j = DEAD_LETTERED"
    and "jt_letters t' = jt_letters t" "jt_jobs t' = replace_row ji_pk j' (jt_jobs t)"
  shows "letters_ok t'"
proof -
  have ok: "keys_ok t" "letters_ok t" using assms(1) by (simp_all add: job_inv_def)
  have jobs: "set (jt_jobs t') = insert j' (set (jt_jobs t) - {j})"
    unfolding assms(6) by (rule jobs_after [OF ok(1) assms(2,3)])
  have pk: "ji_pk j' = ji_pk j" using assms(3) by (rule same_job_pk)
  show ?thesis
    using ok(2) assms(2,4) pk unfolding letters_ok_def jobs assms(5)
    by (metis Diff_iff insert_iff singletonD)
qed

lemma job_step_letters:
  assumes "job_step t t'" "job_inv t"
  shows "letters_ok t'"
  using assms
proof (induction rule: job_step.induct)
  case (register d t)
  then show ?case by (simp add: job_inv_def letters_ok_def)
next
  case (enqueue j t d)
  then have "letters_ok t" by (simp add: job_inv_def)
  then have "tenant_pk l (dl_job_id l) \<noteq> ji_pk j" if "l \<in> set (jt_letters t)" for l
    using enqueue(2) that unfolding letters_ok_def by (metis imageI)
  with \<open>letters_ok t\<close> enqueue(6) show ?case by (fastforce simp: letters_ok_def)
next
  case (claim j t now d j' worker a)
  have "same_job j j'" using claim(9) by (simp add: claimed_same)
  moreover have "ji_status j' \<noteq> DEAD_LETTERED" "ji_status j \<noteq> DEAD_LETTERED"
    using claim(2,9) by (auto simp: waiting_def claimed_job_def)
  ultimately show ?case
    using claim(1,17) by (intro letters_ok_job_replaced [of t j j']) auto
next
  case (beat j t j' a a')
  then show ?case by (intro letters_ok_job_replaced [of t j j']) auto
next
  case (close j t j' a a' letters)
  show ?case
  proof (cases "ji_status j' = DEAD_LETTERED")
    case False
    then show ?thesis using close by (intro letters_ok_job_replaced [of t j j']) auto
  next
    case True
    then obtain l where l: "letters = jt_letters t @ [l]" "tenant_pk l (dl_job_id l) = ji_pk j"
      using close(14) by auto
    have ok: "keys_ok t" "letters_ok t" using close(15) by (simp_all add: job_inv_def)
    have other: "ji_pk i \<noteq> ji_pk j" if "i \<in> set (jt_jobs t)" "i \<noteq> j" for i
      using unique_job [OF ok(1) that(1) close(1)] that(2) by blast
    have kept: "ji_status i = DEAD_LETTERED \<longleftrightarrow> (\<exists>m \<in> set letters. tenant_pk m (dl_job_id m) = ji_pk i)"
      if "i \<in> set (jt_jobs t)" "i \<noteq> j" for i
      using ok(2) that other [OF that] l by (auto simp: letters_ok_def)
    have owned: "\<exists>i \<in> insert j' (set (jt_jobs t) - {j}). tenant_pk m (dl_job_id m) = ji_pk i" if "m \<in> set letters" for m
    proof -
      have "\<exists>i \<in> set (jt_jobs t). tenant_pk m (dl_job_id m) = ji_pk i"
        using that l close(1) ok(2) [unfolded letters_ok_def, THEN conjunct2] by (cases "m = l") auto
      then obtain i where i: "i \<in> set (jt_jobs t)" "tenant_pk m (dl_job_id m) = ji_pk i" by blast
      then show ?thesis using same_job_pk [OF close(3)] by (cases "i = j") auto
    qed
    have "\<exists>m \<in> set letters. tenant_pk m (dl_job_id m) = ji_pk j'"
      using l same_job_pk [OF close(3)] by auto
    then show ?thesis
      using kept owned True by (auto simp: letters_ok_def jobs_after [OF ok(1) close(1,3)])
  qed
next
  case (withdraw j t j')
  then show ?case by (intro letters_ok_job_replaced [of t j j']) (auto simp: waiting_def)
next
  case (touch j t j')
  then show ?case by (intro letters_ok_job_replaced [of t j j']) auto
next
  case (letter l t l')
  have ok: "keys_ok t" "letters_ok t" using letter(5) by (simp_all add: job_inv_def)
  have same: "letter_key l' = letter_key l" "dl_pk l' = dl_pk l"
    using letter(2,3,4) by (simp_all add: letter_key_def dl_pk_def tenant_of_eq)
  have "map letter_key (replace_row dl_pk l' (jt_letters t)) = map letter_key (jt_letters t)"
  proof (rule map_replace_row_same)
    fix x assume "x \<in> set (jt_letters t)" "dl_pk x = dl_pk l'"
    then have "x = l"
      using letter(1) ok(1) same(2) distinct_keys_unique [of dl_pk "jt_letters t" x l] by (simp add: keys_ok_def)
    then show "letter_key x = letter_key l'" using same(1) by simp
  qed
  then have "letter_key ` set (replace_row dl_pk l' (jt_letters t)) = letter_key ` set (jt_letters t)"
    by (metis set_map)
  then show ?case using ok(2) by (simp add: letters_ok_eq)
qed

text \<open>The ceilings.\<close>

lemma ceilings_job_replaced:
  assumes "job_inv t" "j \<in> set (jt_jobs t)" "same_job j j'"
    and "ji_status j' = RUNNING \<Longrightarrow> ji_status j = RUNNING"
    and "jt_definitions t' = jt_definitions t" "jt_jobs t' = replace_row ji_pk j' (jt_jobs t)"
  shows "ceilings_ok t'"
proof -
  have ok: "distinct (map ji_pk (jt_jobs t))" "ceilings_ok t" using assms(1) by (simp_all add: job_inv_def keys_ok_def)
  have "running_in w (jt_jobs t') \<le> running_in w (jt_jobs t)" "running_for d (jt_jobs t') \<le> running_for d (jt_jobs t)"
    for w d
    unfolding assms(6) by (rule replaced_running_mono [OF ok(1) assms(2,3,4)], assumption)+
  then show ?thesis
    using ok(2) unfolding ceilings_ok_def assms(5) by (meson le_trans of_nat_mono order_trans)
qed

lemma replaced_running_le:
  assumes "distinct (map ji_pk js)"
  shows "running_in w (replace_row ji_pk j' js) \<le> Suc (running_in w js)"
    "running_for d (replace_row ji_pk j' js) \<le> Suc (running_for d js)"
  unfolding running_in_def running_for_def by (rule count_rows_replace_le [OF assms])+

lemma budget_definition:
  assumes "budget_ok t" "j \<in> set (jt_jobs t)"
  obtains e where "e \<in> set (jt_definitions t)" "of_definition e j"
proof -
  have "in_budget (jt_definitions t) j" using assms by (simp add: budget_ok_eq)
  then show ?thesis using that unfolding in_budget_def by blast
qed

lemma job_step_ceilings:
  assumes "job_step t t'" "job_inv t"
  shows "ceilings_ok t'"
  using assms
proof (induction rule: job_step.induct)
  case (register d t)
  have "\<not> of_definition d j" if j: "j \<in> set (jt_jobs t)" for j
  proof
    assume "of_definition d j"
    moreover have "budget_ok t" using register(7) by (simp add: job_inv_def)
    then obtain e where "e \<in> set (jt_definitions t)" "of_definition e j"
      by (rule budget_definition [OF _ j])
    ultimately have "e \<in> set (jt_definitions t)" "jd_pk d = jd_pk e" by (simp_all add: of_definition_def)
    then show False using register(2) by (metis imageI)
  qed
  then have "running_for d (jt_jobs t) = 0" by (auto simp: running_for_def count_rows_def filter_empty_conv)
  then show ?case using register by (auto simp: job_inv_def ceilings_ok_def)
next
  case (enqueue j t d)
  then show ?case by (simp add: job_inv_def ceilings_ok_def running_in_def running_for_def count_rows_def)
next
  case (claim j t now d j' worker a)
  have ok: "keys_ok t" "distinct (map ji_pk (jt_jobs t))" "ceilings_ok t"
    using claim(17) by (simp_all add: job_inv_def keys_ok_def)
  have same: "same_job j j'" using claim(9) by (simp add: claimed_same)
  let ?jobs = "replace_row ji_pk j' (jt_jobs t)"
  have "running_in w ?jobs \<le> 20" for w
  proof (cases "w = workspace_id j")
    case True
    then show ?thesis using replaced_running_le(1) [OF ok(2), of w j'] claim(7) by simp
  next
    case False
    then show ?thesis
      using replaced_running_other(1) [OF ok(2) claim(1) same, of w] ok(3) by (auto simp: ceilings_ok_def intro: le_trans)
  qed
  moreover have "int (running_for e ?jobs) \<le> jd_max_concurrency e" if "e \<in> set (jt_definitions t)" for e
  proof (cases "of_definition e j")
    case True
    then have "e = d" using claim(5,6) that unique_definition [OF ok(1)] by (simp add: of_definition_def)
    then show ?thesis using replaced_running_le(2) [OF ok(2), of e j'] claim(8) by simp
  next
    case False
    have "int (running_for e (jt_jobs t)) \<le> jd_max_concurrency e" using ok(3) that by (simp add: ceilings_ok_def)
    then show ?thesis using replaced_running_other(2) [OF ok(2) claim(1) same False] by simp
  qed
  ultimately show ?case by (simp add: ceilings_ok_def)
next
  case (beat j t j' a a')
  then show ?case by (intro ceilings_job_replaced [of t j j']) simp_all
next
  case (close j t j' a a' letters)
  then show ?case by (intro ceilings_job_replaced [of t j j']) simp_all
next
  case (withdraw j t j')
  then show ?case by (intro ceilings_job_replaced [of t j j']) auto
next
  case (touch j t j')
  then show ?case by (intro ceilings_job_replaced [of t j j']) simp_all
next
  case (letter l t l')
  then show ?case by (simp add: job_inv_def ceilings_ok_def)
qed

theorem job_step_inv: "job_step t t' \<Longrightarrow> job_inv t \<Longrightarrow> job_inv t'"
  unfolding job_inv_def [of t']
  using job_step_tenants job_step_keys job_step_budget job_step_attempts job_step_letters job_step_ceilings by blast

lemma job_steps_inv: "job_steps t t' \<Longrightarrow> job_inv t \<Longrightarrow> job_inv t'"
  by (induction rule: rtranclp_induct) (auto intro: job_step_inv)

section \<open>What a run never undoes\<close>

text \<open>
  The history of a job row: its identity, request and deadline stay, its attempts only grow, and
  a terminal status is final.
\<close>

definition later_job :: "job_instance \<Rightarrow> job_instance \<Rightarrow> bool" where
  "later_job j j' \<longleftrightarrow> same_job j j' \<and> ji_attempt_count j \<le> ji_attempt_count j' \<and>
     (terminal (ji_status j) \<longrightarrow> ji_status j' = ji_status j)"

lemma same_job_refl [simp]: "same_job j j"
  by (simp add: same_job_def)

lemma same_job_trans: "same_job i j \<Longrightarrow> same_job j k \<Longrightarrow> same_job i k"
  by (simp add: same_job_def)

lemma later_job_refl [simp]: "later_job j j"
  by (simp add: later_job_def)

lemma later_job_trans: "later_job i j \<Longrightarrow> later_job j k \<Longrightarrow> later_job i k"
  unfolding later_job_def by (auto intro: same_job_trans)

lemma later_replaced:
  assumes "job_inv t" "j \<in> set (jt_jobs t)" "later_job j j'" "i \<in> set (jt_jobs t)"
  shows "\<exists>i' \<in> set (replace_row ji_pk j' (jt_jobs t)). later_job i i'"
proof -
  have "keys_ok t" "same_job j j'" using assms(1,3) by (simp_all add: job_inv_def later_job_def)
  then have "set (replace_row ji_pk j' (jt_jobs t)) = insert j' (set (jt_jobs t) - {j})"
    using jobs_after [OF _ assms(2)] by blast
  then show ?thesis using assms(3,4) later_job_refl [of i] by (cases "i = j") blast+
qed

lemma job_step_later:
  assumes "job_step t t'" "job_inv t" "i \<in> set (jt_jobs t)"
  shows "\<exists>i' \<in> set (jt_jobs t'). later_job i i'"
  using assms
proof (induction rule: job_step.induct)
  case (claim j t now d j' worker a)
  then have "later_job j j'"
    by (auto simp: later_job_def claimed_same terminal_def waiting_def claimed_job_def same_job_def tenant_of_def)
  with claim show ?case using later_replaced by simp
next
  case (beat j t j' a a')
  then show ?case using later_replaced [of t j j' i] by (simp add: later_job_def terminal_def)
next
  case (close j t j' a a' letters)
  then show ?case using later_replaced [of t j j' i] by (simp add: later_job_def terminal_def)
next
  case (withdraw j t j')
  then have "\<not> terminal (ji_status j)" by (auto simp: waiting_def terminal_def)
  with withdraw show ?case using later_replaced [of t j j' i] by (simp add: later_job_def)
next
  case (touch j t j')
  then show ?case using later_replaced [of t j j' i] by (simp add: later_job_def)
qed (auto intro: bexI [of _ i])

lemma job_steps_later:
  assumes "job_steps t t'" "job_inv t" "i \<in> set (jt_jobs t)"
  shows "\<exists>i' \<in> set (jt_jobs t'). later_job i i'"
  using assms
proof (induction rule: rtranclp_induct)
  case base
  then show ?case by (blast intro: later_job_refl)
next
  case (step u v)
  then obtain k where k: "k \<in> set (jt_jobs u)" "later_job i k" by blast
  have "job_inv u" using step job_steps_inv by blast
  then obtain m where "m \<in> set (jt_jobs v)" "later_job k m" using job_step_later [OF step(2) _ k(1)] by blast
  then show ?case using k(2) later_job_trans by blast
qed

end
