(* ===== verification/Job_Refinement.thy ===== *)
theory Job_Refinement
  imports Job_Steps
begin

text \<open>
  The operations of \<open>JobService\<close> are runs of the abstract machine of \<open>Job_Steps\<close>: started on
  tables with the invariant, an operation that returns has made the tables take a number of steps
  of the machine. What an operation writes to the audit log and the outbox does not show in the
  tables; the authorizer is any that keeps to the interface.
\<close>

section \<open>The tables of a session\<close>

definition tables_of :: "'a job_db_scheme \<Rightarrow> job_tables" where
  "tables_of s = \<lparr>jt_tenants = map (\<lambda>w. (ws_id w, ws_organization_id w, ws_cell_id w)) (workspaces s),
     jt_definitions = job_definitions s, jt_jobs = job_instances s, jt_attempts = job_attempts s,
     jt_letters = job_dead_letters s\<rparr>"

definition jobs_view :: "'a job_db_scheme \<Rightarrow> job_tables \<times> uuid list" where
  "jobs_view s = (tables_of s, locked_rows s)"

lemma tables_of_simps [simp]:
  "jt_tenants (tables_of s) = map (\<lambda>w. (ws_id w, ws_organization_id w, ws_cell_id w)) (workspaces s)"
  "jt_definitions (tables_of s) = job_definitions s" "jt_jobs (tables_of s) = job_instances s"
  "jt_attempts (tables_of s) = job_attempts s" "jt_letters (tables_of s) = job_dead_letters s"
  by (simp_all add: tables_of_def)

lemma jobs_view_eq:
  "jobs_view s = (t, l) \<longleftrightarrow> tables_of s = t \<and> locked_rows s = l"
  by (auto simp: jobs_view_def)

lemma jobs_viewD:
  assumes "jobs_view s' = jobs_view s"
  shows "tables_of s' = tables_of s" "locked_rows s' = locked_rows s" "job_definitions s' = job_definitions s"
    "job_instances s' = job_instances s" "job_attempts s' = job_attempts s" "job_dead_letters s' = job_dead_letters s"
proof -
  have t: "tables_of s' = tables_of s" "locked_rows s' = locked_rows s" using assms by (simp_all add: jobs_view_def)
  then show "tables_of s' = tables_of s" "locked_rows s' = locked_rows s" .
  show "job_definitions s' = job_definitions s" "job_instances s' = job_instances s" "job_attempts s' = job_attempts s"
    "job_dead_letters s' = job_dead_letters s"
    using t(1) by (simp_all add: tables_of_def)
qed

lemma component_tables:
  fixes s s' :: "'a job_db_scheme"
  assumes "component_part s' = component_part s"
  shows "job_definitions s' = job_definitions s" "job_instances s' = job_instances s"
    "job_attempts s' = job_attempts s" "job_dead_letters s' = job_dead_letters s"
    "job_schedules s' = job_schedules s" "job_operator_controls s' = job_operator_controls s"
  using assms by (cases s; cases s'; simp add: component_part_def)+

lemma rest_jobs_view:
  fixes s s' :: "'a job_db_scheme"
  assumes "rest_part s' = rest_part s"
  shows "jobs_view s' = jobs_view s"
proof -
  have c: "component_part s' = component_part s" using assms by (simp add: rest_part_def)
  have "workspaces s' = workspaces s" "locked_rows s' = locked_rows s" using assms by (simp_all add: part_defs)
  then show ?thesis by (simp add: jobs_view_def tables_of_def component_tables [OF c])
qed

section \<open>Symbolic execution on the tables\<close>

text \<open>What is left to show when an operation may also raise: the rules below leave that case open.\<close>

abbreviation any_error :: "py_error \<Rightarrow> 's \<Rightarrow> bool" where
  "any_error \<equiv> \<lambda>_ _. True"

lemma run_frame:
  fixes m :: "('a job_db_scheme, 'b) M"
  assumes "keeps rest_part m" "\<And>x s'. jobs_view s' = jobs_view s \<Longrightarrow> Q x s'"
  shows "wp m Q any_error s"
  using assms(1) by (rule wp_frame) (auto intro: assms(2) rest_jobs_view)

lemma run_require:
  assumes "b \<Longrightarrow> Q () s"
  shows "wp (requireM b e) Q any_error s"
  using assms by (simp add: wp_simps)

lemma run_some:
  assumes "\<And>y. x = Some y \<Longrightarrow> Q y s"
  shows "wp (someM x e) Q any_error s"
  using assms by (simp add: wp_simps split: option.splits)

lemma run_lift:
  assumes "\<And>y. r = Inr y \<Longrightarrow> Q y s"
  shows "wp (liftM r) Q any_error s"
  using assms by (simp add: wp_simps split: sum.splits)

lemma run_return: "Q x s \<Longrightarrow> wp (returnM x) Q any_error s"
  by (simp add: wp_simps)

lemma run_raise: "wp (raiseM e) Q any_error s"
  by (simp add: wp_simps)

lemma run_gets: "Q (f s) s \<Longrightarrow> wp (getsM f) Q any_error s"
  by (simp add: wp_simps)

lemma run_bind: "wp m (\<lambda>x. wp (f x) Q any_error) any_error s \<Longrightarrow> wp (bindM m f) Q any_error s"
  by (simp add: wp_simps)

lemma run_then: "wp m (\<lambda>_. wp n Q any_error) any_error s \<Longrightarrow> wp (thenM m n) Q any_error s"
  by (simp add: wp_simps)

lemma run_mono: "wp m Q any_error s \<Longrightarrow> (\<And>x s'. Q x s' \<Longrightarrow> R x s') \<Longrightarrow> wp m R any_error s"
  by (erule wp_mono) auto

lemma run_pair:
  "wp (thenM m n) (\<lambda>_. wp k Q any_error) any_error s \<Longrightarrow> wp (thenM m (thenM n k)) Q any_error s"
  by (simp add: wp_simps)

lemma run_if:
  "(b \<Longrightarrow> wp m Q any_error s) \<Longrightarrow> (\<not> b \<Longrightarrow> wp n Q any_error s) \<Longrightarrow> wp (if b then m else n) Q any_error s"
  by simp

lemmas run_rules = run_bind run_then run_gets run_require run_some run_lift run_return run_raise

lemma run_mono_unit:
  fixes m :: "('s, unit) M"
  shows "wp m Q any_error s \<Longrightarrow> (\<And>s'. Q () s' \<Longrightarrow> R () s') \<Longrightarrow> wp m R any_error s"
  by (erule wp_mono) auto

text \<open>The writes.\<close>

lemma run_add_row:
  assumes "session_context s = Some ctx \<Longrightarrow> w = ctx_workspace ctx \<Longrightarrow> list_all snd (cs s) \<Longrightarrow> Q () (put s)"
  shows "wp (add_row ctx w cs put) Q any_error s"
  using assms by (simp add: add_row_def wp_simps violated_None_iff [symmetric] split: option.splits)

lemma run_add_definition:
  assumes "\<And>s'. list_all snd (job_definition_constraints r s) \<Longrightarrow>
    jobs_view s' = ((tables_of s)\<lparr>jt_definitions := job_definitions s @ [r]\<rparr>, locked_rows s) \<Longrightarrow> Q () s'"
  shows "wp (add_definition ctx r) Q any_error s"
  unfolding add_definition_def by (rule run_add_row) (auto intro!: assms simp: jobs_view_def tables_of_def)

lemma run_add_job:
  assumes "\<And>s'. list_all snd (job_instance_constraints r s) \<Longrightarrow>
    jobs_view s' = ((tables_of s)\<lparr>jt_jobs := job_instances s @ [r]\<rparr>, locked_rows s) \<Longrightarrow> Q () s'"
  shows "wp (add_job ctx r) Q any_error s"
  unfolding add_job_def by (rule run_add_row) (auto intro!: assms simp: jobs_view_def tables_of_def)

lemma run_add_attempt:
  assumes "\<And>s'. list_all snd (job_attempt_constraints r s) \<Longrightarrow>
    jobs_view s' = ((tables_of s)\<lparr>jt_attempts := job_attempts s @ [r]\<rparr>, locked_rows s) \<Longrightarrow> Q () s'"
  shows "wp (add_attempt ctx r) Q any_error s"
  unfolding add_attempt_def by (rule run_add_row) (auto intro!: assms simp: jobs_view_def tables_of_def)

lemma run_add_dead_letter:
  assumes "\<And>s'. list_all snd (job_dead_letter_constraints r s) \<Longrightarrow>
    jobs_view s' = ((tables_of s)\<lparr>jt_letters := job_dead_letters s @ [r]\<rparr>, locked_rows s) \<Longrightarrow> Q () s'"
  shows "wp (add_dead_letter ctx r) Q any_error s"
  unfolding add_dead_letter_def by (rule run_add_row) (auto intro!: assms simp: jobs_view_def tables_of_def)

lemma run_save_job:
  assumes "\<And>s'. list_all snd (job_instance_checks r) \<Longrightarrow>
    jobs_view s' = ((tables_of s)\<lparr>jt_jobs := replace_row ji_pk r (job_instances s)\<rparr>, locked_rows s) \<Longrightarrow> Q () s'"
  shows "wp (save_job r) Q any_error s"
  unfolding save_job_def
  by (simp add: wp_simps violated_None_iff [symmetric] split: option.splits)
    (auto intro!: assms simp: jobs_view_def tables_of_def violated_None_iff)

lemma run_save_attempt:
  assumes "\<And>s'. jobs_view s' = ((tables_of s)\<lparr>jt_attempts := replace_row ja_pk r (job_attempts s)\<rparr>, locked_rows s) \<Longrightarrow>
    Q () s'"
  shows "wp (save_attempt r) Q any_error s"
  unfolding save_attempt_def by (simp add: wp_simps) (auto intro!: assms simp: jobs_view_def tables_of_def)

lemma run_save_dead_letter:
  assumes "\<And>s'. jobs_view s' = ((tables_of s)\<lparr>jt_letters := replace_row dl_pk r (job_dead_letters s)\<rparr>, locked_rows s) \<Longrightarrow>
    Q () s'"
  shows "wp (save_dead_letter r) Q any_error s"
  unfolding save_dead_letter_def
  by (simp add: wp_simps split: option.splits) (auto intro!: assms simp: jobs_view_def tables_of_def)

text \<open>Operations on schedules and controls do not touch the tables.\<close>

lemma run_view:
  fixes m :: "('a job_db_scheme, 'b) M"
  assumes "keeps jobs_view m" "\<And>x s'. jobs_view s' = jobs_view s \<Longrightarrow> Q x s'"
  shows "wp m Q any_error s"
  using assms(1) by (rule wp_frame) (auto intro: assms(2))

lemma keeps_view_of_rest: "keeps rest_part m \<Longrightarrow> keeps jobs_view m"
  by (erule keeps_view) (rule rest_jobs_view)

lemma keeps_add_schedule [frame_intros]: "keeps jobs_view (add_schedule ctx r)"
  unfolding add_schedule_def add_row_def by (intro frame_intros) (simp_all add: jobs_view_def tables_of_def)

lemma keeps_add_control [frame_intros]: "keeps jobs_view (add_control ctx r)"
  unfolding add_control_def add_row_def by (intro frame_intros) (simp_all add: jobs_view_def tables_of_def)

lemma keeps_save_schedule [frame_intros]: "keeps jobs_view (save_schedule r)"
  unfolding save_schedule_def by (intro frame_intros) (simp_all add: jobs_view_def tables_of_def)

lemma keeps_save_control [frame_intros]: "keeps jobs_view (save_control r)"
  unfolding save_control_def by (intro frame_intros) (simp_all add: jobs_view_def tables_of_def)

lemma keeps_record_change [frame_intros]: "keeps rest_part (record_change env ctx i n e a now)"
  unfolding record_change_def by (intro frame_intros)

lemma keeps_record_job [frame_intros]: "keeps rest_part (record_job env ctx j e now)"
  unfolding record_job_def by (intro frame_intros)

lemma run_record_job:
  assumes "\<And>s'. jobs_view s' = jobs_view s \<Longrightarrow> Q () s'"
  shows "wp (record_job env ctx j e now) Q any_error s"
  by (rule run_frame [OF keeps_record_job]) (use assms in simp)

lemma keeps_require_job [frame_intros]: "keeps v (require_job ctx i)"
  unfolding require_job_def by (intro frame_intros)

lemma keeps_require_definition [frame_intros]: "keeps v (require_definition ctx i)"
  unfolding require_definition_def by (intro frame_intros)


section \<open>What the queries and guards give\<close>

lemma find_jobD: "find_job ctx i s = Some j \<Longrightarrow> j \<in> set (job_instances s) \<and> workspace_id j = ctx_workspace ctx \<and> ji_id j = i"
  unfolding find_job_def by (drule find_SomeD) auto

lemma run_require_job:
  assumes "\<And>j. j \<in> set (job_instances s) \<Longrightarrow> workspace_id j = ctx_workspace ctx \<Longrightarrow> ji_id j = i \<Longrightarrow> Q j s"
  shows "wp (require_job ctx i) Q any_error s"
  unfolding require_job_def by (intro run_rules) (auto dest!: find_jobD intro!: assms)

lemma run_require_definition:
  assumes "\<And>d. d \<in> set (job_definitions s) \<Longrightarrow> workspace_id d = ctx_workspace ctx \<Longrightarrow> jd_id d = i \<Longrightarrow> Q d s"
  shows "wp (require_definition ctx i) Q any_error s"
  unfolding require_definition_def find_definition_def by (intro run_rules) (auto dest!: find_SomeD intro!: assms)

lemma run_require_attempt:
  assumes "\<And>a. a \<in> set (job_attempts s) \<Longrightarrow> workspace_id a = ctx_workspace ctx \<Longrightarrow> ja_job_id a = ji_id j \<Longrightarrow>
    ja_attempt_number a = ji_attempt_count j \<Longrightarrow> ja_status a = ATTEMPT_RUNNING \<Longrightarrow> Q a s"
  shows "wp (require_attempt ctx j) Q any_error s"
  unfolding require_attempt_def current_attempt_def by (intro run_rules) (auto dest!: find_SomeD intro!: assms)

text \<open>Rows of one workspace have one tenant.\<close>

lemma tenant_unique:
  assumes "tenants_ok t" "x \<in> set (jt_tenants t)" "y \<in> set (jt_tenants t)" "fst x = fst y"
  shows "x = y"
  using assms distinct_keys_unique [of fst "jt_tenants t" x y] by (simp add: tenants_ok_def)

lemma tenant_of_row:
  assumes "tenants_ok t"
  shows "d \<in> set (jt_definitions t) \<Longrightarrow> tenant_of d \<in> set (jt_tenants t)"
    "j \<in> set (jt_jobs t) \<Longrightarrow> tenant_of j \<in> set (jt_tenants t)"
    "a \<in> set (jt_attempts t) \<Longrightarrow> tenant_of a \<in> set (jt_tenants t)"
    "l \<in> set (jt_letters t) \<Longrightarrow> tenant_of l \<in> set (jt_tenants t)"
  using assms by (simp_all add: tenants_ok_def image_subset_iff)

lemma same_tenant:
  assumes "tenants_ok t" "tenant_of x \<in> set (jt_tenants t)" "tenant_of y \<in> set (jt_tenants t)"
    and "workspace_id x = workspace_id y"
  shows "tenant_of x = tenant_of y"
  by (rule tenant_unique [OF assms(1,2,3)]) (simp add: tenant_of_def assms(4))

lemma tenant_exists_of: "tenant_exists r s \<Longrightarrow> tenant_of r \<in> set (jt_tenants (tables_of s))"
  unfolding tenant_exists_def list_ex_iff tenant_of_def tables_of_simps set_map by (elim bexE) (rule image_eqI, auto)

lemma of_jobI:
  assumes "tenants_ok t" "j \<in> set (jt_jobs t)" "a \<in> set (jt_attempts t)" "workspace_id a = workspace_id j"
    and "ja_job_id a = ji_id j"
  shows "of_job j a"
proof -
  have "tenant_of a = tenant_of j" by (rule same_tenant [OF assms(1) _ _ assms(4)]) (use assms in \<open>simp_all add: tenant_of_row\<close>)
  then show ?thesis using assms(5) by (simp add: of_job_def ji_pk_def tenant_of_eq)
qed

lemma of_definitionI:
  assumes "tenants_ok t" "j \<in> set (jt_jobs t)" "d \<in> set (jt_definitions t)" "workspace_id d = workspace_id j"
    and "jd_id d = ji_definition_id j"
  shows "of_definition d j"
proof -
  have "tenant_of d = tenant_of j" by (rule same_tenant [OF assms(1) _ _ assms(4)]) (use assms in \<open>simp_all add: tenant_of_row\<close>)
  then show ?thesis using assms(5) by (simp add: of_definition_def jd_pk_def tenant_of_eq)
qed

text \<open>A row that the database accepted is well-formed if its lease and its end fit its status.\<close>

lemma job_ok_checked:
  assumes "list_all snd (job_instance_checks j)"
    and "ji_status j = RUNNING \<longleftrightarrow> ji_lease_owner j \<noteq> None" "ji_status j = RUNNING \<longleftrightarrow> ji_lease_expires_at j \<noteq> None"
    and "terminal (ji_status j) \<longleftrightarrow> ji_completed_at j \<noteq> None"
    and "ji_status j = SUCCEEDED \<Longrightarrow> \<exists>d. ji_result_digest j = Some d \<and> length d = 64"
  shows "job_ok j"
  using assms by (auto simp: job_ok_def job_instance_checks_def)

lemma budget_row: "budget_ok t \<Longrightarrow> j \<in> set (jt_jobs t) \<Longrightarrow> job_ok j"
  by (simp add: budget_ok_eq in_budget_def)

section \<open>The end of an attempt\<close>

definition running_job :: "job_tables \<Rightarrow> job_instance \<Rightarrow> job_attempt \<Rightarrow> bool" where
  "running_job t j a \<longleftrightarrow> j \<in> set (jt_jobs t) \<and> ji_status j = RUNNING \<and> a \<in> set (jt_attempts t) \<and>
     of_job j a \<and> ja_attempt_number a = ji_attempt_count j \<and> ja_status a = ATTEMPT_RUNNING"

text \<open>The tables after the attempt \<open>a\<close> of the job \<open>j\<close> ended.\<close>

definition closed :: "job_tables \<Rightarrow> job_instance \<Rightarrow> job_instance \<Rightarrow> job_attempt \<Rightarrow> job_tables \<Rightarrow> bool" where
  "closed t j j' a' t' \<longleftrightarrow> t' = t\<lparr>jt_jobs := replace_row ji_pk j' (jt_jobs t),
     jt_attempts := replace_row ja_pk a' (jt_attempts t), jt_letters := jt_letters t'\<rparr> \<and>
     same_job j j' \<and> ji_status j' \<noteq> RUNNING \<and> job_step t t'"

lemma closedI:
  assumes "running_job t j a" "same_job j j'" "ji_attempt_count j' = ji_attempt_count j" "job_ok j'"
    and "ji_status j' \<in> {SUCCEEDED, CANCELLED, EXPIRED, RETRY_WAIT}"
    and "ji_status j' = RETRY_WAIT \<Longrightarrow> \<exists>d \<in> set (jt_definitions t). of_definition d j \<and> ji_attempt_count j < jd_max_attempts d"
    and "same_attempt a a'" "ja_status a' \<noteq> ATTEMPT_RUNNING"
    and "t' = t\<lparr>jt_jobs := replace_row ji_pk j' (jt_jobs t), jt_attempts := replace_row ja_pk a' (jt_attempts t)\<rparr>"
  shows "closed t j j' a' t'"
proof -
  have "job_step t (t\<lparr>jt_jobs := replace_row ji_pk j' (jt_jobs t),
      jt_attempts := replace_row ja_pk a' (jt_attempts t), jt_letters := jt_letters t\<rparr>)"
    using assms(1-8) by (intro job_step.close [of j t j' a a']) (auto simp: running_job_def)
  then show ?thesis using assms(2,5,9) by (auto simp: closed_def)
qed

lemma closed_deadI:
  assumes "running_job t j a" "same_job j j'" "ji_attempt_count j' = ji_attempt_count j" "job_ok j'"
    and "ji_status j' = DEAD_LETTERED" "same_attempt a a'" "ja_status a' \<noteq> ATTEMPT_RUNNING"
    and "tenant_pk l (dl_job_id l) = ji_pk j" "dl_pk l \<notin> dl_pk ` set (jt_letters t)"
    and "t' = t\<lparr>jt_jobs := replace_row ji_pk j' (jt_jobs t), jt_attempts := replace_row ja_pk a' (jt_attempts t),
      jt_letters := jt_letters t @ [l]\<rparr>"
  shows "closed t j j' a' t'"
proof -
  have "job_step t (t\<lparr>jt_jobs := replace_row ji_pk j' (jt_jobs t),
      jt_attempts := replace_row ja_pk a' (jt_attempts t), jt_letters := jt_letters t @ [l]\<rparr>)"
    using assms(1-9) by (intro job_step.close [of j t j' a a']) (auto simp: running_job_def)
  then show ?thesis using assms(2,5,10) by (auto simp: closed_def)
qed

lemma retry_below_budget:
  assumes "retry_decision p c n now dl = Inr r" "rd_retry r"
  shows "n < max_attempts p \<and> rd_terminal_status r = None"
  using assms unfolding retry_decision_def decide_retry_def
  by (auto simp: Let_def split: sum.splits if_splits)

lemma definition_policy_max: "definition_policy d = Inr p \<Longrightarrow> max_attempts p = jd_max_attempts d"
  by (auto simp: definition_policy_def make_retry_policy_def split: if_splits)

text \<open>The dead letter of a job of the tables.\<close>

lemma job_exists_pk:
  assumes "tenants_ok t" "j \<in> set (jt_jobs t)" "i \<in> set (jt_jobs t)" "ji_pk i = tenant_pk l (ji_id j)"
    and "workspace_id l = workspace_id j"
  shows "ji_pk j = tenant_pk l (ji_id j)"
proof -
  have "workspace_id i = workspace_id j" "tenant_of i = tenant_of l"
    using assms(4,5) by (simp_all add: ji_pk_def tenant_of_eq)
  then have "tenant_of i = tenant_of j" using assms same_tenant tenant_of_row by blast
  then show ?thesis using \<open>tenant_of i = tenant_of l\<close> by (simp add: ji_pk_def tenant_of_eq)
qed


lemma run_dead_letter_job:
  fixes s :: "'a job_db_scheme"
  assumes inv: "job_inv t" and run: "running_job t j a" and ws: "workspace_id j = ctx_workspace ctx"
    and a': "same_attempt a a'" "ja_status a' \<noteq> ATTEMPT_RUNNING"
    and s: "tables_of s = t\<lparr>jt_attempts := replace_row ja_pk a' (jt_attempts t)\<rparr>"
    and k: "same_job j k" "ji_attempt_count k = ji_attempt_count j" "ji_lease_owner k = None"
      "ji_lease_expires_at k = None"
    and post: "\<And>j' s'. closed t j j' a' (tables_of s') \<Longrightarrow> locked_rows s' = locked_rows s \<Longrightarrow> Q j' s'"
  shows "wp (dead_letter_job env ctx k category code now) Q any_error s"
proof -
  define j' where "j' = k\<lparr>ji_status := DEAD_LETTERED, ji_completed_at := Some now\<rparr>"
  have j': "same_job j j'" "ji_attempt_count j' = ji_attempt_count j" "ji_status j' = DEAD_LETTERED"
    using k by (simp_all add: j'_def same_job_def tenant_of_def)
  define l where "l i = \<lparr>organization_id = organization_id (ec_tenant ctx), workspace_id = workspace_id (ec_tenant ctx),
            cell_id = cell_id (ec_tenant ctx), dl_id = i, dl_job_id = ji_id j',
            dl_failure_category = category, dl_error_code = code, dl_status = DL_OPEN,
            dl_created_at = now, dl_replayed_at = None, dl_replayed_by_user_id = None,
            dl_replay_job_id = None, dl_replay_reason = None\<rparr>" for i
  have tok: "tenants_ok t" using inv by (simp_all add: job_inv_def)
  have jt: "j \<in> set (jt_jobs t)" using run by (simp add: running_job_def)
  show ?thesis
    unfolding dead_letter_job_def Let_def j'_def [symmetric] l_def [symmetric]
  proof (intro run_rules, rule run_frame [OF keeps_uuid4], intro run_rules, rule run_save_job,
      intro run_rules, rule run_add_dead_letter, intro run_rules, rule run_record_job, rule run_return)
    fix i and s1 s2 s3 s4 :: "'a job_db_scheme"
    assume s1: "jobs_view s1 = jobs_view s" and chk: "list_all snd (job_instance_checks j')"
      and s2: "jobs_view s2 = ((tables_of s1)\<lparr>jt_jobs := replace_row ji_pk j' (job_instances s1)\<rparr>, locked_rows s1)"
      and dl: "list_all snd (job_dead_letter_constraints (l i) s2)"
      and s3: "jobs_view s3 = ((tables_of s2)\<lparr>jt_letters := job_dead_letters s2 @ [(l i)]\<rparr>, locked_rows s2)"
      and s4: "jobs_view s4 = jobs_view s3"
    have t1: "tables_of s1 = t\<lparr>jt_attempts := replace_row ja_pk a' (jt_attempts t)\<rparr>" "locked_rows s1 = locked_rows s"
      using s1 s by (simp_all add: jobs_view_def)
    have j1: "job_instances s1 = jt_jobs t" using arg_cong [OF t1(1), of jt_jobs] by simp
    have t2: "tables_of s2 = t\<lparr>jt_jobs := replace_row ji_pk j' (jt_jobs t), jt_attempts := replace_row ja_pk a' (jt_attempts t)\<rparr>"
      "locked_rows s2 = locked_rows s"
      using s2 t1 j1 by (simp_all add: jobs_view_def)
    have j2: "job_instances s2 = replace_row ji_pk j' (jt_jobs t)" "job_dead_letters s2 = jt_letters t"
      using arg_cong [OF t2(1), of jt_jobs] arg_cong [OF t2(1), of jt_letters] by simp_all
    have t4: "tables_of s4 = t\<lparr>jt_jobs := replace_row ji_pk j' (jt_jobs t),
        jt_attempts := replace_row ja_pk a' (jt_attempts t), jt_letters := jt_letters t @ [(l i)]\<rparr>"
      "locked_rows s4 = locked_rows s"
      using s3 s4 t2 j2 by (simp_all add: jobs_view_def)
    have "job_ok j'"
      by (rule job_ok_checked [OF chk]) (use k in \<open>simp_all add: j'_def terminal_def\<close>)
    moreover have "tenant_pk (l i) (dl_job_id (l i)) = ji_pk j"
    proof -
      obtain n where i: "n \<in> set (replace_row ji_pk j' (jt_jobs t))" "ji_pk n = tenant_pk (l i) (ji_id j')"
        using dl by (auto simp: job_dead_letter_constraints_def job_exists_def list_ex_iff j2 l_def)
      have "ji_pk n \<in> ji_pk ` set (jt_jobs t)"
        using i(1) by (metis image_eqI list.set_map map_key_replace_row)
      then obtain i' where i': "i' \<in> set (jt_jobs t)" "ji_pk i' = ji_pk n" by auto
      have "ji_pk j = tenant_pk (l i) (ji_id j)"
        using i(2) i'(2) j'(1) by (intro job_exists_pk [OF tok jt i'(1)]) (simp_all add: ws same_job_def l_def)
      then show ?thesis using j'(1) by (simp add: same_job_def l_def)
    qed
    moreover have "dl_pk (l i) \<notin> dl_pk ` set (jt_letters t)"
      using dl by (auto simp: job_dead_letter_constraints_def list_all_iff j2)
    ultimately have "closed t j j' a' (tables_of s4)"
      using run j' a' t4(1) by (intro closed_deadI) simp_all
    then show "Q j' s4" using t4(2) by (rule post)
  qed
qed

lemma run_end_attempt:
  fixes s :: "'a job_db_scheme"
  assumes inv: "job_inv (tables_of s)" and run: "running_job (tables_of s) j a"
    and ws: "workspace_id j = ctx_workspace ctx"
    and a': "same_attempt a a'" "ja_status a' \<noteq> ATTEMPT_RUNNING"
    and post: "\<And>j' s'. closed (tables_of s) j j' a' (tables_of s') \<Longrightarrow> locked_rows s' = locked_rows s \<Longrightarrow> Q j' s'"
  shows "wp (end_attempt env ctx j a' category code event now) Q any_error s"
proof -
  let ?t = "tables_of s"
  define k where "k = (clear_lease j)\<lparr>ji_updated_at := now, ji_state_version := ji_state_version j + 1\<rparr>"
  have k: "same_job j k" "ji_attempt_count k = ji_attempt_count j" "ji_lease_owner k = None"
      "ji_lease_expires_at k = None" "ji_completed_at k = ji_completed_at j"
    by (simp_all add: k_def clear_lease_def same_job_def tenant_of_def)
  have jt: "j \<in> set (jt_jobs ?t)" "ji_status j = RUNNING" using run by (simp_all add: running_job_def)
  have tok: "tenants_ok ?t" and "job_ok j" using inv jt(1) budget_row unfolding job_inv_def by blast+
  then have open_j: "ji_completed_at j = None" using jt(2) by (simp add: job_ok_def terminal_def)
  have fin: "closed ?t j j' a' (tables_of s') \<and> locked_rows s' = locked_rows s"
    if "list_all snd (job_instance_checks j')" "jobs_view s1 = (?t\<lparr>jt_attempts := replace_row ja_pk a' (job_attempts s)\<rparr>, locked_rows s)"
      "jobs_view s2 = ((tables_of s1)\<lparr>jt_jobs := replace_row ji_pk j' (job_instances s1)\<rparr>, locked_rows s1)"
      "jobs_view s' = jobs_view s2" "same_job j j'" "ji_attempt_count j' = ji_attempt_count j" "ji_lease_owner j' = None"
      "ji_lease_expires_at j' = None" "ji_status j' \<in> {EXPIRED, RETRY_WAIT}" "ji_status j' = EXPIRED \<longleftrightarrow> ji_completed_at j' \<noteq> None"
      "ji_status j' = RETRY_WAIT \<Longrightarrow> \<exists>d \<in> set (jt_definitions ?t). of_definition d j \<and> ji_attempt_count j < jd_max_attempts d"
    for j' and s1 s2 s' :: "'a job_db_scheme"
  proof -
    have t1: "tables_of s1 = ?t\<lparr>jt_attempts := replace_row ja_pk a' (job_attempts s)\<rparr>" "locked_rows s1 = locked_rows s"
      using that(2) by (simp_all add: jobs_view_def)
    have j1: "job_instances s1 = job_instances s" using arg_cong [OF t1(1), of jt_jobs] by simp
    have t': "tables_of s' = ?t\<lparr>jt_jobs := replace_row ji_pk j' (jt_jobs ?t),
        jt_attempts := replace_row ja_pk a' (jt_attempts ?t)\<rparr>" "locked_rows s' = locked_rows s"
      using that(3,4) t1 j1 by (simp_all add: jobs_view_def)
    have "job_ok j'"
      by (rule job_ok_checked [OF that(1)]) (use that(7-10) in \<open>auto simp: terminal_def\<close>)
    then have "closed ?t j j' a' (tables_of s')"
      using that(9) by (intro closedI [OF run that(5,6) _ _ that(11) a' t'(1)]) auto
    with t'(2) show ?thesis by simp
  qed
  show ?thesis
    unfolding end_attempt_def Let_def k_def [symmetric]
  proof (intro run_rules, rule run_require_definition, intro run_rules, rule run_save_attempt, intro run_if)
    fix d p r and s1 :: "'a job_db_scheme"
    assume d: "d \<in> set (job_definitions s)" "workspace_id d = ctx_workspace ctx" "jd_id d = ji_definition_id j"
      and p: "definition_policy d = Inr p"
      and r: "retry_decision p category (ji_attempt_count j) (Aware now) (Aware (ji_deadline j)) = Inr r"
      and s1: "jobs_view s1 = (?t\<lparr>jt_attempts := replace_row ja_pk a' (job_attempts s)\<rparr>, locked_rows s)"
    have "of_definition d j" by (rule of_definitionI [OF tok jt(1)]) (use d ws in simp_all)
    then have budget: "\<exists>d \<in> set (jt_definitions ?t). of_definition d j \<and> ji_attempt_count j < jd_max_attempts d" if "rd_retry r"
      using retry_below_budget [OF r that] definition_policy_max [OF p] d(1) by auto
    show "wp (bindM (someM (rd_retry_at r) AssertionError) (\<lambda>retry_at.
        thenM (save_job (k\<lparr>ji_status := RETRY_WAIT, ji_available_at := retry_at\<rparr>))
        (thenM (record_job env ctx (k\<lparr>ji_status := RETRY_WAIT, ji_available_at := retry_at\<rparr>) event now)
        (returnM (k\<lparr>ji_status := RETRY_WAIT, ji_available_at := retry_at\<rparr>))))) Q any_error s1" if "rd_retry r"
      apply (intro run_rules, rule run_save_job, intro run_rules, rule run_record_job, rule run_return, rule post)
      subgoal by (rule fin [THEN conjunct1], assumption, rule s1, assumption, assumption)
          (use k open_j budget [OF that] in \<open>simp_all add: same_job_def tenant_of_def\<close>)
      subgoal by (rule fin [THEN conjunct2], assumption, rule s1, assumption, assumption)
          (use k open_j budget [OF that] in \<open>simp_all add: same_job_def tenant_of_def\<close>)
      done
    show "wp (thenM (save_job (k\<lparr>ji_status := EXPIRED, ji_completed_at := Some now\<rparr>))
        (thenM (record_job env ctx (k\<lparr>ji_status := EXPIRED, ji_completed_at := Some now\<rparr>) Job_expired now)
        (returnM (k\<lparr>ji_status := EXPIRED, ji_completed_at := Some now\<rparr>)))) Q any_error s1"
      apply (intro run_rules, rule run_save_job, intro run_rules, rule run_record_job, rule run_return, rule post)
      subgoal by (rule fin [THEN conjunct1], assumption, rule s1, assumption, assumption)
          (use k in \<open>simp_all add: same_job_def tenant_of_def\<close>)
      subgoal by (rule fin [THEN conjunct2], assumption, rule s1, assumption, assumption)
          (use k in \<open>simp_all add: same_job_def tenant_of_def\<close>)
      done
    show "wp (dead_letter_job env ctx k category code now) Q any_error s1"
    proof (rule run_dead_letter_job [OF inv run ws a' _ k(1-4)])
      show "tables_of s1 = ?t\<lparr>jt_attempts := replace_row ja_pk a' (jt_attempts ?t)\<rparr>"
        using s1 by (simp add: jobs_view_def)
      fix j' and s' :: "'a job_db_scheme"
      assume "closed ?t j j' a' (tables_of s')" "locked_rows s' = locked_rows s1"
      then show "Q j' s'" using s1 by (intro post) (simp_all add: jobs_view_def)
    qed
  qed
qed


section \<open>Sweeping\<close>

lemma closed_jobs:
  assumes "keys_ok t" "j \<in> set (jt_jobs t)" "closed t j j' a' t'"
  shows "set (jt_jobs t') = insert j' (set (jt_jobs t) - {j})" "job_step t t'" "ji_status j' \<noteq> RUNNING"
proof -
  have eq: "t' = t\<lparr>jt_jobs := replace_row ji_pk j' (jt_jobs t), jt_attempts := replace_row ja_pk a' (jt_attempts t),
      jt_letters := jt_letters t'\<rparr>" and same: "same_job j j'"
    using assms(3) unfolding closed_def by blast+
  have "jt_jobs t' = replace_row ji_pk j' (jt_jobs t)" using arg_cong [OF eq, of jt_jobs] by simp
  with same show "set (jt_jobs t') = insert j' (set (jt_jobs t) - {j})" using jobs_after [OF assms(1,2)] by simp
  show "job_step t t'" "ji_status j' \<noteq> RUNNING" using assms(3) by (simp_all add: closed_def)
qed

lemma current_attempt_running:
  assumes "job_inv t" "j \<in> set (jt_jobs t)" "ji_status j = RUNNING" "a \<in> set (jt_attempts t)"
    and "workspace_id a = workspace_id j" "ja_job_id a = ji_id j" "ja_attempt_number a = ji_attempt_count j"
    and "ja_status a = ATTEMPT_RUNNING"
  shows "running_job t j a"
  using assms of_jobI [of t j a] by (simp add: running_job_def job_inv_def)

definition lease_over :: "execution_context \<Rightarrow> instant \<Rightarrow> uuid list \<Rightarrow> job_instance \<Rightarrow> bool" where
  "lease_over ctx now locked j \<longleftrightarrow> workspace_id j = ctx_workspace ctx \<and> ji_status j = RUNNING \<and>
     (case ji_lease_expires_at j of None \<Rightarrow> False | Some t \<Rightarrow> t \<le> now) \<and> ji_id j \<notin> set locked"

lemma expired_leases_set: "set (expired_leases ctx now s) = {j \<in> set (job_instances s). lease_over ctx now (locked_rows s) j}"
  by (auto simp: expired_leases_def lease_over_def)

definition wait_over :: "execution_context \<Rightarrow> instant \<Rightarrow> uuid list \<Rightarrow> job_instance \<Rightarrow> bool" where
  "wait_over ctx now locked j \<longleftrightarrow> workspace_id j = ctx_workspace ctx \<and> waiting j \<and>
     ji_deadline j \<le> now \<and> ji_id j \<notin> set locked"

lemma expired_waiting_set: "set (expired_waiting ctx now s) = {j \<in> set (job_instances s). wait_over ctx now (locked_rows s) j}"
  by (auto simp: expired_waiting_def wait_over_def waiting_def)

text \<open>The keys of the running jobs.\<close>

definition running_keys :: "'a job_db_scheme \<Rightarrow> tenant_key set" where
  "running_keys s = ji_pk ` {j \<in> set (job_instances s). ji_status j = RUNNING}"

lemma running_keys_replaced:
  assumes "set (job_instances s') = insert j' (set (job_instances s) - {j})" "ji_status j' \<noteq> RUNNING"
  shows "running_keys s' \<subseteq> running_keys s"
  using assms by (auto simp: running_keys_def)

lemma distinct_jobs: "keys_ok (tables_of s) \<Longrightarrow> distinct (job_instances s)"
  by (simp add: keys_ok_def distinct_map)

lemma run_recover_job:
  fixes s :: "'a job_db_scheme"
  assumes "job_inv (tables_of s)" "j \<in> set (job_instances s)" "ji_status j = RUNNING" "workspace_id j = ctx_workspace ctx"
    and "\<And>j' a' s'. closed (tables_of s) j j' a' (tables_of s') \<Longrightarrow> locked_rows s' = locked_rows s \<Longrightarrow> Q () s'"
  shows "wp (recover_job env ctx now j) Q any_error s"
  unfolding recover_job_def
proof (intro run_rules, rule run_require_attempt, intro run_rules, rule run_end_attempt [OF assms(1)])
  fix a assume a: "a \<in> set (job_attempts s)" "workspace_id a = ctx_workspace ctx" "ja_job_id a = ji_id j"
    "ja_attempt_number a = ji_attempt_count j" "ja_status a = ATTEMPT_RUNNING"
  show "running_job (tables_of s) j a"
    by (rule current_attempt_running [OF assms(1)]) (use a assms(2-4) in simp_all)
  show "same_attempt a (a\<lparr>ja_status := ATTEMPT_ABANDONED, ja_failure_category := Some TRANSIENT,
      ja_error_code := Some ''lease_expired'', ja_finished_at := Some now\<rparr>)"
    by (simp add: same_attempt_def tenant_of_def)
qed (use assms(4,5) in \<open>auto intro!: run_rules\<close>)

lemma run_recover_expired:
  fixes s :: "'a job_db_scheme"
  assumes inv: "job_inv (tables_of s)"
    and post: "\<And>s'. job_steps (tables_of s) (tables_of s') \<Longrightarrow> locked_rows s' = locked_rows s \<Longrightarrow>
      running_keys s' \<subseteq> running_keys s \<Longrightarrow> expired_leases ctx now s' = [] \<Longrightarrow> Q () s'"
  shows "wp (recover_expired env ctx now) Q any_error s"
proof -
  define J where "J rest s' \<longleftrightarrow> job_steps (tables_of s) (tables_of s') \<and> locked_rows s' = locked_rows s \<and>
    running_keys s' \<subseteq> running_keys s \<and>
    distinct rest \<and> set rest = set (expired_leases ctx now s')" for rest :: "job_instance list" and s' :: "'a job_db_scheme"
  have "wp (forM (expired_leases ctx now s) (recover_job env ctx now)) (\<lambda>_. J []) any_error s"
  proof (rule wp_forM_rest)
    fix j rest and u :: "'a job_db_scheme"
    assume J: "J (j # rest) u"
    then have inv_u: "job_inv (tables_of u)" using inv job_steps_inv unfolding J_def by blast
    then have keys: "keys_ok (tables_of u)" by (simp add: job_inv_def)
    have "j \<in> set (expired_leases ctx now u)" using J by (auto simp: J_def)
    then have j: "j \<in> set (job_instances u)" "ji_status j = RUNNING" "workspace_id j = ctx_workspace ctx"
      by (auto simp: expired_leases_set lease_over_def)
    show "wp (recover_job env ctx now j) (\<lambda>_. J rest) any_error u"
    proof (rule run_recover_job [OF inv_u j])
      fix j' a' and s' :: "'a job_db_scheme"
      assume c: "closed (tables_of u) j j' a' (tables_of s')" and l: "locked_rows s' = locked_rows u"
      note after = closed_jobs [OF keys _ c, simplified, OF j(1)]
      have "set (expired_leases ctx now s') = set (expired_leases ctx now u) - {j}"
        using after(1,3) l by (auto simp: expired_leases_set lease_over_def)
      moreover have "running_keys s' \<subseteq> running_keys u" by (rule running_keys_replaced [OF after(1,3)])
      ultimately show "J rest s'" using J after(2) l by (auto simp: J_def)
    qed
  next
    have "keys_ok (tables_of s)" using inv by (simp add: job_inv_def)
    then show "J (expired_leases ctx now s) s" by (simp add: J_def expired_leases_def distinct_jobs)
  qed
  then show ?thesis
    unfolding recover_expired_def
    by (intro run_rules) (erule run_mono_unit, rule post, auto simp: J_def)
qed

lemma run_expire_job:
  fixes s :: "'a job_db_scheme"
  assumes inv: "job_inv (tables_of s)" and j: "j \<in> set (job_instances s)" "waiting j"
    and post: "\<And>j' s'. job_step (tables_of s) (tables_of s') \<Longrightarrow> \<not> waiting j' \<Longrightarrow> ji_status j' \<noteq> RUNNING \<Longrightarrow>
      set (job_instances s') = insert j' (set (job_instances s) - {j}) \<Longrightarrow> locked_rows s' = locked_rows s \<Longrightarrow> Q () s'"
  shows "wp (expire_job env ctx now j) Q any_error s"
proof -
  define j' where "j' = j\<lparr>ji_status := EXPIRED, ji_completed_at := Some now, ji_updated_at := now,
    ji_state_version := ji_state_version j + 1\<rparr>"
  have j': "same_job j j'" "ji_attempt_count j' = ji_attempt_count j" "ji_status j' = EXPIRED"
    by (simp_all add: j'_def same_job_def tenant_of_def)
  have keys: "keys_ok (tables_of s)" using inv by (simp add: job_inv_def)
  have "job_ok j" using inv j(1) budget_row [of "tables_of s" j] by (simp add: job_inv_def)
  then have idle: "ji_lease_owner j = None" "ji_lease_expires_at j = None"
    using j(2) by (auto simp: job_ok_def waiting_def)
  show ?thesis
    unfolding expire_job_def Let_def j'_def [symmetric]
  proof (intro run_rules, rule run_save_job, rule run_record_job)
    fix s1 s2 :: "'a job_db_scheme"
    assume chk: "list_all snd (job_instance_checks j')"
      and s1: "jobs_view s1 = ((tables_of s)\<lparr>jt_jobs := replace_row ji_pk j' (job_instances s)\<rparr>, locked_rows s)"
      and s2: "jobs_view s2 = jobs_view s1"
    have t: "tables_of s2 = (tables_of s)\<lparr>jt_jobs := replace_row ji_pk j' (jt_jobs (tables_of s))\<rparr>" "locked_rows s2 = locked_rows s"
      using s1 s2 by (simp_all add: jobs_view_def)
    have "job_ok j'" by (rule job_ok_checked [OF chk]) (simp_all add: j'_def idle terminal_def)
    then have "job_step (tables_of s) (tables_of s2)"
      unfolding t(1) using j j' by (intro job_step.withdraw [of j]) simp_all
    moreover have "set (job_instances s2) = insert j' (set (job_instances s) - {j})"
      using arg_cong [OF t(1), of jt_jobs] jobs_after [OF keys _ j'(1)] j(1) by simp
    ultimately show "Q () s2" using t(2) j'(3) by (intro post [where j' = j']) (simp_all add: waiting_def)
  qed
qed

lemma run_expire_waiting:
  fixes s :: "'a job_db_scheme"
  assumes inv: "job_inv (tables_of s)"
    and post: "\<And>s'. job_steps (tables_of s) (tables_of s') \<Longrightarrow> locked_rows s' = locked_rows s \<Longrightarrow>
      running_keys s' \<subseteq> running_keys s \<Longrightarrow>
      set (expired_leases ctx now s') \<subseteq> set (expired_leases ctx now s) \<Longrightarrow> expired_waiting ctx now s' = [] \<Longrightarrow> Q () s'"
  shows "wp (expire_waiting env ctx now) Q any_error s"
proof -
  define J where "J rest s' \<longleftrightarrow> job_steps (tables_of s) (tables_of s') \<and> locked_rows s' = locked_rows s \<and>
    running_keys s' \<subseteq> running_keys s \<and> distinct rest \<and> set rest = set (expired_waiting ctx now s') \<and>
    set (expired_leases ctx now s') \<subseteq> set (expired_leases ctx now s)" for rest :: "job_instance list" and s' :: "'a job_db_scheme"
  have "wp (forM (expired_waiting ctx now s) (expire_job env ctx now)) (\<lambda>_. J []) any_error s"
  proof (rule wp_forM_rest)
    fix j rest and u :: "'a job_db_scheme"
    assume J: "J (j # rest) u"
    then have inv_u: "job_inv (tables_of u)" using inv job_steps_inv unfolding J_def by blast
    have "j \<in> set (expired_waiting ctx now u)" using J by (auto simp: J_def)
    then have j: "j \<in> set (job_instances u)" "waiting j" by (auto simp: expired_waiting_set wait_over_def)
    show "wp (expire_job env ctx now j) (\<lambda>_. J rest) any_error u"
    proof (rule run_expire_job [OF inv_u j])
      fix j' and s' :: "'a job_db_scheme"
      assume st: "job_step (tables_of u) (tables_of s')" and j': "\<not> waiting j'" "ji_status j' \<noteq> RUNNING"
        and jobs: "set (job_instances s') = insert j' (set (job_instances u) - {j})" and l: "locked_rows s' = locked_rows u"
      have "set (expired_waiting ctx now s') = set (expired_waiting ctx now u) - {j}"
        using jobs l j'(1) by (auto simp: expired_waiting_set wait_over_def)
      moreover have "set (expired_leases ctx now s') \<subseteq> set (expired_leases ctx now u)"
        using jobs l j'(2) by (auto simp: expired_leases_set lease_over_def)
      moreover have "running_keys s' \<subseteq> running_keys u" by (rule running_keys_replaced [OF jobs j'(2)])
      ultimately show "J rest s'" using J st l by (auto simp: J_def)
    qed
  next
    have "keys_ok (tables_of s)" using inv by (simp add: job_inv_def)
    then show "J (expired_waiting ctx now s) s" by (simp add: J_def expired_waiting_def distinct_jobs)
  qed
  then show ?thesis
    unfolding expire_waiting_def
    by (intro run_rules) (erule run_mono_unit, rule post, auto simp: J_def)
qed


section \<open>Claiming\<close>

lemma count_rows_mono: "(\<And>x. x \<in> set t \<Longrightarrow> p x \<Longrightarrow> q x) \<Longrightarrow> count_rows p t \<le> count_rows q t"
  by (induction t) (auto simp: count_rows_def)

lemma claim_candidateD:
  assumes "claim_candidate ctx now s = Some (j, d)"
  shows "j \<in> set (job_instances s)" "claimable ctx now j" "d \<in> set (job_definitions s)" "of_definition d j"
    "running_in (workspace_id j) (job_instances s) < 20" "int (running_for d (job_instances s)) < jd_max_concurrency d"
    "jd_status d = JD_ACTIVE" "\<not> workspace_paused ctx s" "\<not> definition_paused ctx (jd_id d) s"
proof -
  let ?rows = "sort_key (\<lambda>(j, d). claim_order j) (claim_rows ctx now s)"
  obtain rest where rows: "?rows = (j, d) # rest" and few: "running_in_workspace ctx s < 20"
    "int (running_of_definition ctx (jd_id d) s) < jd_max_concurrency d" and open_ws: "\<not> workspace_paused ctx s"
    using assms by (auto simp: claim_candidate_def split: if_splits list.splits prod.splits)
  have "(j, d) \<in> set (claim_rows ctx now s)" using arg_cong [OF rows, of set] by auto
  then show row: "j \<in> set (job_instances s)" "claimable ctx now j" "d \<in> set (job_definitions s)"
    "of_definition d j" "jd_status d = JD_ACTIVE" "\<not> definition_paused ctx (jd_id d) s"
    by (auto simp: claim_rows_def of_definition_def split: if_splits)
  show "running_in (workspace_id j) (job_instances s) < 20"
    using few(1) row(2) by (simp add: running_in_workspace_def running_in_def claimable_def)
  have "workspace_id d = ctx_workspace ctx" using row(2,4) by (simp add: of_definition_def jd_pk_def claimable_def)
  then have "running_for d (job_instances s) \<le> running_of_definition ctx (jd_id d) s"
    unfolding running_for_def running_of_definition_def
    by (intro count_rows_mono) (simp add: of_definition_def jd_pk_def)
  then show "int (running_for d (job_instances s)) < jd_max_concurrency d" using few(2) by simp
  show "\<not> workspace_paused ctx s" by (rule open_ws)
qed

lemma run_claim_job:
  fixes s :: "'a job_db_scheme"
  assumes inv: "job_inv (tables_of s)" and cand: "claim_candidate ctx now s = Some (j, d)"
    and post: "\<And>s'. job_step (tables_of s) (tables_of s') \<Longrightarrow> locked_rows s' = locked_rows s \<Longrightarrow>
      set (job_instances s') = insert (claimed_job j worker now 30) (set (job_instances s) - {j}) \<Longrightarrow>
      Q (make_lease (claimed_job j worker now 30) d) s'"
  shows "wp (claim_job env ctx worker now 30 j d) Q any_error s"
proof -
  note c = claim_candidateD [OF cand]
  define j' where "j' = claimed_job j worker now 30"
  define a where "a i = \<lparr>organization_id = organization_id (ec_tenant ctx), workspace_id = workspace_id (ec_tenant ctx),
    cell_id = cell_id (ec_tenant ctx), ja_id = i, ja_job_id = ji_id j',
    ja_attempt_number = ji_attempt_count j', ja_worker_id = worker, ja_status = ATTEMPT_RUNNING,
    ja_failure_category = None, ja_error_code = None, ja_started_at = now, ja_heartbeat_at = now,
    ja_lease_expires_at = now + seconds 30, ja_finished_at = None\<rparr>" for i
  have wait: "waiting j" "workspace_id j = ctx_workspace ctx" using c(2) by (auto simp: claimable_def waiting_def)
  have tok: "tenants_ok (tables_of s)" and kok: "keys_ok (tables_of s)" using inv by (simp_all add: job_inv_def)
  have "job_ok j" using inv c(1) budget_row [of "tables_of s" j] by (simp add: job_inv_def)
  then have fresh: "ji_completed_at j = None" using wait(1) by (auto simp: job_ok_def waiting_def terminal_def)
  show ?thesis
    unfolding claim_job_def Let_def j'_def [symmetric] a_def [symmetric]
  proof (intro run_rules, rule run_frame [OF keeps_uuid4], intro run_rules, rule run_save_job,
      intro run_rules, rule run_add_attempt, intro run_rules, rule run_record_job, rule run_return)
    fix i and s1 s2 s3 s4 :: "'a job_db_scheme"
    assume s1: "jobs_view s1 = jobs_view s" and chk: "list_all snd (job_instance_checks j')"
      and s2: "jobs_view s2 = ((tables_of s1)\<lparr>jt_jobs := replace_row ji_pk j' (job_instances s1)\<rparr>, locked_rows s1)"
      and cs: "list_all snd (job_attempt_constraints (a i) s2)"
      and s3: "jobs_view s3 = ((tables_of s2)\<lparr>jt_attempts := job_attempts s2 @ [a i]\<rparr>, locked_rows s2)"
      and s4: "jobs_view s4 = jobs_view s3"
    have t1: "tables_of s1 = tables_of s" "locked_rows s1 = locked_rows s" using s1 by (simp_all add: jobs_view_def)
    have j1: "job_instances s1 = job_instances s" using arg_cong [OF t1(1), of jt_jobs] by simp
    have t2: "tables_of s2 = (tables_of s)\<lparr>jt_jobs := replace_row ji_pk j' (job_instances s)\<rparr>" "locked_rows s2 = locked_rows s"
      using s2 t1 j1 by (simp_all add: jobs_view_def)
    have j2: "job_instances s2 = replace_row ji_pk j' (job_instances s)" "job_attempts s2 = job_attempts s"
      using arg_cong [OF t2(1), of jt_jobs] arg_cong [OF t2(1), of jt_attempts] by simp_all
    have t4: "tables_of s4 = (tables_of s)\<lparr>jt_jobs := replace_row ji_pk j' (jt_jobs (tables_of s)),
        jt_attempts := jt_attempts (tables_of s) @ [a i]\<rparr>" "locked_rows s4 = locked_rows s"
      using s3 s4 t2 j2 by (simp_all add: jobs_view_def)
    have same: "same_job j j'" by (simp add: j'_def claimed_same)
    have pk: "ji_pk j = tenant_pk (a i) (ji_id j)"
    proof -
      obtain n where n: "n \<in> set (replace_row ji_pk j' (job_instances s))" "ji_pk n = tenant_pk (a i) (ji_id j')"
        using cs by (auto simp: job_attempt_constraints_def job_exists_def list_ex_iff j2 a_def)
      have "ji_pk n \<in> ji_pk ` set (job_instances s)"
        using n(1) by (metis image_eqI list.set_map map_key_replace_row)
      then obtain m where m: "m \<in> set (job_instances s)" "ji_pk m = ji_pk n" by auto
      show ?thesis
        using n(2) m(2) same c(1) m(1) wait(2) by (intro job_exists_pk [OF tok, where i = m]) (simp_all add: same_job_def a_def)
    qed
    have step: "job_step (tables_of s) (tables_of s4)"
      unfolding t4(1)
    proof (rule job_step.claim [of j _ now d j' worker])
      show "j \<in> set (jt_jobs (tables_of s))" "waiting j" "d \<in> set (jt_definitions (tables_of s))" "of_definition d j"
        "running_in (workspace_id j) (jt_jobs (tables_of s)) < 20"
        "int (running_for d (jt_jobs (tables_of s))) < jd_max_concurrency d" "ji_available_at j \<le> now" "now < ji_deadline j"
        using c wait(1) by (simp_all add: claimable_def)
      show "j' = claimed_job j worker now 30" by (rule j'_def)
      show "job_ok j'" by (rule job_ok_checked [OF chk]) (simp_all add: j'_def claimed_job_def terminal_def fresh)
      show "tenant_of (a i) = tenant_of j" "ja_job_id (a i) = ji_id j" using pk by (simp_all add: ji_pk_def tenant_of_eq a_def j'_def claimed_job_def)
      show "ja_attempt_number (a i) = ji_attempt_count j'" "ja_status (a i) = ATTEMPT_RUNNING" by (simp_all add: a_def)
      show "ja_pk (a i) \<notin> ja_pk ` set (jt_attempts (tables_of s))"
        using cs by (auto simp: job_attempt_constraints_def list_all_iff j2)
      show "attempt_key (a i) \<notin> attempt_key ` set (jt_attempts (tables_of s))"
        using cs by (auto simp: job_attempt_constraints_def list_all_iff j2 attempt_key_def)
    qed
    have "set (job_instances s4) = insert j' (set (job_instances s) - {j})"
      using arg_cong [OF t4(1), of jt_jobs] jobs_after [OF kok _ same] c(1) by simp
    with step t4(2) show "Q (make_lease j' d) s4" unfolding j'_def by (intro post)
  qed
qed


section \<open>The operations\<close>

text \<open>Writing one job row, in the shapes in which the operations do it.\<close>

lemma run_touch:
  fixes s :: "'a job_db_scheme"
  assumes inv: "job_inv (tables_of s)" and j: "j \<in> set (job_instances s)" "same_job j j'" "ji_status j' = ji_status j"
      "ji_attempt_count j' = ji_attempt_count j" "ji_lease_owner j' = ji_lease_owner j"
      "ji_lease_expires_at j' = ji_lease_expires_at j" "ji_completed_at j' = ji_completed_at j"
      "ji_result_digest j' = ji_result_digest j"
    and post: "\<And>s'. job_step (tables_of s) (tables_of s') \<Longrightarrow> locked_rows s' = locked_rows s \<Longrightarrow>
      set (job_instances s') = insert j' (set (job_instances s) - {j}) \<Longrightarrow> job_dead_letters s' = job_dead_letters s \<Longrightarrow> Q () s'"
  shows "wp (save_job j') Q any_error s"
proof (rule run_save_job)
  fix s' :: "'a job_db_scheme"
  assume chk: "list_all snd (job_instance_checks j')"
    and v: "jobs_view s' = ((tables_of s)\<lparr>jt_jobs := replace_row ji_pk j' (job_instances s)\<rparr>, locked_rows s)"
  have t: "tables_of s' = (tables_of s)\<lparr>jt_jobs := replace_row ji_pk j' (jt_jobs (tables_of s))\<rparr>" "locked_rows s' = locked_rows s"
    using v by (simp_all add: jobs_view_def)
  have "job_ok j" using inv j(1) budget_row [of "tables_of s" j] by (simp add: job_inv_def)
  then have "job_ok j'" by (intro job_ok_checked [OF chk]) (auto simp: j job_ok_def)
  then have "job_step (tables_of s) (tables_of s')" unfolding t(1) using j by (intro job_step.touch [of j]) simp_all
  moreover have "set (job_instances s') = insert j' (set (job_instances s) - {j})"
    using arg_cong [OF t(1), of jt_jobs] jobs_after [of "tables_of s" j j'] inv j(1,2) by (simp add: job_inv_def)
  moreover have "job_dead_letters s' = job_dead_letters s" using arg_cong [OF t(1), of jt_letters] by simp
  ultimately show "Q () s'" using t(2) by (intro post)
qed

lemma run_close:
  fixes s :: "'a job_db_scheme"
  assumes inv: "job_inv (tables_of s)" and run: "running_job (tables_of s) j a"
    and j': "same_job j j'" "ji_attempt_count j' = ji_attempt_count j" "ji_status j' \<in> {SUCCEEDED, CANCELLED}"
      "ji_lease_owner j' = None" "ji_lease_expires_at j' = None" "ji_completed_at j' \<noteq> None"
      "ji_status j' = SUCCEEDED \<Longrightarrow> \<exists>d. ji_result_digest j' = Some d \<and> length d = 64"
    and a': "same_attempt a a'" "ja_status a' \<noteq> ATTEMPT_RUNNING"
    and post: "\<And>s'. closed (tables_of s) j j' a' (tables_of s') \<Longrightarrow> locked_rows s' = locked_rows s \<Longrightarrow> Q () s'"
  shows "wp (thenM (save_attempt a') (save_job j')) Q any_error s"
proof (intro run_rules, rule run_save_attempt, rule run_save_job)
  fix s1 s2 :: "'a job_db_scheme"
  assume s1: "jobs_view s1 = ((tables_of s)\<lparr>jt_attempts := replace_row ja_pk a' (job_attempts s)\<rparr>, locked_rows s)"
    and chk: "list_all snd (job_instance_checks j')"
    and s2: "jobs_view s2 = ((tables_of s1)\<lparr>jt_jobs := replace_row ji_pk j' (job_instances s1)\<rparr>, locked_rows s1)"
  have t1: "tables_of s1 = (tables_of s)\<lparr>jt_attempts := replace_row ja_pk a' (job_attempts s)\<rparr>" "locked_rows s1 = locked_rows s"
    using s1 by (simp_all add: jobs_view_def)
  have j1: "job_instances s1 = job_instances s" using arg_cong [OF t1(1), of jt_jobs] by simp
  have t: "tables_of s2 = (tables_of s)\<lparr>jt_jobs := replace_row ji_pk j' (jt_jobs (tables_of s)),
      jt_attempts := replace_row ja_pk a' (jt_attempts (tables_of s))\<rparr>" "locked_rows s2 = locked_rows s"
    using s2 t1 j1 by (simp_all add: jobs_view_def)
  have "job_ok j'" by (intro job_ok_checked [OF chk]) (use j' in \<open>auto simp: terminal_def\<close>)
  then have "closed (tables_of s) j j' a' (tables_of s2)"
    using j'(3) by (intro closedI [OF run j'(1,2) _ _ _ a' t(1)]) auto
  then show "Q () s2" using t(2) by (rule post)
qed

lemma run_beat:
  fixes s :: "'a job_db_scheme"
  assumes inv: "job_inv (tables_of s)" and run: "running_job (tables_of s) j a"
    and j': "same_job j j'" "ji_attempt_count j' = ji_attempt_count j" "ji_status j' = ji_status j"
      "ji_lease_owner j' = ji_lease_owner j" "ji_lease_expires_at j' \<noteq> None" "ji_completed_at j' = ji_completed_at j"
    and a': "same_attempt a a'" "ja_status a' = ja_status a"
    and post: "\<And>s'. job_step (tables_of s) (tables_of s') \<Longrightarrow> locked_rows s' = locked_rows s \<Longrightarrow> Q () s'"
  shows "wp (thenM (save_attempt a') (save_job j')) Q any_error s"
proof (intro run_rules, rule run_save_attempt, rule run_save_job)
  fix s1 s2 :: "'a job_db_scheme"
  assume s1: "jobs_view s1 = ((tables_of s)\<lparr>jt_attempts := replace_row ja_pk a' (job_attempts s)\<rparr>, locked_rows s)"
    and chk: "list_all snd (job_instance_checks j')"
    and s2: "jobs_view s2 = ((tables_of s1)\<lparr>jt_jobs := replace_row ji_pk j' (job_instances s1)\<rparr>, locked_rows s1)"
  have t1: "tables_of s1 = (tables_of s)\<lparr>jt_attempts := replace_row ja_pk a' (job_attempts s)\<rparr>" "locked_rows s1 = locked_rows s"
    using s1 by (simp_all add: jobs_view_def)
  have j1: "job_instances s1 = job_instances s" using arg_cong [OF t1(1), of jt_jobs] by simp
  have t: "tables_of s2 = (tables_of s)\<lparr>jt_jobs := replace_row ji_pk j' (jt_jobs (tables_of s)),
      jt_attempts := replace_row ja_pk a' (jt_attempts (tables_of s))\<rparr>" "locked_rows s2 = locked_rows s"
    using s2 t1 j1 by (simp_all add: jobs_view_def)
  have st: "j \<in> set (job_instances s)" "ji_status j = RUNNING" using run by (simp_all add: running_job_def)
  then have "job_ok j" using inv budget_row [of "tables_of s" j] by (simp add: job_inv_def)
  then have "job_ok j'" using st(2) j' by (intro job_ok_checked [OF chk]) (auto simp: job_ok_def)
  then have "job_step (tables_of s) (tables_of s2)"
    unfolding t(1) using run j' a' st by (intro job_step.beat [of j _ j' a a']) (simp_all add: running_job_def)
  then show "Q () s2" using t(2) by (rule post)
qed

text \<open>
  What a claim leaves: no lease and no deadline of the workspace is over any more, and the only
  new running job is the one whose lease is returned.
\<close>

definition claimed_lease :: "execution_context \<Rightarrow> string \<Rightarrow> instant \<Rightarrow> job_lease option \<Rightarrow> 'a job_db_scheme \<Rightarrow> tenant_key set \<Rightarrow> bool" where
  "claimed_lease ctx worker now lease s' keys \<longleftrightarrow> (case lease of None \<Rightarrow> running_keys s' \<subseteq> keys
     | Some le \<Rightarrow> (\<exists>j d. claimable ctx now j \<and> ji_id j = le_job_id le \<and> of_definition d j \<and> jd_status d = JD_ACTIVE \<and>
         le = make_lease (claimed_job j worker now 30) d \<and>
         claimed_job j worker now 30 \<in> set (job_instances s') \<and> running_keys s' \<subseteq> insert (ji_pk j) keys))"

locale job_authorizer = authorizer env ask
  for env :: py_env and ask :: "execution_context \<Rightarrow> string \<Rightarrow> ('a job_db_scheme, bool) M"
begin

lemma run_authorized:
  assumes "\<And>s'. jobs_view s' = jobs_view s \<Longrightarrow> Q () s'"
  shows "wp (require_authorized ask ctx p) Q any_error s"
  unfolding require_authorized_def
  by (intro run_rules, rule run_frame [OF ask_frame], intro run_rules) (rule assms)

lemma run_leased:
  assumes "\<And>j s'. jobs_view s' = jobs_view s \<Longrightarrow> j \<in> set (job_instances s) \<Longrightarrow> workspace_id j = ctx_workspace ctx \<Longrightarrow>
    ji_id j = i \<Longrightarrow> owns_lease worker now j \<Longrightarrow> Q j s'"
  shows "wp (leased_job ask ctx i worker now) Q any_error s"
  unfolding leased_job_def
proof (intro run_rules, rule run_authorized, intro run_rules, rule run_require_job, intro run_rules)
  fix s' :: "'a job_db_scheme" and j
  assume v: "jobs_view s' = jobs_view s" and j: "j \<in> set (job_instances s')" "workspace_id j = ctx_workspace ctx" "ji_id j = i"
    and o: "owns_lease worker now j"
  have "job_instances s' = job_instances s" using v by (simp add: jobs_view_def tables_of_def)
  then show "Q j s'" using v j o assms by simp
qed

lemma run_claim_next:
  assumes inv: "job_inv (tables_of s)"
    and post: "\<And>lease s'. job_steps (tables_of s) (tables_of s') \<Longrightarrow> locked_rows s' = locked_rows s \<Longrightarrow> n = 30 \<Longrightarrow>
      claimed_lease ctx (py_strip worker) now lease s' (running_keys s) \<Longrightarrow>
      expired_leases ctx now s' = [] \<Longrightarrow> expired_waiting ctx now s' = [] \<Longrightarrow> Q lease s'"
  shows "wp (claim_next env ask ctx worker now n) Q any_error s"
  unfolding claim_next_def Let_def
proof (intro run_rules, rule run_authorized, intro run_rules, rule run_recover_expired, goal_cases)
  case (1 s1)
  then show ?case using inv by (simp add: jobs_view_def)
next
  case (2 s1 s2)
  note v = jobs_viewD [OF 2(1)]
  have keys1: "running_keys s1 = running_keys s" by (simp add: running_keys_def v)
  have n: "n = 30" and t2: "job_steps (tables_of s) (tables_of s2)" "locked_rows s2 = locked_rows s"
    using 2 v by simp_all
  show ?case
  proof (rule run_then, rule run_expire_waiting, goal_cases)
    case 1
    show ?case using t2(1) inv by (rule job_steps_inv)
  next
    case (2 s3)
    note t3 = 2
    have t: "job_steps (tables_of s) (tables_of s3)" using t2(1) t3(1) by (rule rtranclp_trans)
    have inv3: "job_inv (tables_of s3)" by (rule job_steps_inv [OF t inv])
    have clean: "expired_leases ctx now s3 = []" using t3(4) \<open>expired_leases ctx now s2 = []\<close> by simp
    have keys3: "running_keys s3 \<subseteq> running_keys s" using t3(3) \<open>running_keys s2 \<subseteq> running_keys s1\<close> keys1 by blast
    show ?case
    proof (intro run_rules, cases "claim_candidate ctx now s3", goal_cases None Some)
      case None
      then show ?case using t t2(2) t3 clean keys3 n by (simp add: wp_simps post claimed_lease_def)
    next
      case (Some jd)
      obtain j d where jd: "jd = (j, d)" by (cases jd)
      note c = claim_candidateD [OF Some [unfolded jd]]
      have "wp (claim_job env ctx (py_strip worker) now 30 j d) (\<lambda>lease. wp (returnM (Some lease)) Q any_error) any_error s3"
      proof (rule run_claim_job [OF inv3 Some [unfolded jd]], rule run_return, rule post, goal_cases)
        case (1 s4)
        then show ?case using t by simp
      next
        case (4 s4)
        let ?j = "claimed_job j (py_strip worker) now 30"
        have "ji_pk ?j = ji_pk j" by (rule same_job_pk [OF claimed_same])
        then have "running_keys s4 \<subseteq> insert (ji_pk j) (running_keys s)"
          using 4(3) keys3 by (auto simp: running_keys_def)
        moreover have "?j \<in> set (job_instances s4)" using 4(3) by simp
        moreover have "ji_id j = le_job_id (make_lease ?j d)" by (simp add: make_lease_def claimed_job_def)
        ultimately show ?case using c(2,4,7) unfolding claimed_lease_def option.case by blast
      next
        case (5 s4)
        have "\<not> lease_over ctx now l (claimed_job j (py_strip worker) now 30)" for l
          by (simp add: lease_over_def claimed_job_def seconds_def)
        then have "set (expired_leases ctx now s4) \<subseteq> set (expired_leases ctx now s3)"
          using 5(2,3) by (auto simp: expired_leases_set)
        then show ?case using clean by simp
      next
        case (6 s4)
        have "\<not> wait_over ctx now l (claimed_job j (py_strip worker) now 30)" for l
          by (simp add: wait_over_def waiting_def claimed_job_def)
        then have "set (expired_waiting ctx now s4) \<subseteq> set (expired_waiting ctx now s3)"
          using 6(2,3) by (auto simp: expired_waiting_set)
        then show ?case using t3(5) by simp
      qed (use t2 t3 n in simp_all)
      then show ?case using Some jd n by (simp add: run_bind)
    qed
  qed
qed

lemma run_heartbeat:
  assumes inv: "job_inv (tables_of s)" and post: "\<And>s'. job_steps (tables_of s) (tables_of s') \<Longrightarrow> Q () s'"
  shows "wp (heartbeat env ask ctx i worker now) Q any_error s"
  unfolding heartbeat_def
proof (intro run_rules, rule run_leased, intro run_rules, rule run_require_attempt, rule run_if, goal_cases)
  case (1 j s1 a)
  show ?case unfolding Let_def by (simp add: wp_simps wp_def split: sum.splits prod.splits)
next
  case (2 j s1 a)
  have t1: "tables_of s1 = tables_of s" using 2(1) by (simp add: jobs_view_def)
  have "job_attempts s1 = job_attempts s" using arg_cong [OF t1, of jt_attempts] by simp
  then have run: "running_job (tables_of s1) j a"
    unfolding t1 using 2 by (intro current_attempt_running [OF inv]) (simp_all add: owns_lease_def)
  show ?case
    unfolding Let_def
    apply (rule run_pair, rule run_beat [OF _ run])
    using inv t1
    by (auto simp: same_job_def same_attempt_def tenant_of_def jobs_view_def intro!: run_record_job post)
qed

lemma run_succeed:
  assumes inv: "job_inv (tables_of s)"
    and post: "\<And>j j' s'. j \<in> set (job_instances s) \<Longrightarrow> ji_id j = i \<Longrightarrow> workspace_id j = ctx_workspace ctx \<Longrightarrow> owns_lease worker now j \<Longrightarrow>
      ji_cancellation_requested_at j = None \<Longrightarrow> job_step (tables_of s) (tables_of s') \<Longrightarrow>
      same_job j j' \<Longrightarrow> ji_status j' = SUCCEEDED \<Longrightarrow> ji_result_digest j' = Some digest \<Longrightarrow>
      set (job_instances s') = insert j' (set (job_instances s) - {j}) \<Longrightarrow> Q j' s'"
  shows "wp (succeed env ask ctx i worker digest now) Q any_error s"
  unfolding succeed_def
proof (intro run_rules, rule run_leased, intro run_rules, rule run_require_attempt, goal_cases)
  case (1 j s1 a)
  have t1: "tables_of s1 = tables_of s" using 1(2) by (simp add: jobs_view_def)
  have rows: "job_attempts s1 = job_attempts s" "job_instances s1 = job_instances s"
    using arg_cong [OF t1, of jt_attempts] arg_cong [OF t1, of jt_jobs] by simp_all
  then have run: "running_job (tables_of s1) j a"
    unfolding t1 using 1 by (intro current_attempt_running [OF inv]) (simp_all add: owns_lease_def)
  have keys: "keys_ok (tables_of s1)" using inv t1 by (simp add: job_inv_def)
  define j' where "j' = clear_lease (j\<lparr>ji_status := SUCCEEDED, ji_result_digest := Some digest,
    ji_completed_at := Some now, ji_updated_at := now, ji_state_version := ji_state_version j + 1\<rparr>)"
  have j': "same_job j j'" "ji_status j' = SUCCEEDED" "ji_result_digest j' = Some digest"
    by (simp_all add: j'_def same_job_def tenant_of_def clear_lease_def)
  show ?case
    unfolding Let_def j'_def [symmetric]
  proof (rule run_pair, rule run_close [OF _ run j'(1)], goal_cases)
    case (10 s2)
    note after = closed_jobs [OF keys _ 10(1), simplified, unfolded rows, OF 1(3)]
    show ?case
    proof (intro run_rules, rule run_record_job, rule run_return)
      fix s3 :: "'a job_db_scheme" assume "jobs_view s3 = jobs_view s2"
      from jobs_viewD [OF this] show "Q j' s3"
        using after(1,2) 1 j' t1 by (intro post [of j]) simp_all
    qed
  qed (use inv t1 1(1) in \<open>simp_all add: j'_def clear_lease_def same_attempt_def tenant_of_def\<close>)
qed

lemma run_fail:
  assumes inv: "job_inv (tables_of s)" and post: "\<And>j j' s'. j \<in> set (job_instances s) \<Longrightarrow> ji_id j = i \<Longrightarrow>
      workspace_id j = ctx_workspace ctx \<Longrightarrow> owns_lease worker now j \<Longrightarrow> job_step (tables_of s) (tables_of s') \<Longrightarrow>
      set (job_instances s') = insert j' (set (job_instances s) - {j}) \<Longrightarrow> ji_status j' \<noteq> RUNNING \<Longrightarrow> Q j' s'"
  shows "wp (fail env ask ctx i worker category code now) Q any_error s"
  unfolding fail_def Let_def
proof (intro run_rules, rule run_leased, intro run_rules, rule run_require_attempt, intro run_rules, goal_cases)
  case (1 j s1 a)
  have t1: "tables_of s1 = tables_of s" using 1(1) by (simp add: jobs_view_def)
  have rows: "job_attempts s1 = job_attempts s" "job_instances s1 = job_instances s"
    using arg_cong [OF t1, of jt_attempts] arg_cong [OF t1, of jt_jobs] by simp_all
  then have run: "running_job (tables_of s1) j a"
    unfolding t1 using 1 by (intro current_attempt_running [OF inv]) (simp_all add: owns_lease_def)
  have keys: "keys_ok (tables_of s1)" using inv t1 by (simp add: job_inv_def)
  show ?case
  proof (rule run_end_attempt [OF _ run 1(3)], goal_cases)
    case (4 j' s2)
    note after = closed_jobs [OF keys _ 4(1), simplified, unfolded rows, OF 1(2)]
    show ?case using after 1 t1 by (intro post [of j]) simp_all
  qed (use inv t1 in \<open>simp_all add: same_attempt_def tenant_of_def\<close>)
qed

lemma run_cancel:
  assumes inv: "job_inv (tables_of s)" and post: "\<And>j s'. job_step (tables_of s) (tables_of s') \<Longrightarrow> Q j s'"
  shows "wp (cancel env ask ctx i reason now) Q any_error s"
  unfolding cancel_def Let_def
proof (intro run_rules, rule run_authorized, intro run_rules, rule run_require_job, intro run_rules,
    rule run_view [OF keeps_view_of_rest [OF keeps_or_now]], intro run_rules, goal_cases)
  case (1 s1 j t s2)
  note v = jobs_viewD [OF 1(1)] jobs_viewD [OF 1(5)]
  have inv2: "job_inv (tables_of s2)" and j: "j \<in> set (job_instances s2)" using inv 1(2) v by simp_all
  define q where "q = j\<lparr>ji_cancellation_requested_at := Some t, ji_cancellation_reason := Some (py_strip reason),
    ji_updated_at := t, ji_state_version := ji_state_version j + 1\<rparr>"
  have q: "same_job j q" "ji_status q = ji_status j" "ji_attempt_count q = ji_attempt_count j"
    "ji_lease_owner q = ji_lease_owner j" "ji_lease_expires_at q = ji_lease_expires_at j"
    "ji_completed_at q = ji_completed_at j" "ji_result_digest q = ji_result_digest j"
    by (simp_all add: q_def same_job_def tenant_of_def)
  have fin: "wp (thenM (record_job env ctx k Job_cancellation_requested t) (returnM k)) Q any_error s3"
    if "job_step (tables_of s2) (tables_of s3)" for k s3
    using that v by (intro run_rules run_record_job post) (simp_all add: jobs_view_def)
  show ?case
  proof (cases "ji_status j = RUNNING")
    case True
    have "wp (save_job q) (\<lambda>_. wp (thenM (record_job env ctx q Job_cancellation_requested t) (returnM q)) Q any_error) any_error s2"
      by (rule run_touch [OF inv2 j q]) (rule fin)
    then show ?thesis using True by (simp add: q_def run_then)
  next
    case False
    then have wait: "waiting j" using 1(7) by (cases "ji_status j") (simp_all add: waiting_def terminal_def)
    define k where "k = clear_lease (q\<lparr>ji_status := CANCELLED, ji_completed_at := Some t\<rparr>)"
    have "wp (save_job k) (\<lambda>_. wp (thenM (record_job env ctx k Job_cancellation_requested t) (returnM k)) Q any_error) any_error s2"
    proof (rule run_save_job, rule fin)
      fix s3 :: "'a job_db_scheme"
      assume chk: "list_all snd (job_instance_checks k)"
        and s3: "jobs_view s3 = ((tables_of s2)\<lparr>jt_jobs := replace_row ji_pk k (job_instances s2)\<rparr>, locked_rows s2)"
      have "job_ok k" by (rule job_ok_checked [OF chk]) (simp_all add: k_def clear_lease_def terminal_def)
      moreover have "same_job j k" using q(1) by (simp add: k_def clear_lease_def same_job_def tenant_of_def)
      moreover have "tables_of s3 = (tables_of s2)\<lparr>jt_jobs := replace_row ji_pk k (jt_jobs (tables_of s2))\<rparr>"
        using s3 by (simp add: jobs_view_def)
      moreover have "ji_status k = CANCELLED" "ji_attempt_count k = ji_attempt_count j"
        using q(3) by (simp_all add: k_def clear_lease_def)
      ultimately have "job_step (tables_of s2) ((tables_of s2)\<lparr>jt_jobs := replace_row ji_pk k (jt_jobs (tables_of s2))\<rparr>)"
        using wait j by (intro job_step.withdraw [of j]) simp_all
      then show "job_step (tables_of s2) (tables_of s3)" using s3 by (simp add: jobs_view_def)
    qed
    then show ?thesis using False by (simp add: k_def q_def run_then)
  qed
qed

lemma run_register_definition:
  assumes inv: "job_inv (tables_of s)" and post: "\<And>d s'. job_step (tables_of s) (tables_of s') \<Longrightarrow> Q d s'"
  shows "wp (register_definition env ask ctx spec now) Q any_error s"
  unfolding register_definition_def Let_def
proof (intro run_rules, rule run_authorized, intro run_rules,
    rule run_view [OF keeps_view_of_rest [OF keeps_or_now]], intro run_rules, rule run_add_definition, intro run_rules,
    rule run_frame [OF keeps_record_change], rule run_return, goal_cases)
  case (1 s1 t s2 s3 x s4)
  note v = jobs_viewD [OF 1(1)] jobs_viewD [OF 1(3)] jobs_viewD [OF 1(6)]
  have tab: "tables_of s2 = tables_of s" using v by simp
  show ?case
  proof (rule post, unfold v(13), insert 1(4,5) inv, unfold jobs_view_eq tab [symmetric])
    fix r
    assume c: "list_all snd (job_definition_constraints r s2)"
      and t: "tables_of s3 = (tables_of s2)\<lparr>jt_definitions := job_definitions s2 @ [r]\<rparr> \<and> locked_rows s3 = locked_rows s2"
    have "tenant_exists r s2" using c by (simp add: job_definition_constraints_def)
    then have "tenant_of r \<in> set (jt_tenants (tables_of s2))" by (rule tenant_exists_of)
    then have "job_step (tables_of s2) ((tables_of s2)\<lparr>jt_definitions := jt_definitions (tables_of s2) @ [r]\<rparr>)"
      using c by (intro job_step.register) (auto simp: job_definition_constraints_def list_all_iff)
    then show "job_step (tables_of s2) (tables_of s3)" using t by simp
  qed
qed

lemma run_add_queued:
  fixes s :: "'a job_db_scheme"
  assumes inv: "job_inv (tables_of s)"
    and r: "ji_status r = QUEUED" "ji_attempt_count r = 0" "ji_lease_owner r = None" "ji_lease_expires_at r = None"
      "ji_completed_at r = None"
    and post: "\<And>s'. job_step (tables_of s) (tables_of s') \<Longrightarrow>
      tables_of s' = (tables_of s)\<lparr>jt_jobs := job_instances s @ [r]\<rparr> \<Longrightarrow> locked_rows s' = locked_rows s \<Longrightarrow> Q () s'"
  shows "wp (add_job ctx r) Q any_error s"
proof (rule run_add_job)
  fix s' :: "'a job_db_scheme"
  assume c: "list_all snd (job_instance_constraints r s)"
    and v: "jobs_view s' = ((tables_of s)\<lparr>jt_jobs := job_instances s @ [r]\<rparr>, locked_rows s)"
  have t: "tables_of s' = (tables_of s)\<lparr>jt_jobs := jt_jobs (tables_of s) @ [r]\<rparr>" using v by (simp add: jobs_view_def)
  have "tenant_exists r s" and fk: "definition_exists (tenant_pk r (ji_definition_id r)) s"
    and chk: "list_all snd (job_instance_checks r)"
    using c by (simp_all add: job_instance_constraints_def)
  then have "tenant_of r \<in> set (jt_tenants (tables_of s))" by (intro tenant_exists_of)
  moreover obtain d where "d \<in> set (jt_definitions (tables_of s))" "of_definition d r"
    using fk by (auto simp: definition_exists_def list_ex_iff of_definition_def)
  moreover have "job_ok r" by (rule job_ok_checked [OF chk]) (use r in \<open>simp_all add: terminal_def\<close>)
  moreover have "ji_pk r \<notin> ji_pk ` set (jt_jobs (tables_of s))" "job_key r \<notin> job_key ` set (jt_jobs (tables_of s))"
    using c by (auto simp: job_instance_constraints_def list_all_iff job_key_def)
  ultimately have "job_step (tables_of s) (tables_of s')" unfolding t using r by (intro job_step.enqueue [of r _ d]) simp_all
  then show "Q () s'" using v by (intro post) (simp_all add: jobs_view_def)
qed

lemma run_enqueue:
  assumes inv: "job_inv (tables_of s)"
    and post: "\<And>j s'. job_steps (tables_of s) (tables_of s') \<Longrightarrow> j \<in> set (job_instances s') \<Longrightarrow>
      set (job_instances s) \<subseteq> set (job_instances s') \<Longrightarrow> job_dead_letters s' = job_dead_letters s \<Longrightarrow>
      workspace_id j = ctx_workspace ctx \<Longrightarrow>
      ji_definition_id j = je_definition_id c \<Longrightarrow> ji_idempotency_key j = je_idempotency_key c \<Longrightarrow>
      Inr (ji_request_digest j) = enqueue_digest env c \<Longrightarrow>
      (j \<in> set (job_instances s) \<and> tables_of s' = tables_of s \<or>
       job_instances s' = job_instances s @ [j] \<and> ji_id j = je_job_id c \<and> ji_status j = QUEUED \<and>
       job_by_idempotency ctx (je_definition_id c) (je_idempotency_key c) s = None) \<Longrightarrow> Q j s'"
  shows "wp (enqueue env ask ctx c now) Q any_error s"
  unfolding enqueue_def Let_def lock_enqueue_boundary_def
proof (intro run_rules, rule run_authorized, intro run_rules, goal_cases)
  case (1 s1 digest)
  note v = jobs_viewD [OF 1(1)]
  show ?case
  proof (cases "job_by_idempotency ctx (je_definition_id c) (je_idempotency_key c) s1")
    case (Some j)
    then have j: "j \<in> set (job_instances s1)" "workspace_id j = ctx_workspace ctx"
      "ji_definition_id j = je_definition_id c" "ji_idempotency_key j = je_idempotency_key c"
      unfolding job_by_idempotency_def by (auto dest!: find_SomeD)
    show ?thesis unfolding Some option.case
      by (intro run_rules post) (use j v 1(3) in simp_all)
  next
    case None
    then have none: "job_by_idempotency ctx (je_definition_id c) (je_idempotency_key c) s = None"
      by (simp add: job_by_idempotency_def v)
    show ?thesis unfolding None option.case
    proof (intro run_rules, rule run_view [OF keeps_view_of_rest [OF keeps_or_now]], intro run_rules, rule run_add_queued,
        goal_cases)
      case (7 t s2 payload s3)
      note w = jobs_viewD [OF 7(1)]
      have jobs: "job_instances s3 = job_instances s2 @ [queued_job ctx c digest payload t]"
        "job_dead_letters s3 = job_dead_letters s2"
        using arg_cong [OF 7(6), of jt_jobs] arg_cong [OF 7(6), of jt_letters] by simp_all
      show ?case
      proof (intro run_rules, rule run_record_job, rule run_return)
        fix s4 :: "'a job_db_scheme" assume "jobs_view s4 = jobs_view s3"
        from jobs_viewD [OF this] show "Q (queued_job ctx c digest payload t) s4"
          using 7(5) jobs v w none 1(3) by (intro post) (auto simp: queued_job_def intro: r_into_rtranclp)
      qed
    qed (use inv v in \<open>auto dest: jobs_viewD(1) simp: queued_job_def\<close>)
  qed
qed

lemma run_replay:
  assumes inv: "job_inv (tables_of s)" and post: "\<And>j s'. job_steps (tables_of s) (tables_of s') \<Longrightarrow> Q j s'"
  shows "wp (replay_job env ask ctx i new_id key reason now) Q any_error s"
  unfolding replay_job_def Let_def
proof (intro run_rules, rule run_authorized, intro run_rules, rule run_require_job, intro run_rules, rule run_enqueue, goal_cases)
  case (1 s1 j letter command)
  show ?case using inv by (simp add: jobs_viewD(1) [OF 1(1)])
next
  case (2 s1 j letter command queued s2)
  note v = jobs_viewD [OF 2(1)]
  have l: "letter \<in> set (job_dead_letters s2)" using 2(6,13) by (auto simp: find_dead_letter_def v dest!: find_SomeD)
  have t2: "job_steps (tables_of s) (tables_of s2)" using 2(10) v by simp
  have inv2: "job_inv (tables_of s2)" by (rule job_steps_inv [OF t2 inv])
  have j: "j \<in> set (job_instances s2)" using 2(2,12) v by auto
  define replay where "replay = queued\<lparr>ji_replay_of_job_id := Some (ji_id j)\<rparr>"
  define held where "held = (if ji_id queued = ji_id j then replay else j)"
  define j' where "j' = held\<lparr>ji_state_version := ji_state_version held + 1, ji_updated_at := now\<rparr>"
  show ?case
    unfolding replay_def [symmetric] held_def [symmetric] j'_def [symmetric]
  proof (rule run_then, rule run_touch [OF inv2 2(11)], goal_cases)
    case (8 s3)
    have t3: "job_steps (tables_of s) (tables_of s3)" using t2 8(1) by simp
    have inv3: "job_inv (tables_of s3)" by (rule job_steps_inv [OF t3 inv])
    have held3: "held \<in> set (job_instances s3)" using 8(3) j by (auto simp: held_def)
    show ?case
    proof (intro run_rules, rule run_save_dead_letter, goal_cases)
      case (1 s4)
      define l' where "l' = letter\<lparr>dl_status := DL_REPLAYED, dl_replayed_at := Some now,
        dl_replayed_by_user_id := Some (ctx_actor ctx), dl_replay_job_id := Some (ji_id replay), dl_replay_reason := Some (py_strip reason)\<rparr>"
      have t4: "tables_of s4 = (tables_of s3)\<lparr>jt_letters := replace_row dl_pk l' (jt_letters (tables_of s3))\<rparr>"
        using 1 by (simp add: l'_def jobs_view_def)
      have "job_step (tables_of s3) (tables_of s4)"
        unfolding t4 by (rule job_step.letter [of letter]) (use l 8(4) in \<open>simp_all add: l'_def tenant_of_def\<close>)
      then have st4: "job_steps (tables_of s) (tables_of s4)" using t3 by simp
      have inv4: "job_inv (tables_of s4)" by (rule job_steps_inv [OF st4 inv])
      have held4: "held \<in> set (job_instances s4)" using held3 arg_cong [OF t4, of jt_jobs] by simp
      show ?case
      proof (rule run_then, rule run_touch [OF inv4 held4], goal_cases)
        case (8 s5)
        then have "job_steps (tables_of s) (tables_of s5)" using st4 by simp
        then show ?case by (intro run_rules run_record_job post) (auto dest!: jobs_viewD(1))
      qed (simp_all add: j'_def same_job_def tenant_of_def)
    qed
  qed (simp_all add: replay_def same_job_def tenant_of_def)
qed

lemma keeps_require_authorized: "keeps jobs_view (require_authorized ask ctx p)"
  unfolding require_authorized_def by (intro frame_intros keeps_view_of_rest [OF ask_frame])

lemmas keeps_jobs_view = keeps_require_authorized keeps_view_of_rest [OF keeps_or_now] keeps_view_of_rest [OF keeps_uuid4]
  keeps_view_of_rest [OF keeps_record_change]

lemma keeps_set_paused: "keeps jobs_view (set_paused env ask ctx kind ref paused reason version now)"
  unfolding set_paused_def Let_def by (intro frame_intros keeps_jobs_view)

lemma keeps_set_schedule_paused: "keeps jobs_view (set_schedule_paused env ask ctx i paused reason version now)"
  unfolding set_schedule_paused_def Let_def by (intro frame_intros keeps_jobs_view)

lemma keeps_register_schedule: "keeps jobs_view (register_schedule env ask ctx spec command payload pre deadline now)"
  unfolding register_schedule_def Let_def by (intro frame_intros keeps_jobs_view)

lemma run_enqueue_occurrence:
  assumes "job_inv (tables_of s)" "\<And>j s'. job_steps (tables_of s) (tables_of s') \<Longrightarrow> Q j s'"
  shows "wp (enqueue_occurrence env ask ctx now schedule occurrence) Q any_error s"
  unfolding enqueue_occurrence_def
proof (intro run_rules, rule run_frame [OF keeps_uuid4], intro run_rules, rule run_enqueue, goal_cases)
  case (1 i s1 c)
  show ?case using assms(1) by (simp add: jobs_viewD(1) [OF 1(1)])
next
  case (2 i s1 c j s2)
  show ?case using 2(3) by (intro assms(2)) (simp add: jobs_viewD(1) [OF 2(1)])
qed

lemma run_dispatch_schedule:
  assumes inv: "job_inv (tables_of s)" and post: "\<And>js s'. job_steps (tables_of s) (tables_of s') \<Longrightarrow> Q js s'"
  shows "wp (dispatch_schedule env ask ctx now schedule) Q any_error s"
  unfolding dispatch_schedule_def Let_def
proof (intro run_rules, rule run_mono [where Q = "\<lambda>_ s'. job_steps (tables_of s) (tables_of s')"], goal_cases)
  case (1 spec due)
  show ?case
  proof (rule wp_mapM)
    fix x and u :: "'a job_db_scheme"
    assume u: "job_steps (tables_of s) (tables_of u)"
    show "wp (enqueue_occurrence env ask ctx now schedule x) (\<lambda>_ s'. job_steps (tables_of s) (tables_of s')) any_error u"
      by (rule run_enqueue_occurrence [OF job_steps_inv [OF u inv]]) (rule rtranclp_trans [OF u])
  qed simp
next
  case 2
  then show ?case
    by (intro run_rules run_view [OF keeps_save_schedule] run_frame [OF keeps_record_change] post) (auto dest!: jobs_viewD(1))
qed

lemma run_dispatch_due:
  assumes inv: "job_inv (tables_of s)" and post: "\<And>js s'. job_steps (tables_of s) (tables_of s') \<Longrightarrow> Q js s'"
  shows "wp (dispatch_due_schedules env ask ctx now) Q any_error s"
  unfolding dispatch_due_schedules_def
proof (intro run_rules, rule run_authorized, intro run_rules,
    rule run_mono [where Q = "\<lambda>_ s'. job_steps (tables_of s) (tables_of s')"], goal_cases)
  case (1 s1)
  show ?case
  proof (rule wp_mapM)
    fix x and u :: "'a job_db_scheme"
    assume u: "job_steps (tables_of s) (tables_of u)"
    show "wp (dispatch_schedule env ask ctx now x) (\<lambda>_ s'. job_steps (tables_of s) (tables_of s')) any_error u"
      by (rule run_dispatch_schedule [OF job_steps_inv [OF u inv]]) (rule rtranclp_trans [OF u])
  qed (simp add: jobs_viewD [OF 1])
next
  case 2
  then show ?case by (intro run_rules post)
qed

end

interpretation h1_jobs: job_authorizer env "h1_authorize env" for env
  by (rule job_authorizer.intro) (rule h1.authorizer_axioms)

end
