(* ===== verification/Durable_Worker.thy ===== *)
theory Durable_Worker
  imports Job_Refinement
begin

text \<open>
  \<open>DurableWorker\<close> of \<open>app/workers/durable.py\<close>: one claim, run through the registered handler of
  its definition. A handler is code that is passed in: a coroutine on the session that returns the
  digest of its result or raises \<open>TypedJobFailure\<close> (both are a \<open>handler_outcome\<close>), or raises
  another exception.

  Shown here: a run leaves no job running that was not running before.
\<close>

datatype handler_outcome = Handler_result string | Typed_failure failure_category string

type_synonym 's job_handler = "job_lease \<Rightarrow> ('s, handler_outcome) M"

text \<open>\<open>try: m\<close> with the exception as a value.\<close>

definition tryM :: "('s, 'a) M \<Rightarrow> ('s, py_error + 'a) M" where
  "tryM m = (\<lambda>s. case m s of (r, s') \<Rightarrow> (Inr r, s'))"

text \<open>
  An error of the database leaves the transaction aborted; the next statement in it raises
  \<open>PendingRollbackError\<close>, a subclass of \<open>InvalidRequestError\<close>.
\<close>

fun aborts_transaction :: "py_error \<Rightarrow> bool" where
  "aborts_transaction (IntegrityError _) = True"
| "aborts_transaction (RaisedByDatabase _) = True"
| "aborts_transaction _ = False"

definition settle :: "py_env \<Rightarrow> 'a job_db_scheme authorizer \<Rightarrow> execution_context \<Rightarrow> string \<Rightarrow> instant \<Rightarrow> job_lease \<Rightarrow>
    py_error + handler_outcome \<Rightarrow> ('a job_db_scheme, unit) M" where
  "settle env ask ctx worker_id now lease outcome =
     (case outcome of
        Inr (Typed_failure category code) \<Rightarrow>
          bindM (fail env ask ctx (le_job_id lease) worker_id category code now) (\<lambda>_. returnM ())
      | Inl e \<Rightarrow>
          if is_job_error e then raiseM e
          else if aborts_transaction e then raiseM InvalidRequestError
          else bindM (fail env ask ctx (le_job_id lease) worker_id POISON ''untyped_handler_failure'' now) (\<lambda>_. returnM ())
      | Inr (Handler_result digest) \<Rightarrow>
          bindM (succeed env ask ctx (le_job_id lease) worker_id digest now) (\<lambda>_. returnM ()))"

definition run_once :: "py_env \<Rightarrow> 'a job_db_scheme authorizer \<Rightarrow> execution_context \<Rightarrow>
    (string \<times> 'a job_db_scheme job_handler) list \<Rightarrow> string \<Rightarrow> instant \<Rightarrow> ('a job_db_scheme, bool) M" where
  "run_once env ask ctx handlers worker_id now =
     bindM (claim_next env ask ctx worker_id now 30) (\<lambda>claimed.
     case claimed of
       None \<Rightarrow> returnM False
     | Some lease \<Rightarrow>
         (case map_of handlers (le_handler_key lease) of
            None \<Rightarrow>
              bindM (fail env ask ctx (le_job_id lease) worker_id PERMANENT ''handler_not_registered'' now) (\<lambda>_.
              returnM True)
          | Some handler \<Rightarrow>
              bindM (tryM (handler lease)) (\<lambda>outcome.
              thenM (settle env ask ctx worker_id now lease outcome)
              (returnM True))))"

section \<open>Its run on the tables\<close>

text \<open>What is asked of the handlers: they leave the tables of jobs to the worker.\<close>

definition handlers_ok :: "(string \<times> 'a job_db_scheme job_handler) list \<Rightarrow> bool" where
  "handlers_ok handlers \<longleftrightarrow> (\<forall>(k, h) \<in> set handlers. \<forall>lease. keeps jobs_view (h lease))"

lemma keeps_tryM [frame_intros]: "keeps v m \<Longrightarrow> keeps v (tryM m)"
  by (simp add: keeps_def tryM_def split: prod.splits) (metis snd_conv)

lemma run_try: "keeps jobs_view m \<Longrightarrow> (\<And>r s'. jobs_view s' = jobs_view s \<Longrightarrow> Q r s') \<Longrightarrow> wp (tryM m) Q any_error s"
  by (rule run_view [OF keeps_tryM])

text \<open>The end of a job takes its key from the running ones.\<close>

definition settled :: "'a job_db_scheme \<Rightarrow> job_instance \<Rightarrow> 'a job_db_scheme \<Rightarrow> bool" where
  "settled s j s' \<longleftrightarrow> job_step (tables_of s) (tables_of s') \<and> running_keys s' \<subseteq> running_keys s - {ji_pk j}"

context job_authorizer
begin

text \<open>Of one workspace and one identifier there is one job.\<close>

lemma same_job_in_workspace:
  assumes "job_inv (tables_of s)" "j \<in> set (job_instances s)" "k \<in> set (job_instances s)"
    and "workspace_id j = workspace_id k" "ji_id j = ji_id k"
  shows "j = k"
proof -
  have ok: "tenants_ok (tables_of s)" "keys_ok (tables_of s)" using assms(1) by (simp_all add: job_inv_def)
  have "tenant_of j = tenant_of k"
    using assms(2-4) by (intro same_tenant [OF ok(1)] tenant_of_row(2) [OF ok(1)]) simp_all
  then show ?thesis using assms by (intro unique_job [OF ok(2)]) (simp_all add: ji_pk_eq)
qed

lemma running_keys_without:
  assumes "set (job_instances s') = insert k' (set (job_instances s) - {k})" "ji_status k' \<noteq> RUNNING" "k = j"
    and "\<And>i. i \<in> set (job_instances s) \<Longrightarrow> i \<noteq> j \<Longrightarrow> ji_pk i \<noteq> ji_pk j"
  shows "running_keys s' \<subseteq> running_keys s - {ji_pk j}"
proof (rule subsetI)
  fix x assume "x \<in> running_keys s'"
  then obtain i where "x = ji_pk i" "i \<in> set (job_instances s')" "ji_status i = RUNNING"
    by (auto simp: running_keys_def)
  moreover from this have "i \<in> set (job_instances s)" "i \<noteq> j" using assms(1,2,3) by auto
  ultimately show "x \<in> running_keys s - {ji_pk j}" using assms(4) by (simp add: running_keys_def)
qed

lemma settledI:
  assumes inv: "job_inv (tables_of s)" and j: "j \<in> set (job_instances s)" "workspace_id j = ctx_workspace ctx"
    and k: "k \<in> set (job_instances s)" "ji_id k = ji_id j" "workspace_id k = ctx_workspace ctx"
    and step: "job_step (tables_of s) (tables_of s')"
    and jobs: "set (job_instances s') = insert k' (set (job_instances s) - {k})" "ji_status k' \<noteq> RUNNING"
  shows "settled s j s'"
proof -
  have "k = j" by (rule same_job_in_workspace [OF inv k(1) j(1)]) (simp_all add: j k)
  moreover have "ji_pk i \<noteq> ji_pk j" if "i \<in> set (job_instances s)" "i \<noteq> j" for i
    using unique_job [of "tables_of s" i j] inv that j(1) by (auto simp: job_inv_def)
  ultimately have "running_keys s' \<subseteq> running_keys s - {ji_pk j}"
    by (intro running_keys_without [OF jobs])
  then show ?thesis using step by (simp add: settled_def)
qed

lemma run_settle:
  assumes inv: "job_inv (tables_of s)" and j: "j \<in> set (job_instances s)" "workspace_id j = ctx_workspace ctx"
    and le: "le_job_id lease = ji_id j" and post: "\<And>s'. settled s j s' \<Longrightarrow> Q () s'"
  shows "wp (settle env ask ctx worker now lease outcome) Q any_error s"
proof -
  have failed: "wp (bindM (fail env ask ctx (le_job_id lease) worker category code now) (\<lambda>_. returnM ())) Q any_error s"
    for category code
    by (intro run_rules run_fail [OF inv] post settledI [OF inv j]) (auto simp: le)
  have succeeded: "wp (bindM (succeed env ask ctx (le_job_id lease) worker digest now) (\<lambda>_. returnM ())) Q any_error s"
    for digest
    by (intro run_rules run_succeed [OF inv] post settledI [OF inv j]) (auto simp: le)
  show ?thesis
    unfolding settle_def
    by (auto split: sum.splits handler_outcome.splits intro!: failed succeeded run_raise)
qed

lemma run_run_once:
  assumes inv: "job_inv (tables_of s)" and handlers: "handlers_ok handlers"
    and post: "\<And>b s'. job_steps (tables_of s) (tables_of s') \<Longrightarrow> running_keys s' \<subseteq> running_keys s \<Longrightarrow> Q b s'"
  shows "wp (run_once env ask ctx handlers worker now) Q any_error s"
  unfolding run_once_def
proof (intro run_rules, rule run_claim_next [OF inv])
  fix claimed and s1 :: "'a job_db_scheme"
  assume steps: "job_steps (tables_of s) (tables_of s1)" and lease: "claimed_lease ctx (py_strip worker) now claimed s1 (running_keys s)"
  have inv1: "job_inv (tables_of s1)" by (rule job_steps_inv [OF steps inv])
  show "wp (case claimed of None \<Rightarrow> returnM False | Some lease \<Rightarrow>
      (case map_of handlers (le_handler_key lease) of
         None \<Rightarrow> bindM (fail env ask ctx (le_job_id lease) worker PERMANENT ''handler_not_registered'' now) (\<lambda>_. returnM True)
       | Some handler \<Rightarrow> bindM (tryM (handler lease)) (\<lambda>outcome.
           thenM (settle env ask ctx worker now lease outcome) (returnM True)))) Q any_error s1"
  proof (cases claimed)
    case None
    then show ?thesis using lease steps by (auto simp: claimed_lease_def intro!: run_return post)
  next
    case (Some le)
    then obtain j d where j: "claimable ctx now j" "ji_id j = le_job_id le"
      "claimed_job j (py_strip worker) now 30 \<in> set (job_instances s1)" "running_keys s1 \<subseteq> insert (ji_pk j) (running_keys s)"
      using lease by (auto simp: claimed_lease_def)
    let ?j = "claimed_job j (py_strip worker) now 30"
    have id: "le_job_id le = ji_id ?j" "workspace_id ?j = ctx_workspace ctx" "ji_pk ?j = ji_pk j"
      using j(1,2) same_job_pk [OF claimed_same] by (simp_all add: claimed_job_def claimable_def)
    have fin: "Q b s2" if "settled u ?j s2" "jobs_view u = jobs_view s1" for b s2 and u :: "'a job_db_scheme"
    proof -
      note v = jobs_viewD [OF that(2)]
      have "running_keys u = running_keys s1" by (simp add: running_keys_def v)
      then show ?thesis using that(1) steps j(4) id(3) v by (intro post) (auto simp: settled_def)
    qed
    show ?thesis
    proof (cases "map_of handlers (le_handler_key le)")
      case None
      have "wp (fail env ask ctx (le_job_id le) worker PERMANENT ''handler_not_registered'' now)
          (\<lambda>_. wp (returnM True) Q any_error) any_error s1"
        by (intro run_fail [OF inv1] run_rules fin [of s1] settledI [OF inv1 j(3) id(2)]) (auto simp: id)
      then show ?thesis using Some None by (simp add: run_bind)
    next
      case (Some h)
      then have "keeps jobs_view (h le)" using handlers by (auto simp: handlers_ok_def dest!: map_of_SomeD)
      then have "wp (tryM (h le)) (\<lambda>outcome. wp (thenM (settle env ask ctx worker now le outcome) (returnM True)) Q any_error)
          any_error s1"
      proof (rule run_try, intro run_rules)
        fix outcome and u :: "'a job_db_scheme" assume u: "jobs_view u = jobs_view s1"
        note v = jobs_viewD [OF u]
        show "wp (settle env ask ctx worker now le outcome) (\<lambda>_. wp (returnM True) Q any_error) any_error u"
          by (rule run_settle [where j = ?j]) (use inv1 j(3) id v u in \<open>auto intro!: run_return fin\<close>)
      qed
      then show ?thesis using \<open>claimed = Some le\<close> Some by (simp add: run_bind)
    qed
  qed
qed

end

end
