(* ===== verification/Job_Audit.thy ===== *)
theory Job_Audit
  imports Durable_Worker
begin

text \<open>
  Every operation of durable execution keeps the audit log verifiable, also when it raises: the
  log is written only through the audit writer and the authorizer.
\<close>

lemma audit_inv_same:
  "audit_events s' = audit_events s \<Longrightarrow> audit_chain_heads s' = audit_chain_heads s \<Longrightarrow> audit_inv env s \<Longrightarrow> audit_inv env s'"
  by (simp add: audit_inv_def audit_inv_at_def workspace_audit_def audit_head_def)

lemma preserves_table_write:
  "(\<And>s. audit_events (f s) = audit_events s \<and> audit_chain_heads (f s) = audit_chain_heads s) \<Longrightarrow>
   preserves (audit_inv env) (modifyM f)"
  unfolding preserves_wp wp_modifyM by (blast intro: audit_inv_same)

lemma preserves_require_workspace [inv_intros]: "preserves I (require_workspace ctx w)"
  unfolding require_workspace_def by (intro inv_intros)

lemma preserves_add_row:
  "(\<And>s. audit_events (put s) = audit_events s \<and> audit_chain_heads (put s) = audit_chain_heads s) \<Longrightarrow>
   preserves (audit_inv env) (add_row ctx w cs put)"
  unfolding add_row_def by (intro inv_intros preserves_table_write)

lemma preserves_adds [inv_intros]:
  "preserves (audit_inv env) (add_definition ctx d)" "preserves (audit_inv env) (add_job ctx j)"
  "preserves (audit_inv env) (add_attempt ctx a)" "preserves (audit_inv env) (add_dead_letter ctx l)"
  "preserves (audit_inv env) (add_schedule ctx x)" "preserves (audit_inv env) (add_control ctx y)"
  unfolding add_definition_def add_job_def add_attempt_def add_dead_letter_def add_schedule_def add_control_def
  by (rule preserves_add_row; simp)+

lemma preserves_saves [inv_intros]:
  "preserves (audit_inv env) (save_job j)" "preserves (audit_inv env) (save_attempt a)"
  "preserves (audit_inv env) (save_dead_letter l)" "preserves (audit_inv env) (save_schedule x)"
  "preserves (audit_inv env) (save_control y)"
  unfolding save_job_def save_attempt_def save_dead_letter_def save_schedule_def save_control_def
  by (intro inv_intros preserves_table_write; simp)+

lemma preserves_record_change [inv_intros]: "preserves (audit_inv env) (record_change env ctx i n e a now)"
  unfolding record_change_def by (intro inv_intros)

lemma preserves_record_job [inv_intros]: "preserves (audit_inv env) (record_job env ctx j e now)"
  unfolding record_job_def by (intro inv_intros)

lemma preserves_guards [inv_intros]:
  "preserves I (require_job ctx i)" "preserves I (require_definition ctx i)" "preserves I (require_attempt ctx j)"
  unfolding require_job_def require_definition_def require_attempt_def by (intro inv_intros)+

lemma preserves_lock_enqueue_boundary [inv_intros]: "preserves I (lock_enqueue_boundary ctx d k)"
  unfolding lock_enqueue_boundary_def by (intro inv_intros)

lemma preserves_dead_letter_job [inv_intros]: "preserves (audit_inv env) (dead_letter_job env ctx j c e now)"
  unfolding dead_letter_job_def Let_def by (intro inv_intros)

lemma preserves_end_attempt [inv_intros]: "preserves (audit_inv env) (end_attempt env ctx j a c e ev now)"
  unfolding end_attempt_def Let_def by (intro inv_intros)

lemma preserves_sweeps [inv_intros]:
  "preserves (audit_inv env) (recover_expired env ctx now)" "preserves (audit_inv env) (expire_waiting env ctx now)"
  unfolding recover_expired_def recover_job_def expire_waiting_def expire_job_def Let_def by (intro inv_intros)+

lemma preserves_claim_job [inv_intros]: "preserves (audit_inv env) (claim_job env ctx w now n j d)"
  unfolding claim_job_def Let_def by (intro inv_intros)

lemma preserves_tryM [inv_intros]: "preserves I m \<Longrightarrow> preserves I (tryM m)"
  by (simp add: preserves_def tryM_def split: prod.splits) (metis snd_conv)

lemma preserves_case_sum [inv_intros]:
  "(\<And>e. x = Inl e \<Longrightarrow> preserves I (f e)) \<Longrightarrow> (\<And>y. x = Inr y \<Longrightarrow> preserves I (g y)) \<Longrightarrow>
   preserves I (case x of Inl e \<Rightarrow> f e | Inr y \<Rightarrow> g y)"
  by (simp split: sum.splits)

context job_authorizer
begin

lemma preserves_authorized [inv_intros]: "preserves (audit_inv env) (require_authorized ask ctx p)"
  unfolding require_authorized_def by (intro inv_intros ask_audit)

lemma preserves_leased [inv_intros]: "preserves (audit_inv env) (leased_job ask ctx i w now)"
  unfolding leased_job_def by (intro inv_intros)

lemma preserves_register_definition: "preserves (audit_inv env) (register_definition env ask ctx spec now)"
  unfolding register_definition_def Let_def by (intro inv_intros)

lemma preserves_enqueue [inv_intros]: "preserves (audit_inv env) (enqueue env ask ctx c now)"
  unfolding enqueue_def Let_def by (intro inv_intros)

lemma preserves_claim_next [inv_intros]: "preserves (audit_inv env) (claim_next env ask ctx w now n)"
  unfolding claim_next_def Let_def by (intro inv_intros)

lemma preserves_heartbeat: "preserves (audit_inv env) (heartbeat env ask ctx i w now)"
  unfolding heartbeat_def Let_def by (intro inv_intros)

lemma preserves_succeed [inv_intros]: "preserves (audit_inv env) (succeed env ask ctx i w d now)"
  unfolding succeed_def Let_def by (intro inv_intros)

lemma preserves_fail [inv_intros]: "preserves (audit_inv env) (fail env ask ctx i w c e now)"
  unfolding fail_def Let_def by (intro inv_intros)

lemma preserves_cancel: "preserves (audit_inv env) (cancel env ask ctx i reason now)"
  unfolding cancel_def Let_def by (intro inv_intros)

lemma preserves_replay: "preserves (audit_inv env) (replay_job env ask ctx i new_id k reason now)"
  unfolding replay_job_def Let_def by (intro inv_intros)

lemma preserves_controls:
  "preserves (audit_inv env) (set_paused env ask ctx kind ref paused reason version now)"
  "preserves (audit_inv env) (set_schedule_paused env ask ctx i paused reason version now)"
  "preserves (audit_inv env) (register_schedule env ask ctx spec command payload pre deadline now)"
  unfolding set_paused_def set_schedule_paused_def register_schedule_def Let_def by (intro inv_intros)+

lemma preserves_dispatch_due: "preserves (audit_inv env) (dispatch_due_schedules env ask ctx now)"
  unfolding dispatch_due_schedules_def dispatch_schedule_def enqueue_occurrence_def Let_def by (intro inv_intros)+

lemma preserves_settle [inv_intros]: "preserves (audit_inv env) (settle env ask ctx w now lease outcome)"
  unfolding settle_def by (auto split: sum.splits handler_outcome.splits intro!: inv_intros)

lemma preserves_run_once:
  assumes "\<forall>(k, h) \<in> set handlers. \<forall>lease. preserves (audit_inv env) (h lease)"
  shows "preserves (audit_inv env) (run_once env ask ctx handlers w now)"
  unfolding run_once_def by (intro inv_intros) (use assms in \<open>auto dest!: map_of_SomeD\<close>)

end

end
