(* ===== verification/Job_Properties.thy ===== *)
theory Job_Properties
  imports Job_Audit Example_World
begin

text \<open>
  The properties of durable execution. \<open>job_calls\<close> are the states that calls of the service and
  runs of workers reach, each in a transaction of its own under some execution context, with the
  default authorizer; the operations of other components may come in between.
\<close>

section \<open>Calls\<close>

datatype job_call =
    Register_definition job_definition_spec "instant option"
  | Enqueue job_enqueue "instant option"
  | Claim_next string instant int
  | Heartbeat uuid string instant
  | Succeed uuid string string instant
  | Fail uuid string failure_category string instant
  | Cancel uuid string "instant option"
  | Replay uuid uuid string string instant
  | Set_paused string string bool string int "instant option"
  | Set_schedule_paused uuid bool string int "instant option"
  | Register_schedule schedule_spec string json string int "instant option"
  | Dispatch_due_schedules instant

definition ignoring :: "('s, 'x) M \<Rightarrow> ('s, unit) M" where
  "ignoring m = bindM m (\<lambda>_. returnM ())"

fun run_call :: "py_env \<Rightarrow> execution_context \<Rightarrow> job_call \<Rightarrow> ('a job_db_scheme, unit) M" where
  "run_call env ctx (Register_definition spec now) = ignoring (register_definition env (h1_authorize env) ctx spec now)"
| "run_call env ctx (Enqueue c now) = ignoring (enqueue env (h1_authorize env) ctx c now)"
| "run_call env ctx (Claim_next worker now n) = ignoring (claim_next env (h1_authorize env) ctx worker now n)"
| "run_call env ctx (Heartbeat i worker now) = heartbeat env (h1_authorize env) ctx i worker now"
| "run_call env ctx (Succeed i worker digest now) = ignoring (succeed env (h1_authorize env) ctx i worker digest now)"
| "run_call env ctx (Fail i worker category code now) = ignoring (fail env (h1_authorize env) ctx i worker category code now)"
| "run_call env ctx (Cancel i reason now) = ignoring (cancel env (h1_authorize env) ctx i reason now)"
| "run_call env ctx (Replay i new_id key reason now) = ignoring (replay_job env (h1_authorize env) ctx i new_id key reason now)"
| "run_call env ctx (Set_paused kind ref paused reason version now) =
     ignoring (set_paused env (h1_authorize env) ctx kind ref paused reason version now)"
| "run_call env ctx (Set_schedule_paused i paused reason version now) =
     ignoring (set_schedule_paused env (h1_authorize env) ctx i paused reason version now)"
| "run_call env ctx (Register_schedule spec command payload pre deadline now) =
     ignoring (register_schedule env (h1_authorize env) ctx spec command payload pre deadline now)"
| "run_call env ctx (Dispatch_due_schedules now) = ignoring (dispatch_due_schedules env (h1_authorize env) ctx now)"

inductive job_calls :: "py_env \<Rightarrow> 'a job_db_scheme \<Rightarrow> 'a job_db_scheme \<Rightarrow> bool" for env and s where
  start: "job_calls env s s"
| call: "job_calls env s s' \<Longrightarrow> job_calls env s (snd (transaction ctx (run_call env ctx c) s'))"
| work: "job_calls env s s' \<Longrightarrow> handlers_ok handlers \<Longrightarrow> (\<forall>(k, h) \<in> set handlers. \<forall>lease. preserves (audit_inv env) (h lease)) \<Longrightarrow>
    job_calls env s (snd (transaction ctx (run_once env (h1_authorize env) ctx handlers worker now) s'))"
| other: "job_calls env s s' \<Longrightarrow> keeps jobs_view m \<Longrightarrow> preserves (audit_inv env) m \<Longrightarrow>
    job_calls env s (snd (transaction ctx (m :: ('a job_db_scheme, unit) M) s'))"

section \<open>The tables along calls\<close>

lemma transaction_keeps_audit:
  assumes "preserves (audit_inv env) body" "audit_inv env s"
  shows "audit_inv env (snd (transaction ctx body s))"
proof (rule transaction_invariant [of "audit_inv env", OF assms(2)])
  fix x and s1 :: "'a core_db_scheme"
  assume "body (started ctx s) = (Inr x, s1)" "audit_inv env (started ctx s)"
  then show "audit_inv env s1" using assms(1) unfolding preserves_def by (metis snd_conv)
qed (rule audit_inv_same)

lemma run_ignoring: "wp m (\<lambda>_. Q ()) any_error s \<Longrightarrow> wp (ignoring m) Q any_error s"
  by (simp add: ignoring_def wp_simps)

lemma run_call_steps:
  assumes inv: "job_inv (tables_of s)"
  shows "wp (run_call env ctx c) (\<lambda>_ s'. job_steps (tables_of s) (tables_of s')) any_error s"
proof -
  have view: "wp (ignoring m) (\<lambda>_ s'. job_steps (tables_of s) (tables_of s')) any_error s"
    if "keeps jobs_view m" for m :: "('a job_db_scheme, 'x) M"
    unfolding ignoring_def by (intro run_bind run_view [OF that] run_return, drule jobs_viewD(1), simp)
  note runs = h1_jobs.run_register_definition h1_jobs.run_enqueue h1_jobs.run_claim_next h1_jobs.run_succeed h1_jobs.run_fail
    h1_jobs.run_cancel h1_jobs.run_replay h1_jobs.run_dispatch_due
  note kept = h1_jobs.keeps_set_paused h1_jobs.keeps_set_schedule_paused h1_jobs.keeps_register_schedule
  show ?thesis
  proof (cases c)
    case (Heartbeat i worker now)
    then show ?thesis by (simp add: h1_jobs.run_heartbeat [OF inv])
  next
    case (Set_paused kind ref paused reason version now)
    then show ?thesis by (simp add: view kept)
  next
    case (Set_schedule_paused i paused reason version now)
    then show ?thesis by (simp add: view kept)
  next
    case (Register_schedule spec command payload pre deadline now)
    then show ?thesis by (simp add: view kept)
  qed (simp_all only: run_call.simps, (rule run_ignoring, rule runs [OF inv], (auto) [1])+)
qed

lemma transaction_steps:
  assumes inv: "job_inv (tables_of s)"
    and body: "\<And>s. job_inv (tables_of s) \<Longrightarrow> wp body (\<lambda>_ s'. job_steps (tables_of s) (tables_of s')) any_error s"
  shows "job_steps (tables_of s) (tables_of (snd (transaction ctx body s)))"
proof (cases rule: transaction_cases [of s ctx body])
  case (committed x s1)
  have "rest_part u = rest_part u" for u :: "'a job_db_scheme" by simp
  have start: "tables_of (started ctx s) = tables_of s" by (simp add: tables_of_def started_def with_context_def)
  have "job_steps (tables_of (started ctx s)) (tables_of s1)"
    by (rule wp_Inr [OF body committed(3)]) (simp add: start inv)
  moreover have "tables_of (Execution_Context.committed s s1) = tables_of s1" by (simp add: tables_of_def committed_def)
  ultimately show ?thesis using committed(4) start by simp
next
  case (rolled_back e d c)
  then show ?thesis by (simp add: tables_of_def)
qed

lemma job_calls_steps:
  assumes "job_calls env s s'" "job_inv (tables_of s)"
  shows "job_steps (tables_of s) (tables_of s')"
  using assms
proof (induction rule: job_calls.induct)
  case start
  then show ?case by simp
next
  case (call s' ctx c)
  then have "job_inv (tables_of s')" using job_steps_inv by blast
  then have "job_steps (tables_of s') (tables_of (snd (transaction ctx (run_call env ctx c) s')))"
    by (rule transaction_steps) (rule run_call_steps)
  with call show ?case by (meson rtranclp_trans)
next
  case (work s' handlers ctx worker now)
  then have "job_inv (tables_of s')" using job_steps_inv by blast
  then have "job_steps (tables_of s') (tables_of (snd (transaction ctx
      (run_once env (h1_authorize env) ctx handlers worker now) s')))"
    by (rule transaction_steps) (rule h1_jobs.run_run_once [OF _ work(2)])
  with work show ?case by (meson rtranclp_trans)
next
  case (other s' m ctx)
  then have "job_inv (tables_of s')" using job_steps_inv by blast
  then have "job_steps (tables_of s') (tables_of (snd (transaction ctx m s')))"
    by (rule transaction_steps) (rule run_view [OF other(2)], drule jobs_viewD(1), simp)
  with other show ?case by (meson rtranclp_trans)
qed


lemma job_calls_audit:
  assumes "job_calls env s s'" "audit_inv env s"
  shows "audit_inv env s'"
  using assms
proof (induction rule: job_calls.induct)
  case (call s' ctx c)
  have "preserves (audit_inv env) (run_call env ctx c)"
    by (cases c) (auto simp: ignoring_def intro!: inv_intros h1_jobs.preserves_register_definition h1_jobs.preserves_enqueue
        h1_jobs.preserves_claim_next h1_jobs.preserves_heartbeat h1_jobs.preserves_succeed h1_jobs.preserves_fail
        h1_jobs.preserves_cancel h1_jobs.preserves_replay h1_jobs.preserves_controls h1_jobs.preserves_dispatch_due)
  then show ?case using call by (intro transaction_keeps_audit) auto
next
  case (work s' handlers ctx worker now)
  then show ?case by (intro transaction_keeps_audit h1_jobs.preserves_run_once) auto
next
  case (other s' m ctx)
  then show ?case by (intro transaction_keeps_audit) auto
qed

section \<open>The properties\<close>

definition no_jobs :: "'a job_db_scheme \<Rightarrow> bool" where
  "no_jobs s \<longleftrightarrow> job_definitions s = [] \<and> job_instances s = [] \<and> job_attempts s = [] \<and> job_dead_letters s = [] \<and>
     distinct (map ws_id (workspaces s))"

lemma no_jobs_inv: "no_jobs s \<Longrightarrow> job_inv (tables_of s)"
  by (simp add: no_jobs_def job_inv_def job_inv_parts running_in_def running_for_def count_rows_def comp_def)

lemma jobs_consistent:
  assumes "no_jobs s" "job_calls env s s'"
  shows "job_inv (tables_of s')"
  using job_calls_steps [OF assms(2) no_jobs_inv [OF assms(1)]] no_jobs_inv [OF assms(1)] by (rule job_steps_inv)

text \<open>A world with a workspace and no jobs.\<close>

definition jobless_world :: job_db where
  "jobless_world = example_world (job_db_ext [] [] [] [] [] [] ())"

lemma jobless_world: "no_jobs jobless_world" "audit_inv env jobless_world"
  by (simp_all add: no_jobs_def jobless_world_def example_world_def audit_inv_def audit_inv_at_def
      workspace_audit_def audit_head_def)

abbreviation example_claim :: "job_db \<Rightarrow> job_db" where
  "example_claim s \<equiv> snd (transaction example_context (run_call example_env example_context (Claim_next ''w'' 0 30)) s)"

lemma example_calls: "job_calls example_env s (example_claim s)"
  by (rule job_calls.call [OF job_calls.start])

text \<open>
  C2: In every state that calls of the service and runs of workers reach from empty job tables, the
  tables are consistent: every row belongs to an existing workspace, keys and idempotency keys are
  unique, a job is within the retry budget of its definition and has a lease exactly while it runs,
  a running job has exactly its current attempt running, and the dead-lettered jobs are those with
  a dead letter.
\<close>

theorem jobs_stay_consistent:
  assumes "no_jobs s" "job_calls env s s'"
  shows "job_inv (tables_of s')"
  by (rule jobs_consistent [OF assms])

lemma jobs_stay_consistent_witness: "job_inv (tables_of (example_claim jobless_world))"
  by (rule jobs_stay_consistent [OF jobless_world(1) example_calls])



text \<open>
  C14: The history of a job only grows: whatever is called, a job that exists stays, with its
  identity, its request and its deadline; its number of attempts never falls, and a job that
  succeeded, was cancelled, expired or was dead-lettered keeps that status for ever.
\<close>

theorem terminal_jobs_are_final:
  assumes "job_inv (tables_of s)" "job_calls env s s'" "j \<in> set (job_instances s)"
  shows "\<exists>j' \<in> set (job_instances s'). ji_pk j' = ji_pk j \<and> ji_request_digest j' = ji_request_digest j \<and>
    ji_deadline j' = ji_deadline j \<and> ji_attempt_count j \<le> ji_attempt_count j' \<and>
    (terminal (ji_status j) \<longrightarrow> ji_status j' = ji_status j)"
proof -
  obtain j' where "j' \<in> set (job_instances s')" "later_job j j'"
    using job_steps_later [OF job_calls_steps [OF assms(2,1)] assms(1), of j] assms(3) by auto
  then show ?thesis
    by (intro bexI [of _ j']) (simp_all add: later_job_def same_job_pk, simp_all add: same_job_def)
qed

text \<open>
  Durable execution never damages the audit log: after any calls, also those that raise, the
  log of every workspace verifies.
\<close>

theorem jobs_keep_audit_verifiable:
  assumes "audit_inv env s" "job_calls env s s'"
  shows "fst (verify_audit_chain env w s') = Inr True"
  using job_calls_audit [OF assms(2,1)] by (intro verify_linked) (simp add: audit_inv_def audit_inv_at_def)

lemma jobs_keep_audit_verifiable_witness: "fst (verify_audit_chain example_env 2 (example_claim jobless_world)) = Inr True"
  by (rule jobs_keep_audit_verifiable [OF jobless_world(2) example_calls])

end
