(* ===== verification/Job_Outcomes.thy ===== *)
theory Job_Outcomes
  imports Job_Properties
begin

text \<open>
  What single operations of durable execution return: idempotent enqueueing, claims, the lease
  that a success needs, the runs of a worker; and two operations that cannot have the effect their
  code describes.
\<close>

section \<open>An example\<close>

definition example_definition :: job_definition where
  "example_definition = \<lparr>organization_id = 1, workspace_id = 2, cell_id = 3, jd_id = 31, jd_definition_key = ''index'',
     jd_definition_version = 1, jd_handler_key = ''index'', jd_max_attempts = 5, jd_retry_delays = [1, 5, 30, 120],
     jd_max_concurrency = 2, jd_rate_limit_per_minute = 60, jd_status = JD_ACTIVE, jd_state_version = 1,
     jd_created_by_user_id = 11, jd_created_at = 0, jd_updated_at = 0\<rparr>"

definition example_job :: job_instance where
  "example_job = \<lparr>organization_id = 1, workspace_id = 2, cell_id = 3, ji_id = 41, ji_definition_id = 31,
     ji_resource_id = None, ji_idempotency_key = ''k1'', ji_request_digest = ''d'', ji_command_type = ''note.index'',
     ji_payload = JObj [], ji_classification = ''internal'', ji_status = QUEUED, ji_available_at = 0,
     ji_deadline = seconds 4000000000, ji_attempt_count = 0, ji_lease_owner = None, ji_lease_expires_at = None,
     ji_heartbeat_at = None, ji_cancellation_requested_at = None, ji_cancellation_reason = None,
     ji_replay_of_job_id = None, ji_causation_id = None, ji_correlation_id = ''c'', ji_state_version = 1,
     ji_created_by_user_id = 11, ji_created_at = 0, ji_updated_at = 0, ji_completed_at = None,
     ji_result_digest = None\<rparr>"

definition example_running :: job_instance where
  "example_running = (claimed_job example_job ''worker-1'' 0 30)\<lparr>ji_cancellation_requested_at := Some 1\<rparr>"

definition example_attempt :: job_attempt where
  "example_attempt = \<lparr>organization_id = 1, workspace_id = 2, cell_id = 3, ja_id = 51, ja_job_id = 41,
     ja_attempt_number = 1, ja_worker_id = ''worker-1'', ja_status = ATTEMPT_RUNNING, ja_failure_category = None,
     ja_error_code = None, ja_started_at = 0, ja_heartbeat_at = 0, ja_lease_expires_at = seconds 30, ja_finished_at = None\<rparr>"

definition example_jobs :: "job_instance list \<Rightarrow> job_attempt list \<Rightarrow> job_schedule list \<Rightarrow> job_db" where
  "example_jobs js as scs = example_world (job_db_ext [example_definition] js as [] scs [] ())"

lemma example_jobs_tables [simp]:
  "job_definitions (example_jobs js as scs) = [example_definition]" "job_instances (example_jobs js as scs) = js"
  "job_attempts (example_jobs js as scs) = as" "job_dead_letters (example_jobs js as scs) = []"
  "job_schedules (example_jobs js as scs) = scs" "locked_rows (example_jobs js as scs) = []"
  "workspaces (example_jobs js as scs) = workspaces (example_world ())" "in_transaction (example_jobs js as scs) = False"
  "audit_events (example_jobs js as scs) = []" "audit_chain_heads (example_jobs js as scs) = []"
  by (simp_all add: example_jobs_def example_world_def)

lemma example_tenants: "map (\<lambda>w. (ws_id w, ws_organization_id w, ws_cell_id w)) (workspaces (example_world ())) = [(2, 1, 3)]"
  by (simp add: example_world_def)

lemma example_tables:
  "tables_of (example_jobs js as scs) = \<lparr>jt_tenants = [(2, 1, 3)], jt_definitions = [example_definition],
     jt_jobs = js, jt_attempts = as, jt_letters = []\<rparr>"
  by (simp add: tables_of_def example_tenants)

lemmas example_rows = example_definition_def example_job_def example_running_def example_attempt_def claimed_job_def
  job_ok_def waiting_def terminal_def of_definition_def of_job_def jd_pk_def ji_pk_def ja_pk_def job_key_def attempt_key_def
  tenant_of_def seconds_def

lemma example_inv:
  "job_inv (tables_of (example_jobs [] [] scs))" "job_inv (tables_of (example_jobs [example_job] [] scs))"
  "job_inv (tables_of (example_jobs [example_running] [example_attempt] scs))"
  by (simp_all add: example_tables job_inv_def job_inv_parts example_rows running_in_def running_for_def count_rows_def)

lemma terminal_jobs_are_final_witness:
  "\<exists>j' \<in> set (job_instances (example_claim (example_jobs [example_job] [] []))). ji_pk j' = ji_pk example_job \<and>
     ji_request_digest j' = ''d'' \<and> 0 \<le> ji_attempt_count j'"
  using terminal_jobs_are_final [OF example_inv(2) example_calls, of example_job] by (fastforce simp: example_job_def)

section \<open>Enqueueing\<close>






section \<open>Claiming, success, workers\<close>





text \<open>
  C22: A run of a worker, whatever its handlers return or raise, leaves no job running that was not
  running before: the job it claimed ends in that run, or the whole run is rolled back.
\<close>

theorem worker_leaves_nothing_running:
  assumes "job_inv (tables_of s)" "handlers_ok handlers"
  shows "running_keys (snd (transaction ctx (run_once env (h1_authorize env) ctx handlers worker now) s)) \<subseteq> running_keys s"
proof (cases rule: transaction_cases [of s ctx "run_once env (h1_authorize env) ctx handlers worker now"])
  case (committed b s1)
  have start: "tables_of (started ctx s) = tables_of s" "running_keys (started ctx s) = running_keys s"
    by (simp_all add: tables_of_def running_keys_def started_def with_context_def)
  have "running_keys s1 \<subseteq> running_keys (started ctx s)"
    by (rule wp_Inr [OF h1_jobs.run_run_once [OF _ assms(2)] committed(3)]) (simp_all add: start assms(1))
  moreover have "running_keys (Execution_Context.committed s s1) = running_keys s1"
    by (simp add: running_keys_def committed_def)
  ultimately show ?thesis using committed(4) start by simp
next
  case (rolled_back e d c)
  then show ?thesis by (simp add: running_keys_def)
qed

lemma worker_leaves_nothing_running_witness:
  "running_keys (snd (transaction example_context (run_once example_env (h1_authorize example_env) example_context
     [(''index'', \<lambda>lease. returnM (Handler_result (replicate 64 (CHR ''0''))))] ''worker-1'' 5)
     (example_jobs [example_job] [] []))) \<subseteq> running_keys (example_jobs [example_job] [] [])"
  by (rule worker_leaves_nothing_running [OF example_inv(2)]) (auto simp: handlers_ok_def intro: keeps_returnM)

section \<open>Effects that do not happen\<close>

text \<open>
  C34: A heartbeat that observes a cancellation cancels the job and its attempt and then raises, in
  the transaction of its caller, so the cancellation is always rolled back: every table is as
  before and the job goes on running.
\<close>

theorem heartbeat_cancellation_is_lost:
  assumes "\<forall>j \<in> set (job_instances s). workspace_id j = ctx_workspace ctx \<and> ji_id j = i \<longrightarrow>
    ji_cancellation_requested_at j \<noteq> None"
  shows "(\<exists>e. fst (transaction ctx (heartbeat env (h1_authorize env) ctx i worker now) s) = Inl e) \<and>
    tables_of (snd (transaction ctx (heartbeat env (h1_authorize env) ctx i worker now) s)) = tables_of s"
proof (cases rule: transaction_cases [of s ctx "heartbeat env (h1_authorize env) ctx i worker now"])
  case (committed x s1)
  have "wp (heartbeat env (h1_authorize env) ctx i worker now) (\<lambda>_ _. False) any_error (started ctx s)"
    unfolding heartbeat_def
  proof (intro run_rules, rule h1_jobs.run_leased, intro run_rules, rule run_require_attempt, rule run_if, goal_cases)
    case (1 j s2 a)
    show ?case unfolding Let_def by (simp add: wp_simps wp_def split: sum.splits prod.splits)
  next
    case (2 j s2 a)
    have "job_instances (started ctx s) = job_instances s" by (simp add: started_def with_context_def)
    then show ?case using 2 assms by simp
  qed
  then have False by (rule wp_Inr) (rule committed(3))
  then show ?thesis ..
next
  case (rolled_back e d c)
  then show ?thesis by (simp add: tables_of_def)
qed


lemma heartbeat_cancellation_is_lost_witness:
  "tables_of (snd (transaction example_context (heartbeat example_env (h1_authorize example_env) example_context 41
     ''worker-1'' 5) (example_jobs [example_running] [example_attempt] []))) =
   tables_of (example_jobs [example_running] [example_attempt] [])"
  using heartbeat_cancellation_is_lost [of "example_jobs [example_running] [example_attempt] []" example_context 41
      example_env "''worker-1''" 5] by (simp add: example_running_def)

text \<open>A loop of which one body always raises never returns.\<close>

lemma mapM_raises:
  fixes f :: "'x \<Rightarrow> ('s, 'y) M"
  assumes "bad \<in> set xs" "\<And>s. wp (f bad) (\<lambda>_ _. False) any_error s"
  shows "wp (mapM f xs) (\<lambda>_ _. False) any_error s"
  using assms(1)
proof (induction xs arbitrary: s)
  case Nil
  then show ?case by simp
next
  case (Cons y ys s)
  show ?case
  proof (cases "bad = y")
    case True
    have "wp (f y) (\<lambda>z. wp (bindM (mapM f ys) (\<lambda>ys. returnM (z # ys))) (\<lambda>_ _. False) any_error) any_error s"
      using assms(2) [of s] True by (auto elim: run_mono)
    then show ?thesis by (simp add: wp_simps)
  next
    case False
    then have "wp (mapM f ys) (\<lambda>_ _. False) any_error s'" for s' using Cons by simp
    then have "wp (bindM (mapM f ys) (\<lambda>ys. returnM (z # ys))) (\<lambda>_ _. False) any_error s'" for z s'
      by (intro run_bind) (rule run_mono [of _ "\<lambda>_ _. False"], simp_all)
    moreover have "wp (f y) (\<lambda>_ _. True) any_error s" by (simp add: wp_def split: sum.splits prod.splits)
    ultimately have "wp (f y) (\<lambda>z. wp (bindM (mapM f ys) (\<lambda>ys. returnM (z # ys))) (\<lambda>_ _. False) any_error) any_error s"
      by (auto elim: run_mono)
    then show ?thesis by (simp add: wp_simps)
  qed
qed

lemma blank_command_raises:
  assumes "py_strip (js_command_type r) = []" "due_occurrences env spec now = Inr due" "due \<noteq> []"
    "schedule_spec_of env r = Inr spec"
  shows "wp (dispatch_schedule env ask ctx now r) (\<lambda>_ _. False) any_error s"
proof -
  have "wp (enqueue_occurrence env ask ctx now r t) (\<lambda>_ _. False) any_error s" for t s
    unfolding enqueue_occurrence_def make_job_enqueue_def reference_def
    by (auto simp: wp_simps assms(1) Let_def split: sum.splits)
  then have "wp (mapM (enqueue_occurrence env ask ctx now r) due) (\<lambda>_ _. False) any_error s"
    using assms(3) by (intro mapM_raises [of "hd due"]) simp_all
  then show ?thesis
    unfolding dispatch_schedule_def Let_def by (intro run_bind) (simp add: wp_simps assms(2,4), auto elim: run_mono)
qed

text \<open>
  C36: One schedule whose command type is blank makes the dispatch of all due schedules of its
  workspace raise once it is due, so none of them is dispatched and none of them advances.
\<close>

theorem blank_command_blocks_all_schedules:
  assumes "r \<in> set (due_schedules ctx now s)" "py_strip (js_command_type r) = []"
    and "schedule_spec_of env r = Inr spec" "due_occurrences env spec now = Inr due" "due \<noteq> []"
  shows "(\<exists>e. fst (transaction ctx (dispatch_due_schedules env (h1_authorize env) ctx now) s) = Inl e) \<and>
    job_schedules (snd (transaction ctx (dispatch_due_schedules env (h1_authorize env) ctx now) s)) = job_schedules s \<and>
    job_instances (snd (transaction ctx (dispatch_due_schedules env (h1_authorize env) ctx now) s)) = job_instances s"
proof (cases rule: transaction_cases [of s ctx "dispatch_due_schedules env (h1_authorize env) ctx now"])
  case (committed x s1)
  have "wp (dispatch_due_schedules env (h1_authorize env) ctx now) (\<lambda>_ _. False) any_error (started ctx s)"
    unfolding dispatch_due_schedules_def require_authorized_def
  proof (intro run_rules, rule wp_frame [OF h1.ask_frame], intro run_rules)
    fix allowed and s2 :: "'a job_db_scheme" assume rest: "rest_part s2 = rest_part (started ctx s)"
    then have "component_part s2 = component_part (started ctx s)" "locked_rows s2 = locked_rows (started ctx s)"
      by (simp_all add: part_defs)
    then have "job_schedules s2 = job_schedules s" "locked_rows s2 = locked_rows s"
      using component_tables(5) [of s2 "started ctx s"] by (simp_all add: started_def with_context_def)
    then have "r \<in> set (due_schedules ctx now s2)" using assms(1) by (simp add: due_schedules_def)
    then have "wp (mapM (dispatch_schedule env (h1_authorize env) ctx now) (due_schedules ctx now s2)) (\<lambda>_ _. False) any_error s2"
      by (rule mapM_raises) (rule blank_command_raises [OF assms(2,4,5,3)])
    then show "wp (mapM (dispatch_schedule env (h1_authorize env) ctx now) (due_schedules ctx now s2))
        (\<lambda>created. wp (returnM (concat created)) (\<lambda>_ _. False) any_error) any_error s2"
      by (auto elim: run_mono)
  qed simp
  then have False by (rule wp_Inr) (rule committed(3))
  then show ?thesis ..
next
  case (rolled_back e d c)
  then show ?thesis by simp
qed

definition blank_schedule :: job_schedule where
  "blank_schedule = \<lparr>organization_id = 1, workspace_id = 2, cell_id = 3, js_id = 61, js_definition_id = 31,
     js_schedule_kind = ONCE, js_misfire_policy = CATCH_UP, js_first_due_at = 0, js_interval_seconds = None,
     js_timezone = None, js_local_hour = None, js_local_minute = None, js_local_time_policy = None,
     js_command_type = '' '', js_command_payload = JObj [], js_idempotency_prefix = ''s'', js_job_deadline_seconds = 60,
     js_status = JS_ACTIVE, js_next_due_at = 0, js_last_evaluated_at = None, js_state_version = 1,
     js_created_by_user_id = 11, js_created_at = 0, js_updated_at = 0\<rparr>"

lemma blank_command_blocks_all_schedules_witness:
  "job_schedules (snd (transaction example_context (dispatch_due_schedules example_env (h1_authorize example_env)
     example_context 5) (example_jobs [] [] [blank_schedule]))) = [blank_schedule]"
proof -
  define spec where "spec = \<lparr>sp_schedule_id = 61, sp_definition_id = 31, sp_kind = ONCE, sp_first_due_at = 0,
    sp_misfire_policy = CATCH_UP, sp_interval_seconds = None, sp_daily = None\<rparr>"
  have "schedule_spec_of example_env blank_schedule = Inr spec" "due_occurrences example_env spec 5 = Inr [0]"
    "py_strip (js_command_type blank_schedule) = []"
    "blank_schedule \<in> set (due_schedules example_context 5 (example_jobs [] [] [blank_schedule]))"
    by (simp_all add: schedule_spec_of_def schedule_daily_def blank_schedule_def make_schedule_spec_def aware_def spec_def
        due_occurrences_def all_due_def take_last_def due_schedules_def example_context_def, code_simp?)
  then show ?thesis
    using blank_command_blocks_all_schedules [of blank_schedule example_context 5 "example_jobs [] [] [blank_schedule]"
        example_env spec "[0]"] by simp
qed

end
