(* ===== verification/Task_Contracts.thy ===== *)
theory Task_Contracts
  imports Job_Contracts
begin

text \<open>
  The contracts of tasks: \<open>app/tasks/contracts.py\<close>. \<open>TaskCreate\<close> and \<open>TaskQuery\<close> are models of
  \<open>pydantic\<close>: a \<open>ValueError\<close> of their validators, which a \<open>TaskError\<close> is, reaches the caller
  inside a \<open>ValidationError\<close>.
\<close>

datatype task_status =
    TASK_OPEN | TASK_IN_PROGRESS | TASK_BLOCKED | TASK_COMPLETED | TASK_CANCELLED | TASK_DELETED

fun task_status_value :: "task_status \<Rightarrow> string" where
  "task_status_value TASK_OPEN = ''open''"
| "task_status_value TASK_IN_PROGRESS = ''in_progress''"
| "task_status_value TASK_BLOCKED = ''blocked''"
| "task_status_value TASK_COMPLETED = ''completed''"
| "task_status_value TASK_CANCELLED = ''cancelled''"
| "task_status_value TASK_DELETED = ''deleted''"

fun TRANSITIONS :: "task_status \<Rightarrow> task_status list" where
  "TRANSITIONS TASK_OPEN = [TASK_IN_PROGRESS, TASK_BLOCKED, TASK_COMPLETED, TASK_CANCELLED, TASK_DELETED]"
| "TRANSITIONS TASK_IN_PROGRESS = [TASK_OPEN, TASK_BLOCKED, TASK_COMPLETED, TASK_CANCELLED, TASK_DELETED]"
| "TRANSITIONS TASK_BLOCKED = [TASK_OPEN, TASK_IN_PROGRESS, TASK_CANCELLED, TASK_DELETED]"
| "TRANSITIONS TASK_COMPLETED = [TASK_DELETED]"
| "TRANSITIONS TASK_CANCELLED = [TASK_DELETED]"
| "TRANSITIONS TASK_DELETED = []"

definition transition_status :: "task_status \<Rightarrow> task_status \<Rightarrow> py_error + task_status" where
  "transition_status current target =
     (if target \<notin> set (TRANSITIONS current) then Inl (TaskError Task_transition_is_invalid) else Inr target)"

definition require_task_version :: "int \<Rightarrow> int \<Rightarrow> py_error + unit" where
  "require_task_version current expected = (if current \<noteq> expected then Inl TaskConcurrencyError else Inr ())"

record task_create =
  tc_task_id :: uuid
  tc_resource_id :: uuid
  tc_title :: string
  tc_description :: string
  tc_priority :: string
  tc_classification :: string
  tc_policy_version :: int
  tc_due_at :: "py_datetime option"
  tc_timezone :: "string option"
  tc_source_resource_id :: "uuid option"
  tc_recurrence_reference :: "string option"
  tc_completion_evidence_required :: bool

definition PRIORITIES :: "string list" where
  "PRIORITIES = [''low'', ''normal'', ''high'', ''urgent'']"

definition naive :: "py_datetime option \<Rightarrow> bool" where
  "naive t \<longleftrightarrow> (case t of Some (Naive _) \<Rightarrow> True | _ \<Rightarrow> False)"

definition normalize_text :: "task_create \<Rightarrow> task_create" where
  "normalize_text c = c\<lparr>tc_title := py_strip (tc_title c), tc_description := py_strip (tc_description c)\<rparr>"

definition validate_contract :: "task_create \<Rightarrow> task_fault option" where
  "validate_contract c =
     (if tc_title c = [] \<or> length (tc_title c) > 512 \<or> length (tc_description c) > 20000
        then Some Task_text_is_invalid
      else if tc_priority c \<notin> set PRIORITIES then Some Task_priority_is_invalid
      else if tc_classification c \<notin> set CLASSIFICATIONS then Some Task_classification_is_invalid
      else if tc_policy_version c < 1 then Some Task_policy_version_is_invalid
      else if naive (tc_due_at c) then Some Task_due_time_must_be_timezone_aware
      else if (tc_due_at c = None) \<noteq> (tc_timezone c = None)
        then Some Task_due_time_and_timezone_must_be_supplied_together
      else None)"

text \<open>The call \<open>TaskCreate(...)\<close> on the given fields.\<close>

definition make_task_create :: "task_create \<Rightarrow> py_error + task_create" where
  "make_task_create given =
     (let c = normalize_text given in
      case validate_contract c of Some e \<Rightarrow> Inl (ValidationError (TaskError e)) | None \<Rightarrow> Inr c)"

record task_query =
  tq_statuses :: "task_status list"
  tq_assignee_user_id :: "uuid option"
  tq_due_before :: "py_datetime option"
  tq_limit :: int

definition default_task_query :: task_query where
  "default_task_query = \<lparr>tq_statuses = [TASK_OPEN, TASK_IN_PROGRESS, TASK_BLOCKED],
     tq_assignee_user_id = None, tq_due_before = None, tq_limit = 100\<rparr>"

definition make_task_query :: "task_query \<Rightarrow> py_error + task_query" where
  "make_task_query q =
     (if tq_statuses q = [] \<or> \<not> (1 \<le> tq_limit q \<and> tq_limit q \<le> 500)
        then Inl (ValidationError (TaskError Task_query_is_invalid))
      else if naive (tq_due_before q)
        then Inl (ValidationError (TaskError Task_query_due_boundary_must_be_timezone_aware))
      else Inr q)"

text \<open>The instant of an aware datetime; the contracts leave no naive one.\<close>

fun instant_of :: "py_datetime option \<Rightarrow> instant option" where
  "instant_of (Some (Aware t)) = Some t"
| "instant_of _ = None"

section \<open>What the contracts guarantee\<close>

lemma transition_status_Inr [simp]:
  "transition_status k k' = Inr x \<longleftrightarrow> x = k' \<and> k' \<in> set (TRANSITIONS k)"
  by (auto simp: transition_status_def)

lemma require_task_version_Inr [simp]: "require_task_version k e = Inr x \<longleftrightarrow> k = e"
  by (simp add: require_task_version_def)

lemma make_task_create_Inr:
  assumes "make_task_create f = Inr c"
  shows "c = normalize_text f" "tc_title c \<noteq> []" "length (tc_title c) \<le> 512" "tc_priority c \<in> set PRIORITIES"
    "tc_classification c \<in> set CLASSIFICATIONS" "0 < tc_policy_version c" "instant_of (tc_due_at c) = None \<longleftrightarrow> tc_timezone c = None"
proof -
  from assms have c: "c = normalize_text f" and v: "validate_contract c = None"
    by (auto simp: make_task_create_def Let_def split: option.splits)
  show "c = normalize_text f" by (rule c)
  show "tc_title c \<noteq> []" "length (tc_title c) \<le> 512" "tc_priority c \<in> set PRIORITIES"
    "tc_classification c \<in> set CLASSIFICATIONS" "0 < tc_policy_version c"
    using v by (simp_all add: validate_contract_def split: if_splits)
  have "\<not> naive (tc_due_at c)" "(tc_due_at c = None) = (tc_timezone c = None)"
    using v by (simp_all add: validate_contract_def split: if_splits)
  then show "instant_of (tc_due_at c) = None \<longleftrightarrow> tc_timezone c = None"
    by (cases "tc_due_at c" rule: instant_of.cases) (auto simp: naive_def)
qed

end
