(* ===== verification/Task_Store.thy ===== *)
theory Task_Store
  imports Task_Contracts Job_Store
begin

text \<open>
  The tables of tasks and the repository on them: \<open>app/tasks/models.py\<close> (with migration
  \<open>0028_add_task_manager.py\<close>) and \<open>app/tasks/repository.py\<close>. The tables extend those of durable
  execution, because a reminder refers to the job that delivers it. No operation changes or
  deletes a row of \<open>task_completion_evidence\<close>, which a trigger would refuse.
\<close>

section \<open>Rows\<close>

record task = tenant_row +
  tk_id :: uuid
  tk_resource_id :: uuid
  tk_title :: string
  tk_description :: string
  tk_status :: task_status
  tk_priority :: string
  tk_classification :: string
  tk_policy_version :: int
  tk_due_at :: "instant option"
  tk_timezone :: "string option"
  tk_recurrence_reference :: "string option"
  tk_source_resource_id :: "uuid option"
  tk_completion_evidence_required :: bool
  tk_version :: int
  tk_created_by_user_id :: uuid
  tk_created_at :: instant
  tk_updated_at :: instant
  tk_completed_at :: "instant option"
  tk_deleted_at :: "instant option"

record task_participant = tenant_row +
  tp_task_id :: uuid
  tp_user_id :: uuid
  tp_kind :: string
  tp_added_by_user_id :: uuid
  tp_created_at :: instant

record task_dependency = tenant_row +
  td_task_id :: uuid
  td_depends_on_task_id :: uuid
  td_created_by_user_id :: uuid
  td_created_at :: instant

record task_comment = tenant_row +
  cc_id :: uuid
  cc_task_id :: uuid
  cc_body :: string
  cc_classification :: string
  cc_policy_version :: int
  cc_created_by_user_id :: uuid
  cc_created_at :: instant

record task_completion_evidence = tenant_row +
  te_id :: uuid
  te_task_id :: uuid
  te_evidence_resource_id :: "uuid option"
  te_evidence_digest :: string
  te_statement :: string
  te_supersedes_evidence_id :: "uuid option"
  te_recorded_by_user_id :: uuid
  te_created_at :: instant

record task_external_reference = tenant_row +
  tx_id :: uuid
  tx_task_id :: uuid
  tx_authority :: string
  tx_external_id :: string
  tx_external_version :: "string option"
  tx_linked_by_user_id :: uuid
  tx_created_at :: instant

datatype reminder_status = REMINDER_SCHEDULED | REMINDER_CANCELLED | REMINDER_DISPATCHED

record task_reminder = tenant_row +
  tr_id :: uuid
  tr_task_id :: uuid
  tr_identity_key :: string
  tr_due_at :: instant
  tr_timezone :: string
  tr_status :: reminder_status
  tr_job_id :: "uuid option"
  tr_created_at :: instant

record task_db = job_db +
  tasks :: "task list"
  task_participants :: "task_participant list"
  task_dependencies :: "task_dependency list"
  task_comments :: "task_comment list"
  task_completion_evidence :: "task_completion_evidence list"
  task_external_references :: "task_external_reference list"
  task_reminders :: "task_reminder list"

section \<open>Constraints\<close>

definition tk_pk :: "task \<Rightarrow> tenant_key" where "tk_pk r = tenant_pk r (tk_id r)"

definition task_exists :: "tenant_key \<Rightarrow> 'a task_db_scheme \<Rightarrow> bool" where
  "task_exists k s \<longleftrightarrow> list_ex (\<lambda>r. tk_pk r = k) (tasks s)"

definition short :: "nat \<Rightarrow> string option \<Rightarrow> bool" where
  "short n x \<longleftrightarrow> (case x of None \<Rightarrow> True | Some t \<Rightarrow> length t \<le> n)"

text \<open>The checks of a task row, which an update has to satisfy too.\<close>

definition task_checks :: "task \<Rightarrow> (string \<times> bool) list" where
  "task_checks r =
     [(''character varying(512)'', length (tk_title r) \<le> 512),
      (''character varying(64)'', short 64 (tk_timezone r)),
      (''character varying(128)'', short 128 (tk_recurrence_reference r)),
      (''ck_tasks_priority'', tk_priority r \<in> set PRIORITIES),
      (''ck_tasks_classification'', tk_classification r \<in> set CLASSIFICATIONS),
      (''ck_tasks_versions'', 0 < tk_version r \<and> 0 < tk_policy_version r)]"

definition task_constraints :: "task \<Rightarrow> 'a task_db_scheme \<Rightarrow> (string \<times> bool) list" where
  "task_constraints r s =
     [(''pk_tasks'', list_all (\<lambda>x. tk_pk x \<noteq> tk_pk r) (tasks s)),
      (''uq_tasks_resource'', list_all (\<lambda>x. tenant_pk x (tk_resource_id x) \<noteq> tenant_pk r (tk_resource_id r)) (tasks s)),
      (''fk_tasks_workspace'', tenant_exists r s),
      (''fk_tasks_resource'', resource_exists r (Some (tk_resource_id r)) s),
      (''fk_tasks_source'', resource_exists r (tk_source_resource_id r) s)] @ task_checks r"

definition task_participant_constraints :: "task_participant \<Rightarrow> 'a task_db_scheme \<Rightarrow> (string \<times> bool) list" where
  "task_participant_constraints r s =
     [(''pk_task_participants'', list_all (\<lambda>x. \<not> (tenant_pk x (tp_task_id x) = tenant_pk r (tp_task_id r) \<and>
         tp_user_id x = tp_user_id r \<and> tp_kind x = tp_kind r)) (task_participants s)),
      (''fk_task_participants_task'', task_exists (tenant_pk r (tp_task_id r)) s),
      (''fk_task_participants_membership'', list_ex (\<lambda>m. wm_workspace_id m = workspace_id r \<and>
         wm_user_id m = tp_user_id r) (workspace_memberships s)),
      (''ck_task_participants_kind'', tp_kind r \<in> {''assignee'', ''watcher''})]"

definition task_dependency_constraints :: "task_dependency \<Rightarrow> 'a task_db_scheme \<Rightarrow> (string \<times> bool) list" where
  "task_dependency_constraints r s =
     [(''pk_task_dependencies'', list_all (\<lambda>x. \<not> (tenant_pk x (td_task_id x) = tenant_pk r (td_task_id r) \<and>
         td_depends_on_task_id x = td_depends_on_task_id r)) (task_dependencies s)),
      (''fk_task_dependencies_task'', task_exists (tenant_pk r (td_task_id r)) s),
      (''fk_task_dependencies_target'', task_exists (tenant_pk r (td_depends_on_task_id r)) s),
      (''ck_task_dependencies_distinct'', td_task_id r \<noteq> td_depends_on_task_id r)]"

definition task_comment_constraints :: "task_comment \<Rightarrow> 'a task_db_scheme \<Rightarrow> (string \<times> bool) list" where
  "task_comment_constraints r s =
     [(''pk_task_comments'', list_all (\<lambda>x. tenant_pk x (cc_id x) \<noteq> tenant_pk r (cc_id r)) (task_comments s)),
      (''fk_task_comments_task'', task_exists (tenant_pk r (cc_task_id r)) s)]"

definition task_evidence_constraints :: "task_completion_evidence \<Rightarrow> 'a task_db_scheme \<Rightarrow> (string \<times> bool) list" where
  "task_evidence_constraints r s =
     [(''pk_task_completion_evidence'', list_all (\<lambda>x. tenant_pk x (te_id x) \<noteq> tenant_pk r (te_id r))
         (task_completion_evidence s)),
      (''fk_task_evidence_task'', task_exists (tenant_pk r (te_task_id r)) s),
      (''fk_task_evidence_resource'', resource_exists r (te_evidence_resource_id r) s),
      (''fk_task_evidence_supersedes'', (case te_supersedes_evidence_id r of None \<Rightarrow> True
         | Some i \<Rightarrow> list_ex (\<lambda>x. tenant_pk x (te_id x) = tenant_pk r i) (task_completion_evidence s @ [r]))),
      (''uq_task_evidence_digest'', list_all (\<lambda>x. \<not> (tenant_pk x (te_task_id x) = tenant_pk r (te_task_id r) \<and>
         te_evidence_digest x = te_evidence_digest r)) (task_completion_evidence s))]"

definition task_external_reference_constraints ::
    "task_external_reference \<Rightarrow> 'a task_db_scheme \<Rightarrow> (string \<times> bool) list" where
  "task_external_reference_constraints r s =
     [(''pk_task_external_references'', list_all (\<lambda>x. tenant_pk x (tx_id x) \<noteq> tenant_pk r (tx_id r))
         (task_external_references s)),
      (''fk_task_external_task'', task_exists (tenant_pk r (tx_task_id r)) s),
      (''uq_task_external_authority'', list_all (\<lambda>x. \<not> (tenant_pk x 0 = tenant_pk r 0 \<and>
         tx_authority x = tx_authority r \<and> tx_external_id x = tx_external_id r)) (task_external_references s)),
      (''character varying(96)'', length (tx_authority r) \<le> 96),
      (''character varying(256)'', length (tx_external_id r) \<le> 256),
      (''character varying(128)'', short 128 (tx_external_version r))]"

definition task_reminder_constraints :: "task_reminder \<Rightarrow> 'a task_db_scheme \<Rightarrow> (string \<times> bool) list" where
  "task_reminder_constraints r s =
     [(''pk_task_reminders'', list_all (\<lambda>x. tenant_pk x (tr_id x) \<noteq> tenant_pk r (tr_id r)) (task_reminders s)),
      (''fk_task_reminders_task'', task_exists (tenant_pk r (tr_task_id r)) s),
      (''fk_task_reminders_job'', (case tr_job_id r of None \<Rightarrow> True | Some i \<Rightarrow> job_exists (tenant_pk r i) s)),
      (''uq_task_reminder_identity'', list_all (\<lambda>x. \<not> (tenant_pk x 0 = tenant_pk r 0 \<and>
         tr_identity_key x = tr_identity_key r)) (task_reminders s))]"

section \<open>Inserts and updates\<close>

definition add_task :: "execution_context \<Rightarrow> task \<Rightarrow> ('a task_db_scheme, unit) M" where
  "add_task ctx r = add_row ctx (workspace_id r) (task_constraints r) (\<lambda>s. s\<lparr>tasks := tasks s @ [r]\<rparr>)"

definition add_participant_row :: "execution_context \<Rightarrow> task_participant \<Rightarrow> ('a task_db_scheme, unit) M" where
  "add_participant_row ctx r = add_row ctx (workspace_id r) (task_participant_constraints r)
     (\<lambda>s. s\<lparr>task_participants := task_participants s @ [r]\<rparr>)"

definition add_dependency_row :: "execution_context \<Rightarrow> task_dependency \<Rightarrow> ('a task_db_scheme, unit) M" where
  "add_dependency_row ctx r = add_row ctx (workspace_id r) (task_dependency_constraints r)
     (\<lambda>s. s\<lparr>task_dependencies := task_dependencies s @ [r]\<rparr>)"

definition add_comment_row :: "execution_context \<Rightarrow> task_comment \<Rightarrow> ('a task_db_scheme, unit) M" where
  "add_comment_row ctx r = add_row ctx (workspace_id r) (task_comment_constraints r)
     (\<lambda>s. s\<lparr>task_comments := task_comments s @ [r]\<rparr>)"

definition add_evidence_row :: "execution_context \<Rightarrow> task_completion_evidence \<Rightarrow> ('a task_db_scheme, unit) M" where
  "add_evidence_row ctx r = add_row ctx (workspace_id r) (task_evidence_constraints r)
     (\<lambda>s. s\<lparr>task_completion_evidence := task_completion_evidence s @ [r]\<rparr>)"

definition add_external_row :: "execution_context \<Rightarrow> task_external_reference \<Rightarrow> ('a task_db_scheme, unit) M" where
  "add_external_row ctx r = add_row ctx (workspace_id r) (task_external_reference_constraints r)
     (\<lambda>s. s\<lparr>task_external_references := task_external_references s @ [r]\<rparr>)"

definition add_reminder_row :: "execution_context \<Rightarrow> task_reminder \<Rightarrow> ('a task_db_scheme, unit) M" where
  "add_reminder_row ctx r = add_row ctx (workspace_id r) (task_reminder_constraints r)
     (\<lambda>s. s\<lparr>task_reminders := task_reminders s @ [r]\<rparr>)"

text \<open>The flush of a changed task.\<close>

definition save_task :: "task \<Rightarrow> ('a task_db_scheme, unit) M" where
  "save_task r =
     thenM (enforce_workspace_write_state (workspace_id r))
     (thenM (check_constraints (task_checks r))
     (modifyM (\<lambda>s. s\<lparr>tasks := replace_row tk_pk r (tasks s)\<rparr>)))"

definition reminder_to_cancel :: "uuid \<Rightarrow> uuid \<Rightarrow> task_reminder \<Rightarrow> bool" where
  "reminder_to_cancel w i r \<longleftrightarrow>
     workspace_id r = w \<and> tr_task_id r = i \<and> tr_status r = REMINDER_SCHEDULED"

definition cancelled_reminders :: "uuid \<Rightarrow> uuid \<Rightarrow> task_reminder list \<Rightarrow> task_reminder list" where
  "cancelled_reminders w i rs = map (\<lambda>r. if reminder_to_cancel w i r then r\<lparr>tr_status := REMINDER_CANCELLED\<rparr> else r) rs"

text \<open>The trigger fires for each row that the update matches.\<close>

definition cancel_reminders :: "execution_context \<Rightarrow> uuid \<Rightarrow> ('a task_db_scheme, unit) M" where
  "cancel_reminders ctx i =
     bindM (getsM task_reminders) (\<lambda>rows.
     thenM (if list_ex (reminder_to_cancel (ctx_workspace ctx) i) rows then enforce_workspace_write_state (ctx_workspace ctx)
            else returnM ())
     (modifyM (\<lambda>s. s\<lparr>task_reminders := cancelled_reminders (ctx_workspace ctx) i (task_reminders s)\<rparr>)))"

section \<open>Queries\<close>

definition find_task :: "execution_context \<Rightarrow> uuid \<Rightarrow> 'a task_db_scheme \<Rightarrow> task option" where
  "find_task ctx i s = List.find (\<lambda>r. workspace_id r = ctx_workspace ctx \<and> tk_id r = i) (tasks s)"

definition task_resource :: "execution_context \<Rightarrow> uuid \<Rightarrow> 'a core_db_scheme \<Rightarrow> resource option" where
  "task_resource ctx i s = List.find (\<lambda>r. workspace_id r = ctx_workspace ctx \<and> rs_id r = i \<and>
     rs_resource_type r = ''task'' \<and> rs_status r = ''active'') (resources s)"

text \<open>\<open>ORDER BY due_at ASC NULLS LAST, created_at, id\<close>\<close>

definition due_order :: "task \<Rightarrow> claim_key" where
  "due_order r = Claim_key (case tk_due_at r of None \<Rightarrow> 0 | Some t \<Rightarrow> t) (tk_created_at r) (tk_id r)"

definition order_tasks :: "task list \<Rightarrow> task list" where
  "order_tasks rows = sort_key due_order (filter (\<lambda>r. tk_due_at r \<noteq> None) rows) @
     sort_key due_order (filter (\<lambda>r. tk_due_at r = None) rows)"

definition assigned :: "uuid \<Rightarrow> task \<Rightarrow> task_participant \<Rightarrow> bool" where
  "assigned u r p \<longleftrightarrow> workspace_id p = workspace_id r \<and> tp_task_id p = tk_id r \<and> tp_kind p = ''assignee'' \<and> tp_user_id p = u"

definition query_rows :: "execution_context \<Rightarrow> task_query \<Rightarrow> 'a task_db_scheme \<Rightarrow> task list" where
  "query_rows ctx q s =
     (let rows = filter (\<lambda>r. workspace_id r = ctx_workspace ctx \<and> tk_status r \<in> set (tq_statuses q) \<and>
            (case instant_of (tq_due_before q) of None \<Rightarrow> True
             | Some limit \<Rightarrow> (case tk_due_at r of None \<Rightarrow> False | Some t \<Rightarrow> t \<le> limit))) (tasks s)
      in case tq_assignee_user_id q of None \<Rightarrow> rows
         | Some u \<Rightarrow> [r. r \<leftarrow> rows, p \<leftarrow> task_participants s, assigned u r p])"

definition list_tasks :: "execution_context \<Rightarrow> task_query \<Rightarrow> 'a task_db_scheme \<Rightarrow> task list" where
  "list_tasks ctx q s = take (nat (tq_limit q)) (order_tasks (query_rows ctx q s))"

definition active_member :: "execution_context \<Rightarrow> uuid \<Rightarrow> 'a core_db_scheme \<Rightarrow> bool" where
  "active_member ctx u s \<longleftrightarrow> list_ex (\<lambda>m. wm_workspace_id m = ctx_workspace ctx \<and> wm_user_id m = u \<and>
     wm_status m = MS_ACTIVE) (workspace_memberships s)"

definition dependencies :: "execution_context \<Rightarrow> 'a task_db_scheme \<Rightarrow> (uuid \<times> uuid) list" where
  "dependencies ctx s = map (\<lambda>r. (td_task_id r, td_depends_on_task_id r))
     (filter (\<lambda>r. workspace_id r = ctx_workspace ctx) (task_dependencies s))"

definition evidence_count :: "execution_context \<Rightarrow> uuid \<Rightarrow> 'a task_db_scheme \<Rightarrow> nat" where
  "evidence_count ctx i s = count_rows (\<lambda>r. workspace_id r = ctx_workspace ctx \<and> te_task_id r = i)
     (task_completion_evidence s)"

end
