(* ===== verification/Task_Service.thy ===== *)
theory Task_Service
  imports Task_Store Job_Service
begin

text \<open>
  \<open>TaskService\<close> of \<open>app/tasks/service.py\<close> and the reminder scheduler of \<open>app/tasks/jobs.py\<close>.
  \<open>ask\<close> is the authorizer; \<open>H1TaskAuthorizer\<close> is \<open>h1_authorize\<close>. The object of a task that the
  source changes in place is a changed record here, written at the flush of \<open>_record\<close>. A column
  with the default \<open>now()\<close> of the database draws from the clock.
\<close>

section \<open>Guards and records\<close>

definition require_permitted :: "'s authorizer \<Rightarrow> execution_context \<Rightarrow> string \<Rightarrow> ('s, unit) M" where
  "require_permitted ask ctx permission =
     bindM (ask ctx permission) (\<lambda>allowed. requireM allowed TaskAuthorizationError)"

definition existing_task :: "execution_context \<Rightarrow> uuid \<Rightarrow> ('a task_db_scheme, task) M" where
  "existing_task ctx i = bindM (getsM (find_task ctx i)) (\<lambda>found. someM found (TaskError Task_does_not_exist))"

definition locked_task :: "execution_context \<Rightarrow> uuid \<Rightarrow> int \<Rightarrow> ('a task_db_scheme, task) M" where
  "locked_task ctx i expected_version =
     bindM (existing_task ctx i) (\<lambda>task.
     thenM (liftM (require_task_version (tk_version task) expected_version))
     (thenM (requireM (tk_status task \<noteq> TASK_DELETED) (TaskError Deleted_task_cannot_be_changed))
     (returnM task)))"

definition task_details :: "task \<Rightarrow> json" where
  "task_details task = JObj
     [(''version'', JInt (tk_version task)), (''status'', JStr (task_status_value (tk_status task))),
      (''classification'', JStr (tk_classification task))]"

definition task_outbox_row :: "execution_context \<Rightarrow> task \<Rightarrow> string \<Rightarrow> instant \<Rightarrow> uuid \<Rightarrow> instant \<Rightarrow> outbox_event" where
  "task_outbox_row ctx task event occurred event_id written_at = \<lparr>
     oe_workspace_id = workspace_id task, oe_id = event_id, oe_event_type = event, oe_schema_version = 1,
     oe_aggregate_type = ''task'', oe_aggregate_id = tk_id task, oe_aggregate_sequence = tk_version task,
     oe_payload = JObj
       [(''task_id'', JStr (uuid_str (tk_id task))), (''resource_id'', JStr (uuid_str (tk_resource_id task))),
        (''version'', JInt (tk_version task)), (''status'', JStr (task_status_value (tk_status task))),
        (''policy_version'', JInt (tk_policy_version task))],
     oe_actor_id = Some (ctx_actor ctx), oe_delegation_id = None,
     oe_correlation_id = Some (correlation_id (ec_request ctx)), oe_causation_id = None,
     oe_classification = tk_classification task, oe_schema_major = 1, oe_schema_minor = 0,
     oe_idempotency_key = None, oe_payload_digest = None, oe_available_at = written_at,
     oe_attempt_count = 0, oe_quarantined = False, oe_retention_until = None,
     oe_partition_key = Some (py_year_month occurred), oe_recorded_at = occurred,
     oe_published_at = None, oe_last_error = None\<rparr>"

definition record_task :: "py_env \<Rightarrow> execution_context \<Rightarrow> task \<Rightarrow> string \<Rightarrow> instant \<Rightarrow> ('a core_db_scheme, unit) M" where
  "record_task env ctx task event occurred =
     bindM (audit_write env ctx ((audit_input event ''task'' (tk_id task) ''success'')
         \<lparr>ai_details := Some (task_details task)\<rparr>)) (\<lambda>audit.
     bindM (uuid4 env) (\<lambda>event_id.
     insert_outbox_event (task_outbox_row ctx task event occurred event_id (ae_recorded_at audit))))"

definition next_version :: "task \<Rightarrow> instant \<Rightarrow> task" where
  "next_version task occurred = task\<lparr>tk_version := tk_version task + 1, tk_updated_at := occurred\<rparr>"

definition task_changed :: "py_env \<Rightarrow> execution_context \<Rightarrow> task \<Rightarrow> string \<Rightarrow> instant \<Rightarrow> ('a task_db_scheme, task) M" where
  "task_changed env ctx task event occurred =
     (let value = next_version task occurred in
      thenM (save_task value) (thenM (record_task env ctx value event occurred) (returnM value)))"

section \<open>Tasks\<close>

definition opened_task :: "execution_context \<Rightarrow> task_create \<Rightarrow> instant \<Rightarrow> task" where
  "opened_task ctx c occurred = tenant_row.extend (context_tenant ctx) (task.fields
     (tc_task_id c) (tc_resource_id c) (tc_title c) (tc_description c) TASK_OPEN (tc_priority c)
     (tc_classification c) (tc_policy_version c) (instant_of (tc_due_at c)) (tc_timezone c)
     (tc_recurrence_reference c) (tc_source_resource_id c) (tc_completion_evidence_required c) 1
     (ctx_actor ctx) occurred occurred None None)"

definition create_task :: "py_env \<Rightarrow> 'a task_db_scheme authorizer \<Rightarrow> execution_context \<Rightarrow> task_create \<Rightarrow>
    instant option \<Rightarrow> ('a task_db_scheme, task) M" where
  "create_task env ask ctx c now =
     thenM (require_permitted ask ctx ''update_content'')
     (bindM (getsM (find_task ctx (tc_task_id c))) (\<lambda>existing.
      thenM (requireM (existing = None) (TaskError Task_identity_already_exists))
      (bindM (getsM (task_resource ctx (tc_resource_id c))) (\<lambda>found.
       thenM (requireM (found \<noteq> None) (TaskError Task_requires_an_active_canonical_task_resource))
       (bindM (or_now env now) (\<lambda>occurred.
        let value = opened_task ctx c occurred in
        thenM (add_task ctx value)
        (thenM (record_task env ctx value ''task.created'' occurred)
        (returnM value))))))))"

definition get_task :: "'a task_db_scheme authorizer \<Rightarrow> execution_context \<Rightarrow> uuid \<Rightarrow> ('a task_db_scheme, task) M" where
  "get_task ask ctx i =
     thenM (require_permitted ask ctx ''read_content'')
     (bindM (existing_task ctx i) (\<lambda>task.
      thenM (requireM (tk_status task \<noteq> TASK_DELETED) (TaskError Task_does_not_exist))
      (returnM task)))"

definition query_tasks :: "'a task_db_scheme authorizer \<Rightarrow> execution_context \<Rightarrow> task_query \<Rightarrow>
    ('a task_db_scheme, task list) M" where
  "query_tasks ask ctx q =
     thenM (require_permitted ask ctx ''read_content'') (getsM (list_tasks ctx q))"

definition entered :: "task \<Rightarrow> task_status \<Rightarrow> instant \<Rightarrow> task" where
  "entered task target occurred = task\<lparr>tk_status := target,
     tk_completed_at := (if target = TASK_COMPLETED then Some occurred else tk_completed_at task),
     tk_deleted_at := (if target = TASK_DELETED then Some occurred else tk_deleted_at task)\<rparr>"

definition transition_task :: "py_env \<Rightarrow> 'a task_db_scheme authorizer \<Rightarrow> execution_context \<Rightarrow> uuid \<Rightarrow> task_status \<Rightarrow>
    int \<Rightarrow> instant option \<Rightarrow> ('a task_db_scheme, task) M" where
  "transition_task env ask ctx i target expected_version now =
     thenM (require_permitted ask ctx (if target = TASK_DELETED then ''delete_content'' else ''update_content''))
     (bindM (locked_task ctx i expected_version) (\<lambda>task.
      thenM (liftM (transition_status (tk_status task) target))
      (bindM (getsM (evidence_count ctx (tk_id task))) (\<lambda>evidence.
       thenM (requireM (\<not> (target = TASK_COMPLETED \<and> tk_completion_evidence_required task \<and> evidence = 0))
                (TaskError Completion_evidence_is_required))
       (bindM (or_now env now) (\<lambda>occurred.
        thenM (if target \<in> {TASK_COMPLETED, TASK_CANCELLED, TASK_DELETED}
               then cancel_reminders ctx (tk_id task) else returnM ())
        (task_changed env ctx (entered task target occurred) (''task.'' @ task_status_value target) occurred)))))))"

section \<open>Participants and dependencies\<close>

definition add_participant :: "py_env \<Rightarrow> 'a task_db_scheme authorizer \<Rightarrow> execution_context \<Rightarrow> uuid \<Rightarrow> uuid \<Rightarrow> string \<Rightarrow>
    int \<Rightarrow> ('a task_db_scheme, task_participant) M" where
  "add_participant env ask ctx i user kind expected_version =
     thenM (require_permitted ask ctx ''update_content'')
     (bindM (getsM (active_member ctx user)) (\<lambda>member.
      thenM (requireM (kind \<in> {''assignee'', ''watcher''} \<and> member) (TaskError Task_participant_is_invalid))
      (bindM (locked_task ctx i expected_version) (\<lambda>task.
       bindM (utc_now env) (\<lambda>created.
       let value = tenant_row.extend (context_tenant ctx)
             (task_participant.fields (tk_id task) user kind (ctx_actor ctx) created) in
       thenM (add_participant_row ctx value)
       (bindM (utc_now env) (\<lambda>occurred.
        bindM (task_changed env ctx task ''task.participant_added'' occurred) (\<lambda>_. returnM value))))))))"

text \<open>
  \<open>_creates_cycle\<close>: the set of the targets of a task in the order of iteration, and the search
  with the stack of pending tasks, last in first out.
\<close>

definition dependency_targets :: "py_env \<Rightarrow> (uuid \<times> uuid) list \<Rightarrow> uuid \<Rightarrow> uuid list" where
  "dependency_targets env edges source = set_order env (remdups (map snd (filter (\<lambda>e. fst e = source) edges)))"

function cycle_search :: "(uuid \<Rightarrow> uuid list) \<Rightarrow> uuid \<Rightarrow> uuid list \<Rightarrow> uuid list \<Rightarrow> bool" where
  "cycle_search graph task_id visited [] = False"
| "cycle_search graph task_id visited (current # pending) =
     (if current = task_id then True
      else if current \<notin> set visited \<and> length visited < 10000
        then cycle_search graph task_id (current # visited) (rev (graph current) @ pending)
      else cycle_search graph task_id visited pending)"
  by pat_completeness auto
termination
  by (relation "measures [\<lambda>(_, _, visited, _). 10000 - length visited, \<lambda>(_, _, _, pending). length pending]") auto

definition creates_cycle :: "py_env \<Rightarrow> uuid \<Rightarrow> uuid \<Rightarrow> (uuid \<times> uuid) list \<Rightarrow> bool" where
  "creates_cycle env task_id dependency_id edges =
     cycle_search (dependency_targets env edges) task_id [] [dependency_id]"

definition add_dependency :: "py_env \<Rightarrow> 'a task_db_scheme authorizer \<Rightarrow> execution_context \<Rightarrow> uuid \<Rightarrow> uuid \<Rightarrow>
    int \<Rightarrow> ('a task_db_scheme, task_dependency) M" where
  "add_dependency env ask ctx i depends_on expected_version =
     thenM (require_permitted ask ctx ''update_content'')
     (bindM (locked_task ctx i expected_version) (\<lambda>task.
      bindM (existing_task ctx depends_on) (\<lambda>_.
      bindM (getsM (dependencies ctx)) (\<lambda>edges.
      thenM (requireM (\<not> (i = depends_on \<or> creates_cycle env i depends_on edges))
               (TaskError Task_dependency_cycle_is_prohibited))
      (bindM (utc_now env) (\<lambda>created.
       let value = tenant_row.extend (context_tenant ctx)
             (task_dependency.fields (tk_id task) depends_on (ctx_actor ctx) created) in
       thenM (add_dependency_row ctx value)
       (bindM (utc_now env) (\<lambda>occurred.
        bindM (task_changed env ctx task ''task.dependency_added'' occurred) (\<lambda>_. returnM value)))))))))"

section \<open>Comments, evidence and references\<close>

definition add_comment :: "py_env \<Rightarrow> 'a task_db_scheme authorizer \<Rightarrow> execution_context \<Rightarrow> uuid \<Rightarrow> uuid \<Rightarrow> string \<Rightarrow>
    int \<Rightarrow> ('a task_db_scheme, task_comment) M" where
  "add_comment env ask ctx i comment_id body expected_version =
     thenM (require_permitted ask ctx ''update_content'')
     (bindM (locked_task ctx i expected_version) (\<lambda>task.
      let comment = py_strip body in
      thenM (requireM (comment \<noteq> [] \<and> length comment \<le> 20000) (TaskError Task_comment_is_invalid))
      (bindM (utc_now env) (\<lambda>created.
       let value = tenant_row.extend (context_tenant ctx) (task_comment.fields comment_id (tk_id task) comment
             (tk_classification task) (tk_policy_version task) (ctx_actor ctx) created) in
       thenM (add_comment_row ctx value)
       (bindM (utc_now env) (\<lambda>occurred.
        bindM (task_changed env ctx task ''task.comment_added'' occurred) (\<lambda>_. returnM value)))))))"

definition add_completion_evidence :: "py_env \<Rightarrow> 'a task_db_scheme authorizer \<Rightarrow> execution_context \<Rightarrow> uuid \<Rightarrow> uuid \<Rightarrow>
    string \<Rightarrow> int \<Rightarrow> uuid option \<Rightarrow> uuid option \<Rightarrow> ('a task_db_scheme, task_completion_evidence) M" where
  "add_completion_evidence env ask ctx i evidence_id statement expected_version evidence_resource supersedes =
     thenM (require_permitted ask ctx ''update_content'')
     (bindM (locked_task ctx i expected_version) (\<lambda>task.
      let said = py_strip statement in
      thenM (requireM (said \<noteq> []) (TaskError Completion_evidence_statement_is_required))
      (bindM (utc_now env) (\<lambda>created.
       let value = tenant_row.extend (context_tenant ctx) (task_completion_evidence.fields evidence_id (tk_id task)
             evidence_resource (sha256_hex env said) said supersedes (ctx_actor ctx) created) in
       thenM (add_evidence_row ctx value)
       (bindM (utc_now env) (\<lambda>occurred.
        bindM (task_changed env ctx task ''task.completion_evidence_added'' occurred) (\<lambda>_. returnM value)))))))"

definition link_external :: "py_env \<Rightarrow> 'a task_db_scheme authorizer \<Rightarrow> execution_context \<Rightarrow> uuid \<Rightarrow> uuid \<Rightarrow> string \<Rightarrow>
    string \<Rightarrow> int \<Rightarrow> string option \<Rightarrow> ('a task_db_scheme, task_external_reference) M" where
  "link_external env ask ctx i reference_id authority external_id expected_version external_version =
     thenM (require_permitted ask ctx ''update_content'')
     (bindM (locked_task ctx i expected_version) (\<lambda>task.
      thenM (requireM (py_strip authority \<noteq> [] \<and> py_strip external_id \<noteq> []) (TaskError External_task_reference_is_invalid))
      (bindM (utc_now env) (\<lambda>created.
       let value = tenant_row.extend (context_tenant ctx) (task_external_reference.fields reference_id (tk_id task)
             (py_strip authority) (py_strip external_id) external_version (ctx_actor ctx) created) in
       thenM (add_external_row ctx value)
       (bindM (utc_now env) (\<lambda>occurred.
        bindM (task_changed env ctx task ''task.external_reference_linked'' occurred) (\<lambda>_. returnM value)))))))"

section \<open>Reminders\<close>

text \<open>A \<open>ReminderScheduler\<close>, if the service was built with one.\<close>

type_synonym 's scheduler = "task \<Rightarrow> string \<Rightarrow> ('s, uuid) M"

definition reminder_identity :: "py_env \<Rightarrow> task \<Rightarrow> instant \<Rightarrow> string" where
  "reminder_identity env task due =
     sha256_hex env (uuid_str (tk_id task) @ '':'' @ py_isoformat due @ '':'' @ int_str (tk_version task))"

definition ask_scheduler :: "'s scheduler option \<Rightarrow> task \<Rightarrow> string \<Rightarrow> ('s, uuid option) M" where
  "ask_scheduler scheduler task identity_key = (case scheduler of
     None \<Rightarrow> returnM None
   | Some accept \<Rightarrow> bindM (accept task identity_key) (\<lambda>job. returnM (Some job)))"

definition schedule_reminder :: "py_env \<Rightarrow> 'a task_db_scheme authorizer \<Rightarrow> 'a task_db_scheme scheduler option \<Rightarrow>
    execution_context \<Rightarrow> uuid \<Rightarrow> uuid \<Rightarrow> int \<Rightarrow> ('a task_db_scheme, task_reminder) M" where
  "schedule_reminder env ask scheduler ctx i reminder_id expected_version =
     thenM (require_permitted ask ctx ''update_content'')
     (bindM (locked_task ctx i expected_version) (\<lambda>task.
      case (tk_due_at task, tk_timezone task) of
        (Some due, Some timezone) \<Rightarrow>
          thenM (requireM (tk_status task \<notin> {TASK_COMPLETED, TASK_CANCELLED, TASK_DELETED})
                   (TaskError Task_is_not_eligible_for_a_reminder))
          (let identity_key = reminder_identity env task due in
           bindM (ask_scheduler scheduler task identity_key) (\<lambda>job.
           bindM (utc_now env) (\<lambda>created.
           let value = tenant_row.extend (context_tenant ctx) (task_reminder.fields reminder_id (tk_id task)
                 identity_key due timezone REMINDER_SCHEDULED job created) in
           thenM (add_reminder_row ctx value)
           (bindM (utc_now env) (\<lambda>occurred.
            bindM (task_changed env ctx task ''task.reminder_scheduled'' occurred) (\<lambda>_. returnM value))))))
      | _ \<Rightarrow> raiseM (TaskError Task_is_not_eligible_for_a_reminder)))"

text \<open>
  \<open>DurableTaskReminderScheduler.enqueue\<close>: the reminder is a job of a given definition that becomes
  available when the task is due. \<open>job_ctx\<close> is the context of the job service it was built with.
\<close>

definition reminder_payload :: "task \<Rightarrow> json" where
  "reminder_payload task = JObj
     [(''task_id'', JStr (uuid_str (tk_id task))), (''task_version'', JInt (tk_version task)),
      (''timezone'', JStr (case tk_timezone task of None \<Rightarrow> ''UTC'' | Some z \<Rightarrow> if z = [] then ''UTC'' else z))]"

definition durable_reminder :: "py_env \<Rightarrow> 'a job_db_scheme authorizer \<Rightarrow> execution_context \<Rightarrow> uuid \<Rightarrow> task \<Rightarrow> string \<Rightarrow>
    ('a job_db_scheme, uuid) M" where
  "durable_reminder env ask job_ctx definition_id task identity_key =
     (case tk_due_at task of
        None \<Rightarrow> raiseM (ValueError ''task reminder requires a due time'')
      | Some due \<Rightarrow>
          bindM (liftM (make_job_enqueue (uuid5_url env (''atlas:task-reminder:'' @ identity_key)) definition_id
            (''task-reminder:'' @ identity_key) ''task.reminder_due.v1'' (reminder_payload task)
            (Aware due) (Aware (due + minutes 5)) (Some (tk_resource_id task)) (tk_classification task) None)) (\<lambda>c.
          bindM (enqueue env ask job_ctx c None) (\<lambda>job.
          returnM (ji_id job))))"

end
