(* ===== verification/Task_Graph.thy ===== *)
theory Task_Graph
  imports Task_Service Example_World
begin

text \<open>
  The search for cycles among the dependencies of tasks: it stops after at most one iteration per
  dependency and one more, it finds a cycle exactly when there is one as long as no more than 10,000 tasks are involved, and it misses a
  cycle that is longer than that.
\<close>

section \<open>Iteration over a set\<close>

text \<open>What the search relies on: iterating over a set visits every element once.\<close>

definition iterates_sets :: "py_env \<Rightarrow> bool" where
  "iterates_sets env \<longleftrightarrow> (\<forall>xs. distinct xs \<longrightarrow>
     distinct (set_order env xs) \<and> set (set_order env xs) = set xs)"

lemma set_dependency_targets:
  "iterates_sets env \<Longrightarrow> set (dependency_targets env edges a) = {b. (a, b) \<in> set edges}"
  unfolding iterates_sets_def dependency_targets_def by (auto simp: image_iff)

lemma length_dependency_targets:
  assumes "iterates_sets env"
  shows "length (dependency_targets env edges a) \<le> length (filter (\<lambda>e. fst e = a) edges)"
proof -
  let ?xs = "map snd (filter (\<lambda>e. fst e = a) edges)"
  have "distinct (set_order env (remdups ?xs))" "set (set_order env (remdups ?xs)) = set ?xs"
    using assms by (simp_all add: iterates_sets_def)
  then have "length (dependency_targets env edges a) = card (set ?xs)"
    unfolding dependency_targets_def by (metis distinct_card)
  then show ?thesis using card_length [of ?xs] by simp
qed

section \<open>Termination\<close>

text \<open>The number of iterations of the loop, on the same recursion.\<close>

function cycle_steps :: "(uuid \<Rightarrow> uuid list) \<Rightarrow> uuid \<Rightarrow> uuid list \<Rightarrow> uuid list \<Rightarrow> nat" where
  "cycle_steps graph task_id visited [] = 0"
| "cycle_steps graph task_id visited (current # pending) =
     (if current = task_id then 1
      else if current \<notin> set visited \<and> length visited < 10000
        then Suc (cycle_steps graph task_id (current # visited) (rev (graph current) @ pending))
      else Suc (cycle_steps graph task_id visited pending))"
  by pat_completeness auto
termination
  by (relation "measures [\<lambda>(_, _, visited, _). 10000 - length visited, \<lambda>(_, _, _, pending). length pending]") auto

lemma cycle_steps_le:
  assumes "\<And>u. u \<notin> U \<Longrightarrow> graph u = []" "finite U"
  shows "cycle_steps graph t V P \<le> length P + (\<Sum>u \<in> U - set V. length (graph u))"
  using assms(1)
proof (induction graph t V P rule: cycle_steps.induct)
  case (2 g t V c P)
  show ?case
  proof (cases "c \<noteq> t \<and> c \<notin> set V \<and> length V < 10000")
    case fresh: True
    have IH: "cycle_steps g t (c # V) (rev (g c) @ P) \<le>
        length (g c) + length P + (\<Sum>u \<in> U - set (c # V). length (g u))"
      using 2(1,3) fresh by simp
    have "length (g c) + (\<Sum>u \<in> U - set (c # V). length (g u)) = (\<Sum>u \<in> U - set V. length (g u))"
    proof (cases "c \<in> U")
      case True
      then have "U - set V = insert c (U - set (c # V))" using fresh by auto
      then show ?thesis using assms(2) by simp
    next
      case False
      then have "U - set (c # V) = U - set V" by auto
      then show ?thesis using 2(3) [OF False] by simp
    qed
    then show ?thesis using IH fresh by simp
  next
    case False
    show ?thesis
    proof (cases "c = t")
      case ct: False
      then have "cycle_steps g t V P \<le> length P + (\<Sum>u \<in> U - set V. length (g u))"
        using 2(2) [OF ct _ 2(3)] False by auto
      then show ?thesis using ct False by auto
    qed simp
  qed
qed simp

lemma sum_filter_fst:
  assumes "finite U" "fst ` set edges \<subseteq> U"
  shows "(\<Sum>u \<in> U. length (filter (\<lambda>e. fst e = u) edges)) = length edges"
  using assms(2)
proof (induction edges)
  case (Cons e edges)
  have "(\<Sum>u \<in> U. length (filter (\<lambda>x. fst x = u) (e # edges))) =
      (\<Sum>u \<in> U. (if u = fst e then 1 else 0) + length (filter (\<lambda>x. fst x = u) edges))"
    by (intro sum.cong) auto
  also have "\<dots> = 1 + length edges"
    using Cons assms(1) by (simp add: sum.distrib)
  finally show ?case by simp
qed simp

lemma cycle_steps_edges:
  assumes "iterates_sets env"
  shows "cycle_steps (dependency_targets env edges) t [] [d] \<le> 1 + length edges"
proof -
  let ?g = "dependency_targets env edges" and ?U = "fst ` set edges"
  have "?g u = []" if "u \<notin> ?U" for u
  proof -
    have "(u, b) \<notin> set edges" for b using that by force
    then have "set (?g u) = {}" by (simp add: set_dependency_targets [OF assms])
    then show ?thesis by simp
  qed
  then have "cycle_steps ?g t [] [d] \<le> length [d] + (\<Sum>u \<in> ?U - set []. length (?g u))"
    by (intro cycle_steps_le) auto
  also have "\<dots> \<le> 1 + (\<Sum>u \<in> ?U. length (filter (\<lambda>e. fst e = u) edges))"
    using length_dependency_targets [OF assms] by (simp add: sum_mono)
  also have "\<dots> = 1 + length edges" by (simp add: sum_filter_fst)
  finally show ?thesis .
qed

section \<open>Correctness\<close>

abbreviation arcs :: "(uuid \<Rightarrow> uuid list) \<Rightarrow> (uuid \<times> uuid) set" where
  "arcs graph \<equiv> {(a, b). b \<in> set (graph a)}"

lemma cycle_search_sound: "cycle_search graph t V P \<Longrightarrow> \<exists>p \<in> set P. (p, t) \<in> (arcs graph)\<^sup>*"
proof (induction graph t V P rule: cycle_search.induct)
  case (2 g t V c P)
  show ?case
  proof (cases "c \<noteq> t \<and> c \<notin> set V \<and> length V < 10000")
    case True
    with 2 obtain p where "p \<in> set (g c) \<union> set P" "(p, t) \<in> (arcs g)\<^sup>*" by fastforce
    then show ?thesis by (cases "p \<in> set P") (auto intro: converse_rtrancl_into_rtrancl)
  next
    case False
    with 2 show ?thesis by (cases "c = t") (auto split: if_splits)
  qed
qed simp

text \<open>
  The invariant of the search: what was visited is not the target and has its successors visited
  or pending. When nothing is pending, the visited tasks are closed under dependency.
\<close>

lemma cycle_search_closed:
  assumes "\<not> cycle_search graph t V P"
    and "finite N" "card N \<le> 10000" "set V \<subseteq> N" "set P \<subseteq> N" "\<And>a. a \<in> N \<Longrightarrow> set (graph a) \<subseteq> N"
    and "distinct V" "t \<notin> set V" "\<And>v. v \<in> set V \<Longrightarrow> set (graph v) \<subseteq> set V \<union> set P"
  shows "\<exists>W. set V \<union> set P \<subseteq> W \<and> t \<notin> W \<and> (\<forall>w \<in> W. set (graph w) \<subseteq> W)"
  using assms
proof (induction graph t V P rule: cycle_search.induct)
  case (1 g t V)
  then show ?case by (intro exI [of _ "set V"]) auto
next
  case (2 g t V c P)
  from 2(3) have ct: "c \<noteq> t" by auto
  show ?case
  proof (cases "c \<in> set V")
    case True
    have "\<exists>W. set V \<union> set P \<subseteq> W \<and> t \<notin> W \<and> (\<forall>w \<in> W. set (g w) \<subseteq> W)"
    proof (rule 2(2) [OF ct])
      show "\<not> (c \<notin> set V \<and> length V < 10000)" using True by simp
      show "\<not> cycle_search g t V P" using 2(3) ct True by simp
      show "set (g v) \<subseteq> set V \<union> set P" if "v \<in> set V" for v
        using 2(11) [OF that] True by auto
      show "finite N" "card N \<le> 10000" "set V \<subseteq> N" "distinct V" "t \<notin> set V" by (fact 2)+
      show "set P \<subseteq> N" using 2(7) by simp
      show "set (g a) \<subseteq> N" if "a \<in> N" for a using that by (rule 2(8))
    qed
    moreover have "set V \<union> set (c # P) = set V \<union> set P" using True by auto
    ultimately show ?thesis by simp
  next
    case False
    have "card (set V) < card N" using False 2(4,6,7) by (intro psubset_card_mono) auto
    then have len: "length V < 10000" using 2(5,9) distinct_card [of V] by simp
    have "\<exists>W. set (c # V) \<union> set (rev (g c) @ P) \<subseteq> W \<and> t \<notin> W \<and> (\<forall>w \<in> W. set (g w) \<subseteq> W)"
    proof (rule 2(1) [OF ct])
      show "c \<notin> set V \<and> length V < 10000" using False len by simp
      show "\<not> cycle_search g t (c # V) (rev (g c) @ P)" using 2(3) ct False len by simp
      show "set (c # V) \<subseteq> N" "set (rev (g c) @ P) \<subseteq> N" using 2(6,7,8) by auto
      show "distinct (c # V)" "t \<notin> set (c # V)" using 2(9,10) False ct by auto
      show "set (g v) \<subseteq> set (c # V) \<union> set (rev (g c) @ P)" if "v \<in> set (c # V)" for v
        using that 2(11) [of v] by auto
      show "finite N" "card N \<le> 10000" by (fact 2)+
      show "set (g a) \<subseteq> N" if "a \<in> N" for a using that by (rule 2(8))
    qed
    then obtain W where W: "set (c # V) \<union> set (rev (g c) @ P) \<subseteq> W" "t \<notin> W" "\<forall>w \<in> W. set (g w) \<subseteq> W" by blast
    from W(1) have "set V \<union> set (c # P) \<subseteq> W" by simp
    with W(2,3) show ?thesis by blast
  qed
qed

lemma cycle_search_complete:
  assumes "\<not> cycle_search graph t [] [d]" "finite N" "card N \<le> 10000" "d \<in> N" "\<And>a. a \<in> N \<Longrightarrow> set (graph a) \<subseteq> N"
  shows "(d, t) \<notin> (arcs graph)\<^sup>*"
proof
  assume path: "(d, t) \<in> (arcs graph)\<^sup>*"
  from cycle_search_closed [OF assms(1,2,3) _ _ assms(5)] assms(4) obtain W
    where W: "d \<in> W" "t \<notin> W" "\<forall>w \<in> W. set (graph w) \<subseteq> W" by auto
  from path have "t \<in> W" using W(1,3) by (induction rule: rtrancl_induct) auto
  then show False using W(2) by simp
qed

lemma arcs_dependency: "iterates_sets env \<Longrightarrow> arcs (dependency_targets env edges) = set edges"
  by (auto simp: set_dependency_targets)

lemma creates_cycle_path: "iterates_sets env \<Longrightarrow> creates_cycle env t d edges \<Longrightarrow> (d, t) \<in> (set edges)\<^sup>*"
  unfolding creates_cycle_def by (drule cycle_search_sound) (simp add: arcs_dependency)

lemma creates_cycle_iff:
  assumes "iterates_sets env" "card (insert d (snd ` set edges)) \<le> 10000"
  shows "creates_cycle env t d edges \<longleftrightarrow> (d, t) \<in> (set edges)\<^sup>*"
proof
  show "(d, t) \<in> (set edges)\<^sup>*" if "creates_cycle env t d edges" using assms(1) that by (rule creates_cycle_path)
  show "creates_cycle env t d edges" if path: "(d, t) \<in> (set edges)\<^sup>*"
  proof (rule ccontr)
    assume "\<not> creates_cycle env t d edges"
    then have "(d, t) \<notin> (arcs (dependency_targets env edges))\<^sup>*"
      unfolding creates_cycle_def
      by (rule cycle_search_complete [where N = "insert d (snd ` set edges)"])
        (use assms in \<open>force simp: set_dependency_targets\<close>)+
    then show False using path by (simp add: arcs_dependency [OF assms(1)])
  qed
qed

text \<open>With fewer than 10,000 dependencies the bound is never met.\<close>

lemma few_edges: "length edges < 10000 \<Longrightarrow> card (insert d (snd ` set edges)) \<le> 10000"
proof -
  assume "length edges < 10000"
  moreover have "card (snd ` set edges) \<le> length edges"
    by (rule le_trans [OF card_image_le card_length]) simp
  ultimately show ?thesis by (simp add: card_insert_if)
qed

section \<open>The properties\<close>

text \<open>
  C32: \<open>_creates_cycle\<close> returns, and its loop runs at most once for every dependency and once
  more.
\<close>

theorem cycle_search_terminates:
  assumes "iterates_sets env"
  shows "cycle_steps (dependency_targets env edges) task_id [] [dependency_id] \<le> 1 + length edges"
  by (rule cycle_steps_edges [OF assms])

lemma example_iterates: "iterates_sets example_env"
  by (simp add: iterates_sets_def example_env_def)

lemma cycle_search_terminates_witness:
  "cycle_steps (dependency_targets example_env [(1, 2), (2, 3), (3, 1)]) 9 [] [1] \<le> 4"
  using cycle_search_terminates [OF example_iterates, of "[(1, 2), (2, 3), (3, 1)]" 9 1] by simp

text \<open>
  C20: Among fewer than 10,000 dependencies, \<open>_creates_cycle\<close> answers exactly whether the new
  dependency would close a cycle: whether the task that is depended on already depends, directly or
  through others, on the task.
\<close>

theorem cycle_search_correct:
  assumes "iterates_sets env" "length edges < 10000"
  shows "creates_cycle env task_id dependency_id edges \<longleftrightarrow> (dependency_id, task_id) \<in> (set edges)\<^sup>*"
  by (rule creates_cycle_iff [OF assms(1) few_edges [OF assms(2)]])

lemma cycle_search_correct_witness: "(1 :: uuid, 3) \<in> (set [(1, 2), (2, 3)])\<^sup>* \<and> (3 :: uuid, 1) \<notin> (set [(1, 2), (2, 3)])\<^sup>*"
  using cycle_search_correct [OF example_iterates, of "[(1, 2), (2, 3)]" 3 1]
    cycle_search_correct [OF example_iterates, of "[(1, 2), (2, 3)]" 1 3]
  by (simp add: creates_cycle_def dependency_targets_def example_env_def)

section \<open>Long chains\<close>

text \<open>Task \<open>i\<close> depends on task \<open>i + 1\<close>.\<close>

definition chain :: "nat \<Rightarrow> (uuid \<times> uuid) list" where
  "chain n = map (\<lambda>i. (of_nat i, of_nat (Suc i))) [0..<n]"

lemma of_nat_uuid_eq: "i < 2 ^ 128 \<Longrightarrow> j < 2 ^ 128 \<Longrightarrow> (of_nat i :: uuid) = of_nat j \<longleftrightarrow> i = j"
  by (simp add: word_of_nat_eq_iff take_bit_nat_eq_self_iff take_bit_nat_eq_self)

lemma chain_targets:
  assumes "iterates_sets env" "n < 2 ^ 128" "i < n"
  shows "dependency_targets env (chain n) (of_nat i) = [of_nat (Suc i)]"
proof -
  let ?t = "dependency_targets env (chain n) (of_nat i)"
  have "j = i" if "(of_nat j :: uuid) = of_nat i" "j < n" for j
    using that of_nat_uuid_eq [of j i] assms(2,3) by simp
  then have "{b. (of_nat i, b) \<in> set (chain n)} = {of_nat (Suc i)}"
    using assms(3) by (force simp: chain_def)
  then have "set ?t = {of_nat (Suc i)}" by (simp add: set_dependency_targets [OF assms(1)])
  moreover have "distinct ?t" using assms(1) by (simp add: iterates_sets_def dependency_targets_def)
  ultimately show ?thesis by (cases ?t; cases "tl ?t") auto
qed

lemma chain_path: "i \<le> n \<Longrightarrow> (0, of_nat i) \<in> (set (chain n))\<^sup>*"
proof (induction i)
  case (Suc i)
  then have "(of_nat i :: uuid, of_nat (Suc i)) \<in> set (chain n)" by (force simp: chain_def)
  with Suc show ?case by (meson Suc_leD rtrancl.rtrancl_into_rtrancl)
qed simp

text \<open>The search has visited the first \<open>i\<close> tasks; after 10,000 it drops the next one.\<close>

lemma chain_search:
  assumes "iterates_sets env" "n < 2 ^ 128" "10000 < n"
  shows "i \<le> 10000 \<Longrightarrow> \<not> cycle_search (dependency_targets env (chain n)) (of_nat n) (map of_nat (rev [0..<i])) [of_nat i]"
proof (induction "10000 - i" arbitrary: i)
  case 0
  then have "(of_nat i :: uuid) \<noteq> of_nat n" using assms of_nat_uuid_eq [of i n] by simp
  then show ?case using 0 by simp
next
  case (Suc k)
  have ne: "(of_nat i :: uuid) \<noteq> of_nat n" using assms Suc(2,3) of_nat_uuid_eq [of i n] by simp
  have new: "(of_nat i :: uuid) \<notin> set (map of_nat (rev [0..<i]))"
  proof
    assume "(of_nat i :: uuid) \<in> set (map of_nat (rev [0..<i]))"
    then obtain j where "j < i" "(of_nat i :: uuid) = of_nat j" by auto
    then show False using Suc(3) of_nat_uuid_eq [of i j] by simp
  qed
  have rest: "\<not> cycle_search (dependency_targets env (chain n)) (of_nat n) (of_nat i # map of_nat (rev [0..<i])) [of_nat (Suc i)]"
    using Suc(1) [of "Suc i"] Suc(2) by simp
  have "dependency_targets env (chain n) (of_nat i) = [of_nat (Suc i)]"
    by (rule chain_targets [OF assms(1,2)]) (use assms(3) Suc(3) in simp)
  moreover have "length (map of_nat (rev [0..<i]) :: uuid list) < 10000" using Suc(2) by simp
  ultimately show ?case
    unfolding cycle_search.simps(2) using ne new rest by (simp only: if_False if_True rev.simps append.simps simp_thms)
qed

text \<open>
  C35: Beyond its bound \<open>_creates_cycle\<close> is wrong: in a chain of 10,001 dependencies the first task
  depends on the last, and the search still says that the last may depend on the first.
\<close>

theorem long_cycle_is_missed:
  assumes "iterates_sets env"
  shows "\<not> creates_cycle env 10001 0 (chain 10001) \<and> (0, 10001) \<in> (set (chain 10001))\<^sup>*"
  using chain_search [OF assms, of 10001 0] chain_path [of 10001 10001] by (simp add: creates_cycle_def)

lemma long_cycle_is_missed_witness: "\<not> creates_cycle example_env 10001 0 (chain 10001)"
  using long_cycle_is_missed [OF example_iterates] by blast

end
