(* ===== verification/Task_Steps.thy ===== *)
theory Task_Steps
  imports Task_Graph
begin

text \<open>
  Tasks as an abstract machine. A step of the machine in a workspace creates a task, moves one to
  another status, or attaches a row to one; every step but the first raises the version of the task
  by one, and every step appends the event of the new version. \<open>task_inv\<close> is what the steps keep.
\<close>

section \<open>The tables\<close>

record task_tables =
  xt_tasks :: "task list"
  xt_participants :: "task_participant list"
  xt_dependencies :: "task_dependency list"
  xt_comments :: "task_comment list"
  xt_evidence :: "task_completion_evidence list"
  xt_references :: "task_external_reference list"
  xt_reminders :: "task_reminder list"
  xt_events :: "outbox_event list"

type_synonym task_key = "uuid \<times> uuid"

definition key :: "task \<Rightarrow> task_key" where "key k = (workspace_id k, tk_id k)"

definition edges_in :: "uuid \<Rightarrow> task_dependency list \<Rightarrow> (uuid \<times> uuid) list" where
  "edges_in w ds = map (\<lambda>r. (td_task_id r, td_depends_on_task_id r)) (filter (\<lambda>r. workspace_id r = w) ds)"

text \<open>The event that a version of a task is announced with.\<close>

definition event_key :: "outbox_event \<Rightarrow> task_key" where
  "event_key e = (oe_workspace_id e, oe_aggregate_id e)"

definition announces :: "outbox_event \<Rightarrow> task \<Rightarrow> bool" where
  "announces e k \<longleftrightarrow> oe_aggregate_type e = ''task'' \<and> event_key e = key k \<and> oe_aggregate_sequence e = tk_version k"

definition evidence_for :: "task_tables \<Rightarrow> task \<Rightarrow> bool" where
  "evidence_for t k \<longleftrightarrow> (\<exists>e \<in> set (xt_evidence t). (workspace_id e, te_task_id e) = key k)"

abbreviation closing :: "task_status set" where
  "closing \<equiv> {TASK_COMPLETED, TASK_CANCELLED, TASK_DELETED}"

section \<open>The steps\<close>

text \<open>\<open>replaced k k' e t\<close>: the task \<open>k\<close> became \<open>k'\<close>, announced by \<open>e\<close>.\<close>

definition replaced :: "task \<Rightarrow> outbox_event \<Rightarrow> task_tables \<Rightarrow> task_tables" where
  "replaced k' e t = t\<lparr>xt_tasks := replace_row tk_pk k' (xt_tasks t), xt_events := xt_events t @ [e]\<rparr>"

lemma replaced_simps [simp]:
  "xt_tasks (replaced k' e t) = replace_row tk_pk k' (xt_tasks t)" "xt_events (replaced k' e t) = xt_events t @ [e]"
  "xt_participants (replaced k' e t) = xt_participants t" "xt_dependencies (replaced k' e t) = xt_dependencies t"
  "xt_comments (replaced k' e t) = xt_comments t" "xt_evidence (replaced k' e t) = xt_evidence t"
  "xt_references (replaced k' e t) = xt_references t" "xt_reminders (replaced k' e t) = xt_reminders t"
  by (simp_all add: replaced_def)

inductive task_step :: "uuid \<Rightarrow> task_tables \<Rightarrow> task_tables \<Rightarrow> bool" for w t where
  create: "\<lbrakk> workspace_id v = w; key v \<notin> key ` set (xt_tasks t); tk_status v = TASK_OPEN; tk_version v = 1;
     tk_completed_at v = None; tk_deleted_at v = None; announces e v \<rbrakk> \<Longrightarrow>
   task_step w t (t\<lparr>xt_tasks := xt_tasks t @ [v], xt_events := xt_events t @ [e]\<rparr>)"
| enter: "\<lbrakk> k \<in> set (xt_tasks t); workspace_id k = w; target \<in> set (TRANSITIONS (tk_status k));
     target = TASK_COMPLETED \<and> tk_completion_evidence_required k \<Longrightarrow> evidence_for t k;
     k' = next_version (entered k target now) now; announces e k';
     rs = (if target \<in> closing then cancelled_reminders w (tk_id k) (xt_reminders t) else xt_reminders t) \<rbrakk> \<Longrightarrow>
   task_step w t ((replaced k' e t)\<lparr>xt_reminders := rs\<rparr>)"
| attach: "\<lbrakk> k \<in> set (xt_tasks t); workspace_id k = w; tk_status k \<noteq> TASK_DELETED; k' = next_version k now; announces e k';
     \<forall>x \<in> set ps. (workspace_id x, tp_task_id x) = key k; \<forall>x \<in> set cs. (workspace_id x, cc_task_id x) = key k;
     \<forall>x \<in> set es. (workspace_id x, te_task_id x) = key k; \<forall>x \<in> set xs. (workspace_id x, tx_task_id x) = key k \<rbrakk> \<Longrightarrow>
   task_step w t ((replaced k' e t)\<lparr>xt_participants := xt_participants t @ ps, xt_comments := xt_comments t @ cs,
     xt_evidence := xt_evidence t @ es, xt_references := xt_references t @ xs\<rparr>)"
| depend: "\<lbrakk> k \<in> set (xt_tasks t); workspace_id k = w; tk_status k \<noteq> TASK_DELETED; k' = next_version k now; announces e k';
     (workspace_id d, td_task_id d) = key k; (w, td_depends_on_task_id d) \<in> key ` set (xt_tasks t);
     td_depends_on_task_id d \<noteq> tk_id k;
     length (edges_in w (xt_dependencies t)) < 10000 \<Longrightarrow>
       (td_depends_on_task_id d, tk_id k) \<notin> (set (edges_in w (xt_dependencies t)))\<^sup>* \<rbrakk> \<Longrightarrow>
   task_step w t ((replaced k' e t)\<lparr>xt_dependencies := xt_dependencies t @ [d]\<rparr>)"
| remind: "\<lbrakk> k \<in> set (xt_tasks t); workspace_id k = w; tk_status k \<notin> closing; k' = next_version k now; announces e k';
     (workspace_id r, tr_task_id r) = key k \<rbrakk> \<Longrightarrow>
   task_step w t ((replaced k' e t)\<lparr>xt_reminders := xt_reminders t @ [r]\<rparr>)"

inductive_cases task_stepE: "task_step w t t'"

section \<open>The invariant\<close>

definition task_ok :: "task \<Rightarrow> bool" where
  "task_ok k \<longleftrightarrow> 1 \<le> tk_version k \<and> (tk_status k = TASK_COMPLETED \<longrightarrow> tk_completed_at k \<noteq> None) \<and>
     (tk_completed_at k \<noteq> None \<longrightarrow> tk_status k \<in> {TASK_COMPLETED, TASK_DELETED}) \<and>
     (tk_status k = TASK_DELETED \<longleftrightarrow> tk_deleted_at k \<noteq> None)"

definition rows_attached :: "task_tables \<Rightarrow> bool" where
  "rows_attached t \<longleftrightarrow>
     (\<forall>x \<in> set (xt_participants t). (workspace_id x, tp_task_id x) \<in> key ` set (xt_tasks t)) \<and>
     (\<forall>x \<in> set (xt_dependencies t). (workspace_id x, td_task_id x) \<in> key ` set (xt_tasks t) \<and>
        (workspace_id x, td_depends_on_task_id x) \<in> key ` set (xt_tasks t)) \<and>
     (\<forall>x \<in> set (xt_comments t). (workspace_id x, cc_task_id x) \<in> key ` set (xt_tasks t)) \<and>
     (\<forall>x \<in> set (xt_evidence t). (workspace_id x, te_task_id x) \<in> key ` set (xt_tasks t)) \<and>
     (\<forall>x \<in> set (xt_references t). (workspace_id x, tx_task_id x) \<in> key ` set (xt_tasks t)) \<and>
     (\<forall>x \<in> set (xt_events t). event_key x \<in> key ` set (xt_tasks t))"

definition evidence_ok :: "task_tables \<Rightarrow> bool" where
  "evidence_ok t \<longleftrightarrow> (\<forall>k \<in> set (xt_tasks t). tk_completed_at k \<noteq> None \<and> tk_completion_evidence_required k \<longrightarrow> evidence_for t k)"

definition reminders_ok :: "task_tables \<Rightarrow> bool" where
  "reminders_ok t \<longleftrightarrow> (\<forall>r \<in> set (xt_reminders t). tr_status r = REMINDER_SCHEDULED \<longrightarrow>
     (\<exists>k \<in> set (xt_tasks t). (workspace_id r, tr_task_id r) = key k \<and> tk_status k \<notin> closing))"

definition dependencies_ok :: "task_tables \<Rightarrow> bool" where
  "dependencies_ok t \<longleftrightarrow> (\<forall>w. length (edges_in w (xt_dependencies t)) < 10000 \<longrightarrow> acyclic (set (edges_in w (xt_dependencies t))))"

text \<open>The events of a task number its versions, from 1 without a gap and in order.\<close>

definition events_ok :: "task_tables \<Rightarrow> bool" where
  "events_ok t \<longleftrightarrow> (\<forall>k \<in> set (xt_tasks t).
     map oe_aggregate_sequence (filter (\<lambda>e. event_key e = key k) (xt_events t)) = [1..tk_version k])"

definition task_inv :: "task_tables \<Rightarrow> bool" where
  "task_inv t \<longleftrightarrow> distinct (map key (xt_tasks t)) \<and> (\<forall>k \<in> set (xt_tasks t). task_ok k) \<and> rows_attached t \<and>
     evidence_ok t \<and> reminders_ok t \<and> dependencies_ok t \<and> events_ok t"

section \<open>Steps keep the invariant\<close>

lemma key_pk: "tk_pk x = tk_pk y \<Longrightarrow> key x = key y"
  by (simp add: tk_pk_def key_def)

lemma next_version_simps [simp]:
  "tk_pk (next_version k now) = tk_pk k" "key (next_version k now) = key k" "workspace_id (next_version k now) = workspace_id k"
  "tk_id (next_version k now) = tk_id k" "tk_status (next_version k now) = tk_status k"
  "tk_version (next_version k now) = tk_version k + 1" "tk_completed_at (next_version k now) = tk_completed_at k"
  "tk_deleted_at (next_version k now) = tk_deleted_at k"
  "tk_completion_evidence_required (next_version k now) = tk_completion_evidence_required k"
  by (simp_all add: next_version_def tk_pk_def key_def tenant_pk_def)

lemma entered_simps [simp]:
  "tk_pk (entered k target now) = tk_pk k" "key (entered k target now) = key k" "workspace_id (entered k target now) = workspace_id k"
  "tk_id (entered k target now) = tk_id k" "tk_status (entered k target now) = target"
  "tk_version (entered k target now) = tk_version k"
  "tk_completion_evidence_required (entered k target now) = tk_completion_evidence_required k"
  by (simp_all add: entered_def tk_pk_def key_def tenant_pk_def)

text \<open>A row of the table after a change is the changed task or one with another key.\<close>

lemma in_replaced_task:
  assumes "distinct (map key ts)" "k \<in> set ts" "tk_pk k' = tk_pk k" "x \<in> set (replace_row tk_pk k' ts)"
  shows "x = k' \<or> x \<in> set ts \<and> key x \<noteq> key k"
proof (cases "x = k'")
  case False
  then have x: "x \<in> set ts" "tk_pk x \<noteq> tk_pk k" using in_replace_row [OF assms(4)] assms(3) by auto
  then have "x \<noteq> k" by auto
  then show ?thesis using distinct_keys_unique [OF assms(1) x(1) assms(2)] x(1) by auto
qed simp

lemma keys_replaced:
  assumes "tk_pk k' = tk_pk k"
  shows "map key (replace_row tk_pk k' ts) = map key ts" "key ` set (replace_row tk_pk k' ts) = key ` set ts"
proof -
  show *: "map key (replace_row tk_pk k' ts) = map key ts" by (rule map_replace_row_same) (rule key_pk)
  show "key ` set (replace_row tk_pk k' ts) = key ` set ts" using arg_cong [OF *, of set] by simp
qed

lemma replaced_present:
  "k \<in> set ts \<Longrightarrow> tk_pk k' = tk_pk k \<Longrightarrow> k' \<in> set (replace_row tk_pk k' ts)"
  using replace_row_present [of k ts tk_pk k'] by simp

lemma other_present:
  assumes "x \<in> set ts" "key x \<noteq> key k" "tk_pk k' = tk_pk k"
  shows "x \<in> set (replace_row tk_pk k' ts)"
  using assms key_pk [of x k] by (intro replace_row_other) auto

text \<open>The change of one task: \<open>k\<close> becomes \<open>k'\<close> with the next version.\<close>

definition changes :: "task_tables \<Rightarrow> task \<Rightarrow> task \<Rightarrow> bool" where
  "changes t k k' \<longleftrightarrow> k \<in> set (xt_tasks t) \<and> tk_pk k' = tk_pk k \<and> tk_version k' = tk_version k + 1 \<and>
     tk_completion_evidence_required k' = tk_completion_evidence_required k"

lemma changes_next: "k \<in> set (xt_tasks t) \<Longrightarrow> changes t k (next_version k now)"
  by (simp add: changes_def)

lemma changes_entered: "k \<in> set (xt_tasks t) \<Longrightarrow> changes t k (next_version (entered k target now) now)"
  by (simp add: changes_def)

lemma changes_key: "changes t k k' \<Longrightarrow> key k' = key k"
  by (auto simp: changes_def dest: key_pk)

lemma task_ok_entered:
  assumes "task_ok k" "target \<in> set (TRANSITIONS (tk_status k))"
  shows "task_ok (next_version (entered k target now) now)"
  using assms by (cases "tk_status k"; cases target) (auto simp: task_ok_def next_version_def entered_def)

lemma task_ok_next: "task_ok k \<Longrightarrow> task_ok (next_version k now)"
  unfolding task_ok_def by auto

lemma events_changed:
  assumes inv: "task_inv t" and ch: "changes t k k'" and e: "announces e k'"
    and t': "xt_tasks t' = replace_row tk_pk k' (xt_tasks t)" "xt_events t' = xt_events t @ [e]"
  shows "events_ok t'"
  unfolding events_ok_def t'
proof
  fix x
  assume x: "x \<in> set (replace_row tk_pk k' (xt_tasks t))"
  have old: "\<forall>k \<in> set (xt_tasks t). map oe_aggregate_sequence (filter (\<lambda>e. event_key e = key k) (xt_events t)) = [1..tk_version k]"
    and d: "distinct (map key (xt_tasks t))" and v: "1 \<le> tk_version k"
    using inv ch by (auto simp: task_inv_def events_ok_def task_ok_def changes_def)
  have k: "k \<in> set (xt_tasks t)" "tk_pk k' = tk_pk k" "key k' = key k" "tk_version k' = tk_version k + 1"
    using ch changes_key [OF ch] by (simp_all add: changes_def)
  from in_replaced_task [OF d k(1,2) x]
  show "map oe_aggregate_sequence (filter (\<lambda>e. event_key e = key x) (xt_events t @ [e])) = [1..tk_version x]"
  proof
    assume "x = k'"
    moreover have "[1..tk_version k + 1] = [1..tk_version k] @ [tk_version k + 1]" using upto_rec2 [of 1 "tk_version k + 1"] v by simp
    ultimately show ?thesis using old k e by (simp add: announces_def)
  next
    assume "x \<in> set (xt_tasks t) \<and> key x \<noteq> key k"
    then have "key k \<noteq> key x" "x \<in> set (xt_tasks t)" by auto
    then show ?thesis using old k e by (simp add: announces_def)
  qed
qed

lemma task_rows_changed:
  assumes inv: "task_inv t" and ch: "changes t k k'" and ok: "task_ok k'"
  shows "distinct (map key (replace_row tk_pk k' (xt_tasks t))) \<and> (\<forall>x \<in> set (replace_row tk_pk k' (xt_tasks t)). task_ok x)"
proof -
  have "tk_pk k' = tk_pk k" using ch by (simp add: changes_def)
  then show ?thesis
    using inv ok keys_replaced(1) [of k' k "xt_tasks t"] by (auto simp: task_inv_def dest!: in_replace_row)
qed

lemma evidence_changed:
  assumes inv: "task_inv t" and ch: "changes t k k'"
    and new: "tk_completed_at k' \<noteq> None \<and> tk_completion_evidence_required k \<Longrightarrow> tk_completed_at k \<noteq> None \<or> evidence_for t k"
    and t': "xt_tasks t' = replace_row tk_pk k' (xt_tasks t)" "set (xt_evidence t) \<subseteq> set (xt_evidence t')"
  shows "evidence_ok t'"
proof -
  have mono: "evidence_for t x \<Longrightarrow> key x = key y \<Longrightarrow> evidence_for t' y" for x y using t'(2) by (auto simp: evidence_for_def)
  have old: "\<forall>k \<in> set (xt_tasks t). tk_completed_at k \<noteq> None \<and> tk_completion_evidence_required k \<longrightarrow> evidence_for t k"
    using inv by (simp add: task_inv_def evidence_ok_def)
  have k: "k \<in> set (xt_tasks t)" "tk_completion_evidence_required k' = tk_completion_evidence_required k"
    using ch by (simp_all add: changes_def)
  have "evidence_for t' k'" if "tk_completed_at k' \<noteq> None" "tk_completion_evidence_required k'"
  proof -
    have "evidence_for t k" using new old k that by auto
    then show ?thesis using changes_key [OF ch] by (auto intro: mono)
  qed
  moreover have "evidence_for t' x" if "x \<in> set (xt_tasks t)" "tk_completed_at x \<noteq> None" "tk_completion_evidence_required x" for x
    using old that mono by blast
  ultimately show ?thesis unfolding evidence_ok_def t' by (auto dest!: in_replace_row)
qed

text \<open>Reminders of tasks that did not close stay.\<close>

lemma reminders_changed:
  assumes inv: "task_inv t" and ch: "changes t k k'"
    and t': "xt_tasks t' = replace_row tk_pk k' (xt_tasks t)"
    and rs: "\<And>r. r \<in> set (xt_reminders t') \<Longrightarrow> tr_status r = REMINDER_SCHEDULED \<Longrightarrow>
      (r \<in> set (xt_reminders t) \<or> (workspace_id r, tr_task_id r) = key k) \<and>
      ((workspace_id r, tr_task_id r) = key k \<longrightarrow> tk_status k' \<notin> closing)"
  shows "reminders_ok t'"
  unfolding reminders_ok_def t'
proof (intro ballI impI)
  fix r
  assume r: "r \<in> set (xt_reminders t')" "tr_status r = REMINDER_SCHEDULED"
  have k: "k \<in> set (xt_tasks t)" "tk_pk k' = tk_pk k" "key k' = key k"
    using ch changes_key [OF ch] by (simp_all add: changes_def)
  show "\<exists>x \<in> set (replace_row tk_pk k' (xt_tasks t)). (workspace_id r, tr_task_id r) = key x \<and> tk_status x \<notin> closing"
  proof (cases "(workspace_id r, tr_task_id r) = key k")
    case True
    then show ?thesis using rs [OF r] k replaced_present [OF k(1,2)] by (intro bexI [of _ k']) auto
  next
    case False
    then have "r \<in> set (xt_reminders t)" using rs [OF r] by blast
    then obtain x where x: "x \<in> set (xt_tasks t)" "(workspace_id r, tr_task_id r) = key x" "tk_status x \<notin> closing"
      using inv r(2) unfolding task_inv_def reminders_ok_def by blast
    then have "x \<in> set (replace_row tk_pk k' (xt_tasks t))" using False by (intro other_present [OF _ _ k(2)]) auto
    then show ?thesis using x by blast
  qed
qed

lemma in_cancelled: "r \<in> set (cancelled_reminders w i rs) \<Longrightarrow> tr_status r = REMINDER_SCHEDULED \<Longrightarrow>
    r \<in> set rs \<and> (workspace_id r, tr_task_id r) \<noteq> (w, i)"
  by (auto simp: cancelled_reminders_def reminder_to_cancel_def split: if_splits)

lemma rows_changed:
  assumes inv: "task_inv t" and ch: "changes t k k'" and e: "announces e k'"
    and t': "xt_tasks t' = replace_row tk_pk k' (xt_tasks t)" "xt_events t' = xt_events t @ [e]"
    and rows: "\<And>x. x \<in> set (xt_participants t') \<Longrightarrow> x \<in> set (xt_participants t) \<or> (workspace_id x, tp_task_id x) = key k"
      "\<And>x. x \<in> set (xt_dependencies t') \<Longrightarrow> x \<in> set (xt_dependencies t) \<or> (workspace_id x, td_task_id x) = key k \<and>
         (workspace_id x, td_depends_on_task_id x) \<in> key ` set (xt_tasks t)"
      "\<And>x. x \<in> set (xt_comments t') \<Longrightarrow> x \<in> set (xt_comments t) \<or> (workspace_id x, cc_task_id x) = key k"
      "\<And>x. x \<in> set (xt_evidence t') \<Longrightarrow> x \<in> set (xt_evidence t) \<or> (workspace_id x, te_task_id x) = key k"
      "\<And>x. x \<in> set (xt_references t') \<Longrightarrow> x \<in> set (xt_references t) \<or> (workspace_id x, tx_task_id x) = key k"
  shows "rows_attached t'"
proof -
  have k: "key k \<in> key ` set (xt_tasks t)" "event_key e = key k"
    using ch e changes_key [OF ch] by (auto simp: changes_def announces_def)
  have keys: "key ` set (xt_tasks t') = key ` set (xt_tasks t)"
    unfolding t' using ch by (intro keys_replaced) (simp add: changes_def)
  have old: "rows_attached t" using inv by (simp add: task_inv_def)
  show ?thesis
    unfolding rows_attached_def keys
  proof (intro conjI ballI)
    show "(workspace_id x, tp_task_id x) \<in> key ` set (xt_tasks t)" if "x \<in> set (xt_participants t')" for x
      using rows(1) [OF that] old k unfolding rows_attached_def by metis
    show "(workspace_id x, td_task_id x) \<in> key ` set (xt_tasks t)"
      "(workspace_id x, td_depends_on_task_id x) \<in> key ` set (xt_tasks t)" if "x \<in> set (xt_dependencies t')" for x
      using rows(2) [OF that] old k unfolding rows_attached_def by metis+
    show "(workspace_id x, cc_task_id x) \<in> key ` set (xt_tasks t)" if "x \<in> set (xt_comments t')" for x
      using rows(3) [OF that] old k unfolding rows_attached_def by metis
    show "(workspace_id x, te_task_id x) \<in> key ` set (xt_tasks t)" if "x \<in> set (xt_evidence t')" for x
      using rows(4) [OF that] old k unfolding rows_attached_def by metis
    show "(workspace_id x, tx_task_id x) \<in> key ` set (xt_tasks t)" if "x \<in> set (xt_references t')" for x
      using rows(5) [OF that] old k unfolding rows_attached_def by metis
    show "event_key x \<in> key ` set (xt_tasks t)" if "x \<in> set (xt_events t')" for x
      using that old k unfolding rows_attached_def t' by auto
  qed
qed

text \<open>What is left to show of a step that changes a task.\<close>

lemma task_inv_changed:
  assumes "task_inv t" "changes t k k'" "announces e k'" "task_ok k'"
    and "xt_tasks t' = replace_row tk_pk k' (xt_tasks t)" "xt_events t' = xt_events t @ [e]"
    and "rows_attached t'" "evidence_ok t'" "reminders_ok t'" "dependencies_ok t'"
  shows "task_inv t'"
  using task_rows_changed [OF assms(1,2,4)] events_changed [OF assms(1-3,5,6)] assms(5-)
  by (simp add: task_inv_def)

lemma same_reminders:
  assumes "task_inv t" "changes t k k'" "xt_tasks t' = replace_row tk_pk k' (xt_tasks t)" "xt_reminders t' = xt_reminders t"
    and "tk_status k' \<notin> closing \<or> tk_status k \<in> closing"
  shows "reminders_ok t'"
proof (rule reminders_changed [OF assms(1-3)])
  fix r
  assume r: "r \<in> set (xt_reminders t')" "tr_status r = REMINDER_SCHEDULED"
  have d: "distinct (map key (xt_tasks t))" and k: "k \<in> set (xt_tasks t)"
    using assms(1,2) by (simp_all add: task_inv_def changes_def)
  from r assms(4) obtain x where x: "x \<in> set (xt_tasks t)" "(workspace_id r, tr_task_id r) = key x" "tk_status x \<notin> closing"
    using assms(1) unfolding task_inv_def reminders_ok_def by metis
  have "tk_status k \<notin> closing" if "(workspace_id r, tr_task_id r) = key k"
  proof -
    have "x = k" using x(2) that by (intro distinct_keys_unique [OF d x(1) k]) simp
    then show ?thesis using x(3) by simp
  qed
  then show "(r \<in> set (xt_reminders t) \<or> (workspace_id r, tr_task_id r) = key k) \<and>
      ((workspace_id r, tr_task_id r) = key k \<longrightarrow> tk_status k' \<notin> closing)"
    using r assms(4,5) by auto
qed

lemma closing_closed: "target \<in> set (TRANSITIONS s) \<Longrightarrow> s \<in> closing \<Longrightarrow> target \<in> closing"
  by (cases s) auto

lemma edges_in_append: "edges_in w (ds @ es) = edges_in w ds @ edges_in w es"
  by (simp add: edges_in_def)

lemma dependencies_depend:
  assumes "dependencies_ok t" "td_depends_on_task_id d \<noteq> td_task_id d"
    and path: "length (edges_in (workspace_id d) (xt_dependencies t)) < 10000 \<Longrightarrow>
      (td_depends_on_task_id d, td_task_id d) \<notin> (set (edges_in (workspace_id d) (xt_dependencies t)))\<^sup>*"
    and "xt_dependencies t' = xt_dependencies t @ [d]"
  shows "dependencies_ok t'"
  unfolding dependencies_ok_def assms(4) edges_in_append
proof (intro allI impI)
  fix w
  assume few: "length (edges_in w (xt_dependencies t) @ edges_in w [d]) < 10000"
  have acyclic: "acyclic (set (edges_in w (xt_dependencies t)))"
    using assms(1) few by (simp add: dependencies_ok_def)
  show "acyclic (set (edges_in w (xt_dependencies t) @ edges_in w [d]))"
  proof (cases "workspace_id d = w")
    case True
    then have "edges_in w [d] = [(td_task_id d, td_depends_on_task_id d)]" by (simp add: edges_in_def)
    then show ?thesis using path few acyclic True by (simp add: acyclic_insert)
  next
    case False
    then show ?thesis using acyclic by (simp add: edges_in_def)
  qed
qed

theorem task_step_inv:
  assumes "task_step w t t'" "task_inv t"
  shows "task_inv t'"
  using assms(1)
proof cases
  case (create v e)
  have inv: "distinct (map key (xt_tasks t))" "\<forall>k \<in> set (xt_tasks t). task_ok k" "rows_attached t" "evidence_ok t"
    "reminders_ok t" "dependencies_ok t" "events_ok t" using assms(2) by (simp_all add: task_inv_def)
  have none: "event_key x \<noteq> key v" if "x \<in> set (xt_events t)" for x
    using inv(3) that create(3) unfolding rows_attached_def by metis
  have "evidence_ok t'" using inv(4) create by (auto simp: evidence_ok_def evidence_for_def)
  moreover have "reminders_ok t'" using inv(5) create by (fastforce simp: reminders_ok_def)
  moreover have "rows_attached t'" using inv(3) create by (auto simp: rows_attached_def announces_def)
  moreover have "filter (\<lambda>e. event_key e = key v) (xt_events t) = []" using none by (simp add: filter_empty_conv)
  then have "events_ok t'"
    using inv(7) create by (auto simp: events_ok_def announces_def)
  ultimately show ?thesis using inv create by (auto simp: task_inv_def task_ok_def dependencies_ok_def)
next
  case (enter k target k' now e rs)
  have ch: "changes t k k'" unfolding enter(6) by (rule changes_entered [OF enter(2)])
  have ok: "task_ok k" using assms(2) enter(2) by (simp add: task_inv_def)
  have evd: "tk_completed_at k \<noteq> None \<or> evidence_for t k"
    if "tk_completed_at k' \<noteq> None \<and> tk_completion_evidence_required k"
    using that enter(5) by (auto simp: enter(6) next_version_def entered_def split: if_splits)
  show ?thesis
  proof (rule task_inv_changed [OF assms(2) ch enter(7)])
    show "task_ok k'" unfolding enter(6) by (rule task_ok_entered [OF ok enter(4)])
    show "rows_attached t'" by (rule rows_changed [OF assms(2) ch enter(7)]) (simp_all add: enter(1))
    show "evidence_ok t'" by (rule evidence_changed [OF assms(2) ch evd]) (simp_all add: enter(1))
    show "reminders_ok t'"
    proof (cases "target \<in> closing")
      case True
      then have rs: "rs = cancelled_reminders w (tk_id k) (xt_reminders t)" by (simp add: enter(8))
      have "key k = (w, tk_id k)" using enter(3) by (simp add: key_def)
      then show ?thesis
        by (intro reminders_changed [OF assms(2) ch]) (auto simp: enter(1) rs dest: in_cancelled)
    next
      case False
      then have "xt_reminders t' = xt_reminders t" by (simp add: enter(1,8))
      moreover have "tk_status k' \<notin> closing" using False by (simp add: enter(6))
      ultimately show ?thesis by (intro same_reminders [OF assms(2) ch]) (simp_all add: enter(1))
    qed
    show "dependencies_ok t'" using assms(2) by (simp add: task_inv_def dependencies_ok_def enter(1))
  qed (simp_all add: enter(1))
next
  case (attach k k' now e ps cs es xs)
  have ch: "changes t k k'" unfolding attach(5) by (rule changes_next [OF attach(2)])
  have ok: "task_ok k'" using assms(2) attach(2,5) by (auto simp: task_inv_def intro!: task_ok_next)
  show ?thesis
  proof (rule task_inv_changed [OF assms(2) ch attach(6) ok])
    show "rows_attached t'" by (rule rows_changed [OF assms(2) ch attach(6)]) (use attach(7-10) in \<open>auto simp: attach(1)\<close>)
    show "evidence_ok t'" by (rule evidence_changed [OF assms(2) ch]) (simp_all add: attach(1,5))
    show "reminders_ok t'" by (rule same_reminders [OF assms(2) ch]) (auto simp: attach(1,5))
    show "dependencies_ok t'" using assms(2) by (simp add: task_inv_def dependencies_ok_def attach(1))
  qed (simp_all add: attach(1))
next
  case (depend k k' now e d)
  have ch: "changes t k k'" unfolding depend(5) by (rule changes_next [OF depend(2)])
  have ok: "task_ok k'" using assms(2) depend(2,5) by (auto simp: task_inv_def intro!: task_ok_next)
  have d: "workspace_id d = w" "td_task_id d = tk_id k" using depend(3,7) by (simp_all add: key_def)
  show ?thesis
  proof (rule task_inv_changed [OF assms(2) ch depend(6) ok])
    show "rows_attached t'" by (rule rows_changed [OF assms(2) ch depend(6)]) (use depend(7,8) d in \<open>auto simp: depend(1)\<close>)
    show "evidence_ok t'" by (rule evidence_changed [OF assms(2) ch]) (simp_all add: depend(1,5))
    show "reminders_ok t'" by (rule same_reminders [OF assms(2) ch]) (auto simp: depend(1,5))
    show "dependencies_ok t'"
      by (rule dependencies_depend [of t d]) (use assms(2) depend(9,10) d in \<open>simp_all add: task_inv_def depend(1)\<close>)
  qed (simp_all add: depend(1))
next
  case (remind k k' now e r)
  have ch: "changes t k k'" unfolding remind(5) by (rule changes_next [OF remind(2)])
  have ok: "task_ok k'" using assms(2) remind(2,5) by (auto simp: task_inv_def intro!: task_ok_next)
  show ?thesis
  proof (rule task_inv_changed [OF assms(2) ch remind(6) ok])
    show "rows_attached t'" by (rule rows_changed [OF assms(2) ch remind(6)]) (simp_all add: remind(1))
    show "evidence_ok t'" by (rule evidence_changed [OF assms(2) ch]) (simp_all add: remind(1,5))
    show "reminders_ok t'"
      by (rule reminders_changed [OF assms(2) ch]) (use remind(4,7) in \<open>auto simp: remind(1,5)\<close>)
    show "dependencies_ok t'" using assms(2) by (simp add: task_inv_def dependencies_ok_def remind(1))
  qed (simp_all add: remind(1))
qed

section \<open>What a step leaves alone\<close>

text \<open>The rows of the other workspaces.\<close>

definition others :: "uuid \<Rightarrow> task_tables \<Rightarrow> task_tables" where
  "others w t = \<lparr>xt_tasks = filter (\<lambda>r. workspace_id r \<noteq> w) (xt_tasks t),
     xt_participants = filter (\<lambda>r. workspace_id r \<noteq> w) (xt_participants t),
     xt_dependencies = filter (\<lambda>r. workspace_id r \<noteq> w) (xt_dependencies t),
     xt_comments = filter (\<lambda>r. workspace_id r \<noteq> w) (xt_comments t),
     xt_evidence = filter (\<lambda>r. workspace_id r \<noteq> w) (xt_evidence t),
     xt_references = filter (\<lambda>r. workspace_id r \<noteq> w) (xt_references t),
     xt_reminders = filter (\<lambda>r. workspace_id r \<noteq> w) (xt_reminders t),
     xt_events = filter (\<lambda>r. oe_workspace_id r \<noteq> w) (xt_events t)\<rparr>"

lemma filter_replaced:
  assumes "workspace_id k' = w"
  shows "filter (\<lambda>r. workspace_id r \<noteq> w) (replace_row tk_pk k' ts) = filter (\<lambda>r. workspace_id r \<noteq> w) ts"
proof -
  have "workspace_id x = w" if "tk_pk x = tk_pk k'" for x
    using that assms by (simp add: tk_pk_def tenant_pk_def)
  then show ?thesis using assms by (induction ts) (auto simp: replace_row_def)
qed

lemma filter_cancelled:
  "filter (\<lambda>r. workspace_id r \<noteq> w) (cancelled_reminders w i rs) = filter (\<lambda>r. workspace_id r \<noteq> w) rs"
  by (induction rs) (auto simp: cancelled_reminders_def reminder_to_cancel_def)

lemma announces_workspace: "announces e k \<Longrightarrow> oe_workspace_id e = workspace_id k"
  by (simp add: announces_def event_key_def key_def)

lemma none_of: "(\<And>x. x \<in> set xs \<Longrightarrow> \<not> P x) \<Longrightarrow> filter P xs = []"
  by (simp add: filter_empty_conv)

lemma task_step_others:
  assumes "task_step w t t'"
  shows "others w t' = others w t"
  using assms
proof cases
  case (create v e)
  then show ?thesis by (simp add: others_def announces_workspace)
next
  case (enter k target k' now e rs)
  then have "workspace_id k' = w" by simp
  moreover have "filter (\<lambda>r. workspace_id r \<noteq> w) rs = filter (\<lambda>r. workspace_id r \<noteq> w) (xt_reminders t)"
    using enter(8) by (simp add: filter_cancelled)
  ultimately show ?thesis using announces_workspace [OF enter(7)] by (simp add: others_def enter(1) filter_replaced)
next
  case (attach k k' now e ps cs es xs)
  then have "workspace_id k' = w" by simp
  moreover have "filter (\<lambda>r. workspace_id r \<noteq> w) ps = []" "filter (\<lambda>r. workspace_id r \<noteq> w) cs = []"
    "filter (\<lambda>r. workspace_id r \<noteq> w) es = []" "filter (\<lambda>r. workspace_id r \<noteq> w) xs = []"
    using attach(3,7-10) by (auto simp: key_def intro!: none_of)
  ultimately show ?thesis using announces_workspace [OF attach(6)] by (simp add: others_def attach(1) filter_replaced)
next
  case (depend k k' now e d)
  then show ?thesis using announces_workspace [OF depend(6)] by (simp add: others_def filter_replaced key_def)
next
  case (remind k k' now e r)
  then show ?thesis using announces_workspace [OF remind(6)] by (simp add: others_def filter_replaced key_def)
qed

section \<open>The history of a task\<close>

definition may_become :: "task_status \<Rightarrow> task_status \<Rightarrow> bool" where
  "may_become a b \<longleftrightarrow> b \<in> set (TRANSITIONS a)"

definition later_task :: "task \<Rightarrow> task \<Rightarrow> bool" where
  "later_task k k' \<longleftrightarrow> key k' = key k \<and> tk_resource_id k' = tk_resource_id k \<and> tk_title k' = tk_title k \<and>
     tk_due_at k' = tk_due_at k \<and> tk_completion_evidence_required k' = tk_completion_evidence_required k \<and>
     tk_version k \<le> tk_version k' \<and> may_become\<^sup>*\<^sup>* (tk_status k) (tk_status k')"

lemma later_task_refl [simp]: "later_task k k"
  by (simp add: later_task_def)

lemma later_task_trans: "later_task i j \<Longrightarrow> later_task j k \<Longrightarrow> later_task i k"
  by (auto simp: later_task_def)

lemma later_next: "later_task k (next_version k now)"
  by (simp add: later_task_def) (simp add: next_version_def)

lemma later_entered:
  assumes "target \<in> set (TRANSITIONS (tk_status k))"
  shows "later_task k (next_version (entered k target now) now)"
proof -
  have "may_become\<^sup>*\<^sup>* (tk_status k) target" using assms by (intro r_into_rtranclp) (simp add: may_become_def)
  then show ?thesis by (simp add: later_task_def) (simp add: next_version_def entered_def)
qed

lemma later_in_replaced:
  assumes "distinct (map key ts)" "k \<in> set ts" "later_task k k'" "tk_pk k' = tk_pk k" "x \<in> set ts"
  shows "\<exists>x' \<in> set (replace_row tk_pk k' ts). later_task x x'"
proof (cases "key x = key k")
  case True
  then have "x = k" using distinct_keys_unique [OF assms(1,5,2)] by simp
  then show ?thesis using assms(2,3,4) replaced_present by blast
next
  case False
  then show ?thesis using other_present [OF assms(5) False assms(4)] later_task_refl by blast
qed

lemma task_step_later:
  assumes "task_step w t t'" "task_inv t" "x \<in> set (xt_tasks t)"
  shows "\<exists>x' \<in> set (xt_tasks t'). later_task x x'"
proof -
  have d: "distinct (map key (xt_tasks t))" using assms(2) by (simp add: task_inv_def)
  from assms(1) show ?thesis
  proof cases
    case (create v e)
    then show ?thesis using assms(3) by (auto intro: bexI [of _ x])
  next
    case (enter k target k' now e rs)
    then show ?thesis using later_in_replaced [OF d enter(2) _ _ assms(3), of k'] by (simp add: later_entered)
  next
    case (attach k k' now e ps cs es xs)
    then show ?thesis using later_in_replaced [OF d attach(2) _ _ assms(3), of k'] by (simp add: later_next)
  next
    case (depend k k' now e d')
    then show ?thesis using later_in_replaced [OF d depend(2) _ _ assms(3), of k'] by (simp add: later_next)
  next
    case (remind k k' now e r)
    then show ?thesis using later_in_replaced [OF d remind(2) _ _ assms(3), of k'] by (simp add: later_next)
  qed
qed

lemma deleted_stays: "may_become\<^sup>*\<^sup>* a b \<Longrightarrow> a = TASK_DELETED \<Longrightarrow> b = TASK_DELETED"
  by (induction rule: rtranclp_induct) (auto simp: may_become_def)

lemma completed_stays: "may_become\<^sup>*\<^sup>* a b \<Longrightarrow> a \<in> {TASK_COMPLETED, TASK_DELETED} \<Longrightarrow> b \<in> {TASK_COMPLETED, TASK_DELETED}"
  by (induction rule: rtranclp_induct) (auto simp: may_become_def)

lemma cancelled_stays: "may_become\<^sup>*\<^sup>* a b \<Longrightarrow> a \<in> {TASK_CANCELLED, TASK_DELETED} \<Longrightarrow> b \<in> {TASK_CANCELLED, TASK_DELETED}"
  by (induction rule: rtranclp_induct) (auto simp: may_become_def)

text \<open>Every step appends one event.\<close>

lemma task_step_event: "task_step w t t' \<Longrightarrow> \<exists>e. xt_events t' = xt_events t @ [e]"
  by (erule task_stepE) auto

end
