(* ===== verification/Task_Refinement.thy ===== *)
theory Task_Refinement
  imports Task_Steps Job_Audit
begin

text \<open>
  The operations of \<open>TaskService\<close> are steps of the machine of \<open>Task_Steps\<close>: an operation that
  changes tasks and returns has made exactly one step, on the task it was asked to change and at the
  version its caller expected. The authorizer and the scheduler of reminders are any that keep to
  their interfaces, the locales \<open>task_authorizer\<close> and \<open>reminder_scheduler\<close>.
\<close>

section \<open>The tables of a session\<close>

definition task_events :: "'a core_db_scheme \<Rightarrow> outbox_event list" where
  "task_events s = filter (\<lambda>e. oe_aggregate_type e = ''task'') (outbox_events s)"

definition tasks_of :: "'a task_db_scheme \<Rightarrow> task_tables" where
  "tasks_of s = \<lparr>xt_tasks = tasks s, xt_participants = task_participants s, xt_dependencies = task_dependencies s,
     xt_comments = task_comments s, xt_evidence = task_completion_evidence s,
     xt_references = task_external_references s, xt_reminders = task_reminders s, xt_events = task_events s\<rparr>"

lemma tasks_of_frame:
  fixes s s' :: "'a task_db_scheme"
  assumes "component_part s' = component_part s" "task_events s' = task_events s"
  shows "tasks_of s' = tasks_of s"
  using assms by (cases s; cases s') (simp add: tasks_of_def component_part_def)

lemma keeps_task_events_of_rest:
  "keeps rest_part m \<Longrightarrow> keeps task_events m \<Longrightarrow> keeps tasks_of (m :: ('a task_db_scheme, 'b) M)"
  unfolding keeps_def by (auto intro!: tasks_of_frame simp: rest_part_def)

lemma keeps_events_clock [frame_intros]: "keeps task_events (utc_now env)" "keeps task_events (uuid4 env)"
  by (simp_all add: keeps_def utc_now_def uuid4_def task_events_def)

lemma keeps_events_or_now [frame_intros]: "keeps task_events (or_now env now)"
  by (auto simp: or_now_def intro: frame_intros split: option.splits)

lemma keeps_tasks_clock [frame_intros]: "keeps tasks_of (utc_now env)" "keeps tasks_of (or_now env now)"
  by (intro keeps_task_events_of_rest frame_intros)+

lemma keeps_events_insert_audit [frame_intros]: "keeps task_events (insert_audit_event env mk)"
  by (auto simp: insert_audit_event_def task_events_def
      intro!: frame_intros keeps_events_clock [unfolded task_events_def] split: prod.splits)

lemma keeps_events_audit_write [frame_intros]: "keeps task_events (audit_write env ctx a)"
  unfolding audit_write_def by (intro frame_intros)

lemma keeps_events_insert_outbox [frame_intros]:
  "oe_aggregate_type e \<noteq> ''task'' \<Longrightarrow> keeps task_events (insert_outbox_event e)"
  by (auto simp: insert_outbox_event_def task_events_def intro!: frame_intros)

section \<open>Symbolic execution on the tables\<close>

lemma run_tasks:
  fixes m :: "('a task_db_scheme, 'b) M"
  assumes "keeps tasks_of m" "\<And>x s'. tasks_of s' = tasks_of s \<Longrightarrow> Q x s'"
  shows "wp m Q any_error s"
  using assms(1) by (rule wp_frame) (auto intro: assms(2))

lemma run_existing_task:
  assumes "\<And>k. k \<in> set (xt_tasks (tasks_of s)) \<Longrightarrow> workspace_id k = ctx_workspace ctx \<Longrightarrow> tk_id k = i \<Longrightarrow> Q k s"
  shows "wp (existing_task ctx i) Q any_error s"
  unfolding existing_task_def find_task_def
  by (intro run_rules) (auto dest!: find_SomeD intro!: assms simp: tasks_of_def)

lemma run_locked_task:
  assumes "\<And>k. k \<in> set (xt_tasks (tasks_of s)) \<Longrightarrow> workspace_id k = ctx_workspace ctx \<Longrightarrow> tk_id k = i \<Longrightarrow>
    tk_version k = v \<Longrightarrow> tk_status k \<noteq> TASK_DELETED \<Longrightarrow> Q k s"
  shows "wp (locked_task ctx i v) Q any_error s"
  unfolding locked_task_def by (intro run_rules run_existing_task) (simp add: assms)

text \<open>The writes.\<close>

lemma run_add_task:
  assumes "\<And>s'. tasks_of s' = (tasks_of s)\<lparr>xt_tasks := xt_tasks (tasks_of s) @ [r]\<rparr> \<Longrightarrow> Q () s'"
  shows "wp (add_task ctx r) Q any_error s"
  unfolding add_task_def by (rule run_add_row) (auto intro!: assms simp: tasks_of_def task_events_def)

lemma run_add_participant_row:
  assumes "\<And>s'. tasks_of s' = (tasks_of s)\<lparr>xt_participants := xt_participants (tasks_of s) @ [r]\<rparr> \<Longrightarrow> Q () s'"
  shows "wp (add_participant_row ctx r) Q any_error s"
  unfolding add_participant_row_def by (rule run_add_row) (auto intro!: assms simp: tasks_of_def task_events_def)

lemma run_add_dependency_row:
  assumes "\<And>s'. tasks_of s' = (tasks_of s)\<lparr>xt_dependencies := xt_dependencies (tasks_of s) @ [r]\<rparr> \<Longrightarrow> Q () s'"
  shows "wp (add_dependency_row ctx r) Q any_error s"
  unfolding add_dependency_row_def by (rule run_add_row) (auto intro!: assms simp: tasks_of_def task_events_def)

lemma run_add_comment_row:
  assumes "\<And>s'. tasks_of s' = (tasks_of s)\<lparr>xt_comments := xt_comments (tasks_of s) @ [r]\<rparr> \<Longrightarrow> Q () s'"
  shows "wp (add_comment_row ctx r) Q any_error s"
  unfolding add_comment_row_def by (rule run_add_row) (auto intro!: assms simp: tasks_of_def task_events_def)

lemma run_add_evidence_row:
  assumes "\<And>s'. tasks_of s' = (tasks_of s)\<lparr>xt_evidence := xt_evidence (tasks_of s) @ [r]\<rparr> \<Longrightarrow> Q () s'"
  shows "wp (add_evidence_row ctx r) Q any_error s"
  unfolding add_evidence_row_def by (rule run_add_row) (auto intro!: assms simp: tasks_of_def task_events_def)

lemma run_add_external_row:
  assumes "\<And>s'. tasks_of s' = (tasks_of s)\<lparr>xt_references := xt_references (tasks_of s) @ [r]\<rparr> \<Longrightarrow> Q () s'"
  shows "wp (add_external_row ctx r) Q any_error s"
  unfolding add_external_row_def by (rule run_add_row) (auto intro!: assms simp: tasks_of_def task_events_def)

lemma run_add_reminder_row:
  assumes "\<And>s'. tasks_of s' = (tasks_of s)\<lparr>xt_reminders := xt_reminders (tasks_of s) @ [r]\<rparr> \<Longrightarrow> Q () s'"
  shows "wp (add_reminder_row ctx r) Q any_error s"
  unfolding add_reminder_row_def by (rule run_add_row) (auto intro!: assms simp: tasks_of_def task_events_def)

lemma run_save_task:
  assumes "\<And>s'. tasks_of s' = (tasks_of s)\<lparr>xt_tasks := replace_row tk_pk r (xt_tasks (tasks_of s))\<rparr> \<Longrightarrow> Q () s'"
  shows "wp (save_task r) Q any_error s"
  unfolding save_task_def
  by (simp add: wp_simps violated_None_iff [symmetric] split: option.splits)
    (auto intro!: assms simp: tasks_of_def task_events_def)

lemma run_cancel_reminders:
  assumes "\<And>s'. tasks_of s' = (tasks_of s)\<lparr>xt_reminders := cancelled_reminders (ctx_workspace ctx) i (xt_reminders (tasks_of s))\<rparr> \<Longrightarrow>
    Q () s'"
  shows "wp (cancel_reminders ctx i) Q any_error s"
  unfolding cancel_reminders_def
  by (simp add: wp_simps) (auto intro!: assms simp: tasks_of_def task_events_def)

lemma run_record_task:
  assumes "\<And>e s'. announces e k \<Longrightarrow> tasks_of s' = (tasks_of s)\<lparr>xt_events := xt_events (tasks_of s) @ [e]\<rparr> \<Longrightarrow> Q () s'"
  shows "wp (record_task env ctx k event occurred) Q any_error s"
  unfolding record_task_def
proof (rule run_bind, rule wp_audit_write)
  fix a and s1 :: "'a task_db_scheme"
  assume *: "rest_part s1 = rest_part s" "outbox_events s1 = outbox_events s"
  then have t: "tasks_of s1 = tasks_of s" by (intro tasks_of_frame) (simp_all add: rest_part_def task_events_def)
  have put: "tasks_of (s1\<lparr>draws := d, outbox_events := outbox_events s1 @ [task_outbox_row ctx k event occurred i r]\<rparr>) =
      (tasks_of s)\<lparr>xt_events := xt_events (tasks_of s) @ [task_outbox_row ctx k event occurred i r]\<rparr>" for d i r
    using t by (simp add: tasks_of_def task_events_def task_outbox_row_def)
  have ann: "announces (task_outbox_row ctx k event occurred i r) k" for i r
    by (simp add: announces_def task_outbox_row_def event_key_def key_def)
  show "wp (bindM (uuid4 env) (\<lambda>event_id. insert_outbox_event (task_outbox_row ctx k event occurred event_id
      (ae_recorded_at a)))) Q any_error s1"
    by (simp add: insert_outbox_event_def wp_simps split: option.splits) (auto intro!: assms [OF ann put])
qed simp

lemma run_task_changed:
  assumes "\<And>e s'. announces e (next_version k occurred) \<Longrightarrow>
    tasks_of s' = replaced (next_version k occurred) e (tasks_of s) \<Longrightarrow> Q (next_version k occurred) s'"
  shows "wp (task_changed env ctx k event occurred) Q any_error s"
  unfolding task_changed_def Let_def
  by (intro run_then run_save_task run_record_task run_return) (auto intro!: assms simp: replaced_def)

section \<open>The operations\<close>

text \<open>
  A step on the task \<open>i\<close> of the workspace \<open>w\<close>, whose caller expected version \<open>v\<close>.
\<close>

definition task_update :: "uuid \<Rightarrow> uuid \<Rightarrow> int \<Rightarrow> task_tables \<Rightarrow> task_tables \<Rightarrow> bool" where
  "task_update w i v t t' \<longleftrightarrow> task_step w t t' \<and>
     (\<exists>k \<in> set (xt_tasks t). key k = (w, i) \<and> tk_version k = v \<and> tk_status k \<noteq> TASK_DELETED) \<and>
     (\<exists>k' \<in> set (xt_tasks t'). key k' = (w, i) \<and> tk_version k' = v + 1)"

lemma task_updateI:
  assumes "task_step w t t'" "k \<in> set (xt_tasks t)" "workspace_id k = w" "tk_id k = i" "tk_version k = v"
    and "tk_status k \<noteq> TASK_DELETED" "xt_tasks t' = replace_row tk_pk k' (xt_tasks t)" "tk_pk k' = tk_pk k"
    and "tk_version k' = v + 1"
  shows "task_update w i v t t'"
proof -
  have "k' \<in> set (xt_tasks t')" unfolding assms(7) by (rule replaced_present [OF assms(2,8)])
  moreover have "key k = (w, i)" using assms(3,4) by (simp add: key_def)
  moreover then have "key k' = (w, i)" using key_pk [OF assms(8)] by simp
  ultimately show ?thesis using assms unfolding task_update_def by blast
qed

text \<open>A task of the context's workspace to which rows are attached.\<close>

lemma attach_update:
  assumes "k \<in> set (xt_tasks t)" "workspace_id k = w" "tk_id k = i" "tk_version k = v" "tk_status k \<noteq> TASK_DELETED"
    and "announces e (next_version k now)"
    and "t' = replaced (next_version k now) e (t\<lparr>xt_participants := xt_participants t @ ps, xt_comments := xt_comments t @ cs,
      xt_evidence := xt_evidence t @ es, xt_references := xt_references t @ xs\<rparr>)"
    and "\<forall>x \<in> set ps. workspace_id x = w \<and> tp_task_id x = i" "\<forall>x \<in> set cs. workspace_id x = w \<and> cc_task_id x = i"
    and "\<forall>x \<in> set es. workspace_id x = w \<and> te_task_id x = i" "\<forall>x \<in> set xs. workspace_id x = w \<and> tx_task_id x = i"
  shows "task_update w i v t t'"
proof -
  have "task_step w t ((replaced (next_version k now) e t)\<lparr>xt_participants := xt_participants t @ ps,
      xt_comments := xt_comments t @ cs, xt_evidence := xt_evidence t @ es, xt_references := xt_references t @ xs\<rparr>)"
    by (rule task_step.attach [OF assms(1,2,5) refl assms(6)]) (use assms(2,3,8-) in \<open>simp_all add: key_def\<close>)
  moreover have "t' = (replaced (next_version k now) e t)\<lparr>xt_participants := xt_participants t @ ps,
      xt_comments := xt_comments t @ cs, xt_evidence := xt_evidence t @ es, xt_references := xt_references t @ xs\<rparr>"
    unfolding assms(7) by (simp add: replaced_def)
  ultimately show ?thesis
    using assms(1-5) by (intro task_updateI [of w t t' k i v "next_version k now"]) simp_all
qed

lemma enter_update:
  assumes "k \<in> set (xt_tasks t)" "workspace_id k = w" "tk_id k = i" "tk_version k = v" "tk_status k \<noteq> TASK_DELETED"
    and "target \<in> set (TRANSITIONS (tk_status k))"
    and "target = TASK_COMPLETED \<and> tk_completion_evidence_required k \<Longrightarrow> evidence_for t k"
    and "announces e (next_version (entered k target now) now)"
    and "t' = replaced (next_version (entered k target now) now) e
      (t\<lparr>xt_reminders := if target \<in> closing then cancelled_reminders w i (xt_reminders t) else xt_reminders t\<rparr>)"
  shows "task_update w i v t t'"
proof -
  let ?k = "next_version (entered k target now) now"
  have "task_step w t ((replaced ?k e t)\<lparr>xt_reminders :=
      if target \<in> closing then cancelled_reminders w i (xt_reminders t) else xt_reminders t\<rparr>)"
    by (rule task_step.enter [OF assms(1,2,6,7) refl assms(8)]) (simp_all add: assms(3))
  moreover have "t' = (replaced ?k e t)\<lparr>xt_reminders :=
      if target \<in> closing then cancelled_reminders w i (xt_reminders t) else xt_reminders t\<rparr>"
    unfolding assms(9) by (simp add: replaced_def)
  ultimately show ?thesis using assms(1-5) by (intro task_updateI [of w t t' k i v ?k]) simp_all
qed

lemma depend_update:
  assumes "k \<in> set (xt_tasks t)" "workspace_id k = w" "tk_id k = i" "tk_version k = v" "tk_status k \<noteq> TASK_DELETED"
    and "announces e (next_version k now)" "t' = replaced (next_version k now) e (t\<lparr>xt_dependencies := xt_dependencies t @ [d]\<rparr>)"
    and "workspace_id d = w" "td_task_id d = i" "(w, td_depends_on_task_id d) \<in> key ` set (xt_tasks t)"
      "td_depends_on_task_id d \<noteq> i"
    and "length (edges_in w (xt_dependencies t)) < 10000 \<Longrightarrow>
      (td_depends_on_task_id d, i) \<notin> (set (edges_in w (xt_dependencies t)))\<^sup>*"
  shows "task_update w i v t t'"
proof -
  have "task_step w t ((replaced (next_version k now) e t)\<lparr>xt_dependencies := xt_dependencies t @ [d]\<rparr>)"
    by (rule task_step.depend [OF assms(1,2,5) refl assms(6)]) (use assms(2,3,8-) in \<open>simp_all add: key_def\<close>)
  moreover have "t' = (replaced (next_version k now) e t)\<lparr>xt_dependencies := xt_dependencies t @ [d]\<rparr>"
    unfolding assms(7) by (simp add: replaced_def)
  ultimately show ?thesis using assms(1-5) by (intro task_updateI [of w t t' k i v "next_version k now"]) simp_all
qed

lemma remind_update:
  assumes "k \<in> set (xt_tasks t)" "workspace_id k = w" "tk_id k = i" "tk_version k = v" "tk_status k \<notin> closing"
    and "announces e (next_version k now)" "t' = replaced (next_version k now) e (t\<lparr>xt_reminders := xt_reminders t @ [r]\<rparr>)"
    and "workspace_id r = w" "tr_task_id r = i"
  shows "task_update w i v t t'"
proof -
  have "task_step w t ((replaced (next_version k now) e t)\<lparr>xt_reminders := xt_reminders t @ [r]\<rparr>)"
    by (rule task_step.remind [OF assms(1,2,5) refl assms(6)]) (use assms(2,3,8-) in \<open>simp_all add: key_def\<close>)
  moreover have "t' = (replaced (next_version k now) e t)\<lparr>xt_reminders := xt_reminders t @ [r]\<rparr>"
    unfolding assms(7) by (simp add: replaced_def)
  ultimately show ?thesis using assms(1-5) by (intro task_updateI [of w t t' k i v "next_version k now"]) simp_all
qed

lemma tenant_workspace [simp]:
  "workspace_id (tenant_row.extend (context_tenant ctx) x) = ctx_workspace ctx"
  by (simp add: tenant_row.defs context_tenant_def)

locale task_authorizer = authorizer env ask
  for env :: py_env and ask :: "execution_context \<Rightarrow> string \<Rightarrow> ('a task_db_scheme, bool) M" +
  assumes ask_events: "keeps task_events (ask ctx p)"
begin

lemma keeps_permitted: "keeps tasks_of (require_permitted ask ctx p)"
  unfolding require_permitted_def
  by (intro frame_intros keeps_task_events_of_rest ask_frame ask_events)

lemma run_permitted:
  assumes "\<And>s'. tasks_of s' = tasks_of s \<Longrightarrow> Q () s'"
  shows "wp (require_permitted ask ctx p) Q any_error s"
  by (rule run_tasks [OF keeps_permitted]) (simp add: assms)

lemmas run_op = run_rules run_permitted run_locked_task run_existing_task
  run_tasks [OF keeps_tasks_clock(1)] run_tasks [OF keeps_tasks_clock(2)] run_task_changed

lemma run_create_task:
  assumes "\<And>k s'. task_step (ctx_workspace ctx) (tasks_of s) (tasks_of s') \<Longrightarrow> Q k s'"
  shows "wp (create_task env ask ctx c now) Q any_error s"
  unfolding create_task_def Let_def
proof (intro run_op run_add_task run_record_task assms, goal_cases)
  case (1 s1 t s2 s3 e s4)
  let ?v = "opened_task ctx c t"
  have v: "workspace_id ?v = ctx_workspace ctx" "tk_id ?v = tc_task_id c" "tk_status ?v = TASK_OPEN" "tk_version ?v = 1"
    "tk_completed_at ?v = None" "tk_deleted_at ?v = None"
    by (simp_all add: opened_task_def tenant_row.defs task.defs context_tenant_def)
  have "key ?v \<noteq> key k" if "k \<in> set (tasks s1)" for k
    using 1(2) that v by (auto simp: find_task_def find_None_iff key_def)
  then have "key ?v \<notin> key ` set (xt_tasks (tasks_of s))" unfolding 1(1) [symmetric] by (auto simp: tasks_of_def)
  from task_step.create [OF v(1) this v(3-6) 1(6)] show ?case using 1 by simp
qed

lemma run_transition_task:
  assumes "\<And>k s'. task_update (ctx_workspace ctx) i v (tasks_of s) (tasks_of s') \<Longrightarrow> Q k s'"
  shows "wp (transition_task env ask ctx i target v now) Q any_error s"
  unfolding transition_task_def
proof (intro run_op, goal_cases)
  case (1 s1 k status now s2)
  note k = 1(2-6)
  have t2: "tasks_of s2 = tasks_of s1" by (rule 1(9))
  have evidence: "evidence_for (tasks_of s1) k" if "target = TASK_COMPLETED \<and> tk_completion_evidence_required k"
  proof -
    have "evidence_count ctx (tk_id k) s1 \<noteq> 0" using 1(8) that by simp
    then obtain e where "e \<in> set (task_completion_evidence s1)" "workspace_id e = ctx_workspace ctx" "te_task_id e = tk_id k"
      by (auto simp: evidence_count_def count_rows_def filter_empty_conv)
    then show ?thesis using k(2) by (auto simp: evidence_for_def key_def tasks_of_def)
  qed
  have target: "target \<in> set (TRANSITIONS (tk_status k))" using 1(7) by simp
  note enter = enter_update [OF k target evidence]
  show ?case
  proof (intro run_op run_if run_cancel_reminders assms, goal_cases)
    case (1 s3 e s4)
    then show ?case using enter [of e now "tasks_of s4"] k(3) t2 \<open>tasks_of s1 = tasks_of s\<close> by simp
  next
    case (2 e s3)
    then show ?case using enter [of e now "tasks_of s3"] t2 \<open>tasks_of s1 = tasks_of s\<close> by simp
  qed
qed

lemma run_add_participant:
  assumes "\<And>r s'. task_update (ctx_workspace ctx) i v (tasks_of s) (tasks_of s') \<Longrightarrow> Q r s'"
  shows "wp (add_participant env ask ctx i user kind v) Q any_error s"
  unfolding add_participant_def Let_def
proof (intro run_op run_add_participant_row assms, goal_cases)
  case (1 s1 k now s2 s3 now' s4 e s5)
  let ?r = "tenant_row.extend (context_tenant ctx) (task_participant.fields (tk_id k) user kind (ctx_actor ctx) now)"
  show ?case
    by (rule attach_update [where k = k and ps = "[?r]" and cs = "[]" and es = "[]" and xs = "[]" and now = now' and e = e])
      (use 1 in \<open>simp_all add: tenant_row.defs task_participant.defs context_tenant_def\<close>)
qed

lemma run_add_comment:
  assumes "\<And>r s'. task_update (ctx_workspace ctx) i v (tasks_of s) (tasks_of s') \<Longrightarrow> Q r s'"
  shows "wp (add_comment env ask ctx i c body v) Q any_error s"
  unfolding add_comment_def Let_def
proof (intro run_op run_add_comment_row assms, goal_cases)
  case (1 s1 k now s2 s3 now' s4 e s5)
  let ?r = "tenant_row.extend (context_tenant ctx) (task_comment.fields c (tk_id k) (py_strip body)
    (tk_classification k) (tk_policy_version k) (ctx_actor ctx) now)"
  show ?case
    by (rule attach_update [where k = k and ps = "[]" and cs = "[?r]" and es = "[]" and xs = "[]" and now = now' and e = e])
      (use 1 in \<open>simp_all add: tenant_row.defs task_comment.defs context_tenant_def\<close>)
qed

lemma run_add_completion_evidence:
  assumes "\<And>r s'. task_update (ctx_workspace ctx) i v (tasks_of s) (tasks_of s') \<Longrightarrow> Q r s'"
  shows "wp (add_completion_evidence env ask ctx i ev statement v resource supersedes) Q any_error s"
  unfolding add_completion_evidence_def Let_def
proof (intro run_op run_add_evidence_row assms, goal_cases)
  case (1 s1 k now s2 s3 now' s4 e s5)
  let ?r = "tenant_row.extend (context_tenant ctx) (task_completion_evidence.fields ev (tk_id k) resource
    (sha256_hex env (py_strip statement)) (py_strip statement) supersedes (ctx_actor ctx) now)"
  show ?case
    by (rule attach_update [where k = k and ps = "[]" and cs = "[]" and es = "[?r]" and xs = "[]" and now = now' and e = e])
      (use 1 in \<open>simp_all add: tenant_row.defs task_completion_evidence.defs context_tenant_def\<close>)
qed

lemma run_link_external:
  assumes "\<And>r s'. task_update (ctx_workspace ctx) i v (tasks_of s) (tasks_of s') \<Longrightarrow> Q r s'"
  shows "wp (link_external env ask ctx i ref authority external_id v ext) Q any_error s"
  unfolding link_external_def Let_def
proof (intro run_op run_add_external_row assms, goal_cases)
  case (1 s1 k now s2 s3 now' s4 e s5)
  let ?r = "tenant_row.extend (context_tenant ctx) (task_external_reference.fields ref (tk_id k)
    (py_strip authority) (py_strip external_id) ext (ctx_actor ctx) now)"
  show ?case
    by (rule attach_update [where k = k and ps = "[]" and cs = "[]" and es = "[]" and xs = "[?r]" and now = now' and e = e])
      (use 1 in \<open>simp_all add: tenant_row.defs task_external_reference.defs context_tenant_def\<close>)
qed

lemma run_add_dependency:
  assumes sets: "iterates_sets env"
    and post: "\<And>r s'. task_update (ctx_workspace ctx) i v (tasks_of s) (tasks_of s') \<Longrightarrow> Q r s'"
  shows "wp (add_dependency env ask ctx i d v) Q any_error s"
  unfolding add_dependency_def Let_def
proof (intro run_op run_add_dependency_row post, goal_cases)
  case (1 s1 k k2 now s2 s3 now' s4 e s5)
  let ?r = "tenant_row.extend (context_tenant ctx) (task_dependency.fields (tk_id k) d (ctx_actor ctx) now)"
  have edges: "dependencies ctx s1 = edges_in (ctx_workspace ctx) (xt_dependencies (tasks_of s))"
    using 1(1) by (simp add: dependencies_def edges_in_def tasks_of_def)
  have "(d, i) \<notin> (set (edges_in (ctx_workspace ctx) (xt_dependencies (tasks_of s))))\<^sup>*"
    if "length (edges_in (ctx_workspace ctx) (xt_dependencies (tasks_of s))) < 10000"
    using 1(10) creates_cycle_iff [OF sets few_edges [OF that]] by (simp add: edges)
  moreover have "(ctx_workspace ctx, d) \<in> key ` set (xt_tasks (tasks_of s))"
    using 1(1,7-9) by (force simp: key_def)
  moreover have "d \<noteq> i" using 1(10) by auto
  ultimately show ?case
    by (intro depend_update [where k = k and d = ?r and now = now' and e = e])
      (use 1 in \<open>simp_all add: tenant_row.defs task_dependency.defs context_tenant_def\<close>)
qed

text \<open>With a scheduler that leaves tasks alone, or with none.\<close>

lemma run_schedule_reminder:
  assumes sched: "\<And>f k identity. scheduler = Some f \<Longrightarrow> keeps tasks_of (f k identity)"
    and post: "\<And>r s'. task_update (ctx_workspace ctx) i v (tasks_of s) (tasks_of s') \<Longrightarrow> Q r s'"
  shows "wp (schedule_reminder env ask scheduler ctx i reminder v) Q any_error s"
  unfolding schedule_reminder_def
proof (intro run_op, goal_cases)
  case (1 s1 k)
  show ?case
  proof (cases "tk_due_at k"; cases "tk_timezone k")
    fix due timezone
    assume due: "tk_due_at k = Some due" "tk_timezone k = Some timezone"
    have ask: "keeps tasks_of (ask_scheduler scheduler k identity)" for identity
      unfolding ask_scheduler_def by (cases scheduler) (auto intro!: frame_intros sched)
    show ?thesis
      unfolding due prod.case option.case Let_def
    proof (intro run_op run_tasks [OF ask] run_add_reminder_row post, goal_cases)
      case (1 job s2 now s3 s4 now' s5 e s6)
      let ?r = "tenant_row.extend (context_tenant ctx) (task_reminder.fields reminder (tk_id k)
        (reminder_identity env k due) due timezone REMINDER_SCHEDULED job now)"
      show ?case
        by (rule remind_update [where k = k and r = ?r and now = now' and e = e])
          (use 1 \<open>tasks_of s1 = tasks_of s\<close> \<open>k \<in> _\<close> \<open>workspace_id k = _\<close> \<open>tk_id k = i\<close> \<open>tk_version k = v\<close> in
            \<open>simp_all add: tenant_row.defs task_reminder.defs context_tenant_def\<close>)
    qed
  qed (simp_all add: run_raise)
qed

end

section \<open>What the operations keep\<close>

lemma preserves_case_pair_option [inv_intros]:
  "(\<And>x y. p = (Some x, Some y) \<Longrightarrow> preserves I (f x y)) \<Longrightarrow> preserves I m \<Longrightarrow>
   preserves I (case p of (Some x, Some y) \<Rightarrow> f x y | _ \<Rightarrow> m)"
  by (auto split: prod.splits option.splits)

lemma preserves_task_rows [inv_intros]:
  "preserves (audit_inv env) (add_task ctx a)" "preserves (audit_inv env) (add_participant_row ctx b)"
  "preserves (audit_inv env) (add_dependency_row ctx c)" "preserves (audit_inv env) (add_comment_row ctx d)"
  "preserves (audit_inv env) (add_evidence_row ctx e)" "preserves (audit_inv env) (add_external_row ctx f)"
  "preserves (audit_inv env) (add_reminder_row ctx g)"
  unfolding add_task_def add_participant_row_def add_dependency_row_def add_comment_row_def add_evidence_row_def
    add_external_row_def add_reminder_row_def
  by (rule preserves_add_row; simp)+

lemma preserves_task_saves [inv_intros]:
  "preserves (audit_inv env) (save_task k)" "preserves (audit_inv env) (cancel_reminders ctx i)"
  unfolding save_task_def cancel_reminders_def by (intro inv_intros preserves_table_write; simp)+

lemma preserves_record_task [inv_intros]: "preserves (audit_inv env) (record_task env ctx k e now)"
  unfolding record_task_def by (intro inv_intros)

lemma preserves_task_changed [inv_intros]: "preserves (audit_inv env) (task_changed env ctx k e now)"
  unfolding task_changed_def Let_def by (intro inv_intros)

lemma preserves_task_guards [inv_intros]: "preserves I (existing_task ctx i)" "preserves I (locked_task ctx i v)"
  unfolding existing_task_def locked_task_def by (intro inv_intros)+

context task_authorizer
begin

lemma preserves_permitted [inv_intros]: "preserves (audit_inv env) (require_permitted ask ctx p)"
  unfolding require_permitted_def by (intro inv_intros ask_audit)

lemma preserves_task_operations:
  "preserves (audit_inv env) (create_task env ask ctx c now)" "preserves (audit_inv env) (get_task ask ctx i)"
  "preserves (audit_inv env) (query_tasks ask ctx q)" "preserves (audit_inv env) (transition_task env ask ctx i target v now)"
  "preserves (audit_inv env) (add_participant env ask ctx i user kind v)"
  "preserves (audit_inv env) (add_dependency env ask ctx i d v)"
  "preserves (audit_inv env) (add_comment env ask ctx i comment body v)"
  "preserves (audit_inv env) (add_completion_evidence env ask ctx i ev statement v resource supersedes)"
  "preserves (audit_inv env) (link_external env ask ctx i ref authority external_id v ext)"
  unfolding create_task_def get_task_def query_tasks_def transition_task_def add_participant_def add_dependency_def
    add_comment_def add_completion_evidence_def link_external_def Let_def
  by (intro inv_intros)+

lemma preserves_schedule_reminder:
  assumes "\<And>f k identity. scheduler = Some f \<Longrightarrow> preserves (audit_inv env) (f k identity)"
  shows "preserves (audit_inv env) (schedule_reminder env ask scheduler ctx i reminder v)"
proof -
  have [inv_intros]: "preserves (audit_inv env) (ask_scheduler scheduler k identity)" for k identity
    unfolding ask_scheduler_def by (intro inv_intros assms)
  show ?thesis unfolding schedule_reminder_def Let_def by (intro inv_intros)
qed

text \<open>The reads leave the tables of tasks alone.\<close>

lemma keeps_reads: "keeps tasks_of (get_task ask ctx i)" "keeps tasks_of (query_tasks ask ctx q)"
  unfolding get_task_def query_tasks_def existing_task_def by (intro frame_intros keeps_permitted)+

end

section \<open>The scheduler of reminders\<close>

text \<open>
  What \<open>schedule_reminder\<close> relies on when it hands a reminder over: tasks and their events are left
  alone, and the audit log is kept.
\<close>

locale reminder_scheduler =
  fixes env :: py_env
    and schedule :: "task \<Rightarrow> string \<Rightarrow> ('a task_db_scheme, uuid) M"
  assumes schedule_tasks: "keeps tasks_of (schedule k identity)"
    and schedule_audit: "preserves (audit_inv env) (schedule k identity)"

text \<open>A service that was built with both.\<close>

locale task_service = task_authorizer env ask + reminder_scheduler env schedule
  for env :: py_env and ask :: "execution_context \<Rightarrow> string \<Rightarrow> ('a task_db_scheme, bool) M"
    and schedule :: "task \<Rightarrow> string \<Rightarrow> ('a task_db_scheme, uuid) M"
begin

lemma run_reminder:
  assumes "\<And>r s'. task_update (ctx_workspace ctx) i v (tasks_of s) (tasks_of s') \<Longrightarrow> Q r s'"
  shows "wp (schedule_reminder env ask (Some schedule) ctx i reminder v) Q any_error s"
  using assms by (intro run_schedule_reminder) (auto intro: schedule_tasks)

lemma preserves_reminder: "preserves (audit_inv env) (schedule_reminder env ask (Some schedule) ctx i reminder v)"
  by (intro preserves_schedule_reminder) (auto intro: schedule_audit)

end

text \<open>The default authorizer, and the scheduler on durable jobs with that authorizer.\<close>

lemma keeps_events_h1_authorize: "keeps task_events (h1_authorize env ctx p)"
  unfolding h1_authorize_def authorize_def deny_def record_decision_def Let_def
  by (intro frame_intros) (simp_all add: decision_outbox_row_def)

interpretation h1_tasks: task_authorizer env "h1_authorize env" for env
  by (intro task_authorizer.intro task_authorizer_axioms.intro) (rule h1.authorizer_axioms, rule keeps_events_h1_authorize)

lemma keeps_tasks_h1_authorize: "keeps tasks_of (h1_authorize env ctx p)"
  by (rule keeps_task_events_of_rest) (rule keeps_h1_authorize, rule keeps_events_h1_authorize)

lemma keeps_events_record_change: "keeps task_events (record_change env ctx i n e a now)"
  unfolding record_change_def by (intro frame_intros) (cases a; simp add: job_outbox_row_def)

lemma keeps_tasks_record_job: "keeps tasks_of (record_job env ctx j e now)"
  unfolding record_job_def
  by (rule keeps_task_events_of_rest) (rule keeps_record_change, rule keeps_events_record_change)

lemma keeps_tasks_add_job: "keeps tasks_of (add_job ctx j)"
  unfolding add_job_def add_row_def by (intro frame_intros) (simp add: tasks_of_def task_events_def)

lemma keeps_tasks_enqueue: "keeps tasks_of (enqueue env (h1_authorize env) ctx c now)"
  unfolding enqueue_def require_authorized_def lock_enqueue_boundary_def Let_def
  by (intro frame_intros keeps_tasks_h1_authorize keeps_tasks_add_job keeps_tasks_record_job)

interpretation durable: reminder_scheduler env "durable_reminder env (h1_authorize env) job_ctx definition_id"
  for env job_ctx definition_id
proof
  fix k identity
  show "keeps tasks_of (durable_reminder env (h1_authorize env) job_ctx definition_id k identity)"
    unfolding durable_reminder_def by (intro frame_intros keeps_tasks_enqueue)
  show "preserves (audit_inv env) (durable_reminder env (h1_authorize env) job_ctx definition_id k identity)"
    unfolding durable_reminder_def by (intro inv_intros h1_jobs.preserves_enqueue)
qed

interpretation durable_tasks: task_service env "h1_authorize env" "durable_reminder env (h1_authorize env) job_ctx definition_id"
  for env job_ctx definition_id
  by (rule task_service.intro) (rule h1_tasks.task_authorizer_axioms, rule durable.reminder_scheduler_axioms)

end
