(* ===== verification/Task_Properties.thy ===== *)
theory Task_Properties
  imports Task_Refinement Job_Properties
begin

text \<open>
  The properties of tasks. \<open>task_calls\<close> are the states that calls of the service reach, each in a
  transaction of its own under some execution context, with the default authorizer; operations of
  other components, which leave the tables of tasks alone, may come in between.
\<close>

section \<open>Calls\<close>

datatype task_call =
    Create_task task_create "instant option"
  | Get_task uuid
  | List_tasks task_query
  | Transition_task uuid task_status int "instant option"
  | Add_participant uuid uuid string int
  | Add_dependency uuid uuid int
  | Add_comment uuid uuid string int
  | Add_completion_evidence uuid uuid string int "uuid option" "uuid option"
  | Link_external uuid uuid string string int "string option"
  | Schedule_reminder "(execution_context \<times> uuid) option" uuid uuid int

text \<open>The scheduler of a service with durable reminders: its job context and job definition.\<close>

definition scheduler_of :: "py_env \<Rightarrow> (execution_context \<times> uuid) option \<Rightarrow> 'a task_db_scheme scheduler option" where
  "scheduler_of env = map_option (\<lambda>(job_ctx, d). durable_reminder env (h1_authorize env) job_ctx d)"

fun run_task_call :: "py_env \<Rightarrow> execution_context \<Rightarrow> task_call \<Rightarrow> ('a task_db_scheme, unit) M" where
  "run_task_call env ctx (Create_task c now) = ignoring (create_task env (h1_authorize env) ctx c now)"
| "run_task_call env ctx (Get_task i) = ignoring (get_task (h1_authorize env) ctx i)"
| "run_task_call env ctx (List_tasks q) = ignoring (query_tasks (h1_authorize env) ctx q)"
| "run_task_call env ctx (Transition_task i target v now) =
     ignoring (transition_task env (h1_authorize env) ctx i target v now)"
| "run_task_call env ctx (Add_participant i user kind v) =
     ignoring (add_participant env (h1_authorize env) ctx i user kind v)"
| "run_task_call env ctx (Add_dependency i d v) = ignoring (add_dependency env (h1_authorize env) ctx i d v)"
| "run_task_call env ctx (Add_comment i c body v) = ignoring (add_comment env (h1_authorize env) ctx i c body v)"
| "run_task_call env ctx (Add_completion_evidence i ev statement v resource supersedes) =
     ignoring (add_completion_evidence env (h1_authorize env) ctx i ev statement v resource supersedes)"
| "run_task_call env ctx (Link_external i ref authority external_id v ext) =
     ignoring (link_external env (h1_authorize env) ctx i ref authority external_id v ext)"
| "run_task_call env ctx (Schedule_reminder sched i reminder v) =
     ignoring (schedule_reminder env (h1_authorize env) (scheduler_of env sched) ctx i reminder v)"

text \<open>The task that a call is to change, with the version its caller expects.\<close>

fun call_target :: "task_call \<Rightarrow> (uuid \<times> int) option" where
  "call_target (Transition_task i target v now) = Some (i, v)"
| "call_target (Add_participant i user kind v) = Some (i, v)"
| "call_target (Add_dependency i d v) = Some (i, v)"
| "call_target (Add_comment i c body v) = Some (i, v)"
| "call_target (Add_completion_evidence i ev statement v resource supersedes) = Some (i, v)"
| "call_target (Link_external i ref authority external_id v ext) = Some (i, v)"
| "call_target (Schedule_reminder sched i reminder v) = Some (i, v)"
| "call_target _ = None"

text \<open>What a call that returns has done to the tables of tasks.\<close>

fun call_effect :: "uuid \<Rightarrow> task_call \<Rightarrow> task_tables \<Rightarrow> task_tables \<Rightarrow> bool" where
  "call_effect w (Create_task c now) t t' = task_step w t t'"
| "call_effect w (Get_task i) t t' = (t' = t)"
| "call_effect w (List_tasks q) t t' = (t' = t)"
| "call_effect w c t t' = (case call_target c of None \<Rightarrow> False | Some (i, v) \<Rightarrow> task_update w i v t t')"

inductive task_calls :: "py_env \<Rightarrow> 'a task_db_scheme \<Rightarrow> 'a task_db_scheme \<Rightarrow> bool" for env and s where
  start: "task_calls env s s"
| call: "task_calls env s s' \<Longrightarrow> task_calls env s (snd (transaction ctx (run_task_call env ctx c) s'))"
| other: "task_calls env s s' \<Longrightarrow> keeps tasks_of m \<Longrightarrow> preserves (audit_inv env) m \<Longrightarrow>
    task_calls env s (snd (transaction ctx (m :: ('a task_db_scheme, unit) M) s'))"

section \<open>What a call does\<close>

lemma scheduler_keeps: "scheduler_of env sched = Some f \<Longrightarrow> keeps tasks_of (f k identity)"
  "scheduler_of env sched = Some f \<Longrightarrow> preserves (audit_inv env) (f k identity)"
  by (auto simp: scheduler_of_def intro: durable.schedule_tasks durable.schedule_audit)

lemma run_ignoring_keeps:
  fixes m :: "('a task_db_scheme, 'b) M"
  assumes "keeps tasks_of m" "\<And>s'. tasks_of s' = tasks_of s \<Longrightarrow> Q () s'"
  shows "wp (ignoring m) Q any_error s"
  by (rule run_ignoring, rule run_tasks [OF assms(1)]) (rule assms(2))

lemma run_task_call_effect:
  assumes "iterates_sets env"
  shows "wp (run_task_call env ctx c) (\<lambda>_ s'. call_effect (ctx_workspace ctx) c (tasks_of s) (tasks_of s')) any_error s"
proof (cases c)
  case (Schedule_reminder sched i reminder v)
  show ?thesis
    unfolding Schedule_reminder run_task_call.simps
    by (rule run_ignoring, rule h1_tasks.run_schedule_reminder) (simp_all add: scheduler_keeps)
next
  case (Add_dependency i d v)
  show ?thesis
    unfolding Add_dependency run_task_call.simps
    by (rule run_ignoring, rule h1_tasks.run_add_dependency [OF assms]) simp
next
  case (Get_task i)
  show ?thesis
    unfolding Get_task run_task_call.simps by (rule run_ignoring_keeps [OF h1_tasks.keeps_reads(1)]) simp
next
  case (List_tasks q)
  show ?thesis
    unfolding List_tasks run_task_call.simps by (rule run_ignoring_keeps [OF h1_tasks.keeps_reads(2)]) simp
qed (simp_all only: run_task_call.simps, (rule run_ignoring, rule h1_tasks.run_create_task h1_tasks.run_transition_task
    h1_tasks.run_add_participant h1_tasks.run_add_comment h1_tasks.run_add_completion_evidence h1_tasks.run_link_external,
    (simp; fail))+)

lemma preserves_task_call: "preserves (audit_inv env) (run_task_call env ctx c)"
  by (cases c) (auto simp: ignoring_def scheduler_keeps intro!: inv_intros h1_tasks.preserves_task_operations
      h1_tasks.preserves_schedule_reminder)

text \<open>A call in its transaction.\<close>

lemma transaction_task_call:
  assumes "iterates_sets env"
  shows "case transaction ctx (run_task_call env ctx c) s of
      (Inl e, s') \<Rightarrow> tasks_of s' = tasks_of s
    | (Inr _, s') \<Rightarrow> call_effect (ctx_workspace ctx) c (tasks_of s) (tasks_of s')"
proof (cases rule: transaction_cases [of s ctx "run_task_call env ctx c"])
  case (committed x s1)
  have "tasks_of (started ctx s) = tasks_of s"
    by (simp add: tasks_of_def task_events_def started_def with_context_def)
  moreover have "tasks_of (Execution_Context.committed s s1) = tasks_of s1"
    by (simp add: tasks_of_def task_events_def committed_def)
  moreover have "call_effect (ctx_workspace ctx) c (tasks_of (started ctx s)) (tasks_of s1)"
    by (rule wp_Inr [OF run_task_call_effect [OF assms] committed(3)])
  ultimately show ?thesis using committed(4) by simp
next
  case (rolled_back e d c)
  then show ?thesis by (simp add: tasks_of_def task_events_def)
qed

lemma call_effect_step: "call_effect w c t t' \<Longrightarrow> t' = t \<or> task_step w t t'"
  by (cases c) (auto simp: task_update_def)

lemma task_call_step:
  assumes "iterates_sets env"
  shows "tasks_of (snd (transaction ctx (run_task_call env ctx c) s)) = tasks_of s \<or>
    task_step (ctx_workspace ctx) (tasks_of s) (tasks_of (snd (transaction ctx (run_task_call env ctx c) s)))"
  using transaction_task_call [OF assms, of s ctx c]
  by (cases "transaction ctx (run_task_call env ctx c) s"; cases "fst (transaction ctx (run_task_call env ctx c) s)")
    (auto dest: call_effect_step)

lemma transaction_keeps_tasks:
  fixes m :: "('a task_db_scheme, 'b) M"
  assumes "keeps tasks_of m"
  shows "tasks_of (snd (transaction ctx m s)) = tasks_of s"
proof (cases rule: transaction_cases [of s ctx m])
  case (committed x s1)
  have "tasks_of s1 = tasks_of (started ctx s)" using assms committed(3) unfolding keeps_def by (metis snd_conv)
  then show ?thesis using committed(4) by (simp add: tasks_of_def task_events_def started_def with_context_def committed_def)
next
  case (rolled_back e d c)
  then show ?thesis by (simp add: tasks_of_def task_events_def)
qed

section \<open>Along calls\<close>

definition task_steps :: "task_tables \<Rightarrow> task_tables \<Rightarrow> bool" where
  "task_steps = (\<lambda>t t'. \<exists>w. task_step w t t')\<^sup>*\<^sup>*"

lemma task_calls_steps:
  assumes "task_calls env s s'" "iterates_sets env"
  shows "task_steps (tasks_of s) (tasks_of s')"
  using assms
proof (induction rule: task_calls.induct)
  case (call s' ctx c)
  let ?s = "snd (transaction ctx (run_task_call env ctx c) s')"
  have "task_steps (tasks_of s) (tasks_of s')" using call by simp
  moreover have "tasks_of ?s = tasks_of s' \<or> task_step (ctx_workspace ctx) (tasks_of s') (tasks_of ?s)"
    by (rule task_call_step [OF call(3)])
  ultimately show ?case unfolding task_steps_def by (auto intro: rtranclp.rtrancl_into_rtrancl)
next
  case (other s' m ctx)
  then show ?case using transaction_keeps_tasks [of m ctx s'] by simp
qed (simp add: task_steps_def)

lemma task_steps_inv: "task_steps t t' \<Longrightarrow> task_inv t \<Longrightarrow> task_inv t'"
  unfolding task_steps_def by (induction rule: rtranclp_induct) (auto intro: task_step_inv)

lemma task_steps_later:
  assumes "task_steps t t'" "task_inv t" "k \<in> set (xt_tasks t)"
  shows "\<exists>k' \<in> set (xt_tasks t'). later_task k k'"
  using assms(1) unfolding task_steps_def
proof (induction rule: rtranclp_induct)
  case base
  then show ?case using assms(3) later_task_refl by blast
next
  case (step u u')
  then obtain k1 w where k1: "k1 \<in> set (xt_tasks u)" "later_task k k1" "task_step w u u'" by blast
  have "task_inv u" by (rule task_steps_inv [OF _ assms(2)]) (simp add: task_steps_def step(1))
  then obtain k2 where "k2 \<in> set (xt_tasks u')" "later_task k1 k2" using task_step_later [OF k1(3) _ k1(1)] by blast
  then show ?case using later_task_trans [OF k1(2)] by blast
qed

lemma task_calls_audit:
  assumes "task_calls env s s'" "audit_inv env s"
  shows "audit_inv env s'"
  using assms
proof (induction rule: task_calls.induct)
  case (call s' ctx c)
  then show ?case by (intro transaction_keeps_audit preserves_task_call) auto
next
  case (other s' m ctx)
  then show ?case by (intro transaction_keeps_audit) auto
qed

definition no_tasks :: "'a task_db_scheme \<Rightarrow> bool" where
  "no_tasks s \<longleftrightarrow> tasks_of s = \<lparr>xt_tasks = [], xt_participants = [], xt_dependencies = [], xt_comments = [],
     xt_evidence = [], xt_references = [], xt_reminders = [], xt_events = []\<rparr>"



section \<open>Lists\<close>

text \<open>The rows that a query asks for, and the order in which they are listed.\<close>

definition matches_query :: "execution_context \<Rightarrow> task_query \<Rightarrow> 'a task_db_scheme \<Rightarrow> task \<Rightarrow> bool" where
  "matches_query ctx q s k \<longleftrightarrow> k \<in> set (tasks s) \<and> workspace_id k = ctx_workspace ctx \<and> tk_status k \<in> set (tq_statuses q) \<and>
     (\<forall>limit. instant_of (tq_due_before q) = Some limit \<longrightarrow> (\<exists>t. tk_due_at k = Some t \<and> t \<le> limit)) \<and>
     (\<forall>u. tq_assignee_user_id q = Some u \<longrightarrow> (\<exists>p \<in> set (task_participants s). assigned u k p))"

definition listed_before :: "task \<Rightarrow> task \<Rightarrow> bool" where
  "listed_before a b \<longleftrightarrow> (case (tk_due_at a, tk_due_at b) of
     (Some x, Some y) \<Rightarrow> due_order a \<le> due_order b
   | (Some x, None) \<Rightarrow> True
   | (None, Some y) \<Rightarrow> False
   | (None, None) \<Rightarrow> due_order a \<le> due_order b)"

lemma set_query_rows: "set (query_rows ctx q s) = {k. matches_query ctx q s k}"
  by (auto simp: query_rows_def matches_query_def Let_def split: option.splits)

lemma sorted_wrt_sort_key: "sorted_wrt (\<lambda>a b. f a \<le> f b) (sort_key f xs)"
  using sorted_sort_key [of f xs] by (simp add: sorted_map)

lemma order_tasks_sorted: "sorted_wrt listed_before (order_tasks ks)"
proof -
  have "sorted_wrt listed_before (sort_key due_order (filter (\<lambda>r. tk_due_at r \<noteq> None) ks))"
    by (rule sorted_wrt_mono_rel [OF _ sorted_wrt_sort_key]) (auto simp: listed_before_def)
  moreover have "sorted_wrt listed_before (sort_key due_order (filter (\<lambda>r. tk_due_at r = None) ks))"
    by (rule sorted_wrt_mono_rel [OF _ sorted_wrt_sort_key]) (auto simp: listed_before_def)
  ultimately show ?thesis by (auto simp: order_tasks_def sorted_wrt_append listed_before_def)
qed

lemma set_order_tasks: "set (order_tasks ks) = set ks"
  by (auto simp: order_tasks_def)

lemma sorted_wrt_take_drop:
  "sorted_wrt P xs \<Longrightarrow> a \<in> set (take n xs) \<Longrightarrow> b \<in> set (drop n xs) \<Longrightarrow> P a b"
  using sorted_wrt_append [of P "take n xs" "drop n xs"] by simp

text \<open>
  C39: \<open>list\<close> returns only tasks of the workspace that match the query, at most as many as asked
  for, ordered by due time with undated tasks last, then by creation and identity. A matching
  task is left out only when the list is full, and then everything listed comes before it.
\<close>

theorem list_tasks_spec:
  "set (list_tasks ctx q s) \<subseteq> {k. matches_query ctx q s k} \<and> length (list_tasks ctx q s) \<le> nat (tq_limit q) \<and>
   sorted_wrt listed_before (list_tasks ctx q s) \<and>
   (\<forall>k. matches_query ctx q s k \<and> k \<notin> set (list_tasks ctx q s) \<longrightarrow>
      length (list_tasks ctx q s) = nat (tq_limit q) \<and> (\<forall>x \<in> set (list_tasks ctx q s). listed_before x k))"
proof (intro conjI allI impI ballI)
  let ?all = "order_tasks (query_rows ctx q s)" and ?n = "nat (tq_limit q)"
  have all: "set ?all = {k. matches_query ctx q s k}" by (simp add: set_order_tasks set_query_rows)
  show "set (list_tasks ctx q s) \<subseteq> {k. matches_query ctx q s k}"
    unfolding list_tasks_def using set_take_subset [of ?n ?all] all by simp
  show "length (list_tasks ctx q s) \<le> ?n" by (simp add: list_tasks_def)
  show "sorted_wrt listed_before (list_tasks ctx q s)"
    unfolding list_tasks_def by (rule sorted_wrt_take [OF order_tasks_sorted])
  fix k
  assume k: "matches_query ctx q s k \<and> k \<notin> set (list_tasks ctx q s)"
  then have "k \<in> set ?all" using all by simp
  then have late: "k \<in> set (drop ?n ?all)"
    using k append_take_drop_id [of ?n ?all] unfolding list_tasks_def by (metis Un_iff set_append)
  then have "drop ?n ?all \<noteq> []" by auto
  then show "length (list_tasks ctx q s) = ?n" by (simp add: list_tasks_def)
  show "listed_before x k" if "x \<in> set (list_tasks ctx q s)" for x
    using sorted_wrt_take_drop [OF order_tasks_sorted _ late] that by (simp add: list_tasks_def)
qed

section \<open>The properties\<close>

text \<open>A world with a workspace, no jobs and no tasks, and a call in it.\<close>

definition taskless_world :: task_db where
  "taskless_world = example_world (job_db_ext [] [] [] [] [] [] (task_db_ext [] [] [] [] [] [] [] ()))"

lemma taskless_world: "no_tasks taskless_world"
  by (simp add: no_tasks_def taskless_world_def example_world_def tasks_of_def task_events_def)

definition example_create :: task_call where
  "example_create = Create_task \<lparr>tc_task_id = 51, tc_resource_id = 21, tc_title = ''Report'', tc_description = [],
     tc_priority = ''normal'', tc_classification = ''internal'', tc_policy_version = 1, tc_due_at = None,
     tc_timezone = None, tc_source_resource_id = None, tc_recurrence_reference = None,
     tc_completion_evidence_required = True\<rparr> (Some 0)"

lemma example_task_workspace: "ctx_workspace example_context = 2"
  by (simp add: example_context_def)

abbreviation created_world :: task_db where
  "created_world \<equiv> snd (transaction example_context (run_task_call example_env example_context example_create) taskless_world)"


text \<open>
  The same world with two tasks: an open one with a reminder, which depends on a completed one with
  evidence.
\<close>

definition example_task :: "uuid \<Rightarrow> uuid \<Rightarrow> task_status \<Rightarrow> int \<Rightarrow> instant option \<Rightarrow> task" where
  "example_task i resource status version completed = \<lparr>organization_id = 1, workspace_id = 2, cell_id = 3, tk_id = i,
     tk_resource_id = resource, tk_title = ''Report'', tk_description = [], tk_status = status, tk_priority = ''normal'',
     tk_classification = ''internal'', tk_policy_version = 1, tk_due_at = Some 90, tk_timezone = Some ''UTC'',
     tk_recurrence_reference = None, tk_source_resource_id = None, tk_completion_evidence_required = True,
     tk_version = version, tk_created_by_user_id = 11, tk_created_at = 0, tk_updated_at = 0,
     tk_completed_at = completed, tk_deleted_at = None\<rparr>"

definition open_task :: task where "open_task = example_task 51 21 TASK_OPEN 3 None"
definition done_task :: task where "done_task = example_task 52 22 TASK_COMPLETED 2 (Some 7)"

definition example_events :: "task \<Rightarrow> outbox_event list" where
  "example_events k = map (\<lambda>n. task_outbox_row example_context (k\<lparr>tk_version := n\<rparr>) ''task.changed'' 0 0 0) [1..tk_version k]"

definition tasks_world :: task_db where
  "tasks_world = taskless_world\<lparr>tasks := [open_task, done_task],
     task_dependencies := [\<lparr>organization_id = 1, workspace_id = 2, cell_id = 3, td_task_id = 51,
       td_depends_on_task_id = 52, td_created_by_user_id = 11, td_created_at = 0\<rparr>],
     task_completion_evidence := [\<lparr>organization_id = 1, workspace_id = 2, cell_id = 3, te_id = 61, te_task_id = 52,
       te_evidence_resource_id = None, te_evidence_digest = [], te_statement = ''Sent'', te_supersedes_evidence_id = None,
       te_recorded_by_user_id = 11, te_created_at = 0\<rparr>],
     task_reminders := [\<lparr>organization_id = 1, workspace_id = 2, cell_id = 3, tr_id = 71, tr_task_id = 51,
       tr_identity_key = [], tr_due_at = 90, tr_timezone = ''UTC'', tr_status = REMINDER_SCHEDULED, tr_job_id = None,
       tr_created_at = 0\<rparr>],
     outbox_events := example_events open_task @ example_events done_task\<rparr>"

lemma example_events_facts:
  "\<forall>e \<in> set (example_events k). event_key e = key k \<and> oe_aggregate_type e = ''task''"
  "map oe_aggregate_sequence (example_events k) = [1..tk_version k]"
  by (auto simp: example_events_def task_outbox_row_def event_key_def key_def intro!: map_idI)

lemma example_keys: "key open_task = (2, 51)" "key done_task = (2, 52)" "tk_version open_task = 3" "tk_version done_task = 2"
  by (simp_all add: key_def open_task_def done_task_def example_task_def)

lemma tasks_world_events:
  "task_events tasks_world = example_events open_task @ example_events done_task"
  "filter (\<lambda>e. event_key e = key open_task) (task_events tasks_world) = example_events open_task"
  "filter (\<lambda>e. event_key e = key done_task) (task_events tasks_world) = example_events done_task"
proof -
  show *: "task_events tasks_world = example_events open_task @ example_events done_task"
    using example_events_facts(1) by (simp add: task_events_def tasks_world_def)
  show "filter (\<lambda>e. event_key e = key open_task) (task_events tasks_world) = example_events open_task"
    using example_events_facts(1) unfolding * by (simp add: example_keys)
  show "filter (\<lambda>e. event_key e = key done_task) (task_events tasks_world) = example_events done_task"
    using example_events_facts(1) unfolding * by (simp add: example_keys)
qed

lemma tasks_world_tables:
  "tasks tasks_world = [open_task, done_task]" "edges_in 2 (task_dependencies tasks_world) = [(51, 52)]"
  by (simp_all add: tasks_world_def edges_in_def)

lemma tasks_world_inv: "task_inv (tasks_of tasks_world)"
proof -
  have "events_ok (tasks_of tasks_world)"
    by (simp add: events_ok_def tasks_of_def tasks_world_events(2,3) tasks_world_tables example_events_facts(2))
  moreover have "\<forall>e \<in> set (task_events tasks_world). event_key e = key open_task \<or> event_key e = key done_task"
    using example_events_facts(1) unfolding tasks_world_events(1) by auto
  then have "rows_attached (tasks_of tasks_world)"
    by (simp add: rows_attached_def tasks_of_def tasks_world_tables example_keys)
      (simp add: tasks_world_def taskless_world_def example_world_def)
  moreover have "dependencies_ok (tasks_of tasks_world)"
    by (auto simp: dependencies_ok_def tasks_of_def tasks_world_def edges_in_def acyclic_def trancl_insert)
  moreover have "evidence_ok (tasks_of tasks_world)" "reminders_ok (tasks_of tasks_world)"
    by (simp_all add: evidence_ok_def evidence_for_def reminders_ok_def tasks_of_def tasks_world_tables example_keys)
      (simp_all add: tasks_world_def open_task_def done_task_def example_task_def)
  ultimately show ?thesis
    by (simp add: task_inv_def tasks_of_def tasks_world_tables example_keys task_ok_def)
      (simp add: open_task_def done_task_def example_task_def)
qed

lemma list_tasks_spec_witness:
  "length (list_tasks example_context default_task_query tasks_world) \<le> 100 \<and>
   sorted_wrt listed_before (list_tasks example_context default_task_query tasks_world)"
  using list_tasks_spec [of example_context default_task_query tasks_world] by (simp add: default_task_query_def)



text \<open>
  C6: The service refines the abstract machine of tasks: a call in its transaction that raises
  leaves the tables of tasks as they were; one that returns has created a task in the workspace of
  the context, or read, or made exactly one step on the task it names, from the version that the
  caller expected to the next.
\<close>

theorem task_calls_refine_steps:
  assumes "iterates_sets env"
  shows "case transaction ctx (run_task_call env ctx c) s of
      (Inl e, s') \<Rightarrow> tasks_of s' = tasks_of s
    | (Inr _, s') \<Rightarrow> call_effect (ctx_workspace ctx) c (tasks_of s) (tasks_of s')"
  by (rule transaction_task_call [OF assms])

lemma task_calls_refine_steps_witness:
  "case transaction example_context (run_task_call example_env example_context example_create) taskless_world of
      (Inl e, s') \<Rightarrow> tasks_of s' = tasks_of taskless_world
    | (Inr _, s') \<Rightarrow> call_effect 2 example_create (tasks_of taskless_world) (tasks_of s')"
  using task_calls_refine_steps [OF example_iterates, of taskless_world example_context example_create]
  by (simp only: example_task_workspace)

lemma update_version:
  assumes "task_update w i v t t'" "task_inv t"
  shows "\<exists>k' \<in> set (xt_tasks t'). key k' = (w, i) \<and> tk_version k' = v + 1"
  using assms unfolding task_update_def by blast

lemma update_not_later:
  assumes "task_update w i v t1 t2" "task_update w i v u1 u2" "task_steps t2 u1" "task_inv t2"
  shows False
proof -
  obtain k where k: "k \<in> set (xt_tasks t2)" "key k = (w, i)" "tk_version k = v + 1"
    using assms(1) unfolding task_update_def by blast
  obtain k' where k': "k' \<in> set (xt_tasks u1)" "later_task k k'" using task_steps_later [OF assms(3,4) k(1)] by blast
  obtain k2 where k2: "k2 \<in> set (xt_tasks u1)" "key k2 = (w, i)" "tk_version k2 = v"
    using assms(2) unfolding task_update_def by blast
  have "distinct (map key (xt_tasks u1))"
    using task_steps_inv [OF assms(3,4)] by (simp add: task_inv_def)
  then have "k' = k2" using k' k2 k(2) by (intro distinct_keys_unique [of key]) (auto simp: later_task_def)
  then show False using k'(2) k(3) k2(3) by (simp add: later_task_def)
qed

text \<open>
  C15: No update of a task is lost: of two calls in a workspace that change the same task and expect
  the same version, at most one returns, whatever is called in between.
\<close>

theorem no_lost_task_update:
  assumes "iterates_sets env" "task_inv (tasks_of s)" "call_target c1 = Some (i, v)" "call_target c2 = Some (i, v)"
    and "ctx_workspace ctx1 = ctx_workspace ctx2"
    and "task_calls env (snd (transaction ctx1 (run_task_call env ctx1 c1) s)) s2"
  shows "(\<exists>e. fst (transaction ctx1 (run_task_call env ctx1 c1) s) = Inl e) \<or>
    (\<exists>e. fst (transaction ctx2 (run_task_call env ctx2 c2) s2) = Inl e)"
proof (rule ccontr)
  let ?r1 = "transaction ctx1 (run_task_call env ctx1 c1) s" and ?r2 = "transaction ctx2 (run_task_call env ctx2 c2) s2"
  let ?w = "ctx_workspace ctx2"
  assume "\<not> ?thesis"
  then obtain x y where x: "fst ?r1 = Inr x" and y: "fst ?r2 = Inr y" by (metis sum.exhaust)
  have target: "call_effect w c t t' \<Longrightarrow> call_target c = Some (i, v) \<Longrightarrow> task_update w i v t t'" for w c t t'
    by (cases c) auto
  have "call_effect ?w c1 (tasks_of s) (tasks_of (snd ?r1))"
    using transaction_task_call [OF assms(1), of s ctx1 c1] x assms(5) by (cases ?r1) simp
  then have u1: "task_update ?w i v (tasks_of s) (tasks_of (snd ?r1))" using assms(3) by (rule target)
  have "call_effect ?w c2 (tasks_of s2) (tasks_of (snd ?r2))"
    using transaction_task_call [OF assms(1), of s2 ctx2 c2] y by (cases ?r2) simp
  then have u2: "task_update ?w i v (tasks_of s2) (tasks_of (snd ?r2))" using assms(4) by (rule target)
  have "task_inv (tasks_of (snd ?r1))" using u1 assms(2) by (auto simp: task_update_def intro: task_step_inv)
  then show False using update_not_later [OF u1 u2 task_calls_steps [OF assms(6,1)]] by blast
qed

definition example_start :: task_call where "example_start = Transition_task 51 TASK_IN_PROGRESS 3 (Some 1)"
definition example_cancel :: task_call where "example_cancel = Transition_task 51 TASK_CANCELLED 3 (Some 2)"

lemma no_lost_task_update_witness:
  "(\<exists>e. fst (transaction example_context (run_task_call example_env example_context example_start) tasks_world) = Inl e) \<or>
   (\<exists>e. fst (transaction example_context (run_task_call example_env example_context example_cancel)
      (snd (transaction example_context (run_task_call example_env example_context example_start) tasks_world))) = Inl e)"
  by (rule no_lost_task_update [OF example_iterates tasks_world_inv, where i = 51 and v = 3])
    (simp_all add: example_start_def example_cancel_def task_calls.start)

text \<open>
  A call under the context of one workspace leaves the tasks of every other workspace, with all
  that is attached to them and their events, exactly as they were.
\<close>

theorem tasks_of_other_workspaces_untouched:
  assumes "iterates_sets env"
  shows "others (ctx_workspace ctx) (tasks_of (snd (transaction ctx (run_task_call env ctx c) s))) =
    others (ctx_workspace ctx) (tasks_of s)"
  using task_call_step [OF assms, of ctx c s] by (auto dest: task_step_others)

lemma tasks_of_other_workspaces_untouched_witness: "others 2 (tasks_of created_world) = others 2 (tasks_of taskless_world)"
  using tasks_of_other_workspaces_untouched [OF example_iterates, of example_context example_create taskless_world]
  by (simp only: example_task_workspace)

text \<open>
  C24: As long as a workspace has fewer than 10,000 dependencies, no task of it depends on itself,
  directly or through others.
\<close>

theorem dependencies_stay_acyclic:
  assumes "iterates_sets env" "task_inv (tasks_of s)" "task_calls env s s'"
    and "length (edges_in w (task_dependencies s')) < 10000"
  shows "(i, i) \<notin> (set (edges_in w (task_dependencies s')))\<^sup>+"
proof -
  have "xt_dependencies (tasks_of s') = task_dependencies s'" by (simp add: tasks_of_def)
  then have "acyclic (set (edges_in w (task_dependencies s')))"
    using task_steps_inv [OF task_calls_steps [OF assms(3,1)] assms(2)] assms(4) unfolding task_inv_def dependencies_ok_def by metis
  then show ?thesis by (simp add: acyclic_def)
qed

lemma dependencies_stay_acyclic_witness: "(51, 51) \<notin> (set (edges_in 2 (task_dependencies tasks_world)))\<^sup>+"
  by (rule dependencies_stay_acyclic [OF example_iterates tasks_world_inv task_calls.start]) (simp add: tasks_world_tables)

text \<open>
  A task that demands evidence of its completion and was completed, also when it was deleted
  since, has evidence on record; and no reminder waits for a task that was completed, cancelled or
  deleted.
\<close>

theorem completed_tasks_have_evidence:
  assumes "iterates_sets env" "task_inv (tasks_of s)" "task_calls env s s'" "k \<in> set (tasks s')"
  shows "((tk_status k = TASK_COMPLETED \<or> tk_completed_at k \<noteq> None) \<and> tk_completion_evidence_required k \<longrightarrow>
      (\<exists>e \<in> set (task_completion_evidence s'). workspace_id e = workspace_id k \<and> te_task_id e = tk_id k)) \<and>
    (tk_status k \<in> {TASK_COMPLETED, TASK_CANCELLED, TASK_DELETED} \<longrightarrow>
      (\<forall>r \<in> set (task_reminders s'). workspace_id r = workspace_id k \<and> tr_task_id r = tk_id k \<longrightarrow>
         tr_status r \<noteq> REMINDER_SCHEDULED))"
proof
  have inv: "task_inv (tasks_of s')" by (rule task_steps_inv [OF task_calls_steps [OF assms(3,1)] assms(2)])
  have k: "k \<in> set (xt_tasks (tasks_of s'))" using assms(4) by (simp add: tasks_of_def)
  have "task_ok k" "evidence_ok (tasks_of s')" using inv k by (simp_all add: task_inv_def)
  then show "(tk_status k = TASK_COMPLETED \<or> tk_completed_at k \<noteq> None) \<and> tk_completion_evidence_required k \<longrightarrow>
      (\<exists>e \<in> set (task_completion_evidence s'). workspace_id e = workspace_id k \<and> te_task_id e = tk_id k)"
    using assms(4) by (auto simp: task_ok_def evidence_ok_def evidence_for_def key_def tasks_of_def)
  have "tk_status k \<notin> closing"
    if r: "r \<in> set (task_reminders s')" "workspace_id r = workspace_id k" "tr_task_id r = tk_id k" "tr_status r = REMINDER_SCHEDULED" for r
  proof -
    obtain x where x: "x \<in> set (tasks s')" "(workspace_id r, tr_task_id r) = key x" "tk_status x \<notin> closing"
      using inv r unfolding task_inv_def reminders_ok_def by (auto simp: tasks_of_def)
    moreover have "distinct (map key (tasks s'))" using inv by (simp add: task_inv_def tasks_of_def)
    ultimately have "x = k" using assms(4) r by (intro distinct_keys_unique [of key "tasks s'"]) (auto simp: key_def)
    then show ?thesis using x(3) by simp
  qed
  then show "tk_status k \<in> closing \<longrightarrow> (\<forall>r \<in> set (task_reminders s'). workspace_id r = workspace_id k \<and>
      tr_task_id r = tk_id k \<longrightarrow> tr_status r \<noteq> REMINDER_SCHEDULED)"
    by blast
qed

lemma completed_tasks_have_evidence_witness:
  "\<exists>e \<in> set (task_completion_evidence tasks_world). workspace_id e = 2 \<and> te_task_id e = 52"
  using completed_tasks_have_evidence [OF example_iterates tasks_world_inv task_calls.start, of done_task]
  by (simp add: tasks_world_tables) (simp add: done_task_def example_task_def)

text \<open>
  The outbox tells the whole history of a task in order: the events of a task, in the order in
  which they were appended, carry the sequence numbers 1, 2, and so on up to its version, without a
  gap. This is the order that the consumers of the messaging service insist on.
\<close>

theorem task_events_are_gapless:
  assumes "iterates_sets env" "task_inv (tasks_of s)" "task_calls env s s'" "k \<in> set (tasks s')"
  shows "map oe_aggregate_sequence (filter (\<lambda>e. oe_aggregate_type e = ''task'' \<and> oe_workspace_id e = workspace_id k \<and>
      oe_aggregate_id e = tk_id k) (outbox_events s')) = [1..tk_version k]"
proof -
  have "events_ok (tasks_of s')" using task_steps_inv [OF task_calls_steps [OF assms(3,1)] assms(2)] by (simp add: task_inv_def)
  then have "map oe_aggregate_sequence (filter (\<lambda>e. event_key e = key k) (task_events s')) = [1..tk_version k]"
    using assms(4) by (simp add: events_ok_def tasks_of_def)
  moreover have "filter (\<lambda>e. event_key e = key k) (task_events s') = filter (\<lambda>e. oe_aggregate_type e = ''task'' \<and>
      oe_workspace_id e = workspace_id k \<and> oe_aggregate_id e = tk_id k) (outbox_events s')"
    unfolding task_events_def filter_filter by (rule filter_cong) (auto simp: event_key_def key_def)
  ultimately show ?thesis by simp
qed

lemma task_events_are_gapless_witness:
  "map oe_aggregate_sequence (filter (\<lambda>e. oe_aggregate_type e = ''task'' \<and> oe_workspace_id e = 2 \<and>
      oe_aggregate_id e = 51) (outbox_events tasks_world)) = [1, 2, 3]"
proof -
  have "[1..3] = [1, 2, 3::int]" by (simp add: upto.simps)
  then show ?thesis
    using task_events_are_gapless [OF example_iterates tasks_world_inv task_calls.start, of open_task]
    by (simp add: tasks_world_tables) (simp add: open_task_def example_task_def)
qed

text \<open>
  C24: The history of a task: whatever is called, a task that exists stays, with its identity, title
  and due time; its version never falls; its status follows the table of transitions, so that a
  deleted task stays deleted, and a completed or cancelled one can only be deleted.
\<close>

theorem task_history_follows_transitions:
  assumes "iterates_sets env" "task_inv (tasks_of s)" "task_calls env s s'" "k \<in> set (tasks s)"
  shows "\<exists>k' \<in> set (tasks s'). later_task k k' \<and>
    (tk_status k = TASK_DELETED \<longrightarrow> tk_status k' = TASK_DELETED) \<and>
    (tk_status k = TASK_COMPLETED \<longrightarrow> tk_status k' \<in> {TASK_COMPLETED, TASK_DELETED}) \<and>
    (tk_status k = TASK_CANCELLED \<longrightarrow> tk_status k' \<in> {TASK_CANCELLED, TASK_DELETED})"
proof -
  have "k \<in> set (xt_tasks (tasks_of s))" using assms(4) by (simp add: tasks_of_def)
  then obtain k' where k': "k' \<in> set (xt_tasks (tasks_of s'))" "later_task k k'"
    using task_steps_later [OF task_calls_steps [OF assms(3,1)] assms(2)] by blast
  then have "may_become\<^sup>*\<^sup>* (tk_status k) (tk_status k')" by (simp add: later_task_def)
  then have "(tk_status k = TASK_DELETED \<longrightarrow> tk_status k' = TASK_DELETED) \<and>
    (tk_status k = TASK_COMPLETED \<longrightarrow> tk_status k' \<in> {TASK_COMPLETED, TASK_DELETED}) \<and>
    (tk_status k = TASK_CANCELLED \<longrightarrow> tk_status k' \<in> {TASK_CANCELLED, TASK_DELETED})"
    using deleted_stays completed_stays cancelled_stays by blast
  moreover have "k' \<in> set (tasks s')" using k'(1) by (simp add: tasks_of_def)
  ultimately show ?thesis using k'(2) by blast
qed

lemma task_history_follows_transitions_witness:
  "\<exists>k' \<in> set (tasks (snd (transaction example_context (run_task_call example_env example_context example_cancel) tasks_world))).
     key k' = (2, 52) \<and> tk_status k' \<in> {TASK_COMPLETED, TASK_DELETED}"
  using task_history_follows_transitions [OF example_iterates tasks_world_inv task_calls.call [OF task_calls.start],
    of done_task example_context example_cancel]
  by (simp add: tasks_world_tables later_task_def example_keys) (auto simp: done_task_def example_task_def)



end
