(* ===== verification/Workflow_Contracts.thy ===== *)
theory Workflow_Contracts
  imports Job_Contracts
begin

text \<open>
  The contracts of workflows and approvals: \<open>app/workflows/contracts.py\<close>. The models of
  \<open>pydantic\<close> are records; calling one runs its validator, whose \<open>ValueError\<close> (which a
  \<open>WorkflowError\<close> is) reaches the caller inside a \<open>ValidationError\<close>. A definition is stored as the
  text of its JSON dump and read back with \<open>model_validate_json\<close>; how \<open>pydantic\<close> reads JSON is the
  parameter \<open>parse_json\<close>, what the model makes of the parsed members is written out.
\<close>

datatype step_kind = STEP_COMMAND | STEP_QUERY | STEP_TASK | STEP_WAIT | STEP_APPROVAL

fun step_kind_value :: "step_kind \<Rightarrow> string" where
  "step_kind_value STEP_COMMAND = ''command''"
| "step_kind_value STEP_QUERY = ''query''"
| "step_kind_value STEP_TASK = ''task''"
| "step_kind_value STEP_WAIT = ''wait''"
| "step_kind_value STEP_APPROVAL = ''approval''"

definition step_kinds :: "step_kind list" where
  "step_kinds = [STEP_COMMAND, STEP_QUERY, STEP_TASK, STEP_WAIT, STEP_APPROVAL]"

datatype instance_status =
    INSTANCE_RUNNING | INSTANCE_WAITING | INSTANCE_WAITING_APPROVAL | INSTANCE_PAUSED | INSTANCE_SUCCEEDED
  | INSTANCE_FAILED | INSTANCE_CANCELLED | INSTANCE_COMPENSATION_FAILED | INSTANCE_UNCERTAIN

fun instance_status_value :: "instance_status \<Rightarrow> string" where
  "instance_status_value INSTANCE_RUNNING = ''running''"
| "instance_status_value INSTANCE_WAITING = ''waiting''"
| "instance_status_value INSTANCE_WAITING_APPROVAL = ''waiting_approval''"
| "instance_status_value INSTANCE_PAUSED = ''paused''"
| "instance_status_value INSTANCE_SUCCEEDED = ''succeeded''"
| "instance_status_value INSTANCE_FAILED = ''failed''"
| "instance_status_value INSTANCE_CANCELLED = ''cancelled''"
| "instance_status_value INSTANCE_COMPENSATION_FAILED = ''compensation_failed''"
| "instance_status_value INSTANCE_UNCERTAIN = ''uncertain''"

definition INSTANCE_TERMINAL :: "instance_status list" where
  "INSTANCE_TERMINAL = [INSTANCE_SUCCEEDED, INSTANCE_FAILED, INSTANCE_CANCELLED, INSTANCE_COMPENSATION_FAILED,
     INSTANCE_UNCERTAIN]"

section \<open>Times\<close>

definition naive_time :: "py_datetime \<Rightarrow> bool" where
  "naive_time t \<longleftrightarrow> (case t of Naive _ \<Rightarrow> True | Aware _ \<Rightarrow> False)"

text \<open>\<open>a >= b\<close>, which \<open>datetime\<close> refuses between a naive and an aware value.\<close>

fun not_before :: "py_datetime \<Rightarrow> py_datetime \<Rightarrow> py_error + bool" where
  "not_before (Aware a) (Aware b) = Inr (b \<le> a)"
| "not_before (Naive a) (Naive b) = Inr (b \<le> a)"
| "not_before _ _ = Inl TypeError"

section \<open>References\<close>

text \<open>
  \<open>REFERENCE.fullmatch\<close> for \<open>^[a-z][a-z0-9_.-]*\.v[1-9][0-9]*$\<close>: some split of the text into a
  stem and a version.
\<close>

definition in_range :: "char \<Rightarrow> char \<Rightarrow> char \<Rightarrow> bool" where
  "in_range lo hi c \<longleftrightarrow> (of_char lo :: nat) \<le> of_char c \<and> (of_char c :: nat) \<le> of_char hi"

definition lower_char :: "char \<Rightarrow> bool" where "lower_char = in_range CHR ''a'' CHR ''z''"
definition decimal_char :: "char \<Rightarrow> bool" where "decimal_char = in_range CHR ''0'' CHR ''9''"

definition reference_stem :: "string \<Rightarrow> bool" where
  "reference_stem t \<longleftrightarrow> (case t of [] \<Rightarrow> False
     | c # r \<Rightarrow> lower_char c \<and> list_all (\<lambda>x. lower_char x \<or> decimal_char x \<or> x \<in> set ''_.-'') r)"

definition reference_version :: "string \<Rightarrow> bool" where
  "reference_version t \<longleftrightarrow> (case t of d # v # n # r \<Rightarrow>
       d = CHR ''.'' \<and> v = CHR ''v'' \<and> in_range CHR ''1'' CHR ''9'' n \<and> list_all decimal_char r
     | _ \<Rightarrow> False)"

definition is_reference :: "string \<Rightarrow> bool" where
  "is_reference t \<longleftrightarrow> list_ex (\<lambda>i. reference_stem (take i t) \<and> reference_version (drop i t)) [0..<length t]"

section \<open>Definitions\<close>

record workflow_step =
  st_key :: string
  st_kind :: step_kind
  st_reference :: string
  st_next_key :: "string option"
  st_failure_key :: "string option"
  st_compensation_reference :: "string option"
  st_timeout_seconds :: int

definition validate_step :: "workflow_step \<Rightarrow> string option" where
  "validate_step st =
     (if st_key st = [] \<or> \<not> is_reference (st_reference st)
        then Some ''step must reference a versioned registered contract''
      else if (case st_compensation_reference st of None \<Rightarrow> False | Some r \<Rightarrow> \<not> is_reference r)
        then Some ''compensation must reference a versioned registered command''
      else if \<not> (1 \<le> st_timeout_seconds st \<and> st_timeout_seconds st \<le> 86400)
        then Some ''step timeout is invalid''
      else None)"

definition make_workflow_step :: "workflow_step \<Rightarrow> py_error + workflow_step" where
  "make_workflow_step st =
     (case validate_step st of Some m \<Rightarrow> Inl (ValidationError (ValueError m)) | None \<Rightarrow> Inr st)"

record workflow_definition =
  wd_definition_id :: uuid
  wd_version :: int
  wd_name :: string
  wd_steps :: "workflow_step list"
  wd_input_schema_version :: int
  wd_classification :: string
  wd_policy_version :: int

definition unknown_key :: "string list \<Rightarrow> string option \<Rightarrow> bool" where
  "unknown_key known k \<longleftrightarrow> (case k of None \<Rightarrow> False | Some x \<Rightarrow> x \<notin> set known)"

fun unknown_step_key :: "string list \<Rightarrow> workflow_step list \<Rightarrow> string option" where
  "unknown_step_key known [] = None"
| "unknown_step_key known (st # sts) =
     (if unknown_key known (st_next_key st) then Some ''workflow next step is unknown''
      else if unknown_key known (st_failure_key st) then Some ''workflow failure step is unknown''
      else unknown_step_key known sts)"

definition validate_definition :: "workflow_definition \<Rightarrow> string option" where
  "validate_definition d =
     (if wd_version d < 1 \<or> wd_input_schema_version d < 1 \<or> wd_policy_version d < 1 \<or> py_strip (wd_name d) = []
        then Some ''workflow definition metadata is invalid''
      else if wd_classification d \<notin> {''public'', ''internal'', ''confidential'', ''restricted''}
        then Some ''workflow classification is invalid''
      else let keys = map st_key (wd_steps d) in
        if keys = [] \<or> \<not> distinct keys then Some ''workflow step keys must be unique''
        else unknown_step_key keys (wd_steps d))"

definition make_workflow_definition :: "workflow_definition \<Rightarrow> py_error + workflow_definition" where
  "make_workflow_definition d =
     (case validate_definition d of Some m \<Rightarrow> Inl (ValidationError (ValueError m)) | None \<Rightarrow> Inr d)"

text \<open>\<open>WorkflowDefinition.step\<close>\<close>

definition find_step :: "workflow_definition \<Rightarrow> string \<Rightarrow> py_error + workflow_step" where
  "find_step d k = (case List.find (\<lambda>st. st_key st = k) (wd_steps d) of
     Some st \<Rightarrow> Inr st | None \<Rightarrow> Inl (WorkflowError Workflow_step_does_not_exist))"

section \<open>Definitions as JSON\<close>

text \<open>\<open>model_dump(mode="json")\<close>\<close>

definition json_opt_str :: "string option \<Rightarrow> json" where
  "json_opt_str x = (case x of None \<Rightarrow> JNull | Some t \<Rightarrow> JStr t)"

definition dump_step :: "workflow_step \<Rightarrow> json" where
  "dump_step st = JObj
     [(''key'', JStr (st_key st)), (''kind'', JStr (step_kind_value (st_kind st))),
      (''reference'', JStr (st_reference st)), (''next_key'', json_opt_str (st_next_key st)),
      (''failure_key'', json_opt_str (st_failure_key st)),
      (''compensation_reference'', json_opt_str (st_compensation_reference st)),
      (''timeout_seconds'', JInt (st_timeout_seconds st))]"

definition dump_definition :: "workflow_definition \<Rightarrow> json" where
  "dump_definition d = JObj
     [(''definition_id'', JStr (uuid_str (wd_definition_id d))), (''version'', JInt (wd_version d)),
      (''name'', JStr (wd_name d)), (''steps'', JList (map dump_step (wd_steps d))),
      (''input_schema_version'', JInt (wd_input_schema_version d)),
      (''classification'', JStr (wd_classification d)), (''policy_version'', JInt (wd_policy_version d))]"

text \<open>
  The fields of the models from the members of an object, in the forms that the dump writes.
\<close>

definition load_str :: "string \<Rightarrow> json \<Rightarrow> string option" where
  "load_str k j = (case json_get k j of Some (JStr t) \<Rightarrow> Some t | _ \<Rightarrow> None)"

definition load_int :: "string \<Rightarrow> json \<Rightarrow> int option" where
  "load_int k j = (case json_get k j of Some (JInt n) \<Rightarrow> Some n | _ \<Rightarrow> None)"

definition load_opt_str :: "string \<Rightarrow> json \<Rightarrow> string option option" where
  "load_opt_str k j = (case json_get k j of None \<Rightarrow> Some None | Some JNull \<Rightarrow> Some None
     | Some (JStr t) \<Rightarrow> Some (Some t) | _ \<Rightarrow> None)"

definition load_step :: "json \<Rightarrow> workflow_step option" where
  "load_step j =
     (case (load_str ''key'' j, load_str ''kind'' j, load_str ''reference'' j, load_opt_str ''next_key'' j,
            load_opt_str ''failure_key'' j, load_opt_str ''compensation_reference'' j,
            (if json_get ''timeout_seconds'' j = None then Some 300 else load_int ''timeout_seconds'' j)) of
        (Some k, Some kd, Some r, Some n, Some f, Some c, Some t) \<Rightarrow>
          (case List.find (\<lambda>x. step_kind_value x = kd) step_kinds of None \<Rightarrow> None
           | Some kind \<Rightarrow> Some \<lparr>st_key = k, st_kind = kind, st_reference = r, st_next_key = n, st_failure_key = f,
               st_compensation_reference = c, st_timeout_seconds = t\<rparr>)
      | _ \<Rightarrow> None)"

fun load_steps :: "json list \<Rightarrow> workflow_step list option" where
  "load_steps [] = Some []"
| "load_steps (j # js) = (case (load_step j, load_steps js) of (Some st, Some sts) \<Rightarrow> Some (st # sts) | _ \<Rightarrow> None)"

definition load_definition :: "json \<Rightarrow> workflow_definition option" where
  "load_definition j =
     (case (load_str ''definition_id'' j, load_int ''version'' j, load_str ''name'' j, json_get ''steps'' j,
            load_int ''input_schema_version'' j, load_str ''classification'' j, load_int ''policy_version'' j) of
        (Some i, Some v, Some n, Some (JList js), Some isv, Some c, Some p) \<Rightarrow>
          (case (uuid_parse i, load_steps js) of
             (Some u, Some sts) \<Rightarrow> Some \<lparr>wd_definition_id = u, wd_version = v, wd_name = n, wd_steps = sts,
                wd_input_schema_version = isv, wd_classification = c, wd_policy_version = p\<rparr>
           | _ \<Rightarrow> None)
      | _ \<Rightarrow> None)"

text \<open>\<open>WorkflowDefinition.model_validate_json\<close>: the steps are validated first, then the definition.\<close>

definition validate_loaded :: "workflow_definition \<Rightarrow> py_error + workflow_definition" where
  "validate_loaded d =
     (case List.find (\<lambda>st. validate_step st \<noteq> None) (wd_steps d) of
        Some st \<Rightarrow> Inl (ValidationError (ValueError (the (validate_step st))))
      | None \<Rightarrow> make_workflow_definition d)"

definition model_validate_json :: "py_env \<Rightarrow> string \<Rightarrow> py_error + workflow_definition" where
  "model_validate_json env t =
     (case parse_json env t of None \<Rightarrow> Inl (ValidationError (ValueError ''json_invalid''))
      | Some j \<Rightarrow> (case load_definition j of None \<Rightarrow> Inl (ValidationError (ValueError ''type_error''))
      | Some d \<Rightarrow> validate_loaded d))"

section \<open>Transitions\<close>

record workflow_transition =
  wt_next_key :: "string option"
  wt_status :: instance_status

definition status_at :: "workflow_step \<Rightarrow> instance_status" where
  "status_at st = (if st_kind st = STEP_APPROVAL then INSTANCE_WAITING_APPROVAL
     else if st_kind st = STEP_WAIT then INSTANCE_WAITING else INSTANCE_RUNNING)"

definition decide_next :: "workflow_definition \<Rightarrow> string \<Rightarrow> string \<Rightarrow> instance_status \<Rightarrow> py_error + workflow_transition" where
  "decide_next d current_key outcome current_status =
     (if current_status \<in> set INSTANCE_TERMINAL then Inl (WorkflowError Terminal_workflow_instance_cannot_resume)
      else case find_step d current_key of Inl e \<Rightarrow> Inl e
      | Inr st \<Rightarrow>
        if outcome = ''failed'' then Inr \<lparr>wt_next_key = st_failure_key st,
            wt_status = (case st_failure_key st of None \<Rightarrow> INSTANCE_FAILED
              | Some k \<Rightarrow> if k = [] then INSTANCE_FAILED else INSTANCE_RUNNING)\<rparr>
        else if outcome \<notin> {''succeeded'', ''resume''} then Inl (WorkflowError Workflow_outcome_is_invalid)
        else case st_next_key st of
          None \<Rightarrow> Inr \<lparr>wt_next_key = None, wt_status = INSTANCE_SUCCEEDED\<rparr>
        | Some k \<Rightarrow> (case find_step d k of Inl e \<Rightarrow> Inl e
          | Inr next_step \<Rightarrow> Inr \<lparr>wt_next_key = Some (st_key next_step), wt_status = status_at next_step\<rparr>))"

section \<open>Approvals\<close>

record approval_request =
  ar_request_id :: uuid
  ar_instance_id :: uuid
  ar_requested_by_user_id :: uuid
  ar_step_key :: string
  ar_action_digest :: string
  ar_risk :: string
  ar_required_approvals :: int
  ar_expires_at :: py_datetime
  ar_policy_version :: int
  ar_revoked_at :: "instant option"

definition validate_request :: "approval_request \<Rightarrow> approval_fault option" where
  "validate_request r =
     (if length (ar_action_digest r) \<noteq> 64 \<or> ar_risk r \<notin> {''low'', ''medium'', ''high'', ''critical''}
        then Some Approval_request_is_invalid
      else if ar_required_approvals r < 1 \<or> ar_policy_version r < 1 \<or> naive_time (ar_expires_at r)
        then Some Approval_request_is_invalid
      else None)"

definition make_approval_request :: "approval_request \<Rightarrow> py_error + approval_request" where
  "make_approval_request r =
     (case validate_request r of Some e \<Rightarrow> Inl (ValidationError (ApprovalError e)) | None \<Rightarrow> Inr r)"

record approval_decision =
  ad_decision_id :: uuid
  ad_request_id :: uuid
  ad_approver_id :: uuid
  ad_approved :: bool
  ad_action_digest :: string
  ad_decided_at :: instant

definition action_digest :: "py_env \<Rightarrow> string \<Rightarrow> json \<Rightarrow> py_error + string" where
  "action_digest env ref payload =
     (case json_dumps_with False '','' '':'' (JObj [(''reference'', JStr ref), (''payload'', payload)]) of
        None \<Rightarrow> Inl TypeError
      | Some canonical \<Rightarrow> Inr (sha256_hex env canonical))"

definition valid_approvers :: "approval_request \<Rightarrow> approval_decision list \<Rightarrow> uuid list" where
  "valid_approvers r ds = remdups (map ad_approver_id (filter (\<lambda>d. ad_request_id d = ar_request_id r \<and>
     ad_approver_id d \<noteq> ar_requested_by_user_id r \<and> ad_approved d \<and> ad_action_digest d = ar_action_digest r) ds))"

definition require_approval :: "approval_request \<Rightarrow> approval_decision list \<Rightarrow> py_datetime \<Rightarrow> string \<Rightarrow> bool \<Rightarrow>
    py_error + unit" where
  "require_approval r ds now digest authorized =
     (if \<not> authorized then Inl (ApprovalError Authorization_revalidation_failed)
      else if ar_revoked_at r \<noteq> None then Inl (ApprovalError Approval_was_revoked)
      else case not_before now (ar_expires_at r) of Inl e \<Rightarrow> Inl e
      | Inr expired \<Rightarrow>
        if expired then Inl (ApprovalError Approval_expired)
        else if digest \<noteq> ar_action_digest r then Inl (ApprovalError Approval_action_digest_mismatch)
        else if int (length (valid_approvers r ds)) < ar_required_approvals r
          then Inl (ApprovalError Approval_quorum_not_satisfied)
        else Inr ())"

end
