(* ===== verification/Workflow_Store.thy ===== *)
theory Workflow_Store
  imports Workflow_Contracts Job_Store
begin

text \<open>
  The tables of workflows and the repository on them: \<open>app/workflows/models.py\<close> (with the triggers
  of migration \<open>0029_add_workflow_approval.py\<close>) and \<open>app/workflows/repository.py\<close>. No
  operation of the program writes the tables \<open>workflow_tokens\<close> and \<open>workflow_waits\<close>, and none
  changes or deletes a row of \<open>workflow_approval_decisions\<close> or \<open>workflow_receipts\<close>, which a
  trigger would refuse.
\<close>

section \<open>Rows\<close>

record workflow_definition_record = tenant_row +
  wr_id :: uuid
  wr_name :: string
  wr_status :: string
  wr_created_by_user_id :: uuid
  wr_created_at :: instant

record workflow_definition_version = tenant_row +
  wv_definition_id :: uuid
  wv_version :: int
  wv_schema_json :: string
  wv_schema_digest :: string
  wv_classification :: string
  wv_policy_version :: int
  wv_activated_at :: "instant option"
  wv_created_at :: instant

record workflow_instance = tenant_row +
  wi_id :: uuid
  wi_definition_id :: uuid
  wi_definition_version :: int
  wi_status :: instance_status
  wi_current_step_key :: "string option"
  wi_state_json :: string
  wi_input_digest :: string
  wi_idempotency_key :: string
  wi_version :: int
  wi_started_by_user_id :: uuid
  wi_created_at :: instant
  wi_updated_at :: instant

record workflow_approval = tenant_row +
  wa_id :: uuid
  wa_instance_id :: uuid
  wa_step_key :: string
  wa_action_digest :: string
  wa_risk :: string
  wa_required_approvals :: int
  wa_policy_version :: int
  wa_requested_by_user_id :: uuid
  wa_expires_at :: instant
  wa_revoked_at :: "instant option"

record workflow_approval_decision = tenant_row +
  we_id :: uuid
  we_approval_id :: uuid
  we_approver_id :: uuid
  we_approved :: bool
  we_action_digest :: string
  we_decided_at :: instant

record workflow_receipt = tenant_row +
  wc_id :: uuid
  wc_instance_id :: uuid
  wc_transition_key :: string
  wc_outcome :: instance_status
  wc_action_digest :: string
  wc_result_digest :: "string option"
  wc_compensation :: bool
  wc_uncertain :: bool
  wc_created_at :: instant

record workflow_db = core_db +
  workflow_definitions :: "workflow_definition_record list"
  workflow_definition_versions :: "workflow_definition_version list"
  workflow_instances :: "workflow_instance list"
  workflow_approvals :: "workflow_approval list"
  workflow_approval_decisions :: "workflow_approval_decision list"
  workflow_receipts :: "workflow_receipt list"

section \<open>Constraints\<close>

definition wr_pk :: "workflow_definition_record \<Rightarrow> tenant_key" where "wr_pk r = tenant_pk r (wr_id r)"

definition wv_pk :: "workflow_definition_version \<Rightarrow> tenant_key \<times> int" where
  "wv_pk r = (tenant_pk r (wv_definition_id r), wv_version r)"

definition wi_pk :: "workflow_instance \<Rightarrow> tenant_key" where "wi_pk r = tenant_pk r (wi_id r)"

definition instance_exists :: "tenant_key \<Rightarrow> 'a workflow_db_scheme \<Rightarrow> bool" where
  "instance_exists k s \<longleftrightarrow> list_ex (\<lambda>r. wi_pk r = k) (workflow_instances s)"

definition within :: "nat \<Rightarrow> string option \<Rightarrow> bool" where
  "within n x \<longleftrightarrow> (case x of None \<Rightarrow> True | Some t \<Rightarrow> length t \<le> n)"

definition workflow_definition_constraints ::
    "workflow_definition_record \<Rightarrow> 'a workflow_db_scheme \<Rightarrow> (string \<times> bool) list" where
  "workflow_definition_constraints r s =
     [(''pk_workflow_definitions'', list_all (\<lambda>x. wr_pk x \<noteq> wr_pk r) (workflow_definitions s)),
      (''fk_workflow_definitions_workspace'', tenant_exists r s),
      (''uq_workflow_definitions_name'', list_all (\<lambda>x. \<not> (tenant_pk x 0 = tenant_pk r 0 \<and> wr_name x = wr_name r))
         (workflow_definitions s)),
      (''character varying(256)'', length (wr_name r) \<le> 256)]"

definition workflow_version_constraints ::
    "workflow_definition_version \<Rightarrow> 'a workflow_db_scheme \<Rightarrow> (string \<times> bool) list" where
  "workflow_version_constraints r s =
     [(''pk_workflow_definition_versions'', list_all (\<lambda>x. wv_pk x \<noteq> wv_pk r) (workflow_definition_versions s)),
      (''fk_workflow_versions_definition'', list_ex (\<lambda>x. wr_pk x = tenant_pk r (wv_definition_id r)) (workflow_definitions s)),
      (''ck_workflow_version_positive'', 0 < wv_version r \<and> 0 < wv_policy_version r)]"

definition workflow_instance_checks :: "workflow_instance \<Rightarrow> (string \<times> bool) list" where
  "workflow_instance_checks r =
     [(''character varying(128)'', within 128 (wi_current_step_key r) \<and> length (wi_idempotency_key r) \<le> 128),
      (''ck_workflow_instance_version'', 0 < wi_version r)]"

definition workflow_instance_constraints ::
    "workflow_instance \<Rightarrow> 'a workflow_db_scheme \<Rightarrow> (string \<times> bool) list" where
  "workflow_instance_constraints r s =
     [(''pk_workflow_instances'', list_all (\<lambda>x. wi_pk x \<noteq> wi_pk r) (workflow_instances s)),
      (''fk_workflow_instances_version'', list_ex (\<lambda>x. wv_pk x = (tenant_pk r (wi_definition_id r), wi_definition_version r))
         (workflow_definition_versions s)),
      (''uq_workflow_instance_idempotency'', list_all (\<lambda>x. \<not> (tenant_pk x 0 = tenant_pk r 0 \<and>
         wi_idempotency_key x = wi_idempotency_key r)) (workflow_instances s))] @ workflow_instance_checks r"

definition workflow_approval_constraints ::
    "workflow_approval \<Rightarrow> 'a workflow_db_scheme \<Rightarrow> (string \<times> bool) list" where
  "workflow_approval_constraints r s =
     [(''pk_workflow_approvals'', list_all (\<lambda>x. tenant_pk x (wa_id x) \<noteq> tenant_pk r (wa_id r)) (workflow_approvals s)),
      (''fk_workflow_approvals_instance'', instance_exists (tenant_pk r (wa_instance_id r)) s),
      (''character varying(128)'', length (wa_step_key r) \<le> 128)]"

definition workflow_decision_constraints ::
    "workflow_approval_decision \<Rightarrow> 'a workflow_db_scheme \<Rightarrow> (string \<times> bool) list" where
  "workflow_decision_constraints r s =
     [(''pk_workflow_approval_decisions'', list_all (\<lambda>x. tenant_pk x (we_id x) \<noteq> tenant_pk r (we_id r))
         (workflow_approval_decisions s)),
      (''fk_workflow_decisions_approval'', list_ex (\<lambda>x. tenant_pk x (wa_id x) = tenant_pk r (we_approval_id r))
         (workflow_approvals s)),
      (''uq_workflow_approval_approver'', list_all (\<lambda>x. \<not> (tenant_pk x (we_approval_id x) = tenant_pk r (we_approval_id r) \<and>
         we_approver_id x = we_approver_id r)) (workflow_approval_decisions s))]"

definition workflow_receipt_constraints ::
    "workflow_receipt \<Rightarrow> 'a workflow_db_scheme \<Rightarrow> (string \<times> bool) list" where
  "workflow_receipt_constraints r s =
     [(''pk_workflow_receipts'', list_all (\<lambda>x. tenant_pk x (wc_id x) \<noteq> tenant_pk r (wc_id r)) (workflow_receipts s)),
      (''fk_workflow_receipts_instance'', instance_exists (tenant_pk r (wc_instance_id r)) s),
      (''uq_workflow_receipt_transition'', list_all (\<lambda>x. \<not> (tenant_pk x (wc_instance_id x) = tenant_pk r (wc_instance_id r) \<and>
         wc_transition_key x = wc_transition_key r)) (workflow_receipts s)),
      (''character varying(128)'', length (wc_transition_key r) \<le> 128)]"

section \<open>Inserts and updates\<close>

text \<open>\<open>WorkflowRepository.add\<close> on a row of each table.\<close>

definition add_workflow_record :: "execution_context \<Rightarrow> workflow_definition_record \<Rightarrow> ('a workflow_db_scheme, unit) M" where
  "add_workflow_record ctx r = add_row ctx (workspace_id r) (workflow_definition_constraints r)
     (\<lambda>s. s\<lparr>workflow_definitions := workflow_definitions s @ [r]\<rparr>)"

definition add_workflow_version :: "execution_context \<Rightarrow> workflow_definition_version \<Rightarrow> ('a workflow_db_scheme, unit) M" where
  "add_workflow_version ctx r = add_row ctx (workspace_id r) (workflow_version_constraints r)
     (\<lambda>s. s\<lparr>workflow_definition_versions := workflow_definition_versions s @ [r]\<rparr>)"

definition add_workflow_instance :: "execution_context \<Rightarrow> workflow_instance \<Rightarrow> ('a workflow_db_scheme, unit) M" where
  "add_workflow_instance ctx r = add_row ctx (workspace_id r) (workflow_instance_constraints r)
     (\<lambda>s. s\<lparr>workflow_instances := workflow_instances s @ [r]\<rparr>)"

definition add_workflow_approval :: "execution_context \<Rightarrow> workflow_approval \<Rightarrow> ('a workflow_db_scheme, unit) M" where
  "add_workflow_approval ctx r = add_row ctx (workspace_id r) (workflow_approval_constraints r)
     (\<lambda>s. s\<lparr>workflow_approvals := workflow_approvals s @ [r]\<rparr>)"

definition add_workflow_decision :: "execution_context \<Rightarrow> workflow_approval_decision \<Rightarrow> ('a workflow_db_scheme, unit) M" where
  "add_workflow_decision ctx r = add_row ctx (workspace_id r) (workflow_decision_constraints r)
     (\<lambda>s. s\<lparr>workflow_approval_decisions := workflow_approval_decisions s @ [r]\<rparr>)"

definition add_workflow_receipt :: "execution_context \<Rightarrow> workflow_receipt \<Rightarrow> ('a workflow_db_scheme, unit) M" where
  "add_workflow_receipt ctx r = add_row ctx (workspace_id r) (workflow_receipt_constraints r)
     (\<lambda>s. s\<lparr>workflow_receipts := workflow_receipts s @ [r]\<rparr>)"

text \<open>The trigger \<open>protect_active_workflow_version\<close>, on the row that is to be changed.\<close>

definition protect_active_workflow_version :: "workflow_definition_version \<Rightarrow> ('a workflow_db_scheme, unit) M" where
  "protect_active_workflow_version r =
     bindM (getsM (\<lambda>s. list_ex (\<lambda>x. wv_pk x = wv_pk r \<and> wv_activated_at x \<noteq> None) (workflow_definition_versions s))) (\<lambda>active.
     requireM (\<not> active) (RaisedByDatabase ''active workflow definition versions are immutable''))"

text \<open>The flush of a changed object of each of three tables.\<close>

definition save_workflow_version :: "workflow_definition_version \<Rightarrow> ('a workflow_db_scheme, unit) M" where
  "save_workflow_version r =
     thenM (enforce_workspace_write_state (workspace_id r))
     (thenM (protect_active_workflow_version r)
     (modifyM (\<lambda>s. s\<lparr>workflow_definition_versions := replace_row wv_pk r (workflow_definition_versions s)\<rparr>)))"

definition save_workflow_record :: "workflow_definition_record \<Rightarrow> ('a workflow_db_scheme, unit) M" where
  "save_workflow_record r =
     thenM (enforce_workspace_write_state (workspace_id r))
     (modifyM (\<lambda>s. s\<lparr>workflow_definitions := replace_row wr_pk r (workflow_definitions s)\<rparr>))"

definition save_workflow_instance :: "workflow_instance \<Rightarrow> ('a workflow_db_scheme, unit) M" where
  "save_workflow_instance r =
     thenM (enforce_workspace_write_state (workspace_id r))
     (thenM (check_constraints (workflow_instance_checks r))
     (modifyM (\<lambda>s. s\<lparr>workflow_instances := replace_row wi_pk r (workflow_instances s)\<rparr>)))"

section \<open>Queries\<close>

definition find_workflow :: "execution_context \<Rightarrow> uuid \<Rightarrow> 'a workflow_db_scheme \<Rightarrow> workflow_definition_record option" where
  "find_workflow ctx i s = List.find (\<lambda>r. workspace_id r = ctx_workspace ctx \<and> wr_id r = i) (workflow_definitions s)"

definition find_workflow_version :: "execution_context \<Rightarrow> uuid \<Rightarrow> int \<Rightarrow> 'a workflow_db_scheme \<Rightarrow>
    workflow_definition_version option" where
  "find_workflow_version ctx i v s = List.find (\<lambda>r. workspace_id r = ctx_workspace ctx \<and> wv_definition_id r = i \<and>
     wv_version r = v) (workflow_definition_versions s)"

definition find_instance :: "execution_context \<Rightarrow> uuid \<Rightarrow> 'a workflow_db_scheme \<Rightarrow> workflow_instance option" where
  "find_instance ctx i s = List.find (\<lambda>r. workspace_id r = ctx_workspace ctx \<and> wi_id r = i) (workflow_instances s)"

end
