(* ===== verification/Workflow_Service.thy ===== *)
theory Workflow_Service
  imports Workflow_Store Job_Service
begin

text \<open>
  \<open>WorkflowService\<close> of \<open>app/workflows/service.py\<close>. \<open>ask\<close> is the authorizer, any that keeps to the
  protocol \<open>WorkflowAuthorizer\<close>. An object that the source changes in place is a changed record
  here, written where the session flushes it: before the next query, or with the next insert.
\<close>

section \<open>Guards and records\<close>

definition require_allowed :: "'s authorizer \<Rightarrow> execution_context \<Rightarrow> string \<Rightarrow> ('s, unit) M" where
  "require_allowed ask ctx permission =
     bindM (ask ctx permission) (\<lambda>allowed. requireM allowed (WorkflowError Workflow_authorization_denied))"

definition workflow_details :: "int \<Rightarrow> string \<Rightarrow> json" where
  "workflow_details sequence status = JObj [(''version'', JInt sequence), (''status'', JStr status)]"

definition workflow_outbox_row :: "execution_context \<Rightarrow> uuid \<Rightarrow> string \<Rightarrow> int \<Rightarrow> string \<Rightarrow> string \<Rightarrow> instant \<Rightarrow>
    uuid \<Rightarrow> instant \<Rightarrow> outbox_event" where
  "workflow_outbox_row ctx aggregate_id event sequence classification status occurred event_id written_at = \<lparr>
     oe_workspace_id = ctx_workspace ctx, oe_id = event_id, oe_event_type = event, oe_schema_version = 1,
     oe_aggregate_type = ''workflow'', oe_aggregate_id = aggregate_id, oe_aggregate_sequence = sequence,
     oe_payload = JObj
       [(''workflow_id'', JStr (uuid_str aggregate_id)), (''version'', JInt sequence), (''status'', JStr status)],
     oe_actor_id = Some (ctx_actor ctx), oe_delegation_id = None,
     oe_correlation_id = Some (correlation_id (ec_request ctx)), oe_causation_id = None,
     oe_classification = classification, oe_schema_major = 1, oe_schema_minor = 0,
     oe_idempotency_key = None, oe_payload_digest = None, oe_available_at = written_at,
     oe_attempt_count = 0, oe_quarantined = False, oe_retention_until = None,
     oe_partition_key = Some (py_year_month occurred), oe_recorded_at = occurred,
     oe_published_at = None, oe_last_error = None\<rparr>"

definition record_workflow :: "py_env \<Rightarrow> execution_context \<Rightarrow> uuid \<Rightarrow> string \<Rightarrow> int \<Rightarrow> string \<Rightarrow> string \<Rightarrow> instant \<Rightarrow>
    ('a core_db_scheme, unit) M" where
  "record_workflow env ctx aggregate_id event sequence classification status occurred =
     bindM (audit_write env ctx ((audit_input event ''workflow'' aggregate_id ''success'')
         \<lparr>ai_classification := classification, ai_details := Some (workflow_details sequence status)\<rparr>)) (\<lambda>audit.
     bindM (uuid4 env) (\<lambda>event_id.
     insert_outbox_event (workflow_outbox_row ctx aggregate_id event sequence classification status occurred event_id
       (ae_recorded_at audit))))"

section \<open>Definitions\<close>

definition draft_record :: "execution_context \<Rightarrow> workflow_definition \<Rightarrow> instant \<Rightarrow> workflow_definition_record" where
  "draft_record ctx d now = tenant_row.extend (context_tenant ctx) (workflow_definition_record.fields
     (wd_definition_id d) (wd_name d) ''draft'' (ctx_actor ctx) now)"

definition definition_text :: "workflow_definition \<Rightarrow> string" where
  "definition_text d = json_text True '','' '':'' (dump_definition d)"

definition draft_version :: "py_env \<Rightarrow> execution_context \<Rightarrow> workflow_definition \<Rightarrow> instant \<Rightarrow> workflow_definition_version" where
  "draft_version env ctx d now = tenant_row.extend (context_tenant ctx) (workflow_definition_version.fields
     (wd_definition_id d) (wd_version d) (definition_text d) (sha256_hex env (definition_text d))
     (wd_classification d) (wd_policy_version d) None now)"

definition register :: "py_env \<Rightarrow> 'a workflow_db_scheme authorizer \<Rightarrow> execution_context \<Rightarrow> workflow_definition \<Rightarrow>
    instant \<Rightarrow> ('a workflow_db_scheme, workflow_definition_version) M" where
  "register env ask ctx d now =
     thenM (require_allowed ask ctx ''workflow.definition.manage'')
     (bindM (getsM (find_workflow ctx (wd_definition_id d))) (\<lambda>found.
      thenM (if found = None then add_workflow_record ctx (draft_record ctx d now) else returnM ())
      (let value = draft_version env ctx d now in
       thenM (add_workflow_version ctx value)
       (thenM (record_workflow env ctx (wd_definition_id d) ''workflow.definition.registered'' (wd_version d)
           (wd_classification d) ''draft'' now)
       (returnM value)))))"

definition activate :: "py_env \<Rightarrow> 'a workflow_db_scheme authorizer \<Rightarrow> execution_context \<Rightarrow> uuid \<Rightarrow> int \<Rightarrow> instant \<Rightarrow>
    ('a workflow_db_scheme, workflow_definition_version) M" where
  "activate env ask ctx i version_number now =
     thenM (require_allowed ask ctx ''workflow.definition.manage'')
     (bindM (getsM (find_workflow_version ctx i version_number)) (\<lambda>found.
      bindM (someM found (WorkflowError Workflow_definition_version_does_not_exist)) (\<lambda>version.
      if wv_activated_at version \<noteq> None then returnM version
      else let value = version\<lparr>wv_activated_at := Some now\<rparr> in
        thenM (save_workflow_version value)
        (bindM (getsM (find_workflow ctx i)) (\<lambda>rec.
         bindM (someM rec (WorkflowError Workflow_definition_does_not_exist)) (\<lambda>r.
         thenM (save_workflow_record (r\<lparr>wr_status := ''active''\<rparr>))
         (thenM (record_workflow env ctx i ''workflow.definition.activated'' version_number
             (wv_classification value) ''active'' now)
         (returnM value))))))))"

section \<open>Instances\<close>

definition started_instance :: "execution_context \<Rightarrow> uuid \<Rightarrow> uuid \<Rightarrow> int \<Rightarrow> string \<Rightarrow> string \<Rightarrow> string \<Rightarrow> string \<Rightarrow>
    instant \<Rightarrow> workflow_instance" where
  "started_instance ctx i d v first state digest idempotency_key now = tenant_row.extend (context_tenant ctx)
     (workflow_instance.fields i d v INSTANCE_RUNNING (Some first) state digest idempotency_key 1 (ctx_actor ctx) now now)"

definition start_workflow :: "py_env \<Rightarrow> 'a workflow_db_scheme authorizer \<Rightarrow> execution_context \<Rightarrow> uuid \<Rightarrow> uuid \<Rightarrow> int \<Rightarrow>
    json \<Rightarrow> string \<Rightarrow> instant \<Rightarrow> ('a workflow_db_scheme, workflow_instance) M" where
  "start_workflow env ask ctx i definition_id definition_version input_payload idempotency_key now =
     thenM (require_allowed ask ctx ''workflow.instance.start'')
     (bindM (getsM (find_workflow_version ctx definition_id definition_version)) (\<lambda>found.
      bindM (someM found (WorkflowError Active_workflow_definition_version_does_not_exist)) (\<lambda>version.
      thenM (requireM (wv_activated_at version \<noteq> None) (WorkflowError Active_workflow_definition_version_does_not_exist))
      (bindM (liftM (model_validate_json env (wv_schema_json version))) (\<lambda>d.
       bindM (someM (json_dumps input_payload) TypeError) (\<lambda>canonical.
       bindM (liftM (case wd_steps d of [] \<Rightarrow> Inl IndexError | st # _ \<Rightarrow> Inr (st_key st))) (\<lambda>first.
       bindM (someM (json_dumps_with True '', '' '': '' input_payload) TypeError) (\<lambda>state.
       let value = started_instance ctx i definition_id definition_version first state (sha256_hex env canonical)
             idempotency_key now in
       thenM (add_workflow_instance ctx value)
       (thenM (record_workflow env ctx i ''workflow.instance.started'' 1 (wv_classification version)
           (instance_status_value INSTANCE_RUNNING) now)
       (returnM value))))))))))"

definition transition_receipt :: "execution_context \<Rightarrow> workflow_instance \<Rightarrow> string \<Rightarrow> workflow_transition \<Rightarrow> uuid \<Rightarrow>
    instant \<Rightarrow> workflow_receipt" where
  "transition_receipt ctx instance transition_key result receipt_id now = tenant_row.extend (context_tenant ctx)
     (workflow_receipt.fields receipt_id (wi_id instance) transition_key (wt_status result) (wi_input_digest instance)
       None False (wt_status result = INSTANCE_UNCERTAIN) now)"

definition moved :: "workflow_instance \<Rightarrow> workflow_transition \<Rightarrow> instant \<Rightarrow> workflow_instance" where
  "moved instance result now = instance\<lparr>wi_current_step_key := wt_next_key result, wi_status := wt_status result,
     wi_version := wi_version instance + 1, wi_updated_at := now\<rparr>"

definition transition_workflow :: "py_env \<Rightarrow> 'a workflow_db_scheme authorizer \<Rightarrow> execution_context \<Rightarrow> uuid \<Rightarrow> string \<Rightarrow>
    int \<Rightarrow> string \<Rightarrow> instant \<Rightarrow> ('a workflow_db_scheme, workflow_instance) M" where
  "transition_workflow env ask ctx i outcome expected_version transition_key now =
     thenM (require_allowed ask ctx ''workflow.instance.execute'')
     (bindM (getsM (find_instance ctx i)) (\<lambda>found.
      bindM (someM found (WorkflowError Workflow_instance_does_not_exist)) (\<lambda>instance.
      thenM (requireM (wi_version instance = expected_version) (WorkflowError Workflow_version_precondition_failed))
      (bindM (getsM (find_workflow_version ctx (wi_definition_id instance) (wi_definition_version instance))) (\<lambda>bound.
       bindM (someM bound (WorkflowError Workflow_definition_binding_is_invalid)) (\<lambda>version.
       bindM (someM (wi_current_step_key instance) (WorkflowError Workflow_definition_binding_is_invalid)) (\<lambda>current.
       bindM (liftM (model_validate_json env (wv_schema_json version))) (\<lambda>d.
       bindM (liftM (decide_next d current outcome (wi_status instance))) (\<lambda>result.
       let value = moved instance result now in
       bindM (uuid4 env) (\<lambda>receipt_id.
       thenM (save_workflow_instance value)
       (thenM (add_workflow_receipt ctx (transition_receipt ctx instance transition_key result receipt_id now))
       (thenM (record_workflow env ctx (wi_id value) ''workflow.instance.transitioned'' (wi_version value)
           (wv_classification version) (instance_status_value (wi_status value)) now)
       (returnM value)))))))))))))"

section \<open>Approvals\<close>

definition approval_row :: "execution_context \<Rightarrow> approval_request \<Rightarrow> instant \<Rightarrow> workflow_approval" where
  "approval_row ctx r expires_at = tenant_row.extend (context_tenant ctx) (workflow_approval.fields
     (ar_request_id r) (ar_instance_id r) (ar_step_key r) (ar_action_digest r) (ar_risk r) (ar_required_approvals r)
     (ar_policy_version r) (ar_requested_by_user_id r) expires_at (ar_revoked_at r))"

definition request_approval :: "'a workflow_db_scheme authorizer \<Rightarrow> execution_context \<Rightarrow> approval_request \<Rightarrow>
    ('a workflow_db_scheme, workflow_approval) M" where
  "request_approval ask ctx r =
     thenM (require_allowed ask ctx ''workflow.approval.request'')
     (bindM (getsM (find_instance ctx (ar_instance_id r))) (\<lambda>found.
      thenM (requireM (found \<noteq> None) (WorkflowError Workflow_instance_does_not_exist))
      (bindM (liftM (case ar_expires_at r of Aware t \<Rightarrow> Inr t | Naive _ \<Rightarrow> Inl TypeError)) (\<lambda>expires_at.
       let value = approval_row ctx r expires_at in
       thenM (add_workflow_approval ctx value) (returnM value)))))"

definition decision_row :: "execution_context \<Rightarrow> workflow_approval \<Rightarrow> approval_decision \<Rightarrow> workflow_approval_decision" where
  "decision_row ctx approval d = tenant_row.extend (context_tenant ctx) (workflow_approval_decision.fields
     (ad_decision_id d) (wa_id approval) (ad_approver_id d) (ad_approved d) (ad_action_digest d) (ad_decided_at d))"

definition decide_approval :: "'a workflow_db_scheme authorizer \<Rightarrow> execution_context \<Rightarrow> workflow_approval \<Rightarrow>
    approval_decision \<Rightarrow> ('a workflow_db_scheme, workflow_approval_decision) M" where
  "decide_approval ask ctx approval d =
     thenM (require_allowed ask ctx ''workflow.approval.decide'')
     (thenM (requireM (ad_approver_id d \<noteq> wa_requested_by_user_id approval)
               (ApprovalError Approval_requester_cannot_self_approve))
     (thenM (requireM (ad_request_id d = wa_id approval \<and> ad_action_digest d = wa_action_digest approval)
               (ApprovalError Approval_action_digest_mismatch))
     (let value = decision_row ctx approval d in
      thenM (add_workflow_decision ctx value) (returnM value))))"

text \<open>\<open>validate_approval\<close>, which the caller of an approved action is to call.\<close>

definition validate_approval :: "approval_request \<Rightarrow> approval_decision list \<Rightarrow> py_datetime \<Rightarrow> string \<Rightarrow> bool \<Rightarrow>
    py_error + unit" where
  "validate_approval r ds now current_action_digest authorized =
     require_approval r ds now current_action_digest authorized"

end
