(* ===== verification/Workflow_Laws.thy ===== *)
theory Workflow_Laws
  imports Workflow_Service "HOL-Library.Multiset"
begin

text \<open>
  What the contracts of workflows promise: which definitions the validators accept, how an instance
  moves through the steps of its definition, what an approval needs, what an action digest binds,
  and that a stored definition is read back as it was registered.
\<close>

section \<open>Accepted definitions\<close>

definition step_keys :: "workflow_definition \<Rightarrow> string list" where
  "step_keys d = map st_key (wd_steps d)"

text \<open>The keys that a step leads to.\<close>

definition leads_to :: "workflow_step \<Rightarrow> string set" where
  "leads_to st = set_option (st_next_key st) \<union> set_option (st_failure_key st)"

definition step_edges :: "workflow_definition \<Rightarrow> (string \<times> string) set" where
  "step_edges d = {(st_key st, k) | st k. st \<in> set (wd_steps d) \<and> k \<in> leads_to st}"

definition well_formed :: "workflow_definition \<Rightarrow> bool" where
  "well_formed d \<longleftrightarrow> wd_steps d \<noteq> [] \<and> distinct (step_keys d) \<and> step_edges d \<subseteq> UNIV \<times> set (step_keys d) \<and>
     (\<forall>st \<in> set (wd_steps d). validate_step st = None)"

lemma unknown_step_key_None:
  "unknown_step_key known sts = None \<longleftrightarrow> (\<forall>st \<in> set sts. leads_to st \<subseteq> set known)"
proof (induction known sts rule: unknown_step_key.induct)
  case (2 known st sts)
  have "unknown_key known k \<longleftrightarrow> \<not> set_option k \<subseteq> set known" for k
    by (cases k) (simp_all add: unknown_key_def)
  then show ?case using 2 by (auto simp: leads_to_def)
qed simp

lemma validate_definition_None:
  assumes "validate_definition d = None"
  shows "wd_steps d \<noteq> []" "distinct (step_keys d)" "step_edges d \<subseteq> UNIV \<times> set (step_keys d)" "0 < wd_version d"
  using assms
  by (auto simp: validate_definition_def Let_def step_keys_def step_edges_def unknown_step_key_None split: if_splits)

lemma validate_loaded_Inr:
  assumes "validate_loaded d = Inr d'"
  shows "d' = d" "well_formed d"
proof -
  have steps: "\<forall>st \<in> set (wd_steps d). validate_step st = None"
    using assms by (auto simp: validate_loaded_def find_None_iff split: option.splits)
  have d: "d' = d" "validate_definition d = None"
    using assms by (auto simp: validate_loaded_def make_workflow_definition_def split: option.splits)
  show "d' = d" by (rule d(1))
  show "well_formed d" using steps validate_definition_None [OF d(2)] by (simp add: well_formed_def)
qed

lemma validate_loaded_accepts:
  assumes "validate_definition d = None" "list_all (\<lambda>st. validate_step st = None) (wd_steps d)"
  shows "validate_loaded d = Inr d"
proof -
  have "List.find (\<lambda>st. validate_step st \<noteq> None) (wd_steps d) = None"
    using assms(2) by (simp add: find_None_iff list_all_iff)
  then show ?thesis using assms(1) by (simp add: validate_loaded_def make_workflow_definition_def)
qed

lemma read_well_formed: "model_validate_json env t = Inr d \<Longrightarrow> well_formed d"
  by (auto simp: model_validate_json_def dest: validate_loaded_Inr split: option.splits)

lemma find_step_Inr: "find_step d k = Inr st \<Longrightarrow> st \<in> set (wd_steps d) \<and> st_key st = k"
  by (auto simp: find_step_def find_Some_iff split: option.splits)

lemma find_step_known:
  assumes "k \<in> set (step_keys d)"
  shows "\<exists>st. find_step d k = Inr st"
proof -
  have "List.find (\<lambda>st. st_key st = k) (wd_steps d) \<noteq> None"
    using assms by (auto simp: step_keys_def find_None_iff)
  then show ?thesis by (auto simp: find_step_def)
qed

section \<open>The run of an instance\<close>

type_synonym wf_position = "string option \<times> instance_status"

text \<open>The moves of an instance, and its positions after each of a list of outcomes.\<close>

definition advance :: "workflow_definition \<Rightarrow> wf_position \<Rightarrow> string \<Rightarrow> wf_position option" where
  "advance d p outcome = (case fst p of None \<Rightarrow> None | Some k \<Rightarrow>
     (case decide_next d k outcome (snd p) of Inl e \<Rightarrow> None | Inr r \<Rightarrow> Some (wt_next_key r, wt_status r)))"

fun run_outcomes :: "workflow_definition \<Rightarrow> wf_position \<Rightarrow> string list \<Rightarrow> wf_position list option" where
  "run_outcomes d p [] = Some []"
| "run_outcomes d p (out # outs) = (case advance d p out of None \<Rightarrow> None
     | Some q \<Rightarrow> map_option (\<lambda>qs. q # qs) (run_outcomes d q outs))"

definition first_position :: "workflow_definition \<Rightarrow> wf_position" where
  "first_position d = (Some (st_key (hd (wd_steps d))), INSTANCE_RUNNING)"

lemma run_outcomes_snoc:
  "run_outcomes d p (outs @ [out]) = (case run_outcomes d p outs of None \<Rightarrow> None
     | Some qs \<Rightarrow> map_option (\<lambda>q. qs @ [q]) (advance d (last (p # qs)) out))"
  by (induction outs arbitrary: p) (auto split: option.splits simp: map_option_case)

lemma length_run: "run_outcomes d p outs = Some qs \<Longrightarrow> length qs = length outs"
  by (induction outs arbitrary: p qs) (auto split: option.splits)

text \<open>Where a definition can take an instance: on a known step while it is open, nowhere when it has ended.\<close>

definition at_home :: "workflow_definition \<Rightarrow> wf_position \<Rightarrow> bool" where
  "at_home d p \<longleftrightarrow> (case fst p of None \<Rightarrow> snd p \<in> {INSTANCE_SUCCEEDED, INSTANCE_FAILED}
     | Some k \<Rightarrow> k \<in> set (step_keys d) \<and> snd p \<in> {INSTANCE_RUNNING, INSTANCE_WAITING, INSTANCE_WAITING_APPROVAL})"

lemma first_at_home: "well_formed d \<Longrightarrow> at_home d (first_position d)"
  by (cases "wd_steps d") (auto simp: well_formed_def at_home_def first_position_def step_keys_def)

lemma well_formed_key: "well_formed d \<Longrightarrow> st \<in> set (wd_steps d) \<Longrightarrow> k \<in> leads_to st \<Longrightarrow> k \<in> set (step_keys d)"
  by (force simp: well_formed_def step_edges_def)

lemma well_formed_nonempty: "well_formed d \<Longrightarrow> [] \<notin> set (step_keys d)"
  by (auto simp: well_formed_def step_keys_def validate_step_def split: if_splits)

lemma decide_next_Inr:
  assumes "decide_next d k outcome status = Inr r" "well_formed d"
  obtains st where "find_step d k = Inr st" "status \<notin> set INSTANCE_TERMINAL" "at_home d (wt_next_key r, wt_status r)"
    "wt_next_key r = (if outcome = ''failed'' then st_failure_key st else st_next_key st)"
    "outcome \<in> {''failed'', ''succeeded'', ''resume''}"
proof -
  obtain st where st: "find_step d k = Inr st" "status \<notin> set INSTANCE_TERMINAL" "outcome \<in> {''failed'', ''succeeded'', ''resume''}"
    using assms(1) by (auto simp: decide_next_def split: sum.splits if_splits)
  have in_d: "st \<in> set (wd_steps d)" using find_step_Inr [OF st(1)] by simp
  have key: "x \<in> set (step_keys d)" if "st_next_key st = Some x \<or> st_failure_key st = Some x" for x
    using well_formed_key [OF assms(2) in_d] that by (auto simp: leads_to_def)
  have "at_home d (wt_next_key r, wt_status r) \<and>
    wt_next_key r = (if outcome = ''failed'' then st_failure_key st else st_next_key st)"
  proof (cases "outcome = ''failed''")
    case True
    then have r: "r = \<lparr>wt_next_key = st_failure_key st, wt_status = (case st_failure_key st of None \<Rightarrow> INSTANCE_FAILED
        | Some k \<Rightarrow> if k = [] then INSTANCE_FAILED else INSTANCE_RUNNING)\<rparr>"
      using assms(1) st by (simp add: decide_next_def)
    show ?thesis
      using key well_formed_nonempty [OF assms(2)] True by (cases "st_failure_key st") (auto simp: r at_home_def)
  next
    case False
    show ?thesis
    proof (cases "st_next_key st")
      case None
      then show ?thesis using assms(1) st False by (auto simp: decide_next_def at_home_def)
    next
      case (Some x)
      obtain nx where nx: "find_step d x = Inr nx" using find_step_known [OF key] Some by blast
      then have "r = \<lparr>wt_next_key = Some x, wt_status = status_at nx\<rparr>"
        using assms(1) st False Some find_step_Inr [OF nx] by (auto simp: decide_next_def)
      then show ?thesis using key Some False by (auto simp: at_home_def status_at_def)
    qed
  qed
  then show ?thesis using that st by blast
qed

lemma advance_Some:
  assumes "advance d p outcome = Some q" "well_formed d"
  shows "at_home d q" "\<exists>k. fst p = Some k \<and> (\<forall>k'. fst q = Some k' \<longrightarrow> (k, k') \<in> step_edges d)"
    "snd p \<notin> set INSTANCE_TERMINAL"
proof -
  obtain k r where k: "fst p = Some k" "decide_next d k outcome (snd p) = Inr r" "q = (wt_next_key r, wt_status r)"
    using assms(1) by (auto simp: advance_def split: option.splits sum.splits)
  obtain st where st: "find_step d k = Inr st" "snd p \<notin> set INSTANCE_TERMINAL" "at_home d (wt_next_key r, wt_status r)"
    "wt_next_key r = (if outcome = ''failed'' then st_failure_key st else st_next_key st)"
    by (rule decide_next_Inr [OF k(2) assms(2)])
  show "at_home d q" using st k by simp
  show "snd p \<notin> set INSTANCE_TERMINAL" by (rule st(2))
  have "(k, k') \<in> step_edges d" if "fst q = Some k'" for k'
  proof -
    have "k' \<in> leads_to st" using that st(4) k(3) by (auto simp: leads_to_def split: if_splits)
    then show ?thesis using find_step_Inr [OF st(1)] by (auto simp: step_edges_def)
  qed
  with k show "\<exists>k. fst p = Some k \<and> (\<forall>k'. fst q = Some k' \<longrightarrow> (k, k') \<in> step_edges d)" by blast
qed

lemma run_at_home:
  "run_outcomes d p outs = Some qs \<Longrightarrow> well_formed d \<Longrightarrow> q \<in> set qs \<Longrightarrow> at_home d q"
proof (induction outs arbitrary: p qs)
  case (Cons out outs)
  then obtain q' qs' where q': "advance d p out = Some q'" "run_outcomes d q' outs = Some qs'" "qs = q' # qs'"
    by (auto split: option.splits)
  then have "q = q' \<or> q \<in> set qs'" using Cons.prems(3) by simp
  then show ?case
  proof
    assume "q = q'"
    then show ?thesis using advance_Some(1) [OF q'(1) Cons.prems(2)] by simp
  qed (rule Cons.IH [OF q'(2) Cons.prems(2)])
qed simp

text \<open>An open instance can always move on: every accepted outcome has a next position.\<close>

lemma advance_enabled:
  assumes "well_formed d" "at_home d p" "snd p \<notin> set INSTANCE_TERMINAL" "outcome \<in> {''failed'', ''succeeded'', ''resume''}"
  shows "\<exists>q. advance d p outcome = Some q"
proof -
  obtain k where k: "fst p = Some k" "k \<in> set (step_keys d)"
    using assms(2,3) by (auto simp: at_home_def INSTANCE_TERMINAL_def split: option.splits)
  obtain st where st: "find_step d k = Inr st" using find_step_known [OF k(2)] by blast
  have "\<exists>nx. find_step d x = Inr nx" if "st_next_key st = Some x" for x
    using find_step_known well_formed_key [OF assms(1)] find_step_Inr [OF st] that by (auto simp: leads_to_def)
  then show ?thesis using assms(3,4) k st
    by (cases "st_next_key st") (auto simp: advance_def decide_next_def)
qed

section \<open>Runs of acyclic definitions end\<close>

text \<open>The steps that a run visits, the first one included.\<close>

definition visited :: "wf_position list \<Rightarrow> string list" where
  "visited ps = concat (map (\<lambda>p. case fst p of None \<Rightarrow> [] | Some k \<Rightarrow> [k]) ps)"

lemma run_reaches:
  assumes "run_outcomes d p outs = Some qs" "well_formed d" "fst p = Some k" "x \<in> set (visited qs)"
  shows "(k, x) \<in> (step_edges d)\<^sup>+"
  using assms
proof (induction outs arbitrary: p qs k)
  case (Cons out outs)
  obtain q qs' where q: "advance d p out = Some q" "run_outcomes d q outs = Some qs'" "qs = q # qs'"
    using Cons.prems(1) by (auto split: option.splits)
  note adv = advance_Some(2) [OF q(1) Cons.prems(2)]
  show ?case
  proof (cases "fst q")
    case None
    then have "qs' = []" using q(2) by (cases outs) (simp_all add: advance_def)
    then show ?thesis using Cons.prems(4) None q(3) by (simp add: visited_def)
  next
    case (Some k')
    then have e: "(k, k') \<in> step_edges d" using adv Cons.prems(3) by auto
    show ?thesis
    proof (cases "x = k'")
      case False
      then have "x \<in> set (visited qs')" using Cons.prems(4) Some q(3) by (auto simp: visited_def)
      then have "(k', x) \<in> (step_edges d)\<^sup>+" using Cons.IH [OF q(2) Cons.prems(2) Some] by blast
      then show ?thesis using e by (meson trancl_into_trancl2)
    qed (use e in auto)
  qed
qed (simp add: visited_def)

lemma run_distinct:
  assumes "run_outcomes d p outs = Some qs" "well_formed d" "acyclic (step_edges d)"
  shows "distinct (visited (p # qs))"
  using assms
proof (induction outs arbitrary: p qs)
  case (Cons out outs)
  obtain q qs' where q: "advance d p out = Some q" "run_outcomes d q outs = Some qs'" "qs = q # qs'"
    using Cons.prems(1) by (auto split: option.splits)
  have "distinct (visited qs)" using Cons.IH [OF q(2) Cons.prems(2,3)] q(3) by simp
  moreover have "k \<notin> set (visited qs)" if "fst p = Some k" for k
    using run_reaches [OF Cons.prems(1,2) that] Cons.prems(3) by (auto simp: acyclic_def)
  ultimately show ?case by (auto simp: visited_def split: option.splits)
qed (auto simp: visited_def split: option.splits)

lemma run_open:
  assumes "run_outcomes d p outs = Some qs" "q \<in> set (butlast (p # qs))"
  shows "fst q \<noteq> None"
  using assms
proof (induction outs arbitrary: p qs)
  case (Cons out outs)
  obtain q' qs' where q': "advance d p out = Some q'" "run_outcomes d q' outs = Some qs'" "qs = q' # qs'"
    using Cons.prems(1) by (auto split: option.splits)
  then have "fst p \<noteq> None" using q'(1) by (auto simp: advance_def split: option.splits)
  moreover have "q = p \<or> q \<in> set (butlast (q' # qs'))" using Cons.prems(2) q'(3) by auto
  ultimately show ?case using Cons.IH [OF q'(2)] by auto
qed auto

lemma visited_simps [simp]:
  "visited [] = []" "visited (p # ps) = (case fst p of None \<Rightarrow> [] | Some k \<Rightarrow> [k]) @ visited ps"
  "visited (ps @ rs) = visited ps @ visited rs"
  by (simp_all add: visited_def)

lemma set_visited: "x \<in> set (visited ps) \<longleftrightarrow> (\<exists>p \<in> set ps. fst p = Some x)"
  by (induction ps) (auto split: option.splits)

lemma length_visited: "(\<And>p. p \<in> set ps \<Longrightarrow> fst p \<noteq> None) \<Longrightarrow> length (visited ps) = length ps"
proof (induction ps)
  case (Cons p ps)
  then have "fst p \<noteq> None" "length (visited ps) = length ps" by simp_all
  then show ?case by auto
qed simp

lemma run_bounded:
  assumes "run_outcomes d p outs = Some qs" "well_formed d" "at_home d p" "acyclic (step_edges d)"
  shows "length outs \<le> length (wd_steps d)"
proof -
  let ?ps = "butlast (p # qs)"
  have split: "p # qs = ?ps @ [last (p # qs)]" by simp
  have dist: "distinct (visited ?ps)"
  proof -
    have "visited (p # qs) = visited ?ps @ visited [last (p # qs)]"
      using arg_cong [OF split, of visited] unfolding visited_simps(3) .
    then show ?thesis using run_distinct [OF assms(1,2,4)] by (metis distinct_append)
  qed
  have "at_home d q" if "q \<in> set ?ps" for q
  proof -
    have "q = p \<or> q \<in> set qs" using in_set_butlastD [OF that] by simp
    then show ?thesis using run_at_home [OF assms(1,2)] assms(3) by blast
  qed
  then have "set (visited ?ps) \<subseteq> set (step_keys d)"
    by (fastforce simp: set_visited at_home_def split: option.splits)
  then have "card (set (visited ?ps)) \<le> length (step_keys d)"
    by (meson List.finite_set card_length card_mono le_trans)
  then have "length (visited ?ps) \<le> length (wd_steps d)" using dist by (simp add: distinct_card step_keys_def)
  moreover have "length (visited ?ps) = length ?ps" by (rule length_visited) (rule run_open [OF assms(1)])
  moreover have "length ?ps = length outs" using length_run [OF assms(1)] unfolding length_butlast by simp
  ultimately show ?thesis by linarith
qed

text \<open>Success after success takes an instance of an acyclic definition to its end.\<close>

lemma advance_success:
  assumes "advance d p ''succeeded'' = Some q" "well_formed d" "fst q = None"
  shows "q = (None, INSTANCE_SUCCEEDED)"
proof -
  obtain k r where k: "fst p = Some k" "decide_next d k ''succeeded'' (snd p) = Inr r" "q = (wt_next_key r, wt_status r)"
    using assms(1) by (auto simp: advance_def split: option.splits sum.splits)
  show ?thesis using k(2,3) assms(3) by (auto simp: decide_next_def split: sum.splits if_splits option.splits)
qed

lemma success_runs_on:
  assumes "well_formed d" "at_home d p" "fst p \<noteq> None"
  shows "(\<exists>m qs. m \<le> n \<and> run_outcomes d p (replicate m ''succeeded'') = Some qs \<and> last (p # qs) = (None, INSTANCE_SUCCEEDED)) \<or>
    (\<exists>qs. run_outcomes d p (replicate n ''succeeded'') = Some qs \<and> fst (last (p # qs)) \<noteq> None)"
proof (induction n)
  case 0
  then show ?case using assms(3) by simp
next
  case (Suc n)
  show ?case
  proof (cases "\<exists>m qs. m \<le> n \<and> run_outcomes d p (replicate m ''succeeded'') = Some qs \<and> last (p # qs) = (None, INSTANCE_SUCCEEDED)")
    case True
    then show ?thesis using le_Suc_eq by blast
  next
    case False
    then obtain qs where qs: "run_outcomes d p (replicate n ''succeeded'') = Some qs" "fst (last (p # qs)) \<noteq> None"
      using Suc by blast
    have home: "at_home d (last (p # qs))"
      using run_at_home [OF qs(1) assms(1), of "last qs"] assms(2) by (cases qs) auto
    then have "snd (last (p # qs)) \<notin> set INSTANCE_TERMINAL"
      using qs(2) by (auto simp: at_home_def INSTANCE_TERMINAL_def)
    then obtain q where q: "advance d (last (p # qs)) ''succeeded'' = Some q"
      using advance_enabled [OF assms(1) home] by blast
    have run: "run_outcomes d p (replicate (Suc n) ''succeeded'') = Some (qs @ [q])"
      using run_outcomes_snoc [of d p "replicate n ''succeeded''" "''succeeded''"] qs(1) q
      by (simp add: replicate_append_same [symmetric] del: last.simps run_outcomes.simps)
    show ?thesis
    proof (cases "fst q")
      case None
      then have "last (p # qs @ [q]) = (None, INSTANCE_SUCCEEDED)" using advance_success [OF q assms(1)] by simp
      then show ?thesis using run by blast
    next
      case (Some k)
      then have "fst (last (p # qs @ [q])) \<noteq> None" by simp
      then show ?thesis using run by blast
    qed
  qed
qed

lemma success_ends:
  assumes "well_formed d" "at_home d p" "fst p \<noteq> None" "acyclic (step_edges d)"
  shows "\<exists>m qs. m \<le> length (wd_steps d) \<and> run_outcomes d p (replicate m ''succeeded'') = Some qs \<and>
    last (p # qs) = (None, INSTANCE_SUCCEEDED)"
proof -
  have "\<not> (\<exists>qs. run_outcomes d p (replicate (Suc (length (wd_steps d))) ''succeeded'') = Some qs)"
    using run_bounded [OF _ assms(1,2,4)] by fastforce
  then obtain m qs where m: "run_outcomes d p (replicate m ''succeeded'') = Some qs" "last (p # qs) = (None, INSTANCE_SUCCEEDED)"
    using success_runs_on [OF assms(1-3), of "Suc (length (wd_steps d))"] by blast
  then have "m \<le> length (wd_steps d)" using run_bounded [OF m(1) assms(1,2,4)] by simp
  with m show ?thesis by blast
qed

section \<open>Approvals\<close>

text \<open>The users whose recorded approval of exactly this action counts.\<close>

definition approvers_of :: "approval_request \<Rightarrow> approval_decision list \<Rightarrow> uuid set" where
  "approvers_of r ds = {ad_approver_id d | d. d \<in> set ds \<and> ad_request_id d = ar_request_id r \<and> ad_approved d \<and>
     ad_action_digest d = ar_action_digest r} - {ar_requested_by_user_id r}"

lemma length_valid_approvers: "length (valid_approvers r ds) = card (approvers_of r ds)"
proof -
  have "set (valid_approvers r ds) = approvers_of r ds" by (auto simp: valid_approvers_def approvers_of_def)
  moreover have "distinct (valid_approvers r ds)" by (simp add: valid_approvers_def)
  ultimately show ?thesis using distinct_card by fastforce
qed

lemma require_approval_Inr:
  "require_approval r ds now digest authorized = Inr () \<longleftrightarrow>
     authorized \<and> ar_revoked_at r = None \<and> not_before now (ar_expires_at r) = Inr False \<and>
     digest = ar_action_digest r \<and> ar_required_approvals r \<le> int (card (approvers_of r ds))"
  by (auto simp: require_approval_def length_valid_approvers not_le split: sum.splits)

section \<open>Action digests\<close>

definition payload_text :: "json \<Rightarrow> string" where "payload_text = json_text False '','' '':''"

lemma stem_char_plain:
  assumes "lower_char c \<or> decimal_char c \<or> c \<in> set ''_.-''"
  shows "json_escape_char False c = [c]" "c \<noteq> CHR 0x22"
proof -
  define n where "n = (of_char c :: nat)"
  have n: "n \<in> {45, 46, 95} \<or> (48 \<le> n \<and> n \<le> 57) \<or> (97 \<le> n \<and> n \<le> 122)"
    using assms by (auto simp: lower_char_def decimal_char_def in_range_def n_def)
  have q: "(of_char (CHR 0x22) :: nat) = 34" "(of_char (CHR 0x5C) :: nat) = 92" by simp_all
  from n show "c \<noteq> CHR 0x22" unfolding n_def using q by auto
  moreover from n have "c \<noteq> CHR 0x5C" unfolding n_def using q by auto
  ultimately show "json_escape_char False c = [c]"
    using n by (auto simp: json_escape_char_def n_def [symmetric] Let_def)
qed

lemma reference_chars:
  assumes "is_reference t" "c \<in> set t"
  shows "lower_char c \<or> decimal_char c \<or> c \<in> set ''_.-''"
proof -
  obtain i where i: "reference_stem (take i t)" "reference_version (drop i t)"
    using assms(1) by (auto simp: is_reference_def list_ex_iff)
  have "c \<in> set (take i t) \<or> c \<in> set (drop i t)"
    using assms(2) by (metis Un_iff append_take_drop_id set_append)
  moreover have "lower_char x \<or> decimal_char x \<or> x \<in> set ''_.-''" if "x \<in> set (take i t)" for x
    using i(1) that by (auto simp: reference_stem_def list_all_iff split: list.splits)
  moreover have "lower_char x \<or> decimal_char x \<or> x \<in> set ''_.-''" if "x \<in> set (drop i t)" for x
  proof -
    obtain n r where dr: "drop i t = CHR ''.'' # CHR ''v'' # n # r" "in_range CHR ''1'' CHR ''9'' n" "list_all decimal_char r"
      using i(2) by (auto simp: reference_version_def split: list.splits)
    have "decimal_char n" "lower_char CHR ''v''" using dr(2) by (auto simp: decimal_char_def lower_char_def in_range_def)
    then show ?thesis using that dr by (auto simp: list_all_iff)
  qed
  ultimately show ?thesis by blast
qed

lemma quote_reference:
  assumes "is_reference t"
  shows "json_quote False t = CHR 0x22 # t @ [CHR 0x22]"
proof -
  have "concat (map (json_escape_char False) u) = u" if "set u \<subseteq> set t" for u
    using that stem_char_plain(1) [OF reference_chars [OF assms]] by (induction u) auto
  then show ?thesis by (simp add: json_quote_def json_escape_def)
qed

lemma action_digest_Inr:
  assumes "action_digest env t p = Inr x"
  shows "x = sha256_hex env (CHR 0x7B # json_quote False ''payload'' @ '':'' @ payload_text p @ '','' @
    json_quote False ''reference'' @ '':'' @ json_quote False t @ [CHR 0x7D])"
proof -
  have "\<not> ''reference'' \<le> ''payload''" by (simp add: less_eq_char_def)
  then show ?thesis
    using assms by (simp add: action_digest_def json_dumps_with_def payload_text_def split: option.splits if_splits)
qed

lemma last_quoted:
  assumes "p @ CHR 0x22 # u @ [CHR 0x22, z] = q @ CHR 0x22 # v @ [CHR 0x22, z]"
    and "CHR 0x22 \<notin> set u" "CHR 0x22 \<notin> set v"
  shows "p = q \<and> u = v"
proof -
  have "rev u @ CHR 0x22 # rev p = rev v @ CHR 0x22 # rev q"
    using arg_cong [OF assms(1), of rev] by simp
  moreover have "takeWhile (\<lambda>c. c \<noteq> CHR 0x22) (rev x @ CHR 0x22 # y) = rev x"
    and "dropWhile (\<lambda>c. c \<noteq> CHR 0x22) (rev x @ CHR 0x22 # y) = CHR 0x22 # y" if "CHR 0x22 \<notin> set x" for x y :: string
    using that by (auto simp: takeWhile_append dropWhile_append)
  ultimately show ?thesis using assms(2,3) by (metis list.inject rev_is_rev_conv)
qed

lemma action_text_inject:
  assumes "is_reference t" "is_reference u"
    and "CHR 0x7B # json_quote False ''payload'' @ '':'' @ payload_text p @ '','' @
      json_quote False ''reference'' @ '':'' @ json_quote False t @ [CHR 0x7D] =
    CHR 0x7B # json_quote False ''payload'' @ '':'' @ payload_text q @ '','' @
      json_quote False ''reference'' @ '':'' @ json_quote False u @ [CHR 0x7D]"
  shows "t = u \<and> payload_text p = payload_text q"
proof -
  have no: "CHR 0x22 \<notin> set t" "CHR 0x22 \<notin> set u"
    using stem_char_plain(2) reference_chars assms(1,2) by blast+
  let ?pre = "\<lambda>v. payload_text v @ '','' @ json_quote False ''reference'' @ '':''"
  have "?pre p @ CHR 0x22 # t @ [CHR 0x22, CHR 0x7D] = ?pre q @ CHR 0x22 # u @ [CHR 0x22, CHR 0x7D]"
    using assms(3) by (simp add: quote_reference assms(1,2))
  from last_quoted [OF this no] show ?thesis by simp
qed

lemma int_str_chars: "c \<in> set (int_str n) \<Longrightarrow> c = CHR ''-'' \<or> (\<exists>d < 10. c = digit_char d)"
proof -
  have "c \<in> set (nat_digits k) \<Longrightarrow> c \<in> digit_char ` {..<10}" for k
  proof (induction k rule: nat_digits.induct)
    case (1 k)
    then show ?case by (subst (asm) (2) nat_digits.simps) (auto split: if_splits)
  qed
  then show "c \<in> set (int_str n) \<Longrightarrow> ?thesis" by (fastforce simp: int_str_def split: if_splits)
qed

text \<open>The order of the members of a payload does not matter.\<close>

lemma sort_key_mset:
  assumes "mset xs = mset ys" "distinct (map f xs)"
  shows "sort_key f xs = sort_key f ys"
proof (rule properties_for_sort_key)
  show "mset (sort_key f ys) = mset xs" using assms(1) by simp
  show "sorted (map f (sort_key f ys))" by simp
  fix k
  have "distinct (map f ys)" using assms by (metis distinct_map mset_eq_imp_distinct_iff mset_eq_setD mset_map)
  then have d: "distinct (map f (sort_key f ys))" by (metis distinct_map mset_eq_imp_distinct_iff mset_sort set_sort)
  assume "k \<in> set (sort_key f ys)"
  then have k: "k \<in> set ys" "k \<in> set xs" using assms(1) mset_eq_setD by fastforce+
  have "filter (\<lambda>x. f k = f x) zs = [k]" if "distinct (map f zs)" "k \<in> set zs" for zs
    using that by (induction zs) (auto simp: filter_empty_conv image_iff)
  then show "filter (\<lambda>x. f k = f x) (sort_key f ys) = filter (\<lambda>x. f k = f x) xs"
    using d k assms(2) by simp
qed

lemma json_text_mset:
  assumes "mset kvs = mset kvs'" "distinct (map fst kvs)"
  shows "json_text a i k (JObj kvs) = json_text a i k (JObj kvs')"
proof -
  let ?f = "\<lambda>kv. (fst kv, json_quote a (fst kv) @ k @ json_text a i k (snd kv))"
  have "sort_key fst (map ?f kvs) = sort_key fst (map ?f kvs')"
    using assms by (intro sort_key_mset) (simp_all add: comp_def)
  then show ?thesis unfolding json_text.simps by simp
qed

section \<open>Reading a definition back\<close>

text \<open>The value that a JSON text written with sorted members has.\<close>

primrec sort_members :: "json \<Rightarrow> json" where
  "sort_members JNull = JNull"
| "sort_members (JBool b) = JBool b"
| "sort_members (JInt n) = JInt n"
| "sort_members (JStr t) = JStr t"
| "sort_members (JList vs) = JList (map sort_members vs)"
| "sort_members (JObj kvs) = JObj (sort_key fst (map (map_prod id sort_members) kvs))"
| "sort_members JOpaque = JOpaque"

text \<open>\<open>pydantic\<close> reads back the text that \<open>json.dumps\<close> wrote of a value.\<close>

definition reads_back :: "py_env \<Rightarrow> json \<Rightarrow> bool" where
  "reads_back env v \<longleftrightarrow> parse_json env (json_text True '','' '':'' v) = Some (sort_members v)"

lemma map_of_sort_key: "distinct (map fst kvs) \<Longrightarrow> map_of (sort_key fst kvs) = map_of kvs"
  by (subst map_of_inject_set) (auto simp: distinct_map)

lemma get_sort_members:
  assumes "distinct (map fst kvs)"
  shows "json_get k (sort_members (JObj kvs)) = map_option sort_members (map_of kvs k)"
proof -
  have "distinct (map fst (map (map_prod id sort_members) kvs))" using assms by (simp add: comp_def)
  then have "json_get k (sort_members (JObj kvs)) = map_of (map (map_prod id sort_members) kvs) k"
    by (simp add: map_of_sort_key)
  also have "map (map_prod id sort_members) kvs = map (\<lambda>(k, v). (k, sort_members v)) kvs" by auto
  finally show ?thesis unfolding map_of_map by simp
qed

lemma load_dumped_step: "load_step (sort_members (dump_step st)) = Some st"
proof -
  let ?j = "sort_members (dump_step st)"
  have get: "json_get k ?j = map_option sort_members (map_of (case dump_step st of JObj kvs \<Rightarrow> kvs | _ \<Rightarrow> []) k)" for k
    unfolding dump_step_def by (subst get_sort_members) simp_all
  have opt: "load_opt_str k ?j = Some x" if "json_get k ?j = Some (sort_members (json_opt_str x))" for k x
    using that by (cases x) (simp_all add: load_opt_str_def json_opt_str_def)
  have "load_opt_str ''next_key'' ?j = Some (st_next_key st)" "load_opt_str ''failure_key'' ?j = Some (st_failure_key st)"
    "load_opt_str ''compensation_reference'' ?j = Some (st_compensation_reference st)"
    by (rule opt, simp add: get, simp add: dump_step_def)+
  moreover have "load_str ''key'' ?j = Some (st_key st)" "load_str ''kind'' ?j = Some (step_kind_value (st_kind st))"
    "load_str ''reference'' ?j = Some (st_reference st)" "load_int ''timeout_seconds'' ?j = Some (st_timeout_seconds st)"
    by (simp_all add: load_str_def load_int_def get) (simp_all add: dump_step_def)
  moreover have "json_get ''timeout_seconds'' ?j = Some (JInt (st_timeout_seconds st))"
    by (simp add: get) (simp add: dump_step_def)
  moreover have "List.find (\<lambda>x. step_kind_value x = step_kind_value (st_kind st)) step_kinds = Some (st_kind st)"
    by (cases "st_kind st") (simp_all add: step_kinds_def)
  ultimately show ?thesis by (simp add: load_step_def)
qed

lemma load_dumped_steps: "load_steps (map (\<lambda>st. sort_members (dump_step st)) sts) = Some sts"
  by (induction sts) (simp_all add: load_dumped_step)

lemma load_dumped: "load_definition (sort_members (dump_definition d)) = Some d"
proof -
  let ?j = "sort_members (dump_definition d)"
  have get: "json_get k ?j = map_option sort_members (map_of (case dump_definition d of JObj kvs \<Rightarrow> kvs | _ \<Rightarrow> []) k)" for k
    unfolding dump_definition_def by (subst get_sort_members) simp_all
  have "json_get ''steps'' ?j = Some (JList (map (\<lambda>st. sort_members (dump_step st)) (wd_steps d)))"
    by (simp add: get) (simp add: dump_definition_def comp_def)
  moreover have "load_str ''definition_id'' ?j = Some (uuid_str (wd_definition_id d))" "load_int ''version'' ?j = Some (wd_version d)"
    "load_str ''name'' ?j = Some (wd_name d)" "load_int ''input_schema_version'' ?j = Some (wd_input_schema_version d)"
    "load_str ''classification'' ?j = Some (wd_classification d)" "load_int ''policy_version'' ?j = Some (wd_policy_version d)"
    by (simp_all add: load_str_def load_int_def get) (simp_all add: dump_definition_def)
  ultimately show ?thesis by (simp add: load_definition_def uuid_parse_str load_dumped_steps)
qed

lemma read_definition_text:
  assumes "reads_back env (dump_definition d)" "validate_definition d = None"
    "list_all (\<lambda>st. validate_step st = None) (wd_steps d)"
  shows "model_validate_json env (definition_text d) = Inr d"
  using assms by (simp add: model_validate_json_def reads_back_def definition_text_def load_dumped validate_loaded_accepts)

end
