(* ===== verification/Component_View.thy ===== *)
theory Component_View
  imports Job_Properties
begin

text \<open>
  What the properties of a component rest on: a view of the session that depends only on the
  component's own tables, the directory and the outbox events of one aggregate type. The services
  that components share leave such a view alone, and a transaction changes it in the way its body
  does, or not at all.
\<close>

definition typed_events :: "string \<Rightarrow> 'a core_db_scheme \<Rightarrow> outbox_event list" where
  "typed_events ty s = filter (\<lambda>e. oe_aggregate_type e = ty) (outbox_events s)"

text \<open>The number of an aggregate that an event carries, which is unique.\<close>

definition event_number :: "outbox_event \<Rightarrow> uuid \<times> uuid \<times> int" where
  "event_number e = (oe_workspace_id e, oe_aggregate_id e, oe_aggregate_sequence e)"

lemma keeps_typed_clock [frame_intros]: "keeps (typed_events ty) (utc_now env)" "keeps (typed_events ty) (uuid4 env)"
  by (simp_all add: keeps_def utc_now_def uuid4_def typed_events_def)

lemma keeps_typed_or_now [frame_intros]: "keeps (typed_events ty) (or_now env now)"
  by (auto simp: or_now_def intro: frame_intros split: option.splits)

lemma keeps_typed_insert_audit [frame_intros]: "keeps (typed_events ty) (insert_audit_event env mk)"
  by (auto simp: insert_audit_event_def typed_events_def
      intro!: frame_intros keeps_typed_clock [unfolded typed_events_def] split: prod.splits)

lemma keeps_typed_audit_write [frame_intros]: "keeps (typed_events ty) (audit_write env ctx a)"
  unfolding audit_write_def by (intro frame_intros)

lemma keeps_typed_insert_outbox:
  "oe_aggregate_type e \<noteq> ty \<Longrightarrow> keeps (typed_events ty) (insert_outbox_event e)"
  by (auto simp: insert_outbox_event_def typed_events_def intro!: frame_intros)

lemma keeps_typed_h1_authorize:
  "ty \<noteq> ''authorization_decision'' \<Longrightarrow> keeps (typed_events ty) (h1_authorize env ctx p)"
  unfolding h1_authorize_def authorize_def deny_def record_decision_def Let_def
  by (intro frame_intros keeps_typed_insert_outbox) (simp_all add: decision_outbox_row_def)

text \<open>A transaction runs in the workspace of its context, as the directory places it.\<close>

lemma placed_home:
  assumes "placed ctx s"
  shows "ctx_home ctx \<in> (\<lambda>w. (ws_organization_id w, ws_id w, ws_cell_id w)) ` set (workspaces s)"
proof -
  obtain w c where wc: "placement_rows (ctx_workspace ctx) s = [(w, c)]" "ws_organization_id w = organization_id (ec_tenant ctx)"
    "ws_cell_id w = cell_id (ec_tenant ctx)"
    using assms by (cases "placement_rows (ctx_workspace ctx) s" rule: remdups_adj.cases)
      (auto simp: placed_def split: prod.splits)
  then have "(w, c) \<in> set (placement_rows (ctx_workspace ctx) s)" by simp
  then have "w \<in> set (workspaces s)" "ws_id w = ctx_workspace ctx" by (auto simp: placement_rows_def)
  then show ?thesis using wc(2,3) by (intro image_eqI [of _ _ w]) (simp_all add: context_home)
qed

section \<open>The interface\<close>

locale component_view =
  fixes ty :: string and V :: "'a core_db_scheme \<Rightarrow> 'v"
  assumes view_cong: "component_part s' = component_part s \<Longrightarrow> directory_part s' = directory_part s \<Longrightarrow>
    typed_events ty s' = typed_events ty s \<Longrightarrow> V s' = V s"
begin

lemma keeps_V: "keeps rest_part m \<Longrightarrow> keeps (typed_events ty) m \<Longrightarrow> keeps V m"
  unfolding keeps_def by (auto intro!: view_cong simp: rest_part_def)

lemma rest_V: "rest_part s' = rest_part s \<Longrightarrow> outbox_events s' = outbox_events s \<Longrightarrow> V s' = V s"
  by (rule view_cong) (simp_all add: rest_part_def typed_events_def)

lemma keeps_clock: "keeps V (utc_now env)" "keeps V (uuid4 env)" "keeps V (or_now env now)"
  by (intro keeps_V frame_intros)+

lemma run_V:
  assumes "keeps V m" "\<And>x s'. V s' = V s \<Longrightarrow> Q x s'"
  shows "wp m Q any_error s"
  using assms(1) by (rule wp_frame) (auto intro: assms(2))

lemma run_uuid4:
  assumes "\<And>x s'. V s' = V s \<Longrightarrow> Q x s'"
  shows "wp (uuid4 env) Q any_error s"
  using assms by (rule run_V [OF keeps_clock(2)])

lemma V_started: "V (started ctx s) = V s"
  by (rule view_cong)
    (simp_all add: started_def with_context_def component_part_def directory_part_def typed_events_def)

lemma V_committed: "V (committed s s1) = V s1"
  by (rule view_cong) (simp_all add: committed_def component_part_def directory_part_def typed_events_def)

lemma V_rolled_back: "V (s\<lparr>session_context := c, draws := d\<rparr>) = V s"
  by (rule view_cong) (simp_all add: component_part_def directory_part_def typed_events_def)

text \<open>An audit event and an outbox event for what was done: the number of the event is new.\<close>

lemma run_announce:
  fixes s :: "'a core_db_scheme"
  assumes "\<And>j r s'. event_number (mk j r) \<notin> event_number ` set (typed_events ty s) \<Longrightarrow>
      typed_events ty s' = typed_events ty s @ [mk j r] \<Longrightarrow> component_part s' = component_part s \<Longrightarrow>
      directory_part s' = directory_part s \<Longrightarrow> Q () s'"
    and mk: "\<And>j r. oe_aggregate_type (mk j r) = ty"
  shows "wp (bindM (audit_write env ctx a) (\<lambda>audit. bindM (uuid4 env) (\<lambda>j.
    insert_outbox_event (mk j (ae_recorded_at audit))))) Q any_error s"
proof (rule run_bind, rule wp_audit_write)
  fix x and s1 :: "'a core_db_scheme"
  assume s1: "rest_part s1 = rest_part s" "outbox_events s1 = outbox_events s"
  have put: "Q () (s1\<lparr>draws := d, outbox_events := outbox_events s1 @ [mk j r]\<rparr>)"
    if "list_all snd (outbox_event_constraints (mk j r) s2)" "outbox_events s2 = outbox_events s1"
    for d j r and s2 :: "'a core_db_scheme"
  proof (rule assms(1))
    show "event_number (mk j r) \<notin> event_number ` set (typed_events ty s)"
      using that s1(2) by (auto simp: event_number_def outbox_event_constraints_def list_all_iff typed_events_def mk)
    show "typed_events ty (s1\<lparr>draws := d, outbox_events := outbox_events s1 @ [mk j r]\<rparr>) = typed_events ty s @ [mk j r]"
      using s1(2) by (simp add: typed_events_def mk)
    show "component_part (s1\<lparr>draws := d, outbox_events := outbox_events s1 @ [mk j r]\<rparr>) = component_part s"
      "directory_part (s1\<lparr>draws := d, outbox_events := outbox_events s1 @ [mk j r]\<rparr>) = directory_part s"
      using s1(1) by (simp_all add: rest_part_def component_part_def directory_part_def)
  qed
  show "wp (bindM (uuid4 env) (\<lambda>j. insert_outbox_event (mk j (ae_recorded_at x)))) Q any_error s1"
    unfolding wp_bindM wp_uuid4
    by (simp add: insert_outbox_event_def wp_simps violated_None_iff [symmetric] split: option.splits)
      (auto intro!: put simp: violated_None_iff)
qed simp

text \<open>A transaction does to the view what its body does when it returns, and nothing otherwise.\<close>

lemma transaction_effect:
  assumes "placed ctx s \<Longrightarrow> wp m (\<lambda>_ s'. R (V s) (V s')) any_error (started ctx s)"
  shows "case transaction ctx m s of (Inl e, s') \<Rightarrow> V s' = V s | (Inr _, s') \<Rightarrow> R (V s) (V s')"
proof (cases rule: transaction_cases [of s ctx m])
  case (committed x s1)
  have "R (V s) (V s1)" by (rule wp_Inr [OF assms [OF committed(2)] committed(3)])
  then show ?thesis using committed(4) by (simp add: V_committed)
next
  case (rolled_back e d c)
  then show ?thesis by (simp add: V_rolled_back)
qed

lemma transaction_keeps_V:
  assumes "keeps V m"
  shows "V (snd (transaction ctx m s)) = V s"
proof (cases rule: transaction_cases [of s ctx m])
  case (committed x s1)
  have "V s1 = V (started ctx s)" using assms committed(3) unfolding keeps_def by (metis snd_conv)
  then show ?thesis using committed(4) by (simp add: V_started V_committed)
next
  case (rolled_back e d c)
  then show ?thesis by (simp add: V_rolled_back)
qed

end

text \<open>An authorizer that announces nothing under the aggregate type of the component.\<close>

locale component_authorizer = component_view ty V + authorizer env ask
  for ty :: string and V :: "'a core_db_scheme \<Rightarrow> 'v" and env :: py_env
    and ask :: "execution_context \<Rightarrow> string \<Rightarrow> ('a core_db_scheme, bool) M" +
  assumes ask_events: "keeps (typed_events ty) (ask ctx p)"
begin

lemma keeps_ask: "keeps V (ask ctx p)"
  by (rule keeps_V) (rule ask_frame, rule ask_events)

lemma run_ask:
  assumes "\<And>x s'. V s' = V s \<Longrightarrow> Q x s'"
  shows "wp (ask ctx p) Q any_error s"
  using assms by (rule run_V [OF keeps_ask])

end

end
