(* ===== verification/Workflow_Steps.thy ===== *)
theory Workflow_Steps
  imports Workflow_Laws Component_View
begin

text \<open>
  Workflows as an abstract machine on their tables. A step registers a version of a definition,
  activates one, starts an instance, moves one to its next position with a receipt, or records an
  approval request or a decision. \<open>workflow_inv\<close> is what the steps keep: the state of an instance
  is the run of its definition on the outcomes it was given, and its receipts are that run.
\<close>

section \<open>The tables\<close>

record workflow_tables =
  yt_tenants :: "tenant list"
  yt_records :: "workflow_definition_record list"
  yt_versions :: "workflow_definition_version list"
  yt_instances :: "workflow_instance list"
  yt_approvals :: "workflow_approval list"
  yt_decisions :: "workflow_approval_decision list"
  yt_receipts :: "workflow_receipt list"
  yt_events :: "outbox_event list"

text \<open>The events of an instance; those of a definition have other types.\<close>

definition instance_event :: "outbox_event \<Rightarrow> bool" where
  "instance_event e \<longleftrightarrow> oe_event_type e \<in> {''workflow.instance.started'', ''workflow.instance.transitioned''}"

definition instance_events :: "workflow_tables \<Rightarrow> workflow_instance \<Rightarrow> outbox_event list" where
  "instance_events t i = filter (\<lambda>e. instance_event e \<and> oe_workspace_id e = workspace_id i \<and>
     oe_aggregate_id e = wi_id i) (yt_events t)"

text \<open>An event announces a number of an aggregate, which no earlier event of the aggregate has.\<close>

definition wf_announces :: "workflow_tables \<Rightarrow> outbox_event \<Rightarrow> uuid \<Rightarrow> uuid \<Rightarrow> int \<Rightarrow> bool" where
  "wf_announces t e w i sequence \<longleftrightarrow> event_number e = (w, i, sequence) \<and> event_number e \<notin> event_number ` set (yt_events t)"

lemma wf_announces_updates [simp]:
  "wf_announces (t\<lparr>yt_records := rs\<rparr>) = wf_announces t" "wf_announces (t\<lparr>yt_versions := vs\<rparr>) = wf_announces t"
  "wf_announces (t\<lparr>yt_instances := ins\<rparr>) = wf_announces t" "wf_announces (t\<lparr>yt_receipts := xs\<rparr>) = wf_announces t"
  by (simp_all add: fun_eq_iff wf_announces_def)

definition receipts_of :: "workflow_tables \<Rightarrow> workflow_instance \<Rightarrow> workflow_receipt list" where
  "receipts_of t i = filter (\<lambda>r. tenant_pk r (wc_instance_id r) = wi_pk i) (yt_receipts t)"

definition bound_to :: "workflow_instance \<Rightarrow> workflow_definition_version \<Rightarrow> bool" where
  "bound_to i v \<longleftrightarrow> wv_pk v = (tenant_pk i (wi_definition_id i), wi_definition_version i)"

definition place :: "workflow_instance \<Rightarrow> wf_position" where
  "place i = (wi_current_step_key i, wi_status i)"

section \<open>The steps\<close>

inductive flow_step :: "py_env \<Rightarrow> tenant \<Rightarrow> workflow_tables \<Rightarrow> workflow_tables \<Rightarrow> bool" for env c t where
  draft: "\<lbrakk> home_of v = c; wv_pk v \<notin> wv_pk ` set (yt_versions t); wv_activated_at v = None;
     \<forall>r \<in> set rs. home_of r = c \<and> c \<in> set (yt_tenants t);
     tenant_pk v (wv_definition_id v) \<in> wr_pk ` set (yt_records t @ rs);
     \<not> instance_event e; wf_announces t e (workspace_id v) (wv_definition_id v) (wv_version v) \<rbrakk> \<Longrightarrow>
   flow_step env c t (t\<lparr>yt_records := yt_records t @ rs, yt_versions := yt_versions t @ [v],
     yt_events := yt_events t @ [e]\<rparr>)"
| activate: "\<lbrakk> v \<in> set (yt_versions t); wv_activated_at v = None; v' = v\<lparr>wv_activated_at := Some now\<rparr>;
     r \<in> set (yt_records t); r' = r\<lparr>wr_status := ''active''\<rparr>;
     \<not> instance_event e; wf_announces t e (workspace_id v) (wv_definition_id v) (wv_version v) \<rbrakk> \<Longrightarrow>
   flow_step env c t (t\<lparr>yt_records := replace_row wr_pk r' (yt_records t),
     yt_versions := replace_row wv_pk v' (yt_versions t), yt_events := yt_events t @ [e]\<rparr>)"
| start: "\<lbrakk> home_of i = c; wi_pk i \<notin> wi_pk ` set (yt_instances t); wi_version i = 1;
     bound_to i v0; v0 \<in> set (yt_versions t);
     v \<in> set (yt_versions t); workspace_id v = workspace_id i; wv_definition_id v = wi_definition_id i;
     wv_version v = wi_definition_version i; wv_activated_at v \<noteq> None; model_validate_json env (wv_schema_json v) = Inr d;
     place i = first_position d; instance_event e; wf_announces t e (workspace_id i) (wi_id i) 1 \<rbrakk> \<Longrightarrow>
   flow_step env c t (t\<lparr>yt_instances := yt_instances t @ [i], yt_events := yt_events t @ [e]\<rparr>)"
| move: "\<lbrakk> i \<in> set (yt_instances t); workspace_id i = fst (snd c);
     v \<in> set (yt_versions t); workspace_id v = workspace_id i; wv_definition_id v = wi_definition_id i;
     wv_version v = wi_definition_version i; model_validate_json env (wv_schema_json v) = Inr d;
     wi_current_step_key i = Some k; decide_next d k outcome (wi_status i) = Inr r; i' = moved i r now;
     home_of x = c; wc_instance_id x = wi_id i; wc_outcome x = wt_status r;
     tenant_pk x (wc_instance_id x) \<in> wi_pk ` set (yt_instances t);
     (tenant_pk x (wc_instance_id x), wc_transition_key x) \<notin>
       (\<lambda>y. (tenant_pk y (wc_instance_id y), wc_transition_key y)) ` set (yt_receipts t);
     instance_event e; wf_announces t e (workspace_id i) (wi_id i) (wi_version i') \<rbrakk> \<Longrightarrow>
   flow_step env c t (t\<lparr>yt_instances := replace_row wi_pk i' (yt_instances t),
     yt_receipts := yt_receipts t @ [x], yt_events := yt_events t @ [e]\<rparr>)"
| ask: "\<lbrakk> home_of a = c; tenant_pk a (wa_id a) \<notin> (\<lambda>x. tenant_pk x (wa_id x)) ` set (yt_approvals t);
     tenant_pk a (wa_instance_id a) \<in> wi_pk ` set (yt_instances t) \<rbrakk> \<Longrightarrow>
   flow_step env c t (t\<lparr>yt_approvals := yt_approvals t @ [a]\<rparr>)"
| decide: "\<lbrakk> home_of y = c; a \<in> set (yt_approvals t); workspace_id a = fst (snd c); we_approval_id y = wa_id a;
     we_approver_id y \<noteq> wa_requested_by_user_id a; we_action_digest y = wa_action_digest a;
     tenant_pk y (we_approval_id y) \<in> (\<lambda>x. tenant_pk x (wa_id x)) ` set (yt_approvals t);
     (tenant_pk y (we_approval_id y), we_approver_id y) \<notin>
       (\<lambda>x. (tenant_pk x (we_approval_id x), we_approver_id x)) ` set (yt_decisions t) \<rbrakk> \<Longrightarrow>
   flow_step env c t (t\<lparr>yt_decisions := yt_decisions t @ [y]\<rparr>)"

inductive_cases workflow_stepE: "flow_step env c t t'"

section \<open>The invariant\<close>

text \<open>A workspace belongs to one organization and one cell, and so do the rows of the workspace.\<close>

definition homes_ok :: "workflow_tables \<Rightarrow> bool" where
  "homes_ok t \<longleftrightarrow> distinct (map (\<lambda>c. fst (snd c)) (yt_tenants t)) \<and>
     home_of ` set (yt_records t) \<union> home_of ` set (yt_versions t) \<union> home_of ` set (yt_instances t) \<union>
     home_of ` set (yt_approvals t) \<subseteq> set (yt_tenants t)"

text \<open>
  \<open>runs d i rs\<close>: the definition \<open>d\<close>, on some outcomes, takes an instance to the place of \<open>i\<close>, and
  the receipts \<open>rs\<close> are the statuses on the way.
\<close>

definition runs :: "workflow_definition \<Rightarrow> workflow_instance \<Rightarrow> workflow_receipt list \<Rightarrow> bool" where
  "runs d i rs \<longleftrightarrow> (\<exists>outs qs. run_outcomes d (first_position d) outs = Some qs \<and> map snd qs = map wc_outcome rs \<and>
     last (first_position d # qs) = place i)"

definition instance_ok :: "py_env \<Rightarrow> workflow_tables \<Rightarrow> workflow_instance \<Rightarrow> bool" where
  "instance_ok env t i \<longleftrightarrow>
     (\<exists>v d. v \<in> set (yt_versions t) \<and> bound_to i v \<and> wv_activated_at v \<noteq> None \<and>
        model_validate_json env (wv_schema_json v) = Inr d \<and> runs d i (receipts_of t i)) \<and>
     wi_version i = 1 + int (length (receipts_of t i)) \<and> distinct (map wc_transition_key (receipts_of t i)) \<and>
     map oe_aggregate_sequence (instance_events t i) = [1..wi_version i]"

definition decisions_ok :: "workflow_tables \<Rightarrow> bool" where
  "decisions_ok t \<longleftrightarrow> (\<forall>y \<in> set (yt_decisions t). \<exists>a \<in> set (yt_approvals t).
     tenant_pk a (wa_id a) = tenant_pk y (we_approval_id y) \<and> we_approver_id y \<noteq> wa_requested_by_user_id a \<and>
     we_action_digest y = wa_action_digest a) \<and>
   distinct (map (\<lambda>x. (tenant_pk x (we_approval_id x), we_approver_id x)) (yt_decisions t))"

definition owners_ok :: "workflow_tables \<Rightarrow> bool" where
  "owners_ok t \<longleftrightarrow> (\<forall>x \<in> set (yt_receipts t). tenant_pk x (wc_instance_id x) \<in> wi_pk ` set (yt_instances t)) \<and>
     (\<forall>e \<in> set (yt_events t). instance_event e \<longrightarrow>
        (oe_workspace_id e, oe_aggregate_id e) \<in> (\<lambda>i. (workspace_id i, wi_id i)) ` set (yt_instances t)) \<and>
     distinct (map (\<lambda>a. tenant_pk a (wa_id a)) (yt_approvals t))"

definition workflow_inv :: "py_env \<Rightarrow> workflow_tables \<Rightarrow> bool" where
  "workflow_inv env t \<longleftrightarrow> homes_ok t \<and> distinct (map wv_pk (yt_versions t)) \<and> distinct (map wi_pk (yt_instances t)) \<and>
     (\<forall>i \<in> set (yt_instances t). instance_ok env t i) \<and> decisions_ok t \<and> owners_ok t"

section \<open>Rows of a workspace\<close>

lemma wi_pk_eq: "wi_pk i = wi_pk j \<longleftrightarrow> home_of i = home_of j \<and> wi_id i = wi_id j"
  by (simp add: wi_pk_def home_pk del: tenant_pk_eq)

lemma wv_pk_eq: "wv_pk u = wv_pk v \<longleftrightarrow> home_of u = home_of v \<and> wv_definition_id u = wv_definition_id v \<and>
    wv_version u = wv_version v"
  by (auto simp: wv_pk_def home_of_def)

lemma one_tenant:
  assumes "homes_ok t" "a \<in> set (yt_tenants t)" "b \<in> set (yt_tenants t)" "fst (snd a) = fst (snd b)"
  shows "a = b"
  using assms distinct_keys_unique [of "\<lambda>c. fst (snd c)" "yt_tenants t" a b] by (simp add: homes_ok_def)

lemma instance_tenant: "homes_ok t \<Longrightarrow> i \<in> set (yt_instances t) \<Longrightarrow> home_of i \<in> set (yt_tenants t)"
  by (auto simp: homes_ok_def)

lemma version_tenant: "homes_ok t \<Longrightarrow> v \<in> set (yt_versions t) \<Longrightarrow> home_of v \<in> set (yt_tenants t)"
  by (auto simp: homes_ok_def)

lemma approval_tenant: "homes_ok t \<Longrightarrow> a \<in> set (yt_approvals t) \<Longrightarrow> home_of a \<in> set (yt_tenants t)"
  by (auto simp: homes_ok_def)

text \<open>The version that a query by workspace, definition and number finds is the one an instance is bound to.\<close>

lemma found_version_bound:
  assumes "homes_ok t" "home_of i \<in> set (yt_tenants t)" "v \<in> set (yt_versions t)" "workspace_id v = workspace_id i"
    "wv_definition_id v = wi_definition_id i" "wv_version v = wi_definition_version i"
  shows "bound_to i v"
proof -
  have "home_of v = home_of i"
    by (rule one_tenant [OF assms(1) version_tenant [OF assms(1,3)] assms(2)]) (simp add: workspace_tenant [symmetric] assms(4))
  then show ?thesis using assms(5,6) by (simp add: bound_to_def wv_pk_def home_pk del: tenant_pk_eq)
qed

lemma bound_unique:
  assumes "distinct (map wv_pk vs)" "u \<in> set vs" "v \<in> set vs" "bound_to i u" "bound_to i v"
  shows "u = v"
  using distinct_keys_unique [OF assms(1-3)] assms(4,5) by (simp add: bound_to_def)

text \<open>Two instances with the same workspace and identifier are one row.\<close>

lemma same_instance:
  assumes "homes_ok t" "distinct (map wi_pk (yt_instances t))" "i \<in> set (yt_instances t)" "j \<in> set (yt_instances t)"
    "workspace_id i = workspace_id j" "wi_id i = wi_id j"
  shows "i = j"
proof -
  have "home_of i = home_of j"
    using assms by (intro one_tenant [OF assms(1)] instance_tenant) (simp_all add: workspace_tenant [symmetric])
  then show ?thesis using distinct_keys_unique [OF assms(2-4)] assms(6) by (simp add: wi_pk_eq)
qed

section \<open>Steps keep the invariant\<close>

text \<open>What an instance needs of the tables may only grow elsewhere.\<close>

lemma instance_ok_frame:
  assumes "instance_ok env t i" "receipts_of t' i = receipts_of t i" "instance_events t' i = instance_events t i"
    "\<And>v. v \<in> set (yt_versions t) \<Longrightarrow> wv_activated_at v \<noteq> None \<Longrightarrow>
       \<exists>v' \<in> set (yt_versions t'). wv_pk v' = wv_pk v \<and> wv_schema_json v' = wv_schema_json v \<and> wv_activated_at v' \<noteq> None"
  shows "instance_ok env t' i"
proof -
  obtain v d where v: "v \<in> set (yt_versions t)" "bound_to i v" "wv_activated_at v \<noteq> None"
    "model_validate_json env (wv_schema_json v) = Inr d" "runs d i (receipts_of t i)"
    using assms(1) unfolding instance_ok_def by blast
  obtain v' where "v' \<in> set (yt_versions t')" "wv_pk v' = wv_pk v" "wv_schema_json v' = wv_schema_json v" "wv_activated_at v' \<noteq> None"
    using assms(4) [OF v(1,3)] by blast
  then show ?thesis using assms(1-3) v unfolding instance_ok_def bound_to_def by metis
qed

lemma workflow_invD:
  assumes "workflow_inv env t"
  shows "homes_ok t" "distinct (map wv_pk (yt_versions t))" "distinct (map wi_pk (yt_instances t))"
    "\<And>i. i \<in> set (yt_instances t) \<Longrightarrow> instance_ok env t i" "decisions_ok t" "owners_ok t"
  using assms by (simp_all add: workflow_inv_def)

lemma inv_draft:
  assumes inv: "workflow_inv env t"
    and v: "home_of v = c" "wv_pk v \<notin> wv_pk ` set (yt_versions t)" "wv_activated_at v = None"
      "\<forall>r \<in> set rs. home_of r = c \<and> c \<in> set (yt_tenants t)"
      "tenant_pk v (wv_definition_id v) \<in> wr_pk ` set (yt_records t @ rs)" "\<not> instance_event e"
    and t': "t' = t\<lparr>yt_records := yt_records t @ rs, yt_versions := yt_versions t @ [v], yt_events := yt_events t @ [e]\<rparr>"
  shows "workflow_inv env t'"
proof -
  note D = workflow_invD [OF inv]
  obtain r where r: "r \<in> set (yt_records t @ rs)" "wr_pk r = tenant_pk v (wv_definition_id v)" using v(5) by (metis imageE)
  then have "home_of r = c" using v(1) by (simp add: wr_pk_def home_pk del: tenant_pk_eq)
  then have "c \<in> set (yt_tenants t)" using r(1) v(4) D(1) by (auto simp: homes_ok_def)
  then have "homes_ok t'" using D(1) v(1,4) by (auto simp: homes_ok_def t')
  moreover have "instance_ok env t' i" if "i \<in> set (yt_instances t)" for i
    by (rule instance_ok_frame [OF D(4) [OF that]])
      (auto simp: receipts_of_def instance_events_def t' v(6))
  ultimately show ?thesis
    using D v(2,6) by (simp add: workflow_inv_def t' decisions_ok_def owners_ok_def)
qed

lemma inv_activate:
  assumes inv: "workflow_inv env t" and v: "v \<in> set (yt_versions t)" "wv_activated_at v = None"
      "v' = v\<lparr>wv_activated_at := Some now\<rparr>" "r \<in> set (yt_records t)" "r' = r\<lparr>wr_status := ''active''\<rparr>" "\<not> instance_event e"
    and t': "t' = t\<lparr>yt_records := replace_row wr_pk r' (yt_records t), yt_versions := replace_row wv_pk v' (yt_versions t),
      yt_events := yt_events t @ [e]\<rparr>"
  shows "workflow_inv env t'"
proof -
  note D = workflow_invD [OF inv]
  have pk: "wv_pk v' = wv_pk v" "home_of v' = home_of v" "home_of r' = home_of r"
    by (simp_all add: v wv_pk_def home_of_def tenant_pk_def)
  have "homes_ok t'"
    using D(1) v(1,4) pk(2,3) unfolding homes_ok_def t' by (auto dest!: in_replace_row)
  moreover have "instance_ok env t' i" if "i \<in> set (yt_instances t)" for i
  proof (rule instance_ok_frame [OF D(4) [OF that]])
    fix u assume u: "u \<in> set (yt_versions t)" "wv_activated_at u \<noteq> None"
    then have "wv_pk u \<noteq> wv_pk v'" using distinct_keys_unique [OF D(2) u(1) v(1)] v(2) pk(1) by auto
    then have "u \<in> set (yt_versions t')" using u(1) by (simp add: t' replace_row_other)
    then show "\<exists>u' \<in> set (yt_versions t'). wv_pk u' = wv_pk u \<and> wv_schema_json u' = wv_schema_json u \<and> wv_activated_at u' \<noteq> None"
      using u(2) by blast
  qed (simp_all add: receipts_of_def instance_events_def t' v(6))
  ultimately show ?thesis using D v(6) by (simp add: workflow_inv_def t' decisions_ok_def owners_ok_def)
qed

lemma runs_start: "place i = first_position d \<Longrightarrow> runs d i []"
  unfolding runs_def by (intro exI [of _ "[]"]) simp

lemma inv_start:
  assumes inv: "workflow_inv env t"
    and i: "wi_pk i \<notin> wi_pk ` set (yt_instances t)" "wi_version i = 1" "bound_to i v0" "v0 \<in> set (yt_versions t)"
      "v \<in> set (yt_versions t)" "workspace_id v = workspace_id i" "wv_definition_id v = wi_definition_id i"
      "wv_version v = wi_definition_version i" "wv_activated_at v \<noteq> None" "model_validate_json env (wv_schema_json v) = Inr d"
      "place i = first_position d" "instance_event e" "wf_announces t e (workspace_id i) (wi_id i) 1"
    and t': "t' = t\<lparr>yt_instances := yt_instances t @ [i], yt_events := yt_events t @ [e]\<rparr>"
  shows "workflow_inv env t'"
proof -
  note D = workflow_invD [OF inv]
  have "home_of v0 = home_of i" using i(3) by (simp add: bound_to_def wv_pk_def home_pk del: tenant_pk_eq)
  then have home: "home_of i \<in> set (yt_tenants t)" using version_tenant [OF D(1) i(4)] by simp
  have other: "(workspace_id j, wi_id j) \<noteq> (workspace_id i, wi_id i)" if "j \<in> set (yt_instances t)" for j
  proof
    assume eq: "(workspace_id j, wi_id j) = (workspace_id i, wi_id i)"
    then have "home_of j = home_of i"
      using that by (intro one_tenant [OF D(1) instance_tenant [OF D(1)] home]) (simp_all add: workspace_tenant [symmetric])
    then show False using i(1) that eq by (metis image_eqI prod.inject wi_pk_eq)
  qed
  have "receipts_of t i = []"
    unfolding receipts_of_def filter_empty_conv
  proof (rule ballI, rule notI)
    fix x assume x: "x \<in> set (yt_receipts t)" "tenant_pk x (wc_instance_id x) = wi_pk i"
    have "tenant_pk x (wc_instance_id x) \<in> wi_pk ` set (yt_instances t)" using D(6) x(1) unfolding owners_ok_def by blast
    then show False using i(1) x(2) by simp
  qed
  moreover have "instance_events t i = []"
    using D(6) other by (force simp: instance_events_def owners_ok_def filter_empty_conv)
  ultimately have "instance_ok env t' i"
    using i found_version_bound [OF D(1) home i(5-8)] runs_start [OF i(11)]
    by (auto simp: instance_ok_def t' receipts_of_def instance_events_def wf_announces_def event_number_def)
  moreover have "instance_ok env t' j" if "j \<in> set (yt_instances t)" for j
    using other [OF that] i(13)
    by (intro instance_ok_frame [OF D(4) [OF that]]) (auto simp: receipts_of_def instance_events_def t' wf_announces_def event_number_def)
  moreover have "homes_ok t'" using D(1) home by (auto simp: homes_ok_def t')
  ultimately show ?thesis
    using D i(1,12,13) by (auto simp: workflow_inv_def t' decisions_ok_def owners_ok_def wf_announces_def event_number_def)
qed

lemma runs_move:
  assumes "runs d i rs" "wi_current_step_key i = Some k" "decide_next d k outcome (wi_status i) = Inr r"
    "wc_outcome x = wt_status r"
  shows "runs d (moved i r now) (rs @ [x])"
proof -
  obtain outs qs where q: "run_outcomes d (first_position d) outs = Some qs" "map snd qs = map wc_outcome rs"
    "last (first_position d # qs) = place i"
    using assms(1) by (auto simp: runs_def)
  have adv: "advance d (place i) outcome = Some (wt_next_key r, wt_status r)"
    using assms(2,3) by (simp add: advance_def place_def)
  have "run_outcomes d (first_position d) (outs @ [outcome]) = Some (qs @ [(wt_next_key r, wt_status r)])"
    unfolding run_outcomes_snoc q(1) q(3) [symmetric, unfolded q(3)] using adv q(3) by simp
  moreover have "map snd (qs @ [(wt_next_key r, wt_status r)]) = map wc_outcome (rs @ [x])"
    using q(2) assms(4) by simp
  moreover have "last (first_position d # qs @ [(wt_next_key r, wt_status r)]) = place (moved i r now)"
    by (simp add: place_def moved_def)
  ultimately show ?thesis unfolding runs_def by blast
qed

lemma moved_simps [simp]:
  "wi_pk (moved i r now) = wi_pk i" "home_of (moved i r now) = home_of i" "wi_id (moved i r now) = wi_id i"
  "workspace_id (moved i r now) = workspace_id i" "wi_version (moved i r now) = wi_version i + 1"
  "bound_to (moved i r now) v = bound_to i v"
  by (simp_all add: moved_def wi_pk_def home_of_def bound_to_def tenant_pk_def)

lemma inv_move:
  assumes inv: "workflow_inv env t"
    and i: "i \<in> set (yt_instances t)" "workspace_id i = fst (snd c)" "v \<in> set (yt_versions t)" "workspace_id v = workspace_id i"
      "wv_definition_id v = wi_definition_id i" "wv_version v = wi_definition_version i"
      "model_validate_json env (wv_schema_json v) = Inr d" "wi_current_step_key i = Some k"
      "decide_next d k outcome (wi_status i) = Inr r" "i' = moved i r now"
      "home_of x = c" "wc_instance_id x = wi_id i" "wc_outcome x = wt_status r"
      "tenant_pk x (wc_instance_id x) \<in> wi_pk ` set (yt_instances t)"
      "(tenant_pk x (wc_instance_id x), wc_transition_key x) \<notin>
         (\<lambda>y. (tenant_pk y (wc_instance_id y), wc_transition_key y)) ` set (yt_receipts t)"
      "instance_event e" "wf_announces t e (workspace_id i) (wi_id i) (wi_version i')"
    and t': "t' = t\<lparr>yt_instances := replace_row wi_pk i' (yt_instances t), yt_receipts := yt_receipts t @ [x],
      yt_events := yt_events t @ [e]\<rparr>"
  shows "workflow_inv env t'"
proof -
  note D = workflow_invD [OF inv]
  obtain j where j: "j \<in> set (yt_instances t)" "wi_pk j = tenant_pk x (wc_instance_id x)" using i(14) by auto
  then have jt: "home_of j = c" "wi_id j = wi_id i" using i(11,12) by (simp_all add: wi_pk_def home_pk del: tenant_pk_eq)
  then have "j = i"
    using i(2) by (intro same_instance [OF D(1,3) j(1) i(1)]) (simp_all add: workspace_tenant)
  then have pkx: "tenant_pk x (wc_instance_id x) = wi_pk i" using j(2) by simp
  have bound: "bound_to i v" by (rule found_version_bound [OF D(1) instance_tenant [OF D(1) i(1)] i(3-6)])
  obtain u du where u: "u \<in> set (yt_versions t)" "bound_to i u" "wv_activated_at u \<noteq> None"
    "model_validate_json env (wv_schema_json u) = Inr du" "runs du i (receipts_of t i)" "wi_version i = 1 + int (length (receipts_of t i))"
    "distinct (map wc_transition_key (receipts_of t i))" "map oe_aggregate_sequence (instance_events t i) = [1..wi_version i]"
    using D(4) [OF i(1)] unfolding instance_ok_def by blast
  have uv: "u = v" "du = d" using bound_unique [OF D(2) u(1) i(3) u(2) bound] u(4) i(7) by auto
  have rc: "receipts_of t' i' = receipts_of t i @ [x]" using pkx by (simp add: receipts_of_def t' i(10))
  have new_key: "wc_transition_key x \<notin> wc_transition_key ` set (receipts_of t i)"
    using i(15) pkx by (force simp: receipts_of_def)
  have ev: "instance_events t' i' = instance_events t i @ [e]"
    using i(16,17) by (simp add: instance_events_def t' i(10) wf_announces_def event_number_def)
  have up: "[1..wi_version i + 1] = [1..wi_version i] @ [wi_version i + 1]"
    using upto_rec2 [of 1 "wi_version i + 1"] u(6) by simp
  have "runs d i' (receipts_of t' i')" unfolding rc using runs_move [OF u(5) [unfolded uv] i(8,9,13)] i(10) by simp
  then have "\<exists>v d. v \<in> set (yt_versions t') \<and> bound_to i' v \<and> wv_activated_at v \<noteq> None \<and>
      model_validate_json env (wv_schema_json v) = Inr d \<and> runs d i' (receipts_of t' i')"
    using i(3,7) u(3) bound unfolding uv t' by (intro exI [of _ v] exI [of _ d]) (simp add: i(10))
  then have new: "instance_ok env t' i'"
    unfolding instance_ok_def rc ev using u(6-8) new_key up i(17) by (simp add: i(10) wf_announces_def event_number_def)
  have old: "instance_ok env t' n" if "n \<in> set (yt_instances t)" "wi_pk n \<noteq> wi_pk i" for n
  proof -
    have "(workspace_id n, wi_id n) \<noteq> (workspace_id i, wi_id i)" using same_instance [OF D(1,3) that(1) i(1)] that(2) by auto
    then show ?thesis
      using pkx that(2) i(17) by (intro instance_ok_frame [OF D(4) [OF that(1)]])
        (auto simp: receipts_of_def instance_events_def t' wf_announces_def event_number_def)
  qed
  have all: "\<forall>n \<in> set (yt_instances t'). instance_ok env t' n"
  proof
    fix n assume "n \<in> set (yt_instances t')"
    then have "n = i' \<or> n \<in> set (yt_instances t) \<and> wi_pk n \<noteq> wi_pk i'"
      unfolding t' by (auto dest: in_replace_row)
    then show "instance_ok env t' n" using new old by (auto simp: i(10))
  qed
  have keys: "wi_pk ` set (yt_instances t') = wi_pk ` set (yt_instances t)"
    "(\<lambda>n. (workspace_id n, wi_id n)) ` set (yt_instances t') = (\<lambda>n. (workspace_id n, wi_id n)) ` set (yt_instances t)"
  proof -
    have "wi_pk ` set (replace_row wi_pk i' (yt_instances t)) = wi_pk ` set (yt_instances t)"
      by (metis list.set_map map_key_replace_row)
    then show "wi_pk ` set (yt_instances t') = wi_pk ` set (yt_instances t)" by (simp add: t')
    have "map (\<lambda>n. (workspace_id n, wi_id n)) (replace_row wi_pk i' (yt_instances t)) = map (\<lambda>n. (workspace_id n, wi_id n)) (yt_instances t)"
      by (rule map_replace_row_same) (auto simp: i(10) wi_pk_def tenant_pk_def)
    from arg_cong [OF this, of set]
    show "(\<lambda>n. (workspace_id n, wi_id n)) ` set (yt_instances t') = (\<lambda>n. (workspace_id n, wi_id n)) ` set (yt_instances t)"
      by (simp add: t')
  qed
  have "homes_ok t'"
    using D(1) i(1) unfolding homes_ok_def t' by (auto dest!: in_replace_row simp: i(10))
  moreover have "owners_ok t'"
    using D(6) pkx i(1,16,17) unfolding owners_ok_def keys by (auto simp: t' wf_announces_def event_number_def)
  ultimately show ?thesis using D all by (simp add: workflow_inv_def t' decisions_ok_def)
qed

lemma inv_approvals:
  assumes inv: "workflow_inv env t" and a: "tenant_pk a (wa_id a) \<notin> (\<lambda>x. tenant_pk x (wa_id x)) ` set (yt_approvals t)"
      "tenant_pk a (wa_instance_id a) \<in> wi_pk ` set (yt_instances t)"
    and t': "t' = t\<lparr>yt_approvals := yt_approvals t @ [a]\<rparr>"
  shows "workflow_inv env t'"
proof -
  note D = workflow_invD [OF inv]
  obtain j where j: "j \<in> set (yt_instances t)" "wi_pk j = tenant_pk a (wa_instance_id a)" using a(2) by auto
  then have "home_of a = home_of j" by (simp add: wi_pk_def home_pk del: tenant_pk_eq)
  then have "homes_ok t'" using D(1) instance_tenant [OF D(1) j(1)] by (auto simp: homes_ok_def t')
  moreover have "instance_ok env t' i" if "i \<in> set (yt_instances t)" for i
    by (rule instance_ok_frame [OF D(4) [OF that]]) (auto simp: receipts_of_def instance_events_def t')
  ultimately show ?thesis using D a(1) by (simp add: workflow_inv_def t' decisions_ok_def owners_ok_def del: tenant_pk_eq)
qed

lemma inv_decide:
  assumes inv: "workflow_inv env t" and y: "home_of y = c" "a \<in> set (yt_approvals t)" "workspace_id a = fst (snd c)"
      "we_approval_id y = wa_id a" "we_approver_id y \<noteq> wa_requested_by_user_id a" "we_action_digest y = wa_action_digest a"
      "tenant_pk y (we_approval_id y) \<in> (\<lambda>x. tenant_pk x (wa_id x)) ` set (yt_approvals t)"
      "(tenant_pk y (we_approval_id y), we_approver_id y) \<notin>
         (\<lambda>x. (tenant_pk x (we_approval_id x), we_approver_id x)) ` set (yt_decisions t)"
    and t': "t' = t\<lparr>yt_decisions := yt_decisions t @ [y]\<rparr>"
  shows "workflow_inv env t'"
proof -
  note D = workflow_invD [OF inv]
  obtain b where b: "b \<in> set (yt_approvals t)" "tenant_pk b (wa_id b) = tenant_pk y (we_approval_id y)" using y(7) by auto
  then have "home_of b = c" using y(1) by (simp add: home_pk del: tenant_pk_eq)
  moreover have "home_of a = home_of b"
    using \<open>home_of b = c\<close> y(3)
    by (intro one_tenant [OF D(1) approval_tenant [OF D(1) y(2)] approval_tenant [OF D(1) b(1)]]) (simp add: workspace_tenant)
  ultimately have "tenant_pk a (wa_id a) = tenant_pk y (we_approval_id y)"
    using y(1,4) by (simp add: home_pk del: tenant_pk_eq)
  then have "decisions_ok t'"
    using D(5) y(2,5,6,8) by (auto simp: decisions_ok_def t' simp del: tenant_pk_eq)
  moreover have "instance_ok env t' i" if "i \<in> set (yt_instances t)" for i
    by (rule instance_ok_frame [OF D(4) [OF that]]) (auto simp: receipts_of_def instance_events_def t')
  moreover have "homes_ok t'" using D(1) by (simp add: homes_ok_def t')
  ultimately show ?thesis using D by (simp add: workflow_inv_def t' owners_ok_def)
qed

theorem workflow_step_inv:
  assumes "flow_step env c t t'" "workflow_inv env t"
  shows "workflow_inv env t'"
  using assms(1)
proof cases
  case draft
  then show ?thesis using inv_draft [OF assms(2)] by blast
next
  case activate
  then show ?thesis using inv_activate [OF assms(2)] by blast
next
  case start
  then show ?thesis using inv_start [OF assms(2)] by blast
next
  case move
  then show ?thesis using inv_move [OF assms(2)] by blast
next
  case ask
  then show ?thesis using inv_approvals [OF assms(2)] by blast
next
  case decide
  then show ?thesis using inv_decide [OF assms(2)] by blast
qed

section \<open>The history of an instance\<close>

text \<open>What later states of an instance keep.\<close>

definition later_instance :: "workflow_instance \<Rightarrow> workflow_instance \<Rightarrow> bool" where
  "later_instance i j \<longleftrightarrow> wi_pk j = wi_pk i \<and> wi_definition_id j = wi_definition_id i \<and>
     wi_definition_version j = wi_definition_version i \<and> wi_input_digest j = wi_input_digest i \<and>
     wi_state_json j = wi_state_json i \<and> wi_idempotency_key j = wi_idempotency_key i \<and>
     wi_started_by_user_id j = wi_started_by_user_id i \<and> wi_version i \<le> wi_version j \<and>
     (wi_version j = wi_version i \<or> wi_status i \<notin> set INSTANCE_TERMINAL) \<and> (wi_version j = wi_version i \<longrightarrow> j = i)"

lemma later_instance_refl [simp]: "later_instance i i"
  by (simp add: later_instance_def)

lemma later_instance_trans: "later_instance i j \<Longrightarrow> later_instance j k \<Longrightarrow> later_instance i k"
  unfolding later_instance_def by (smt (verit))

lemma later_moved:
  assumes "decide_next d k outcome (wi_status i) = Inr r"
  shows "later_instance i (moved i r now)"
proof -
  have "wi_status i \<notin> set INSTANCE_TERMINAL" using assms by (auto simp: decide_next_def)
  then show ?thesis by (simp add: later_instance_def) (simp add: moved_def)
qed

lemma workflow_step_later:
  assumes "flow_step env c t t'" "workflow_inv env t" "j \<in> set (yt_instances t)"
  shows "\<exists>j' \<in> set (yt_instances t'). later_instance j j'"
  using assms(1)
proof cases
  case (move i v d k outcome r i' now x e)
  show ?thesis
  proof (cases "wi_pk j = wi_pk i")
    case True
    then have "j = i" using distinct_keys_unique [OF workflow_invD(3) [OF assms(2)] assms(3) move(2)] by simp
    moreover have "i' \<in> set (yt_instances t')" using move(2,11) by (simp add: move(1) replace_row_present)
    ultimately show ?thesis using later_moved [OF move(10)] move(11) by blast
  next
    case False
    then have "j \<in> set (yt_instances t')" using assms(3) move(11) by (simp add: move(1) replace_row_other)
    then show ?thesis using later_instance_refl by blast
  qed
qed (use assms(3) later_instance_refl in \<open>auto intro!: bexI [of _ j]\<close>)

end
