(* ===== verification/Workflow_Refinement.thy ===== *)
theory Workflow_Refinement
  imports Workflow_Steps Component_View
begin

text \<open>
  The operations of \<open>WorkflowService\<close> are steps of the machine of \<open>Workflow_Steps\<close>. The authorizer
  is any that keeps to its interface, \<open>component_authorizer\<close> for the view \<open>workflows_of\<close>.
\<close>

section \<open>The tables of a session\<close>

definition workflows_of :: "'a workflow_db_scheme \<Rightarrow> workflow_tables" where
  "workflows_of s = \<lparr>yt_tenants = map (\<lambda>w. (ws_organization_id w, ws_id w, ws_cell_id w)) (workspaces s),
     yt_records = workflow_definitions s, yt_versions = workflow_definition_versions s,
     yt_instances = workflow_instances s, yt_approvals = workflow_approvals s,
     yt_decisions = workflow_approval_decisions s, yt_receipts = workflow_receipts s,
     yt_events = typed_events ''workflow'' s\<rparr>"

interpretation wf: component_view "''workflow''" workflows_of
proof
  fix s s' :: "'a workflow_db_scheme"
  assume "component_part s' = component_part s" "directory_part s' = directory_part s"
    "typed_events ''workflow'' s' = typed_events ''workflow'' s"
  then show "workflows_of s' = workflows_of s"
    by (cases s; cases s') (simp add: workflows_of_def component_part_def directory_part_def)
qed

section \<open>The writes\<close>

lemma run_add_workflow_record:
  assumes "\<And>s'. home_of r \<in> set (yt_tenants (workflows_of s)) \<Longrightarrow>
    workflows_of s' = (workflows_of s)\<lparr>yt_records := yt_records (workflows_of s) @ [r]\<rparr> \<Longrightarrow> Q () s'"
  shows "wp (add_workflow_record ctx r) Q any_error s"
  unfolding add_workflow_record_def
proof (rule run_add_row)
  assume "list_all snd (workflow_definition_constraints r s)"
  then have "tenant_exists r s" by (simp add: workflow_definition_constraints_def)
  then have "home_of r \<in> set (yt_tenants (workflows_of s))"
    by (simp add: tenant_exists_def list_ex_iff workflows_of_def home_of_def image_iff) metis
  then show "Q () (s\<lparr>workflow_definitions := workflow_definitions s @ [r]\<rparr>)"
    by (rule assms) (simp add: workflows_of_def typed_events_def)
qed

lemma run_add_workflow_version:
  assumes "\<And>s'. wv_pk r \<notin> wv_pk ` set (yt_versions (workflows_of s)) \<Longrightarrow>
    tenant_pk r (wv_definition_id r) \<in> wr_pk ` set (yt_records (workflows_of s)) \<Longrightarrow>
    workflows_of s' = (workflows_of s)\<lparr>yt_versions := yt_versions (workflows_of s) @ [r]\<rparr> \<Longrightarrow> Q () s'"
  shows "wp (add_workflow_version ctx r) Q any_error s"
  unfolding add_workflow_version_def
proof (rule run_add_row)
  assume "list_all snd (workflow_version_constraints r s)"
  then have "wv_pk r \<notin> wv_pk ` set (yt_versions (workflows_of s))"
    "tenant_pk r (wv_definition_id r) \<in> wr_pk ` set (yt_records (workflows_of s))"
    by (auto simp: workflow_version_constraints_def workflows_of_def list_all_iff list_ex_iff image_iff simp del: tenant_pk_eq) metis+
  then show "Q () (s\<lparr>workflow_definition_versions := workflow_definition_versions s @ [r]\<rparr>)"
    by (rule assms) (simp add: workflows_of_def typed_events_def)
qed

lemma run_add_workflow_instance:
  assumes "\<And>s' v. wi_pk r \<notin> wi_pk ` set (yt_instances (workflows_of s)) \<Longrightarrow>
    v \<in> set (yt_versions (workflows_of s)) \<Longrightarrow> bound_to r v \<Longrightarrow>
    workflows_of s' = (workflows_of s)\<lparr>yt_instances := yt_instances (workflows_of s) @ [r]\<rparr> \<Longrightarrow> Q () s'"
  shows "wp (add_workflow_instance ctx r) Q any_error s"
  unfolding add_workflow_instance_def
proof (rule run_add_row)
  assume "list_all snd (workflow_instance_constraints r s)"
  then have "wi_pk r \<notin> wi_pk ` set (yt_instances (workflows_of s))"
    "\<exists>v \<in> set (yt_versions (workflows_of s)). bound_to r v"
    by (auto simp: workflow_instance_constraints_def workflows_of_def list_all_iff list_ex_iff image_iff bound_to_def
        simp del: tenant_pk_eq)
  then show "Q () (s\<lparr>workflow_instances := workflow_instances s @ [r]\<rparr>)"
    using assms by (auto simp: workflows_of_def typed_events_def)
qed

lemma run_add_workflow_approval:
  assumes "\<And>s'. tenant_pk r (wa_id r) \<notin> (\<lambda>x. tenant_pk x (wa_id x)) ` set (yt_approvals (workflows_of s)) \<Longrightarrow>
    tenant_pk r (wa_instance_id r) \<in> wi_pk ` set (yt_instances (workflows_of s)) \<Longrightarrow>
    workflows_of s' = (workflows_of s)\<lparr>yt_approvals := yt_approvals (workflows_of s) @ [r]\<rparr> \<Longrightarrow> Q () s'"
  shows "wp (add_workflow_approval ctx r) Q any_error s"
  unfolding add_workflow_approval_def
proof (rule run_add_row)
  assume "list_all snd (workflow_approval_constraints r s)"
  then have "tenant_pk r (wa_id r) \<notin> (\<lambda>x. tenant_pk x (wa_id x)) ` set (yt_approvals (workflows_of s))"
    "tenant_pk r (wa_instance_id r) \<in> wi_pk ` set (yt_instances (workflows_of s))"
    by (auto simp: workflow_approval_constraints_def workflows_of_def list_all_iff list_ex_iff image_iff instance_exists_def
        simp del: tenant_pk_eq) metis+
  then show "Q () (s\<lparr>workflow_approvals := workflow_approvals s @ [r]\<rparr>)"
    by (rule assms) (simp add: workflows_of_def typed_events_def)
qed

lemma run_add_workflow_decision:
  assumes "\<And>s'. tenant_pk r (we_approval_id r) \<in> (\<lambda>x. tenant_pk x (wa_id x)) ` set (yt_approvals (workflows_of s)) \<Longrightarrow>
    (tenant_pk r (we_approval_id r), we_approver_id r) \<notin>
      (\<lambda>x. (tenant_pk x (we_approval_id x), we_approver_id x)) ` set (yt_decisions (workflows_of s)) \<Longrightarrow>
    workflows_of s' = (workflows_of s)\<lparr>yt_decisions := yt_decisions (workflows_of s) @ [r]\<rparr> \<Longrightarrow> Q () s'"
  shows "wp (add_workflow_decision ctx r) Q any_error s"
  unfolding add_workflow_decision_def
proof (rule run_add_row)
  assume "list_all snd (workflow_decision_constraints r s)"
  then have "tenant_pk r (we_approval_id r) \<in> (\<lambda>x. tenant_pk x (wa_id x)) ` set (yt_approvals (workflows_of s))"
    "(tenant_pk r (we_approval_id r), we_approver_id r) \<notin>
      (\<lambda>x. (tenant_pk x (we_approval_id x), we_approver_id x)) ` set (yt_decisions (workflows_of s))"
    by (auto simp: workflow_decision_constraints_def workflows_of_def list_all_iff list_ex_iff image_iff simp del: tenant_pk_eq) metis+
  then show "Q () (s\<lparr>workflow_approval_decisions := workflow_approval_decisions s @ [r]\<rparr>)"
    by (rule assms) (simp add: workflows_of_def typed_events_def)
qed

lemma run_add_workflow_receipt:
  assumes "\<And>s'. tenant_pk r (wc_instance_id r) \<in> wi_pk ` set (yt_instances (workflows_of s)) \<Longrightarrow>
    (tenant_pk r (wc_instance_id r), wc_transition_key r) \<notin>
      (\<lambda>y. (tenant_pk y (wc_instance_id y), wc_transition_key y)) ` set (yt_receipts (workflows_of s)) \<Longrightarrow>
    workflows_of s' = (workflows_of s)\<lparr>yt_receipts := yt_receipts (workflows_of s) @ [r]\<rparr> \<Longrightarrow> Q () s'"
  shows "wp (add_workflow_receipt ctx r) Q any_error s"
  unfolding add_workflow_receipt_def
proof (rule run_add_row)
  assume "list_all snd (workflow_receipt_constraints r s)"
  then have "tenant_pk r (wc_instance_id r) \<in> wi_pk ` set (yt_instances (workflows_of s))"
    "(tenant_pk r (wc_instance_id r), wc_transition_key r) \<notin>
      (\<lambda>y. (tenant_pk y (wc_instance_id y), wc_transition_key y)) ` set (yt_receipts (workflows_of s))"
    by (auto simp: workflow_receipt_constraints_def workflows_of_def list_all_iff list_ex_iff image_iff instance_exists_def
        simp del: tenant_pk_eq) metis+
  then show "Q () (s\<lparr>workflow_receipts := workflow_receipts s @ [r]\<rparr>)"
    by (rule assms) (simp add: workflows_of_def typed_events_def)
qed

lemma run_save_workflow_version:
  assumes "\<And>s'. workflows_of s' = (workflows_of s)\<lparr>yt_versions := replace_row wv_pk r (yt_versions (workflows_of s))\<rparr> \<Longrightarrow> Q () s'"
  shows "wp (save_workflow_version r) Q any_error s"
  unfolding save_workflow_version_def protect_active_workflow_version_def
  by (simp add: wp_simps) (auto intro!: assms simp: workflows_of_def typed_events_def)

lemma run_save_workflow_record:
  assumes "\<And>s'. workflows_of s' = (workflows_of s)\<lparr>yt_records := replace_row wr_pk r (yt_records (workflows_of s))\<rparr> \<Longrightarrow> Q () s'"
  shows "wp (save_workflow_record r) Q any_error s"
  unfolding save_workflow_record_def
  by (simp add: wp_simps) (auto intro!: assms simp: workflows_of_def typed_events_def)

lemma run_save_workflow_instance:
  assumes "\<And>s'. workflows_of s' = (workflows_of s)\<lparr>yt_instances := replace_row wi_pk r (yt_instances (workflows_of s))\<rparr> \<Longrightarrow> Q () s'"
  shows "wp (save_workflow_instance r) Q any_error s"
  unfolding save_workflow_instance_def
  by (simp add: wp_simps violated_None_iff [symmetric] split: option.splits)
    (auto intro!: assms simp: workflows_of_def typed_events_def)

lemma run_record_workflow:
  assumes "\<And>e s'. wf_announces (workflows_of s) e (ctx_workspace ctx) i n \<Longrightarrow> oe_event_type e = event \<Longrightarrow>
    workflows_of s' = (workflows_of s)\<lparr>yt_events := yt_events (workflows_of s) @ [e]\<rparr> \<Longrightarrow> Q () s'"
  shows "wp (record_workflow env ctx i event n cl status occurred) Q any_error s"
  unfolding record_workflow_def
proof (rule run_bind, rule wp_audit_write)
  fix a and s1 :: "'a workflow_db_scheme"
  assume *: "rest_part s1 = rest_part s" "outbox_events s1 = outbox_events s"
  let ?row = "\<lambda>j r. workflow_outbox_row ctx i event n cl status occurred j r"
  have t: "workflows_of s1 = workflows_of s" by (rule wf.rest_V [OF *])
  have put: "workflows_of (s1\<lparr>draws := d, outbox_events := outbox_events s1 @ [?row j r]\<rparr>) =
      (workflows_of s)\<lparr>yt_events := yt_events (workflows_of s) @ [?row j r]\<rparr>" for d j r
    using t by (simp add: workflows_of_def typed_events_def workflow_outbox_row_def)
  have ann: "wf_announces (workflows_of s) (?row j r) (ctx_workspace ctx) i n"
    if "list_all snd (outbox_event_constraints (?row j r) s2)" "outbox_events s2 = outbox_events s1" for j r and s2 :: "'a workflow_db_scheme"
    using that unfolding t [symmetric]
    by (auto simp: wf_announces_def event_number_def outbox_event_constraints_def list_all_iff workflow_outbox_row_def
        workflows_of_def typed_events_def)
  have ty: "oe_event_type (?row j r) = event" for j r by (simp add: workflow_outbox_row_def)
  show "wp (bindM (uuid4 env) (\<lambda>event_id. insert_outbox_event (?row event_id (ae_recorded_at a)))) Q any_error s1"
    unfolding wp_bindM wp_uuid4
    by (simp add: insert_outbox_event_def wp_simps violated_None_iff [symmetric] split: option.splits)
      (auto intro!: assms [OF ann ty put] simp: violated_None_iff)
qed simp

section \<open>The operations\<close>

text \<open>The version \<open>n\<close> of the definition \<open>i\<close> is a draft that its registration has announced, or is active.\<close>

definition version_of :: "uuid \<Rightarrow> uuid \<Rightarrow> int \<Rightarrow> workflow_definition_version \<Rightarrow> bool" where
  "version_of w i n v \<longleftrightarrow> workspace_id v = w \<and> wv_definition_id v = i \<and> wv_version v = n"

definition announced_draft :: "uuid \<Rightarrow> uuid \<Rightarrow> int \<Rightarrow> workflow_tables \<Rightarrow> bool" where
  "announced_draft w i n t \<longleftrightarrow> (w, i, n) \<in> event_number ` set (yt_events t) \<and>
     (\<exists>v \<in> set (yt_versions t). version_of w i n v \<and> wv_activated_at v = None)"

definition active_version :: "uuid \<Rightarrow> uuid \<Rightarrow> int \<Rightarrow> workflow_tables \<Rightarrow> bool" where
  "active_version w i n t \<longleftrightarrow> (\<exists>v \<in> set (yt_versions t). version_of w i n v \<and> wv_activated_at v \<noteq> None)"

text \<open>What a call may do to the tables: nothing, or one step of the tenant it acts for.\<close>

definition wf_effect :: "py_env \<Rightarrow> tenant \<Rightarrow> workflow_tables \<Rightarrow> workflow_tables \<Rightarrow> bool" where
  "wf_effect env c t t' \<longleftrightarrow> t' = t \<or> flow_step env c t t'"

text \<open>The move of the instance \<open>i\<close> of the workspace from version \<open>n\<close> with an outcome.\<close>

definition instance_moved :: "py_env \<Rightarrow> uuid \<Rightarrow> uuid \<Rightarrow> string \<Rightarrow> int \<Rightarrow> string \<Rightarrow> workflow_tables \<Rightarrow> workflow_tables \<Rightarrow> bool" where
  "instance_moved env w i outcome n transition_key t t' \<longleftrightarrow> (\<exists>a b v d k r x now.
     a \<in> set (yt_instances t) \<and> workspace_id a = w \<and> wi_id a = i \<and> wi_version a = n \<and>
     v \<in> set (yt_versions t) \<and> workspace_id v = w \<and> wv_definition_id v = wi_definition_id a \<and>
     wv_version v = wi_definition_version a \<and> model_validate_json env (wv_schema_json v) = Inr d \<and>
     wi_current_step_key a = Some k \<and> decide_next d k outcome (wi_status a) = Inr r \<and> b = moved a r now \<and>
     wc_instance_id x = i \<and> wc_transition_key x = transition_key \<and> wc_outcome x = wt_status r \<and>
     yt_instances t' = replace_row wi_pk b (yt_instances t) \<and> yt_receipts t' = yt_receipts t @ [x])"

context component_authorizer
begin

lemma run_require_allowed:
  assumes "\<And>s'. V s' = V s \<Longrightarrow> Q () s'"
  shows "wp (require_allowed ask ctx p) Q any_error s"
  unfolding require_allowed_def by (intro run_bind run_ask run_require assms)

lemma keeps_require_allowed: "keeps V (require_allowed ask ctx p)"
  unfolding require_allowed_def by (intro frame_intros keeps_ask)

end

locale workflow_authorizer = component_authorizer "''workflow''" workflows_of env ask
  for env :: py_env and ask :: "execution_context \<Rightarrow> string \<Rightarrow> ('a workflow_db_scheme, bool) M"
begin

lemma run_register:
  assumes "\<And>x s'. flow_step env (ctx_home ctx) (workflows_of s) (workflows_of s') \<Longrightarrow>
    announced_draft (ctx_workspace ctx) (wd_definition_id d) (wd_version d) (workflows_of s') \<Longrightarrow> Q x s'"
  shows "wp (register env ask ctx d now) Q any_error s"
  unfolding register_def
proof (intro run_then run_require_allowed, intro run_bind run_gets run_then)
  fix s1 :: "'a workflow_db_scheme"
  assume s1: "workflows_of s1 = workflows_of s"
  let ?v = "draft_version env ctx d now" and ?r = "draft_record ctx d now"
  have v: "home_of ?v = ctx_home ctx" "wv_activated_at ?v = None" "home_of ?r = ctx_home ctx"
    "workspace_id ?v = ctx_workspace ctx" "wv_definition_id ?v = wd_definition_id d" "wv_version ?v = wd_version d"
    by (simp_all add: draft_version_def draft_record_def home_of_extend context_tenant_def)
      (simp_all add: workflow_definition_version.fields_def tenant_row.extend_def)
  have rest: "wp (let value = ?v in thenM (add_workflow_version ctx value)
      (thenM (record_workflow env ctx (wd_definition_id d) ''workflow.definition.registered'' (wd_version d)
         (wd_classification d) ''draft'' now) (returnM value))) Q any_error s2"
    if s2: "workflows_of s2 = (workflows_of s)\<lparr>yt_records := yt_records (workflows_of s) @ rs\<rparr>"
      and rs: "\<forall>r \<in> set rs. home_of r = ctx_home ctx \<and> ctx_home ctx \<in> set (yt_tenants (workflows_of s))" for s2 rs
    unfolding Let_def
  proof (intro run_then run_add_workflow_version run_record_workflow run_return assms)
    fix s3 s4 :: "'a workflow_db_scheme" and e
    assume num: "wf_announces (workflows_of s3) e (ctx_workspace ctx) (wd_definition_id d) (wd_version d)"
      and fresh: "wv_pk ?v \<notin> wv_pk ` set (yt_versions (workflows_of s2))"
      and known: "tenant_pk ?v (wv_definition_id ?v) \<in> wr_pk ` set (yt_records (workflows_of s2))"
      and s3: "workflows_of s3 = (workflows_of s2)\<lparr>yt_versions := yt_versions (workflows_of s2) @ [?v]\<rparr>"
      and e: "oe_event_type e = ''workflow.definition.registered''"
      and s4: "workflows_of s4 = (workflows_of s3)\<lparr>yt_events := yt_events (workflows_of s3) @ [e]\<rparr>"
    have "workflows_of s4 = (workflows_of s)\<lparr>yt_records := yt_records (workflows_of s) @ rs,
        yt_versions := yt_versions (workflows_of s) @ [?v], yt_events := yt_events (workflows_of s) @ [e]\<rparr>"
      unfolding s4 s3 s2 by simp
    moreover from this show "announced_draft (ctx_workspace ctx) (wd_definition_id d) (wd_version d) (workflows_of s4)"
      using v num by (simp add: announced_draft_def version_of_def wf_announces_def)
    ultimately show "flow_step env (ctx_home ctx) (workflows_of s) (workflows_of s4)"
      using flow_step.draft [of ?v "ctx_home ctx" "workflows_of s" rs e env] v fresh known rs e num
      unfolding s3 s2 by (simp add: instance_event_def)
  qed
  show "wp (if find_workflow ctx (wd_definition_id d) s1 = None then add_workflow_record ctx ?r else returnM ())
      (\<lambda>_. wp (let value = ?v in thenM (add_workflow_version ctx value)
        (thenM (record_workflow env ctx (wd_definition_id d) ''workflow.definition.registered'' (wd_version d)
           (wd_classification d) ''draft'' now) (returnM value))) Q any_error) any_error s1"
  proof (intro run_if run_add_workflow_record run_return)
    fix s2 :: "'a workflow_db_scheme"
    assume "home_of ?r \<in> set (yt_tenants (workflows_of s1))"
      "workflows_of s2 = (workflows_of s1)\<lparr>yt_records := yt_records (workflows_of s1) @ [?r]\<rparr>"
    then show "wp (let value = ?v in thenM (add_workflow_version ctx value)
        (thenM (record_workflow env ctx (wd_definition_id d) ''workflow.definition.registered'' (wd_version d)
           (wd_classification d) ''draft'' now) (returnM value))) Q any_error s2"
      using rest [of s2 "[?r]"] v(3) s1 by simp
  next
    show "wp (let value = ?v in thenM (add_workflow_version ctx value)
        (thenM (record_workflow env ctx (wd_definition_id d) ''workflow.definition.registered'' (wd_version d)
           (wd_classification d) ''draft'' now) (returnM value))) Q any_error s1"
      using rest [of s1 "[]"] s1 by simp
  qed
qed

lemma run_activate:
  assumes "\<And>x s'. workflows_of s' = workflows_of s \<Longrightarrow> active_version (ctx_workspace ctx) i n (workflows_of s) \<Longrightarrow> Q x s'"
    and "\<And>x s'. flow_step env (ctx_home ctx) (workflows_of s) (workflows_of s') \<Longrightarrow>
      (ctx_workspace ctx, i, n) \<notin> event_number ` set (yt_events (workflows_of s)) \<Longrightarrow> Q x s'"
  shows "wp (activate env ask ctx i n now) Q any_error s"
  unfolding activate_def Let_def
proof (intro run_then run_require_allowed, intro run_bind run_gets run_some run_if run_return run_then
    run_save_workflow_version run_save_workflow_record run_record_workflow)
  fix s1 :: "'a workflow_db_scheme" and v
  assume s1: "workflows_of s1 = workflows_of s" and v: "find_workflow_version ctx i n s1 = Some v" "wv_activated_at v \<noteq> None"
  have "v \<in> set (yt_versions (workflows_of s)) \<and> version_of (ctx_workspace ctx) i n v"
    using find_SomeD [OF v(1) [unfolded find_workflow_version_def]]
    by (simp add: s1 [symmetric] version_of_def) (simp add: workflows_of_def)
  with s1 v(2) show "Q v s1" by (intro assms(1)) (auto simp: active_version_def)
next
  fix s1 s2 s3 s4 :: "'a workflow_db_scheme" and v :: workflow_definition_version and r :: workflow_definition_record and e
  let ?v = "v\<lparr>wv_activated_at := Some now\<rparr>" and ?r = "r\<lparr>wr_status := ''active''\<rparr>"
  assume s1: "workflows_of s1 = workflows_of s" and v: "find_workflow_version ctx i n s1 = Some v"
    and inactive: "\<not> wv_activated_at v \<noteq> None"
    and s2: "workflows_of s2 = (workflows_of s1)\<lparr>yt_versions := replace_row wv_pk ?v (yt_versions (workflows_of s1))\<rparr>"
    and r: "find_workflow ctx i s2 = Some r"
    and s3: "workflows_of s3 = (workflows_of s2)\<lparr>yt_records := replace_row wr_pk ?r (yt_records (workflows_of s2))\<rparr>"
    and e: "oe_event_type e = ''workflow.definition.activated''" "wf_announces (workflows_of s3) e (ctx_workspace ctx) i n"
    and s4: "workflows_of s4 = (workflows_of s3)\<lparr>yt_events := yt_events (workflows_of s3) @ [e]\<rparr>"
  have v': "v \<in> set (yt_versions (workflows_of s))" "workspace_id v = ctx_workspace ctx" "wv_definition_id v = i" "wv_version v = n"
    using find_SomeD [OF v [unfolded find_workflow_version_def]] by (simp_all add: s1 [symmetric]) (simp add: workflows_of_def)
  moreover have "r \<in> set (yt_records (workflows_of s2))"
    using find_SomeD [OF r [unfolded find_workflow_def]] by (simp add: workflows_of_def)
  then have "r \<in> set (yt_records (workflows_of s))" unfolding s2 s1 by simp
  moreover have "workflows_of s4 = (workflows_of s)\<lparr>yt_records := replace_row wr_pk ?r (yt_records (workflows_of s)),
      yt_versions := replace_row wv_pk ?v (yt_versions (workflows_of s)), yt_events := yt_events (workflows_of s) @ [e]\<rparr>"
    unfolding s4 s3 s2 s1 by simp
  ultimately have "flow_step env (ctx_home ctx) (workflows_of s) (workflows_of s4)"
    using flow_step.activate [of v "workflows_of s" ?v now r ?r e env "ctx_home ctx"] inactive e v'
    by (simp add: instance_event_def s3 s2 s1)
  moreover have "wf_announces (workflows_of s) e (ctx_workspace ctx) i n" using e(2) by (simp add: s3 s2 s1)
  then have "(ctx_workspace ctx, i, n) \<notin> event_number ` set (yt_events (workflows_of s))" by (metis wf_announces_def)
  ultimately show "Q ?v s4" by (rule assms(2))
qed

lemma run_start:
  assumes "\<And>x s'. flow_step env (ctx_home ctx) (workflows_of s) (workflows_of s') \<Longrightarrow>
    active_version (ctx_workspace ctx) d n (workflows_of s) \<Longrightarrow> Q x s'"
  shows "wp (start_workflow env ask ctx i d n payload key now) Q any_error s"
  unfolding start_workflow_def Let_def
proof (intro run_then run_require_allowed, intro run_bind run_gets run_some run_require run_lift run_then
    run_add_workflow_instance run_record_workflow run_return assms)
  fix s1 s2 s3 :: "'a workflow_db_scheme" and v df canonical first state v0 e
  let ?x = "started_instance ctx i d n first state (sha256_hex env canonical) key now"
  assume s1: "workflows_of s1 = workflows_of s" and v: "find_workflow_version ctx d n s1 = Some v"
    and active: "wv_activated_at v \<noteq> None" and df: "model_validate_json env (wv_schema_json v) = Inr df"
    and first: "(case wd_steps df of [] \<Rightarrow> Inl IndexError | st # _ \<Rightarrow> Inr (st_key st)) = Inr first"
    and fresh: "wi_pk ?x \<notin> wi_pk ` set (yt_instances (workflows_of s1))"
    and v0: "v0 \<in> set (yt_versions (workflows_of s1))" "bound_to ?x v0"
    and s2: "workflows_of s2 = (workflows_of s1)\<lparr>yt_instances := yt_instances (workflows_of s1) @ [?x]\<rparr>"
    and e: "wf_announces (workflows_of s2) e (ctx_workspace ctx) i 1" "oe_event_type e = ''workflow.instance.started''"
    and s3: "workflows_of s3 = (workflows_of s2)\<lparr>yt_events := yt_events (workflows_of s2) @ [e]\<rparr>"
  have x: "home_of ?x = ctx_home ctx" "workspace_id ?x = ctx_workspace ctx" by (simp_all add: started_instance_def context_tenant_def)
  have x': "wi_id ?x = i" "wi_version ?x = 1" "wi_definition_id ?x = d" "wi_definition_version ?x = n"
    "place ?x = (Some first, INSTANCE_RUNNING)"
    by (simp_all add: place_def started_instance_def workflow_instance.fields_def tenant_row.extend_def)
  have v': "v \<in> set (yt_versions (workflows_of s))" "workspace_id v = ctx_workspace ctx" "wv_definition_id v = d" "wv_version v = n"
    using find_SomeD [OF v [unfolded find_workflow_version_def]] by (simp_all add: s1 [symmetric]) (simp add: workflows_of_def)
  then show "active_version (ctx_workspace ctx) d n (workflows_of s)" using active by (auto simp: active_version_def version_of_def)
  note v'
  moreover have "place ?x = first_position df" using first x'(5) by (cases "wd_steps df") (auto simp: first_position_def)
  moreover have "workflows_of s3 = (workflows_of s)\<lparr>yt_instances := yt_instances (workflows_of s) @ [?x],
      yt_events := yt_events (workflows_of s) @ [e]\<rparr>"
    unfolding s3 s2 s1 by simp
  ultimately show "flow_step env (ctx_home ctx) (workflows_of s) (workflows_of s3)"
    using flow_step.start [of ?x "ctx_home ctx" "workflows_of s" v0 v env df e] active df fresh v0 e
    by (simp add: x x' s1 s2 instance_event_def)
qed

lemma run_transition:
  assumes "\<And>x s'. flow_step env (ctx_home ctx) (workflows_of s) (workflows_of s') \<Longrightarrow>
    instance_moved env (ctx_workspace ctx) i outcome n tkey (workflows_of s) (workflows_of s') \<Longrightarrow> Q x s'"
  shows "wp (transition_workflow env ask ctx i outcome n tkey now) Q any_error s"
  unfolding transition_workflow_def Let_def
proof (intro run_then run_require_allowed, intro run_bind run_gets run_some run_require run_lift run_then wf.run_uuid4
    run_save_workflow_instance run_add_workflow_receipt run_record_workflow run_return)
  fix s1 s2 s3 s4 s5 :: "'a workflow_db_scheme" and a v k d r receipt_id e
  let ?b = "moved a r now" and ?x = "transition_receipt ctx a tkey r receipt_id now"
  assume s1: "workflows_of s1 = workflows_of s" and a: "find_instance ctx i s1 = Some a" and n: "wi_version a = n"
    and v: "find_workflow_version ctx (wi_definition_id a) (wi_definition_version a) s1 = Some v"
    and k: "wi_current_step_key a = Some k" and d: "model_validate_json env (wv_schema_json v) = Inr d"
    and r: "decide_next d k outcome (wi_status a) = Inr r" and s2: "workflows_of s2 = workflows_of s1"
    and s3: "workflows_of s3 = (workflows_of s2)\<lparr>yt_instances := replace_row wi_pk ?b (yt_instances (workflows_of s2))\<rparr>"
    and x: "tenant_pk ?x (wc_instance_id ?x) \<in> wi_pk ` set (yt_instances (workflows_of s3))"
      "(tenant_pk ?x (wc_instance_id ?x), wc_transition_key ?x) \<notin>
        (\<lambda>y. (tenant_pk y (wc_instance_id y), wc_transition_key y)) ` set (yt_receipts (workflows_of s3))"
    and s4: "workflows_of s4 = (workflows_of s3)\<lparr>yt_receipts := yt_receipts (workflows_of s3) @ [?x]\<rparr>"
    and e: "wf_announces (workflows_of s4) e (ctx_workspace ctx) (wi_id ?b) (wi_version ?b)" "oe_event_type e = ''workflow.instance.transitioned''"
    and s5: "workflows_of s5 = (workflows_of s4)\<lparr>yt_events := yt_events (workflows_of s4) @ [e]\<rparr>"
  have x': "home_of ?x = ctx_home ctx" "wc_instance_id ?x = wi_id a" "wc_outcome ?x = wt_status r" "wc_transition_key ?x = tkey"
    by (simp_all add: transition_receipt_def home_of_extend)
      (simp_all add: workflow_receipt.fields_def tenant_row.extend_def)
  have a': "a \<in> set (yt_instances (workflows_of s))" "workspace_id a = ctx_workspace ctx" "wi_id a = i"
    using find_SomeD [OF a [unfolded find_instance_def]] by (simp_all add: s1 [symmetric]) (simp add: workflows_of_def)
  have v': "v \<in> set (yt_versions (workflows_of s))" "workspace_id v = ctx_workspace ctx" "wv_definition_id v = wi_definition_id a"
    "wv_version v = wi_definition_version a"
    using find_SomeD [OF v [unfolded find_workflow_version_def]] by (simp_all add: s1 [symmetric]) (simp add: workflows_of_def)
  have t: "workflows_of s5 = (workflows_of s)\<lparr>yt_instances := replace_row wi_pk ?b (yt_instances (workflows_of s)),
      yt_receipts := yt_receipts (workflows_of s) @ [?x], yt_events := yt_events (workflows_of s) @ [e]\<rparr>"
    unfolding s5 s4 s3 s2 s1 by simp
  have keys: "wi_pk ` set (replace_row wi_pk ?b (yt_instances (workflows_of s))) = wi_pk ` set (yt_instances (workflows_of s))"
    by (metis list.set_map map_key_replace_row)
  have "flow_step env (ctx_home ctx) (workflows_of s) (workflows_of s5)"
    unfolding t
    by (rule flow_step.move [OF a'(1) _ v'(1) _ v'(3,4) d k r refl x'(1,2,3)])
      (use a' v' x x' e keys in \<open>simp_all add: s4 s3 s2 s1 instance_event_def\<close>)
  moreover have "instance_moved env (ctx_workspace ctx) i outcome n tkey (workflows_of s) (workflows_of s5)"
    unfolding instance_moved_def t
    by (rule exI [of _ a], rule exI [of _ ?b], rule exI [of _ v], rule exI [of _ d], rule exI [of _ k], rule exI [of _ r],
        rule exI [of _ ?x], rule exI [of _ now]) (use a' v' d k r n x' in simp)
  ultimately show "Q ?b s5" by (rule assms)
qed

lemma run_request_approval:
  assumes "\<And>x s'. flow_step env (ctx_home ctx) (workflows_of s) (workflows_of s') \<Longrightarrow> Q x s'"
  shows "wp (request_approval ask ctx r) Q any_error s"
  unfolding request_approval_def Let_def
proof (intro run_then run_require_allowed, intro run_bind run_gets run_require run_lift run_then
    run_add_workflow_approval run_return assms)
  fix s1 s2 :: "'a workflow_db_scheme" and expires
  let ?a = "approval_row ctx r expires"
  assume s1: "workflows_of s1 = workflows_of s"
    and fresh: "tenant_pk ?a (wa_id ?a) \<notin> (\<lambda>x. tenant_pk x (wa_id x)) ` set (yt_approvals (workflows_of s1))"
    and inst: "tenant_pk ?a (wa_instance_id ?a) \<in> wi_pk ` set (yt_instances (workflows_of s1))"
    and s2: "workflows_of s2 = (workflows_of s1)\<lparr>yt_approvals := yt_approvals (workflows_of s1) @ [?a]\<rparr>"
  have "home_of ?a = ctx_home ctx" by (simp add: approval_row_def)
  then show "flow_step env (ctx_home ctx) (workflows_of s) (workflows_of s2)"
    using flow_step.ask [of ?a "ctx_home ctx" "workflows_of s" env] fresh inst unfolding s2 s1 by simp
qed

lemma run_decide_approval:
  assumes "a \<in> set (yt_approvals (workflows_of s))" "workspace_id a = ctx_workspace ctx"
    and "\<And>x s'. flow_step env (ctx_home ctx) (workflows_of s) (workflows_of s') \<Longrightarrow> Q x s'"
  shows "wp (decide_approval ask ctx a d) Q any_error s"
  unfolding decide_approval_def Let_def
proof (intro run_then run_require_allowed, intro run_then run_require run_add_workflow_decision run_return assms(3))
  fix s1 s2 :: "'a workflow_db_scheme"
  let ?y = "decision_row ctx a d"
  assume s1: "workflows_of s1 = workflows_of s" and other: "ad_approver_id d \<noteq> wa_requested_by_user_id a"
    and bound: "ad_request_id d = wa_id a \<and> ad_action_digest d = wa_action_digest a"
    and known: "tenant_pk ?y (we_approval_id ?y) \<in> (\<lambda>x. tenant_pk x (wa_id x)) ` set (yt_approvals (workflows_of s1))"
    and fresh: "(tenant_pk ?y (we_approval_id ?y), we_approver_id ?y) \<notin>
      (\<lambda>x. (tenant_pk x (we_approval_id x), we_approver_id x)) ` set (yt_decisions (workflows_of s1))"
    and s2: "workflows_of s2 = (workflows_of s1)\<lparr>yt_decisions := yt_decisions (workflows_of s1) @ [?y]\<rparr>"
  have y: "home_of ?y = ctx_home ctx" "we_approval_id ?y = wa_id a" "we_approver_id ?y = ad_approver_id d"
    "we_action_digest ?y = ad_action_digest d"
    by (simp_all add: decision_row_def home_of_extend)
      (simp_all add: workflow_approval_decision.fields_def tenant_row.extend_def)
  show "flow_step env (ctx_home ctx) (workflows_of s) (workflows_of s2)"
    unfolding s2 s1
    by (rule flow_step.decide [OF y(1) assms(1)])
      (use y assms(2) other bound known fresh s1 in \<open>simp_all\<close>)
qed

end

interpretation h1_workflows: workflow_authorizer env "h1_authorize env" for env
  by (intro workflow_authorizer.intro component_authorizer.intro component_authorizer_axioms.intro)
    (rule wf.component_view_axioms, rule h1.authorizer_axioms, rule keeps_typed_h1_authorize, simp)

end
