(* ===== verification/Workflow_Calls.thy ===== *)
theory Workflow_Calls
  imports Workflow_Refinement
begin

text \<open>
  Calls of workflows and approvals. \<open>workflow_calls\<close> are the states that calls of the
  service reach, each in a transaction of its own under some execution context, with any authorizer
  that keeps to its interface; operations that leave the tables of workflows alone may come in
  between. An approval is decided on a row that the caller has loaded in its workspace.
\<close>

section \<open>Calls\<close>

datatype workflow_call =
    Register workflow_definition instant
  | Activate uuid int instant
  | Start_workflow uuid uuid int json string instant
  | Transition uuid string int string instant
  | Request_approval approval_request
  | Decide_approval workflow_approval approval_decision

fun run_workflow_call :: "py_env \<Rightarrow> 'a workflow_db_scheme authorizer \<Rightarrow> execution_context \<Rightarrow> workflow_call \<Rightarrow>
    ('a workflow_db_scheme, unit) M" where
  "run_workflow_call env ask ctx (Register d now) = ignoring (register env ask ctx d now)"
| "run_workflow_call env ask ctx (Activate i n now) = ignoring (activate env ask ctx i n now)"
| "run_workflow_call env ask ctx (Start_workflow i d n payload k now) =
     ignoring (start_workflow env ask ctx i d n payload k now)"
| "run_workflow_call env ask ctx (Transition i outcome n k now) =
     ignoring (transition_workflow env ask ctx i outcome n k now)"
| "run_workflow_call env ask ctx (Request_approval r) = ignoring (request_approval ask ctx r)"
| "run_workflow_call env ask ctx (Decide_approval a d) = ignoring (decide_approval ask ctx a d)"

fun loaded :: "execution_context \<Rightarrow> workflow_call \<Rightarrow> 'a workflow_db_scheme \<Rightarrow> bool" where
  "loaded ctx (Decide_approval a d) s \<longleftrightarrow> a \<in> set (workflow_approvals s) \<and> workspace_id a = ctx_workspace ctx"
| "loaded ctx c s \<longleftrightarrow> True"

inductive workflow_calls :: "py_env \<Rightarrow> 'a workflow_db_scheme authorizer \<Rightarrow> 'a workflow_db_scheme \<Rightarrow>
    'a workflow_db_scheme \<Rightarrow> bool" for env ask s where
  start: "workflow_calls env ask s s"
| call: "workflow_calls env ask s s' \<Longrightarrow> loaded ctx c s' \<Longrightarrow>
    workflow_calls env ask s (snd (transaction ctx (run_workflow_call env ask ctx c) s'))"
| other: "workflow_calls env ask s s' \<Longrightarrow> keeps workflows_of m \<Longrightarrow>
    workflow_calls env ask s (snd (transaction ctx (m :: ('a workflow_db_scheme, unit) M) s'))"

text \<open>What a call that returns has done to the tables.\<close>

fun workflow_call_effect :: "py_env \<Rightarrow> execution_context \<Rightarrow> workflow_call \<Rightarrow> workflow_tables \<Rightarrow> workflow_tables \<Rightarrow> bool" where
  "workflow_call_effect env ctx (Activate i n now) t t' \<longleftrightarrow>
     t' = t \<and> active_version (ctx_workspace ctx) i n t \<or>
     flow_step env (ctx_home ctx) t t' \<and> (ctx_workspace ctx, i, n) \<notin> event_number ` set (yt_events t)"
| "workflow_call_effect env ctx (Start_workflow i d n payload k now) t t' \<longleftrightarrow>
     flow_step env (ctx_home ctx) t t' \<and> active_version (ctx_workspace ctx) d n t"
| "workflow_call_effect env ctx (Register d now) t t' \<longleftrightarrow> flow_step env (ctx_home ctx) t t' \<and>
     announced_draft (ctx_workspace ctx) (wd_definition_id d) (wd_version d) t'"
| "workflow_call_effect env ctx (Transition i outcome n k now) t t' \<longleftrightarrow> flow_step env (ctx_home ctx) t t' \<and>
     instance_moved env (ctx_workspace ctx) i outcome n k t t'"
| "workflow_call_effect env ctx c t t' \<longleftrightarrow> flow_step env (ctx_home ctx) t t'"

context workflow_authorizer
begin

lemma run_workflow_call_effect:
  assumes "loaded ctx c s"
  shows "wp (run_workflow_call env ask ctx c) (\<lambda>_ s'. workflow_call_effect env ctx c (workflows_of s) (workflows_of s'))
    any_error s"
proof (cases c)
  case (Register d now)
  show ?thesis unfolding Register run_workflow_call.simps by (rule run_ignoring, rule run_register) simp
next
  case (Activate i n now)
  show ?thesis unfolding Activate run_workflow_call.simps by (rule run_ignoring, rule run_activate) simp_all
next
  case (Start_workflow i d n payload k now)
  show ?thesis unfolding Start_workflow run_workflow_call.simps by (rule run_ignoring, rule run_start) simp
next
  case (Transition i outcome n k now)
  show ?thesis unfolding Transition run_workflow_call.simps by (rule run_ignoring, rule run_transition) simp
next
  case (Request_approval r)
  show ?thesis unfolding Request_approval run_workflow_call.simps by (rule run_ignoring, rule run_request_approval) simp
next
  case (Decide_approval a d)
  have "a \<in> set (yt_approvals (workflows_of s))" "workspace_id a = ctx_workspace ctx"
    using assms by (simp_all add: Decide_approval workflows_of_def)
  then show ?thesis unfolding Decide_approval run_workflow_call.simps
    by (intro run_ignoring run_decide_approval) simp_all
qed

lemma transaction_workflow_call:
  assumes "loaded ctx c s"
  shows "case transaction ctx (run_workflow_call env ask ctx c) s of
      (Inl e, s') \<Rightarrow> workflows_of s' = workflows_of s
    | (Inr _, s') \<Rightarrow> workflow_call_effect env ctx c (workflows_of s) (workflows_of s')"
proof (rule transaction_effect)
  have "loaded ctx c (started ctx s)" using assms by (cases c) (simp_all add: started_def with_context_def)
  from run_workflow_call_effect [OF this]
  show "wp (run_workflow_call env ask ctx c) (\<lambda>_ s'. workflow_call_effect env ctx c (workflows_of s) (workflows_of s'))
    any_error (started ctx s)"
    by (simp add: V_started)
qed

end

lemma call_effect_is_step: "workflow_call_effect env ctx c t t' \<Longrightarrow> wf_effect env (ctx_home ctx) t t'"
  by (cases c) (auto simp: wf_effect_def)

lemma workflow_call_step:
  assumes "workflow_authorizer env ask" "loaded ctx c s"
  shows "wf_effect env (ctx_home ctx) (workflows_of s) (workflows_of (snd (transaction ctx (run_workflow_call env ask ctx c) s)))"
  using workflow_authorizer.transaction_workflow_call [OF assms]
  by (cases "transaction ctx (run_workflow_call env ask ctx c) s"; cases "fst (transaction ctx (run_workflow_call env ask ctx c) s)")
    (auto simp: wf_effect_def dest: call_effect_is_step)

section \<open>Along calls\<close>

definition workflow_steps :: "py_env \<Rightarrow> workflow_tables \<Rightarrow> workflow_tables \<Rightarrow> bool" where
  "workflow_steps env = (\<lambda>t t'. \<exists>c. flow_step env c t t')\<^sup>*\<^sup>*"

lemma workflow_calls_steps:
  assumes "workflow_calls env ask s s'" "workflow_authorizer env ask"
  shows "workflow_steps env (workflows_of s) (workflows_of s')"
  using assms
proof (induction rule: workflow_calls.induct)
  case start
  then show ?case by (simp add: workflow_steps_def)
next
  case (call s' ctx c)
  then have "workflow_steps env (workflows_of s) (workflows_of s')" by simp
  with workflow_call_step [OF call.prems call.hyps(2)] show ?case
    unfolding wf_effect_def workflow_steps_def by (metis (mono_tags, lifting) rtranclp.rtrancl_into_rtrancl)
next
  case (other s' m ctx)
  then show ?case using wf.transaction_keeps_V [OF other.hyps(2)] by simp
qed

lemma workflow_steps_inv: "workflow_steps env t t' \<Longrightarrow> workflow_inv env t \<Longrightarrow> workflow_inv env t'"
  unfolding workflow_steps_def by (induction rule: rtranclp_induct) (auto intro: workflow_step_inv)

lemma workflow_calls_inv:
  "workflow_calls env ask s s' \<Longrightarrow> workflow_authorizer env ask \<Longrightarrow> workflow_inv env (workflows_of s) \<Longrightarrow>
   workflow_inv env (workflows_of s')"
  using workflow_calls_steps workflow_steps_inv by blast

lemma workflow_steps_later:
  assumes "workflow_steps env t t'" "workflow_inv env t" "i \<in> set (yt_instances t)"
  shows "\<exists>i' \<in> set (yt_instances t'). later_instance i i'"
  using assms(1) unfolding workflow_steps_def
proof (induction rule: rtranclp_induct)
  case base
  then show ?case using assms(3) later_instance_refl by blast
next
  case (step u u')
  then obtain j c where j: "j \<in> set (yt_instances u)" "later_instance i j" "flow_step env c u u'" by blast
  have "workflow_inv env u" by (rule workflow_steps_inv [OF _ assms(2)]) (use step(1) in \<open>unfold workflow_steps_def, blast\<close>)
  then obtain k where "k \<in> set (yt_instances u')" "later_instance j k" using workflow_step_later [OF j(3) _ j(1)] by blast
  then show ?case using later_instance_trans [OF j(2)] by blast
qed

text \<open>A draft that its registration announced stays one.\<close>

lemma announced_draft_step:
  assumes "flow_step env c t t'" "announced_draft w i n t"
  shows "announced_draft w i n t'"
  using assms(1)
proof cases
  case (activate v v' now r r' e)
  obtain u where u: "u \<in> set (yt_versions t)" "version_of w i n u" "wv_activated_at u = None"
    and ev: "(w, i, n) \<in> event_number ` set (yt_events t)"
    using assms(2) by (auto simp: announced_draft_def)
  have "\<not> version_of w i n v" using activate(8) ev by (auto simp: wf_announces_def version_of_def)
  then have "wv_pk u \<noteq> wv_pk v'" using u(2) activate(4) by (auto simp: version_of_def wv_pk_def tenant_pk_def)
  then have "u \<in> set (yt_versions t')" using u(1) by (simp add: activate(1) replace_row_other)
  then show ?thesis using u ev by (auto simp: announced_draft_def activate(1))
qed (use assms(2) in \<open>auto simp: announced_draft_def\<close>)

lemma announced_draft_steps: "workflow_steps env t t' \<Longrightarrow> announced_draft w i n t \<Longrightarrow> announced_draft w i n t'"
  unfolding workflow_steps_def by (induction rule: rtranclp_induct) (auto intro: announced_draft_step)

lemma draft_not_active:
  assumes "workflow_inv env t" "announced_draft w i n t"
  shows "\<not> active_version w i n t"
proof
  assume "active_version w i n t"
  then obtain v where v: "v \<in> set (yt_versions t)" "version_of w i n v" "wv_activated_at v \<noteq> None" by (auto simp: active_version_def)
  obtain u where u: "u \<in> set (yt_versions t)" "version_of w i n u" "wv_activated_at u = None"
    using assms(2) by (auto simp: announced_draft_def)
  note D = workflow_invD [OF assms(1)]
  have "home_of u = home_of v"
    by (rule one_tenant [OF D(1) version_tenant [OF D(1) u(1)] version_tenant [OF D(1) v(1)]])
      (use u(2) v(2) in \<open>simp add: workspace_tenant [symmetric] version_of_def\<close>)
  then have "u = v" using distinct_keys_unique [OF D(2) u(1) v(1)] u(2) v(2) by (simp add: wv_pk_eq version_of_def)
  then show False using u(3) v(3) by simp
qed

section \<open>Moves that succeed\<close>

text \<open>The details that a workflow is recorded with hold no forbidden term.\<close>

lemma sublist_around:
  assumes "sublist w (a @ d @ b)" "d \<noteq> []" "set w \<inter> set d = {}" "w \<noteq> []"
  shows "sublist w a \<or> sublist w b"
proof -
  have part: "x = []" if "set x \<subseteq> set w" "set x \<subseteq> set d" for x using that assms(3) by (cases x) auto
  consider "sublist w a" | "sublist w d" | "sublist w b"
    | (over) x y where "w = x @ y" "suffix x d" "prefix y b" | (across) x y where "w = x @ y" "suffix x a" "prefix y (d @ b)"
    using assms(1) unfolding sublist_append [of w a] sublist_append [of w d] by blast
  then show ?thesis
  proof cases
    case 2
    then show ?thesis using assms(4) part [of w] set_mono_sublist by blast
  next
    case over
    then have "x = []" using part [of x] by (auto dest: set_mono_suffix)
    then show ?thesis using over by (simp add: prefix_imp_sublist)
  next
    case across
    have "y = []"
    proof (rule ccontr)
      assume "y \<noteq> []"
      then have "hd y = hd d" using across(3) assms(2) by (auto simp: prefix_def) (metis hd_append2)
      then have "hd d \<in> set w \<inter> set d" using \<open>y \<noteq> []\<close> assms(2) across(1) by (metis IntI Un_iff hd_in_set set_append)
      then show False using assms(3) by simp
    qed
    then show ?thesis using across by (simp add: suffix_imp_sublist)
  qed blast+
qed

lemma int_str_nonempty: "int_str n \<noteq> []"
  using nat_digits_Cons by (auto simp: int_str_def) (metis list.distinct(1))

lemma term_chars:
  assumes "w \<in> set FORBIDDEN_PAYLOAD_TERMS" "c \<in> set w"
  shows "95 \<le> (of_char c :: nat)"
  using assms by (auto simp: FORBIDDEN_PAYLOAD_TERMS_def)

lemma number_no_term_char:
  assumes "w \<in> set FORBIDDEN_PAYLOAD_TERMS"
  shows "set w \<inter> set (ascii_lower (int_str n)) = {}"
proof -
  have "(of_char (ascii_lower_char c) :: nat) < 95" if "c \<in> set (int_str n)" for c
    using int_str_chars [OF that] by (auto simp: ascii_lower_char_def digit_char_def Let_def)
  then show ?thesis using term_chars [OF assms] by (force simp: ascii_lower_def)
qed

definition recorded_statuses :: "string list" where
  "recorded_statuses = map instance_status_value [INSTANCE_RUNNING, INSTANCE_WAITING, INSTANCE_WAITING_APPROVAL,
     INSTANCE_PAUSED, INSTANCE_SUCCEEDED, INSTANCE_FAILED, INSTANCE_CANCELLED, INSTANCE_COMPENSATION_FAILED, INSTANCE_UNCERTAIN]
     @ [''draft'', ''active'']"

lemma statuses_no_term:
  assumes "st \<in> set recorded_statuses" "w \<in> set FORBIDDEN_PAYLOAD_TERMS"
  shows "\<not> py_in w (ascii_lower (CHR 0x7B # json_quote True ''status'' @ '':'' @ json_quote True st @ '','' @
    json_quote True ''version'' @ '':''))"
proof -
  have "list_all (\<lambda>st. list_all (\<lambda>w. \<not> py_in w (ascii_lower (CHR 0x7B # json_quote True ''status'' @ '':'' @ json_quote True st @ '','' @
    json_quote True ''version'' @ '':''))) FORBIDDEN_PAYLOAD_TERMS) recorded_statuses"
    by code_simp
  then show ?thesis using assms by (simp add: list_all_iff)
qed

lemma workflow_details_safe:
  assumes "st \<in> set recorded_statuses"
  shows "messaging_safe_payload (workflow_details n st) = Inr (workflow_details n st)"
proof -
  let ?a = "CHR 0x7B # json_quote True ''status'' @ '':'' @ json_quote True st @ '','' @ json_quote True ''version'' @ '':''"
  have "\<not> ''version'' \<le> ''status''" by (simp add: less_eq_char_def)
  then have dumped: "json_dumps (workflow_details n st) = Some (?a @ int_str n @ [CHR 0x7D])"
    by (simp add: json_dumps_def json_dumps_with_def workflow_details_def)
  have "\<not> py_in w (ascii_lower (?a @ int_str n @ [CHR 0x7D]))" if w: "w \<in> set FORBIDDEN_PAYLOAD_TERMS" for w
  proof
    assume "py_in w (ascii_lower (?a @ int_str n @ [CHR 0x7D]))"
    then have "sublist w (ascii_lower ?a @ ascii_lower (int_str n) @ ascii_lower [CHR 0x7D])"
      by (simp add: py_in_sublist ascii_lower_def)
    moreover have "ascii_lower (int_str n) \<noteq> []" "w \<noteq> []"
      using int_str_nonempty w by (auto simp: ascii_lower_def FORBIDDEN_PAYLOAD_TERMS_def)
    ultimately have "sublist w (ascii_lower ?a) \<or> sublist w (ascii_lower [CHR 0x7D])"
      using sublist_around number_no_term_char [OF w] by blast
    then show False using statuses_no_term [OF assms w] w
      by (auto simp: py_in_sublist ascii_lower_def FORBIDDEN_PAYLOAD_TERMS_def sublist_Cons_right)
  qed
  then show ?thesis by (simp add: messaging_safe_payload_def dumped sensitive_text_def list_ex_iff)
qed

text \<open>The identifiers that the session will draw are not in use.\<close>

definition fresh_ids :: "py_env \<Rightarrow> nat \<Rightarrow> 'a workflow_db_scheme \<Rightarrow> bool" where
  "fresh_ids env k s \<longleftrightarrow> distinct (map (uuid4_stream env) [draws s ..< draws s + k]) \<and>
     (\<forall>n \<in> {draws s ..< draws s + k}. uuid4_stream env n \<notin> ae_id ` set (audit_events s) \<and>
        uuid4_stream env n \<notin> oe_id ` set (outbox_events s) \<and> uuid4_stream env n \<notin> wc_id ` set (workflow_receipts s))"

lemma fresh_idsD:
  assumes "fresh_ids env k s" "n < k"
  shows "uuid4_stream env (draws s + n) \<notin> ae_id ` set (audit_events s)"
    "uuid4_stream env (draws s + n) \<notin> oe_id ` set (outbox_events s)"
    "uuid4_stream env (draws s + n) \<notin> wc_id ` set (workflow_receipts s)"
  using assms by (simp_all add: fresh_ids_def)

lemma fresh_ids_drawn:
  assumes "fresh_ids env (Suc k) s" "draws s' = Suc (draws s)" "audit_events s' = audit_events s"
    "outbox_events s' = outbox_events s" "wc_id ` set (workflow_receipts s') \<subseteq> insert (uuid4_stream env (draws s)) (wc_id ` set (workflow_receipts s))"
  shows "fresh_ids env k s'"
proof -
  have "[draws s ..< draws s + Suc k] = draws s # [Suc (draws s) ..< Suc (draws s) + k]"
    by (metis add_Suc add_Suc_right upt_conv_Cons less_add_Suc1)
  then have D: "uuid4_stream env (draws s) \<notin> uuid4_stream env ` {Suc (draws s) ..< Suc (draws s) + k}"
    "distinct (map (uuid4_stream env) [Suc (draws s) ..< Suc (draws s) + k])"
    using assms(1) unfolding fresh_ids_def by (simp_all del: upt_Suc)
  have F: "uuid4_stream env n \<notin> ae_id ` set (audit_events s) \<and> uuid4_stream env n \<notin> oe_id ` set (outbox_events s) \<and>
      uuid4_stream env n \<notin> wc_id ` set (workflow_receipts s')"
    if n: "n \<in> {Suc (draws s) ..< Suc (draws s) + k}" for n
  proof -
    have "uuid4_stream env n \<noteq> uuid4_stream env (draws s)" using D(1) n by (metis imageI)
    moreover have "uuid4_stream env n \<notin> wc_id ` set (workflow_receipts s)" "uuid4_stream env n \<notin> ae_id ` set (audit_events s)"
      "uuid4_stream env n \<notin> oe_id ` set (outbox_events s)"
      using assms(1) n unfolding fresh_ids_def by simp_all
    ultimately show ?thesis using subsetD [OF assms(5), of "uuid4_stream env n"] by fast
  qed
  show ?thesis unfolding fresh_ids_def assms(2-4) by (rule conjI [OF D(2)], rule ballI, rule F)
qed

lemma wp_record_workflow_succeeds:
  fixes s :: "'a workflow_db_scheme"
  assumes "st \<in> set recorded_statuses" "writable (ctx_workspace ctx) s" "workspace_exists (ctx_workspace ctx) s" "fresh_ids env 3 s"
    and "(ctx_workspace ctx, i, n) \<notin> event_number ` set (yt_events (workflows_of s))" "\<And>s'. Q () s'"
  shows "wp (record_workflow env ctx i event n cl st occurred) Q E s"
  unfolding record_workflow_def wp_bindM
proof (rule wp_audit_write_succeeds)
  show "messaging_safe_payload (details_or_empty (ai_details (audit_input event ''workflow'' i ''success''
      \<lparr>ai_classification := cl, ai_details := Some (workflow_details n st)\<rparr>))) =
    Inr (details_or_empty (ai_details (audit_input event ''workflow'' i ''success''
      \<lparr>ai_classification := cl, ai_details := Some (workflow_details n st)\<rparr>)))"
    by (simp add: details_or_empty_def workflow_details_safe [OF assms(1)])
  show "workspace_exists (ctx_workspace ctx) s" by (rule assms(3))
  show "list_all (\<lambda>x. ae_id x \<noteq> uuid4_stream env (draws s)) (audit_events s)"
    using fresh_idsD(1) [OF assms(4), of 0] unfolding list_all_iff by (metis add_0_right imageI zero_less_numeral)
  fix e hs
  let ?s = "s\<lparr>draws := Suc (Suc (draws s)), audit_events := audit_events s @ [e], audit_chain_heads := hs\<rparr>"
  let ?i = "uuid4_stream env (Suc (Suc (draws s)))"
  have "?i \<notin> oe_id ` set (outbox_events s)" using fresh_idsD(2) [OF assms(4), of 2] by simp
  moreover have "writable (ctx_workspace ctx) (?s\<lparr>draws := d\<rparr>)" for d using assms(2) by (simp add: writable_def)
  moreover have "oe_aggregate_type x \<noteq> ''workflow'' \<or> (oe_workspace_id x, oe_aggregate_id x, oe_aggregate_sequence x) \<noteq>
      (ctx_workspace ctx, i, n)" if "x \<in> set (outbox_events s)" for x
    using assms(5) that by (force simp: workflows_of_def typed_events_def event_number_def)
  ultimately show "wp (uuid4 env) (\<lambda>x. wp (insert_outbox_event (workflow_outbox_row ctx i event n cl st occurred x (ae_recorded_at e)))
      Q E) E ?s"
    using assms(3,6)
    by (auto simp: wp_simps workflow_outbox_row_def outbox_event_constraints_def workspace_exists_def list_all_iff image_iff
        writable_def)
qed

text \<open>A move on an open instance, with everything it writes accepted.\<close>

lemma find_the_instance:
  assumes "workflow_inv env (workflows_of s)" "i \<in> set (workflow_instances s)" "workspace_id i = ctx_workspace ctx"
  shows "find_instance ctx (wi_id i) s = Some i"
  unfolding find_instance_def
proof (rule find_unique [OF assms(2)])
  fix j assume "j \<in> set (workflow_instances s)" "workspace_id j = ctx_workspace ctx \<and> wi_id j = wi_id i"
  then show "j = i"
    using same_instance [OF workflow_invD(1,3) [OF assms(1)], of j i] assms(2,3) by (simp add: workflows_of_def)
qed (simp add: assms(3))

lemma find_the_version:
  assumes "workflow_inv env (workflows_of s)" "v \<in> set (workflow_definition_versions s)" "workspace_id v = ctx_workspace ctx"
  shows "find_workflow_version ctx (wv_definition_id v) (wv_version v) s = Some v"
  unfolding find_workflow_version_def
proof (rule find_unique [OF assms(2)])
  note D = workflow_invD [OF assms(1)]
  fix u assume u: "u \<in> set (workflow_definition_versions s)"
    "workspace_id u = ctx_workspace ctx \<and> wv_definition_id u = wv_definition_id v \<and> wv_version u = wv_version v"
  have in_t: "u \<in> set (yt_versions (workflows_of s))" "v \<in> set (yt_versions (workflows_of s))"
    using u(1) assms(2) by (simp_all add: workflows_of_def)
  have "home_of u = home_of v"
    by (rule one_tenant [OF D(1) version_tenant [OF D(1) in_t(1)] version_tenant [OF D(1) in_t(2)]])
      (use u(2) assms(3) in \<open>simp add: workspace_tenant [symmetric]\<close>)
  then show "u = v" using distinct_keys_unique [OF D(2) in_t] u(2) by (simp add: wv_pk_eq)
qed (simp add: assms(3))

text \<open>What the tables and the session have to allow: the row checks and the keys that a move adds.\<close>

definition room_to_move :: "py_env \<Rightarrow> execution_context \<Rightarrow> workflow_instance \<Rightarrow> string \<Rightarrow> 'a workflow_db_scheme \<Rightarrow> bool" where
  "room_to_move env ctx i transition_key s \<longleftrightarrow>
     session_context s = Some ctx \<and> writable (ctx_workspace ctx) s \<and> workspace_exists (ctx_workspace ctx) s \<and>
     fresh_ids env 4 s \<and> home_of i = ctx_home ctx \<and> length (wi_idempotency_key i) \<le> 128 \<and>
     length transition_key \<le> 128 \<and> transition_key \<notin> wc_transition_key ` set (receipts_of (workflows_of s) i) \<and>
     (ctx_workspace ctx, wi_id i, wi_version i + 1) \<notin> event_number ` set (yt_events (workflows_of s)) \<and>
     (\<forall>v d. v \<in> set (workflow_definition_versions s) \<and> model_validate_json env (wv_schema_json v) = Inr d \<longrightarrow>
        list_all (\<lambda>k. length k \<le> 128) (step_keys d))"

lemma wp_transition_moves:
  assumes "ask ctx ''workflow.instance.execute'' s = (Inr True, s0)" "workflow_inv env (workflows_of s0)"
    "i \<in> set (workflow_instances s0)" "wi_status i \<notin> set INSTANCE_TERMINAL"
    "outcome \<in> {''succeeded'', ''resume'', ''failed''}" "room_to_move env ctx i transition_key s0"
  shows "wp (transition_workflow env ask ctx (wi_id i) outcome (wi_version i) transition_key now)
    (\<lambda>j s'. wi_version j = wi_version i + 1) (\<lambda>_ _. False) s"
proof -
  note D = workflow_invD [OF assms(2)]
  have R: "session_context s0 = Some ctx" "writable (ctx_workspace ctx) s0" "workspace_exists (ctx_workspace ctx) s0" "fresh_ids env 4 s0"
    "home_of i = ctx_home ctx" "length (wi_idempotency_key i) \<le> 128" "length transition_key \<le> 128"
    "transition_key \<notin> wc_transition_key ` set (receipts_of (workflows_of s0) i)"
    "(ctx_workspace ctx, wi_id i, wi_version i + 1) \<notin> event_number ` set (yt_events (workflows_of s0))"
    using assms(6) by (simp_all add: room_to_move_def)
  have i: "i \<in> set (yt_instances (workflows_of s0))" using assms(3) by (simp add: workflows_of_def)
  have w: "workspace_id i = ctx_workspace ctx" using R(5) by (simp add: workspace_tenant)
  obtain v d where v: "v \<in> set (yt_versions (workflows_of s0))" "bound_to i v" "model_validate_json env (wv_schema_json v) = Inr d"
    and runs: "runs d i (receipts_of (workflows_of s0) i)" and version: "0 < wi_version i"
    using D(4) [OF i] unfolding instance_ok_def by auto
  have v': "v \<in> set (workflow_definition_versions s0)" "workspace_id v = ctx_workspace ctx"
    "wv_definition_id v = wi_definition_id i" "wv_version v = wi_definition_version i"
    using v(1,2) w by (auto simp: workflows_of_def bound_to_def wv_pk_def tenant_pk_def)
  have wf: "well_formed d" by (rule read_well_formed [OF v(3)])
  obtain outs qs where "run_outcomes d (first_position d) outs = Some qs" "last (first_position d # qs) = place i"
    using runs by (auto simp: runs_def)
  then have home: "at_home d (place i)"
    using run_at_home [OF _ wf] first_at_home [OF wf] by (metis last_ConsL last_ConsR last_in_set)
  have "\<exists>q. advance d (place i) outcome = Some q"
    by (rule advance_enabled [OF wf home]) (use assms(4,5) in \<open>auto simp: place_def\<close>)
  then obtain k r where k: "wi_current_step_key i = Some k" "decide_next d k outcome (wi_status i) = Inr r"
    by (auto simp: advance_def place_def split: option.splits sum.splits)
  have keys: "list_all (\<lambda>k. length k \<le> 128) (step_keys d)"
    using assms(6) v'(1) v(3) unfolding room_to_move_def by blast
  have "at_home d (wt_next_key r, wt_status r)" by (rule decide_next_Inr [OF k(2) wf]) blast
  then have within: "within 128 (wt_next_key r)"
    using keys by (auto simp: within_def at_home_def list_all_iff split: option.splits)
  have ask: "wp (require_allowed ask ctx ''workflow.instance.execute'') Q E s = Q () s0" for Q E
    using assms(1) by (simp add: require_allowed_def wp_simps) (simp add: wp_def)
  let ?id = "uuid4_stream env (draws s0)" and ?b = "moved i r now"
  let ?s1 = "s0\<lparr>draws := Suc (draws s0), workflow_instances := replace_row wi_pk ?b (workflow_instances s0)\<rparr>"
  let ?x = "transition_receipt ctx i transition_key r ?id now"
  let ?s2 = "?s1\<lparr>workflow_receipts := workflow_receipts s0 @ [?x]\<rparr>"
  have save: "wp (save_workflow_instance ?b) Q E (s0\<lparr>draws := Suc (draws s0)\<rparr>) = Q () ?s1" for Q E
    using R(2,6) w within version
    by (simp add: save_workflow_instance_def wp_simps workflow_instance_checks_def writable_def)
      (simp add: moved_def)
  have x: "home_of ?x = ctx_home ctx" "workspace_id ?x = ctx_workspace ctx" "wc_instance_id ?x = wi_id i"
    "wc_transition_key ?x = transition_key" "wc_id ?x = ?id"
    by (simp_all add: transition_receipt_def context_tenant_def)
      (simp_all add: workflow_receipt.fields_def tenant_row.extend_def)
  have pkx: "tenant_pk ?x (wi_id i) = wi_pk i" using R(5) x(1) by (simp add: wi_pk_def home_pk del: tenant_pk_eq)
  have "wc_id y \<noteq> ?id" if "y \<in> set (workflow_receipts s0)" for y
    using fresh_idsD(3) [OF R(4), of 0] that by (metis add_0_right imageI zero_less_numeral)
  then have "list_all (\<lambda>y. tenant_pk y (wc_id y) \<noteq> tenant_pk ?x ?id) (workflow_receipts s0)"
    by (simp add: list_all_iff)
  moreover have "instance_exists (tenant_pk ?x (wi_id i)) ?s1"
  proof -
    have "?b \<in> set (replace_row wi_pk ?b (workflow_instances s0))" using assms(3) by (simp add: replace_row_present)
    then show ?thesis unfolding pkx by (auto simp: instance_exists_def list_ex_iff intro!: bexI [of _ ?b])
  qed
  moreover have "list_all (\<lambda>y. \<not> (tenant_pk y (wc_instance_id y) = wi_pk i \<and> wc_transition_key y = transition_key)) (workflow_receipts s0)"
    using R(8) by (force simp: receipts_of_def list_all_iff workflows_of_def)
  ultimately have "list_all snd (workflow_receipt_constraints ?x ?s1)"
    using R(7) pkx x by (simp add: workflow_receipt_constraints_def del: tenant_pk_eq)
  then have add: "wp (add_workflow_receipt ctx ?x) Q E ?s1 = Q () ?s2" for Q E
    using R(1,2) x(2)
    by (simp add: add_workflow_receipt_def add_row_def wp_simps violated_None_iff [symmetric] writable_def del: tenant_pk_eq)
  have recorded: "wp (record_workflow env ctx (wi_id i) ''workflow.instance.transitioned'' (wi_version i + 1)
      cl (instance_status_value st) now) (\<lambda>_ _. True) (\<lambda>_ _. False) ?s2" for cl st
  proof (rule wp_record_workflow_succeeds)
    show "instance_status_value st \<in> set recorded_statuses" by (cases st) (simp_all add: recorded_statuses_def)
    have "fresh_ids env (Suc 3) s0" using R(4) by simp
    then show "fresh_ids env 3 ?s2" by (rule fresh_ids_drawn) (use x(5) in \<open>auto simp: image_iff\<close>)
    show "writable (ctx_workspace ctx) ?s2" "workspace_exists (ctx_workspace ctx) ?s2"
      using R(2,3) by (simp_all add: writable_def workspace_exists_def)
    show "(ctx_workspace ctx, wi_id i, wi_version i + 1) \<notin> event_number ` set (yt_events (workflows_of ?s2))"
      using R(9) by (simp add: workflows_of_def typed_events_def)
  qed simp
  have moved: "wi_id ?b = wi_id i" "wi_version ?b = wi_version i + 1" by (simp_all add: moved_def)
  show ?thesis
    unfolding transition_workflow_def wp_thenM ask Let_def
    using find_the_instance [OF assms(2,3) w] find_the_version [OF assms(2) v'(1,2)] v'(3,4) v(3) k moved
    by (simp add: wp_simps save add recorded)
qed

end
