(* ===== verification/Workflow_Properties.thy ===== *)
theory Workflow_Properties
  imports Workflow_Calls
begin

text \<open>
  The properties of workflows and approvals, with the world in which they are tried out: a review of
  three steps, one instance that waits for its approval and one that has ended.
\<close>

section \<open>Drafts\<close>

text \<open>From empty tables every version stays a draft that its registration announced.\<close>

definition drafts_only :: "workflow_tables \<Rightarrow> bool" where
  "drafts_only t \<longleftrightarrow> yt_instances t = [] \<and>
     (\<forall>v \<in> set (yt_versions t). wv_activated_at v = None \<and>
        (workspace_id v, wv_definition_id v, wv_version v) \<in> event_number ` set (yt_events t))"

lemma drafts_only_step:
  assumes "flow_step env c t t'" "drafts_only t"
  shows "drafts_only t'"
  using assms(1)
proof cases
  case (draft v rs e)
  then show ?thesis using assms(2) by (auto simp: drafts_only_def wf_announces_def)
next
  case (activate v v' now r r' e)
  then show ?thesis using assms(2) by (auto simp: drafts_only_def wf_announces_def)
qed (use assms(2) in \<open>auto simp: drafts_only_def\<close>)

lemma drafts_only_steps: "workflow_steps env t t' \<Longrightarrow> drafts_only t \<Longrightarrow> drafts_only t'"
  unfolding workflow_steps_def by (induction rule: rtranclp_induct) (auto intro: drafts_only_step)

lemma call_returns:
  assumes "workflow_authorizer env ask" "loaded ctx c s" "fst (transaction ctx (run_workflow_call env ask ctx c) s) = Inr ()"
  shows "workflow_call_effect env ctx c (workflows_of s) (workflows_of (snd (transaction ctx (run_workflow_call env ask ctx c) s)))"
  using workflow_authorizer.transaction_workflow_call [OF assms(1,2)] assms(3)
  by (cases "transaction ctx (run_workflow_call env ask ctx c) s") simp

lemma call_raises:
  assumes "workflow_authorizer env ask" "loaded ctx c s" "fst (transaction ctx (run_workflow_call env ask ctx c) s) \<noteq> Inr ()"
  shows "workflows_of (snd (transaction ctx (run_workflow_call env ask ctx c) s)) = workflows_of s"
  using workflow_authorizer.transaction_workflow_call [OF assms(1,2)] assms(3)
  by (cases "transaction ctx (run_workflow_call env ask ctx c) s") (auto split: sum.splits)

section \<open>A world\<close>

definition review_step :: "string \<Rightarrow> step_kind \<Rightarrow> string \<Rightarrow> string option \<Rightarrow> workflow_step" where
  "review_step k kind ref after = \<lparr>st_key = k, st_kind = kind, st_reference = ref, st_next_key = after,
     st_failure_key = None, st_compensation_reference = None, st_timeout_seconds = 300\<rparr>"

definition review_workflow :: workflow_definition where
  "review_workflow = \<lparr>wd_definition_id = 81, wd_version = 1, wd_name = ''Review'',
     wd_steps = [review_step ''prepare'' STEP_COMMAND ''task.read.v1'' (Some ''approve''),
       review_step ''approve'' STEP_APPROVAL ''approval.human.v1'' (Some ''finish''),
       review_step ''finish'' STEP_COMMAND ''task.complete.v1'' None],
     wd_input_schema_version = 1, wd_classification = ''internal'', wd_policy_version = 1\<rparr>"

definition review_env :: py_env where
  "review_env = example_env\<lparr>parse_json := \<lambda>t. if t = definition_text review_workflow
     then Some (sort_members (dump_definition review_workflow)) else None\<rparr>"

definition allow_all :: "'s authorizer" where
  "allow_all ctx p = returnM True"

lemma allow_all_workflows: "workflow_authorizer env allow_all"
  by (intro workflow_authorizer.intro component_authorizer.intro component_authorizer_axioms.intro
      authorizer.intro wf.component_view_axioms)
    (simp_all add: allow_all_def keeps_def preserves_def returnM_def)

lemma review_validates:
  "validate_definition review_workflow = None" "list_all (\<lambda>st. validate_step st = None) (wd_steps review_workflow)"
  by code_simp+

lemma review_reads_back: "reads_back review_env (dump_definition review_workflow)"
  by (simp add: reads_back_def review_env_def definition_text_def)

lemma review_read: "model_validate_json review_env (definition_text review_workflow) = Inr review_workflow"
  by (rule read_definition_text [OF review_reads_back review_validates])

definition review_version :: workflow_definition_version where
  "review_version = (draft_version review_env example_context review_workflow 0)\<lparr>wv_activated_at := Some 0\<rparr>"

definition review_instance :: "uuid \<Rightarrow> string option \<Rightarrow> instance_status \<Rightarrow> int \<Rightarrow> workflow_instance" where
  "review_instance i k status version = (started_instance example_context i 81 1 ''prepare'' ''{}'' [] ''key'' 0)
     \<lparr>wi_current_step_key := k, wi_status := status, wi_version := version\<rparr>"

definition waiting_review :: workflow_instance where
  "waiting_review = review_instance 91 (Some ''approve'') INSTANCE_WAITING_APPROVAL 2"

definition ended_review :: workflow_instance where
  "ended_review = review_instance 92 None INSTANCE_SUCCEEDED 4"

definition review_receipts :: "workflow_instance \<Rightarrow> instance_status list \<Rightarrow> workflow_receipt list" where
  "review_receipts i statuses = map (\<lambda>n. transition_receipt example_context i (int_str (int n))
     \<lparr>wt_next_key = None, wt_status = statuses ! n\<rparr> (wi_id i + of_nat n * 1000) 0) [0..<length statuses]"

definition review_events :: "workflow_instance \<Rightarrow> outbox_event list" where
  "review_events i = map (\<lambda>n. workflow_outbox_row example_context (wi_id i) ''workflow.instance.transitioned'' n
     ''internal'' ''running'' 0 (wi_id i + of_int n * 2000) 0) [1..wi_version i]"

definition reviews_world :: "unit workflow_db_scheme" where
  "reviews_world = (example_world (workflow_db_ext
     [draft_record example_context review_workflow 0] [review_version] [waiting_review, ended_review] [] []
     (review_receipts waiting_review [INSTANCE_WAITING_APPROVAL] @
      review_receipts ended_review [INSTANCE_WAITING_APPROVAL, INSTANCE_RUNNING, INSTANCE_SUCCEEDED]) ()))
   \<lparr>outbox_events := review_events waiting_review @ review_events ended_review\<rparr>"

definition unused_world :: "unit workflow_db_scheme" where
  "unused_world = example_world (workflow_db_ext [] [] [] [] [] [] ())"

lemma unused_inv: "workflow_inv env (workflows_of unused_world)"
  by (simp add: workflow_inv_def homes_ok_def decisions_ok_def owners_ok_def workflows_of_def unused_world_def
      example_world_def typed_events_def)

lemma review_tables: "workflows_of reviews_world = \<lparr>yt_tenants = [(1, 2, 3)],
   yt_records = [draft_record example_context review_workflow 0], yt_versions = [review_version],
   yt_instances = [waiting_review, ended_review], yt_approvals = [], yt_decisions = [],
   yt_receipts = review_receipts waiting_review [INSTANCE_WAITING_APPROVAL] @
      review_receipts ended_review [INSTANCE_WAITING_APPROVAL, INSTANCE_RUNNING, INSTANCE_SUCCEEDED],
   yt_events = review_events waiting_review @ review_events ended_review\<rparr>"
proof -
  have "typed_events ''workflow'' reviews_world = review_events waiting_review @ review_events ended_review"
    by (auto simp: typed_events_def reviews_world_def review_events_def workflow_outbox_row_def filter_id_conv)
  then show ?thesis by (simp add: workflows_of_def) (simp add: reviews_world_def example_world_def)
qed

lemma review_homes:
  "home_of waiting_review = (1, 2, 3)" "home_of ended_review = (1, 2, 3)" "home_of review_version = (1, 2, 3)"
  "wi_id waiting_review = 91" "wi_id ended_review = 92" "wv_definition_id review_version = 81" "wv_version review_version = 1"
  "wv_activated_at review_version = Some 0" "wv_schema_json review_version = definition_text review_workflow"
  "wi_version waiting_review = 2" "wi_version ended_review = 4" "wi_definition_id waiting_review = 81"
  "wi_definition_version waiting_review = 1" "wi_definition_id ended_review = 81" "wi_definition_version ended_review = 1"
  "place waiting_review = (Some ''approve'', INSTANCE_WAITING_APPROVAL)" "place ended_review = (None, INSTANCE_SUCCEEDED)"
  by (simp_all add: waiting_review_def ended_review_def review_instance_def review_version_def started_instance_def
      draft_version_def place_def review_workflow_def home_of_def context_tenant_def example_context_def
      tenant_row.defs workflow_instance.defs workflow_definition_version.defs)

lemma review_keys:
  "wi_pk waiting_review = (1, 2, 3, 91)" "wi_pk ended_review = (1, 2, 3, 92)" "wv_pk review_version = ((1, 2, 3, 81), 1)"
  "workspace_id waiting_review = 2" "workspace_id ended_review = 2"
  "bound_to waiting_review review_version" "bound_to ended_review review_version"
  using review_homes by (simp_all add: home_of_def wi_pk_def wv_pk_def bound_to_def tenant_pk_def)

lemma review_receipt_facts:
  "x \<in> set (review_receipts i statuses) \<Longrightarrow> tenant_pk x (wc_instance_id x) = (1, 2, 3, wi_id i)"
  "map wc_outcome (review_receipts i statuses) = statuses" "length (review_receipts i statuses) = length statuses"
  "map wc_transition_key (review_receipts i statuses) = map (\<lambda>n. int_str (int n)) [0..<length statuses]"
  by (auto simp: review_receipts_def transition_receipt_def context_tenant_def example_context_def tenant_pk_def
      tenant_row.defs workflow_receipt.defs map_nth comp_def)

lemma review_receipts_of:
  "receipts_of (workflows_of reviews_world) waiting_review = review_receipts waiting_review [INSTANCE_WAITING_APPROVAL]"
  "receipts_of (workflows_of reviews_world) ended_review =
     review_receipts ended_review [INSTANCE_WAITING_APPROVAL, INSTANCE_RUNNING, INSTANCE_SUCCEEDED]"
  using review_receipt_facts(1) [of _ waiting_review] review_receipt_facts(1) [of _ ended_review]
  by (auto simp: receipts_of_def review_tables review_keys review_homes filter_id_conv filter_empty_conv)

lemma review_event_facts:
  "e \<in> set (review_events i) \<Longrightarrow> instance_event e \<and> oe_workspace_id e = 2 \<and> oe_aggregate_id e = wi_id i"
  "map oe_aggregate_sequence (review_events i) = [1..wi_version i]"
  by (auto simp: review_events_def workflow_outbox_row_def instance_event_def example_context_def intro!: map_idI)

lemma review_instance_events:
  "instance_events (workflows_of reviews_world) waiting_review = review_events waiting_review"
  "instance_events (workflows_of reviews_world) ended_review = review_events ended_review"
  using review_event_facts(1) [of _ waiting_review] review_event_facts(1) [of _ ended_review]
  by (auto simp: instance_events_def review_tables review_keys review_homes filter_id_conv filter_empty_conv)

lemma review_runs:
  "runs review_workflow waiting_review (review_receipts waiting_review [INSTANCE_WAITING_APPROVAL])"
  "runs review_workflow ended_review (review_receipts ended_review [INSTANCE_WAITING_APPROVAL, INSTANCE_RUNNING, INSTANCE_SUCCEEDED])"
proof -
  have 1: "run_outcomes review_workflow (first_position review_workflow) [''succeeded''] =
      Some [(Some ''approve'', INSTANCE_WAITING_APPROVAL)]"
    by code_simp
  have 2: "run_outcomes review_workflow (first_position review_workflow) [''succeeded'', ''succeeded'', ''succeeded''] =
      Some [(Some ''approve'', INSTANCE_WAITING_APPROVAL), (Some ''finish'', INSTANCE_RUNNING), (None, INSTANCE_SUCCEEDED)]"
    by code_simp
  show "runs review_workflow waiting_review (review_receipts waiting_review [INSTANCE_WAITING_APPROVAL])"
    unfolding runs_def review_receipt_facts(2) review_homes by (rule exI, rule exI, rule conjI, rule 1) simp
  show "runs review_workflow ended_review (review_receipts ended_review [INSTANCE_WAITING_APPROVAL, INSTANCE_RUNNING, INSTANCE_SUCCEEDED])"
    unfolding runs_def review_receipt_facts(2) review_homes by (rule exI, rule exI, rule conjI, rule 2) simp
qed

lemma review_inv: "workflow_inv review_env (workflows_of reviews_world)"
proof -
  have versions: "yt_versions (workflows_of reviews_world) = [review_version]" by (simp add: review_tables)
  have ok: "instance_ok review_env (workflows_of reviews_world) i"
    if "i \<in> {waiting_review, ended_review}" for i
  proof -
    have "\<exists>v d. v \<in> set (yt_versions (workflows_of reviews_world)) \<and> bound_to i v \<and> wv_activated_at v \<noteq> None \<and>
        model_validate_json review_env (wv_schema_json v) = Inr d \<and> runs d i (receipts_of (workflows_of reviews_world) i)"
      using that review_runs review_read
      by (intro exI [of _ review_version] exI [of _ review_workflow])
        (auto simp: review_receipts_of review_keys review_homes versions)
    moreover have "distinct (map wc_transition_key (receipts_of (workflows_of reviews_world) i))"
      using that by (auto simp: review_receipts_of review_receipt_facts(4) int_str_def nat_digits.simps digit_char_def)
    ultimately show ?thesis
      using that unfolding instance_ok_def
      by (auto simp: review_receipts_of review_receipt_facts(3) review_instance_events review_event_facts(2) review_homes)
  qed
  have "homes_ok (workflows_of reviews_world)"
    by (simp add: homes_ok_def review_tables review_homes draft_record_def context_home)
      (simp add: example_context_def)
  moreover have "owners_ok (workflows_of reviews_world)"
    unfolding owners_ok_def
  proof (intro conjI ballI impI)
    fix x assume "x \<in> set (yt_receipts (workflows_of reviews_world))"
    then show "tenant_pk x (wc_instance_id x) \<in> wi_pk ` set (yt_instances (workflows_of reviews_world))"
      by (auto simp: review_tables review_receipt_facts(1) review_keys review_homes)
  next
    fix e assume "e \<in> set (yt_events (workflows_of reviews_world))"
    then show "(oe_workspace_id e, oe_aggregate_id e) \<in> (\<lambda>i. (workspace_id i, wi_id i)) ` set (yt_instances (workflows_of reviews_world))"
      by (auto simp: review_tables review_keys review_homes dest!: review_event_facts(1))
  qed (simp add: review_tables)
  ultimately show ?thesis
    using ok by (simp add: workflow_inv_def decisions_ok_def) (simp add: review_tables review_keys)
qed

lemma tables_simps:
  "yt_instances (workflows_of s) = workflow_instances s" "yt_versions (workflows_of s) = workflow_definition_versions s"
  "yt_receipts (workflows_of s) = workflow_receipts s"
  by (simp_all add: workflows_of_def)

lemma review_rows:
  "workflow_instances reviews_world = [waiting_review, ended_review]" "workflow_definition_versions reviews_world = [review_version]"
  by (simp_all add: reviews_world_def example_world_def)

section \<open>Properties\<close>

text \<open>
  C7: In every state that calls of the service reach, an instance stands where its definition leads:
  it is bound to an activated version whose stored text reads as a definition, the outcomes that it
  was given take that definition from its first step to the step and status of the instance, its
  receipts are the statuses on the way, and its version counts them.
\<close>

theorem workflow_instances_follow_definition:
  assumes "workflow_authorizer env ask" "workflow_inv env (workflows_of s)" "workflow_calls env ask s s'"
    and "i \<in> set (workflow_instances s')"
  shows "\<exists>v \<in> set (workflow_definition_versions s'). \<exists>d outs qs.
    wv_pk v = (tenant_pk i (wi_definition_id i), wi_definition_version i) \<and> wv_activated_at v \<noteq> None \<and>
    model_validate_json env (wv_schema_json v) = Inr d \<and>
    run_outcomes d (first_position d) outs = Some qs \<and>
    last (first_position d # qs) = (wi_current_step_key i, wi_status i) \<and>
    map snd qs = map wc_outcome (filter (\<lambda>r. tenant_pk r (wc_instance_id r) = wi_pk i) (workflow_receipts s')) \<and>
    wi_version i = 1 + int (length qs)"
proof -
  have "instance_ok env (workflows_of s') i"
    using workflow_invD(4) [OF workflow_calls_inv [OF assms(3,1,2)]] assms(4) by (simp add: tables_simps)
  then obtain v d outs qs where "v \<in> set (workflow_definition_versions s')" "bound_to i v" "wv_activated_at v \<noteq> None"
    "model_validate_json env (wv_schema_json v) = Inr d" "run_outcomes d (first_position d) outs = Some qs"
    "last (first_position d # qs) = place i" and qs: "map snd qs = map wc_outcome (receipts_of (workflows_of s') i)"
    "wi_version i = 1 + int (length (receipts_of (workflows_of s') i))"
    unfolding instance_ok_def runs_def tables_simps by blast
  moreover have "length (receipts_of (workflows_of s') i) = length qs" using map_eq_imp_length_eq [OF qs(1)] by simp
  ultimately show ?thesis unfolding bound_to_def place_def receipts_of_def tables_simps by (metis (no_types, lifting))
qed

lemma workflow_instances_follow_definition_witness:
  "\<exists>v \<in> set [review_version]. \<exists>d outs qs. wv_activated_at v \<noteq> None \<and>
    model_validate_json review_env (wv_schema_json v) = Inr d \<and> run_outcomes d (first_position d) outs = Some qs \<and>
    last (first_position d # qs) = (None, INSTANCE_SUCCEEDED) \<and> length qs = 3"
proof -
  have "ended_review \<in> set (workflow_instances reviews_world)" by (simp add: review_rows)
  from workflow_instances_follow_definition [OF allow_all_workflows review_inv workflow_calls.start this]
  obtain v d outs qs where "v \<in> set [review_version]" "wv_activated_at v \<noteq> None"
    "model_validate_json review_env (wv_schema_json v) = Inr d" "run_outcomes d (first_position d) outs = Some qs"
    "last (first_position d # qs) = place ended_review" "wi_version ended_review = 1 + int (length qs)"
    unfolding review_rows place_def by blast
  moreover from this(6) have "length qs = 3" by (simp add: review_homes)
  ultimately show ?thesis unfolding review_homes(17) by blast
qed

text \<open>
  C25: Whatever is called, an instance stays, with its definition, input and state, and its version
  never falls; once it has ended, it never changes again.
\<close>

theorem ended_instances_are_final:
  assumes "workflow_authorizer env ask" "workflow_inv env (workflows_of s)" "workflow_calls env ask s s'"
    and "i \<in> set (workflow_instances s)"
  shows "\<exists>i' \<in> set (workflow_instances s'). wi_pk i' = wi_pk i \<and> wi_definition_id i' = wi_definition_id i \<and>
    wi_definition_version i' = wi_definition_version i \<and> wi_input_digest i' = wi_input_digest i \<and>
    wi_state_json i' = wi_state_json i \<and> wi_version i \<le> wi_version i' \<and>
    (wi_status i \<in> set INSTANCE_TERMINAL \<longrightarrow> i' = i)"
proof -
  have "i \<in> set (yt_instances (workflows_of s))" using assms(4) by (simp add: tables_simps)
  from workflow_steps_later [OF workflow_calls_steps [OF assms(3,1)] assms(2) this]
  obtain i' where "i' \<in> set (workflow_instances s')" "later_instance i i'" by (auto simp: tables_simps)
  then show ?thesis unfolding later_instance_def by blast
qed

lemma ended_instances_are_final_witness:
  "ended_review \<in> set (workflow_instances (snd (transaction example_context
     (run_workflow_call review_env allow_all example_context (Transition 92 ''succeeded'' 4 ''again'' 0)) reviews_world)))"
proof -
  have "loaded example_context (Transition 92 ''succeeded'' 4 ''again'' 0) reviews_world" by simp
  from ended_instances_are_final [OF allow_all_workflows review_inv workflow_calls.call [OF workflow_calls.start this],
      of ended_review]
  show ?thesis using review_homes(17) by (auto simp: review_rows place_def INSTANCE_TERMINAL_def)
qed

text \<open>
  C8: The service refines the abstract machine of workflows: a call in its transaction that raises
  leaves the tables of workflows as they were; one that returns has made one step of the machine in
  the workspace of the context, or, of the activations, has found the version active.
\<close>

theorem workflow_calls_refine_steps:
  assumes "workflow_authorizer env ask" "loaded ctx c s"
  shows "case transaction ctx (run_workflow_call env ask ctx c) s of
      (Inl e, s') \<Rightarrow> workflows_of s' = workflows_of s
    | (Inr _, s') \<Rightarrow> workflow_call_effect env ctx c (workflows_of s) (workflows_of s')"
  by (rule workflow_authorizer.transaction_workflow_call [OF assms])

lemma workflow_calls_refine_steps_witness:
  "case transaction example_context (run_workflow_call review_env allow_all example_context (Activate 81 1 0)) reviews_world of
      (Inl e, s') \<Rightarrow> workflows_of s' = workflows_of reviews_world
    | (Inr _, s') \<Rightarrow> workflow_call_effect review_env example_context (Activate 81 1 0) (workflows_of reviews_world) (workflows_of s')"
proof -
  have "loaded example_context (Activate 81 1 0) reviews_world" by simp
  from workflow_calls_refine_steps [OF allow_all_workflows this] show ?thesis .
qed

text \<open>
  C11: A version that was registered stays a draft for good: whatever is called afterwards, activating
  it raises and so does starting an instance of it, since the event of the activation has the
  aggregate sequence of the event of the registration, which the table of events refuses.
\<close>

theorem registered_versions_stay_drafts:
  assumes "workflow_authorizer env ask" "workflow_inv env (workflows_of s)"
    and "transaction ctx (run_workflow_call env ask ctx (Register d now)) s = (Inr (), s1)"
    and "workflow_calls env ask s1 s2" "ctx_workspace ctx' = ctx_workspace ctx"
    and "c \<in> {Activate (wd_definition_id d) (wd_version d) later,
      Start_workflow i (wd_definition_id d) (wd_version d) payload key later}"
  shows "\<exists>e. fst (transaction ctx' (run_workflow_call env ask ctx' c) s2) = Inl e"
proof (rule ccontr)
  assume "\<nexists>e. fst (transaction ctx' (run_workflow_call env ask ctx' c) s2) = Inl e"
  then have r: "fst (transaction ctx' (run_workflow_call env ask ctx' c) s2) = Inr ()"
    by (cases "fst (transaction ctx' (run_workflow_call env ask ctx' c) s2)") auto
  have s1: "s1 = snd (transaction ctx (run_workflow_call env ask ctx (Register d now)) s)" using assms(3) by simp
  have l: "loaded ctx (Register d now) s" "loaded ctx' c s2" using assms(6) by auto
  have draft: "announced_draft (ctx_workspace ctx) (wd_definition_id d) (wd_version d) (workflows_of s1)"
    using call_returns [OF assms(1) l(1)] assms(3) by simp
  have "workflow_inv env (workflows_of s1)"
    unfolding s1 by (rule workflow_calls_inv [OF workflow_calls.call [OF workflow_calls.start l(1)] assms(1,2)])
  then have "workflow_inv env (workflows_of s2)" by (rule workflow_calls_inv [OF assms(4,1)])
  moreover have d2: "announced_draft (ctx_workspace ctx) (wd_definition_id d) (wd_version d) (workflows_of s2)"
    by (rule announced_draft_steps [OF workflow_calls_steps [OF assms(4,1)] draft])
  ultimately have "\<not> active_version (ctx_workspace ctx) (wd_definition_id d) (wd_version d) (workflows_of s2)"
    by (rule draft_not_active)
  then show False
    using call_returns [OF assms(1) l(2) r] d2 assms(5,6) by (auto simp: announced_draft_def)
qed

lemma register_unused:
  "wp (register review_env allow_all example_context review_workflow 0) (\<lambda>_ _. True) (\<lambda>_ _. False)
     (started example_context unused_world)"
proof -
  let ?s = "started example_context unused_world"
  let ?r = "draft_record example_context review_workflow 0"
  let ?v = "draft_version review_env example_context review_workflow 0"
  let ?s1 = "?s\<lparr>workflow_definitions := [?r]\<rparr>"
  let ?s2 = "?s1\<lparr>workflow_definition_versions := [?v]\<rparr>"
  have s: "session_context ?s = Some example_context" "writable 2 ?s" "workspaces ?s = workspaces (example_world ())"
    "workflow_definitions ?s = []" "workflow_definition_versions ?s = []" "audit_events ?s = []" "outbox_events ?s = []"
    "workflow_receipts ?s = []" "draws ?s = 0"
    by (simp_all add: started_def with_context_def unused_world_def example_world_def writable_def)
  have r: "workspace_id ?r = 2" "length (wr_name ?r) = 6" "organization_id ?r = 1" "cell_id ?r = 3" "wr_id ?r = 81"
    by (simp_all add: draft_record_def context_tenant_def example_context_def tenant_row.defs workflow_definition_record.defs
      review_workflow_def)
  have v: "workspace_id ?v = 2" "wv_version ?v = 1" "wv_policy_version ?v = 1" "wv_definition_id ?v = 81" "organization_id ?v = 1" "cell_id ?v = 3"
    by (simp_all add: draft_version_def context_tenant_def example_context_def tenant_row.defs workflow_definition_version.defs
      review_workflow_def)
  have w: "ctx_workspace example_context = 2" by (simp add: example_context_def)
  have ids: "wd_definition_id review_workflow = 81" "wd_version review_workflow = 1" by (simp_all add: review_workflow_def)
  have add1: "wp (add_workflow_record example_context ?r) Q E ?s = Q () ?s1" for Q E
    using s(1-5) r w
    by (simp add: add_workflow_record_def add_row_def wp_simps violated_None_iff [symmetric] workflow_definition_constraints_def
        tenant_exists_def example_world_def)
  have add2: "wp (add_workflow_version example_context ?v) Q E ?s1 = Q () ?s2" for Q E
    using s(1-5) v w r
    by (simp add: add_workflow_version_def add_row_def wp_simps violated_None_iff [symmetric] workflow_version_constraints_def
        writable_def wr_pk_def)
  have recorded: "wp (record_workflow review_env example_context (wd_definition_id review_workflow) ''workflow.definition.registered''
      (wd_version review_workflow) cl ''draft'' 0) (\<lambda>_ _. True) (\<lambda>_ _. False) ?s2" for cl
  proof (rule wp_record_workflow_succeeds)
    show "''draft'' \<in> set recorded_statuses" by (simp add: recorded_statuses_def)
    show "writable (ctx_workspace example_context) ?s2" "workspace_exists (ctx_workspace example_context) ?s2"
      using s(2,3) w by (simp_all add: writable_def workspace_exists_def example_world_def)
    have "[0 ..< 3] = [0, 1, 2::nat]" by (simp add: upt_rec)
    then show "fresh_ids review_env 3 ?s2"
      using s by (simp add: fresh_ids_def review_env_def example_env_def)
    show "(ctx_workspace example_context, wd_definition_id review_workflow, wd_version review_workflow) \<notin>
        event_number ` set (yt_events (workflows_of ?s2))"
      using s(7) by (simp add: workflows_of_def typed_events_def)
  qed simp
  show ?thesis
    unfolding register_def require_allowed_def allow_all_def Let_def
    using s(4) by (simp add: wp_simps find_workflow_def add1 add2 recorded)
qed

lemma registered_unused:
  "transaction example_context (run_workflow_call review_env allow_all example_context (Register review_workflow 0)) unused_world =
     (Inr (), snd (transaction example_context (run_workflow_call review_env allow_all example_context (Register review_workflow 0)) unused_world))"
proof -
  have "placed example_context unused_world" "\<not> in_transaction unused_world"
    by (simp_all add: placed_def placement_rows_def unused_world_def example_world_def example_context_def)
  moreover have "wp (run_workflow_call review_env allow_all example_context (Register review_workflow 0)) (\<lambda>_ _. True) (\<lambda>_ _. False)
      (started example_context unused_world)"
    using register_unused by (simp add: ignoring_def wp_simps)
  ultimately show ?thesis by (auto simp: transaction_runs split: prod.splits sum.splits elim: wp_cases)
qed

lemma registered_versions_stay_drafts_witness:
  "\<exists>e. fst (transaction example_context (run_workflow_call review_env allow_all example_context (Activate 81 1 5))
     (snd (transaction example_context (run_workflow_call review_env allow_all example_context (Register review_workflow 0)) unused_world))) = Inl e"
proof -
  have "Activate 81 1 5 \<in> {Activate (wd_definition_id review_workflow) (wd_version review_workflow) 5,
      Start_workflow 0 (wd_definition_id review_workflow) (wd_version review_workflow) JNull [] 5}"
    by (simp add: review_workflow_def)
  from registered_versions_stay_drafts [OF allow_all_workflows unused_inv registered_unused workflow_calls.start refl this]
  show ?thesis .
qed

text \<open>
  From empty tables the service never gets a workflow to run: no state that its calls reach has
  an active version or an instance.
\<close>

theorem no_workflow_ever_starts:
  assumes "workflow_authorizer env ask" "workflow_definition_versions s = []" "workflow_instances s = []"
    and "workflow_calls env ask s s'"
  shows "workflow_instances s' = [] \<and> (\<forall>v \<in> set (workflow_definition_versions s'). wv_activated_at v = None)"
proof -
  have "drafts_only (workflows_of s)" using assms(2,3) by (simp add: drafts_only_def tables_simps)
  then have "drafts_only (workflows_of s')" by (rule drafts_only_steps [OF workflow_calls_steps [OF assms(4,1)]])
  then show ?thesis by (simp add: drafts_only_def tables_simps)
qed

lemma no_workflow_ever_starts_witness:
  "workflow_instances (snd (transaction example_context
     (run_workflow_call review_env allow_all example_context (Register review_workflow 0)) unused_world)) = []"
proof -
  have l: "loaded example_context (Register review_workflow 0) unused_world" by simp
  have "workflow_definition_versions unused_world = []" "workflow_instances unused_world = []"
    by (simp_all add: unused_world_def example_world_def)
  from no_workflow_ever_starts [OF allow_all_workflows this workflow_calls.call [OF workflow_calls.start l]]
  show ?thesis by blast
qed

text \<open>
  C12: An approval holds exactly when the caller is still authorized, the request was not revoked and
  has not expired, the action is the one that was asked for, and enough different users other than
  the requester have approved this very action.
\<close>

theorem approval_requires_quorum:
  "validate_approval r ds now digest authorized = Inr () \<longleftrightarrow>
     authorized \<and> ar_revoked_at r = None \<and> not_before now (ar_expires_at r) = Inr False \<and> digest = ar_action_digest r \<and>
     ar_required_approvals r \<le> int (card ({ad_approver_id d | d. d \<in> set ds \<and> ad_request_id d = ar_request_id r \<and>
       ad_approved d \<and> ad_action_digest d = ar_action_digest r} - {ar_requested_by_user_id r}))"
  unfolding validate_approval_def require_approval_Inr approvers_of_def ..

text \<open>
  The digest of an action binds it: two actions on registered references that have the same
  digest have the same reference and the same canonical payload, or SHA-256 collides on their texts.
\<close>

theorem action_digest_binds:
  assumes "is_reference t" "is_reference u" "action_digest env t p = Inr x" "action_digest env u q = Inr x"
  shows "t = u \<and> json_text False '','' '':'' p = json_text False '','' '':'' q \<or>
    (\<exists>a b. a \<noteq> b \<and> sha256_hex env a = sha256_hex env b)"
  using action_digest_Inr [OF assms(3)] action_digest_Inr [OF assms(4)] action_text_inject [OF assms(1,2), of p q]
  unfolding payload_text_def by metis

lemma action_digest_binds_witness:
  "json_text False '','' '':'' (JObj [(''a'', JInt 1), (''b'', JInt 2)]) = json_text False '','' '':'' (JObj [(''b'', JInt 2), (''a'', JInt 1)]) \<or>
    (\<exists>a b. a \<noteq> b \<and> sha256_hex example_env a = sha256_hex example_env b)"
proof -
  have r: "is_reference ''task.read.v1''" by code_simp
  obtain x where x: "action_digest example_env ''task.read.v1'' (JObj [(''a'', JInt 1), (''b'', JInt 2)]) = Inr x"
    by (simp add: action_digest_def json_dumps_with_def)
  have "json_text False '','' '':'' (JObj [(''reference'', JStr ''task.read.v1''), (''payload'', JObj [(''a'', JInt 1), (''b'', JInt 2)])]) =
      json_text False '','' '':'' (JObj [(''reference'', JStr ''task.read.v1''), (''payload'', JObj [(''b'', JInt 2), (''a'', JInt 1)])])"
    by code_simp
  then have "action_digest example_env ''task.read.v1'' (JObj [(''b'', JInt 2), (''a'', JInt 1)]) = Inr x"
    using x by (simp add: action_digest_def json_dumps_with_def)
  from action_digest_binds [OF r r x this] show ?thesis by blast
qed

text \<open>
  C36: A stored definition reads as the one that was registered: its text, which the digest of the
  row is of, is accepted and gives the same definition, if the reader of JSON reads back what
  \<open>json.dumps\<close> wrote of it.
\<close>

theorem definition_reads_back:
  assumes "make_workflow_definition d = Inr d" "\<forall>st \<in> set (wd_steps d). make_workflow_step st = Inr st"
    and "reads_back env (dump_definition d)"
  shows "model_validate_json env (wv_schema_json (draft_version env ctx d now)) = Inr d \<and>
    wv_schema_digest (draft_version env ctx d now) = sha256_hex env (wv_schema_json (draft_version env ctx d now))"
proof -
  have "validate_definition d = None" "list_all (\<lambda>st. validate_step st = None) (wd_steps d)"
    using assms(1,2) by (auto simp: make_workflow_definition_def make_workflow_step_def list_all_iff split: option.splits)
  then show ?thesis using read_definition_text [OF assms(3)]
    by (simp add: draft_version_def context_tenant_def tenant_row.defs workflow_definition_version.defs)
qed

lemma definition_reads_back_witness:
  "model_validate_json review_env (wv_schema_json (draft_version review_env example_context review_workflow 0)) = Inr review_workflow"
proof -
  have "make_workflow_definition review_workflow = Inr review_workflow"
    "\<forall>st \<in> set (wd_steps review_workflow). make_workflow_step st = Inr st"
    using review_validates by (simp_all add: make_workflow_definition_def make_workflow_step_def list_all_iff)
  from definition_reads_back [OF this review_reads_back] show ?thesis by blast
qed

text \<open>
  C34: A definition without a cycle of steps makes every instance end: no instance of it takes more
  transitions than it has steps, and as long as the steps succeed the instance reaches its end.
\<close>

theorem acyclic_workflows_end:
  assumes "model_validate_json env t = Inr d" "acyclic {(st_key st, k) | st k. st \<in> set (wd_steps d) \<and>
      (st_next_key st = Some k \<or> st_failure_key st = Some k)}"
  shows "(\<forall>outs qs. run_outcomes d (first_position d) outs = Some qs \<longrightarrow> length outs \<le> length (wd_steps d)) \<and>
    (\<exists>m qs. m \<le> length (wd_steps d) \<and> run_outcomes d (first_position d) (replicate m ''succeeded'') = Some qs \<and>
      last (first_position d # qs) = (None, INSTANCE_SUCCEEDED))"
proof -
  have wf: "well_formed d" by (rule read_well_formed [OF assms(1)])
  have "step_edges d = {(st_key st, k) | st k. st \<in> set (wd_steps d) \<and> (st_next_key st = Some k \<or> st_failure_key st = Some k)}"
    by (auto simp: step_edges_def leads_to_def)
  then have ac: "acyclic (step_edges d)" using assms(2) by simp
  have "fst (first_position d) \<noteq> None" by (simp add: first_position_def)
  then show ?thesis
    using run_bounded [OF _ wf first_at_home [OF wf] ac] success_ends [OF wf first_at_home [OF wf] _ ac] by blast
qed

lemma acyclic_workflows_end_witness:
  "\<exists>m qs. m \<le> 3 \<and> run_outcomes review_workflow (first_position review_workflow) (replicate m ''succeeded'') = Some qs \<and>
     last (first_position review_workflow # qs) = (None, INSTANCE_SUCCEEDED)"
proof -
  let ?rank = "\<lambda>k. if k = ''prepare'' then 2 else if k = ''approve'' then 1 else (0::nat)"
  have "acyclic {(st_key st, k) | st k. st \<in> set (wd_steps review_workflow) \<and>
      (st_next_key st = Some k \<or> st_failure_key st = Some k)}"
    by (rule acyclicI_order [of _ ?rank]) (auto simp: review_workflow_def review_step_def)
  moreover have "length (wd_steps review_workflow) = 3" by (simp add: review_workflow_def)
  ultimately show ?thesis using conjunct2 [OF acyclic_workflows_end [OF review_read]] by simp
qed

text \<open>
  C35: An instance that has not ended can always move: on the outcomes \<open>succeeded\<close>, \<open>resume\<close> and
  \<open>failed\<close> a permitted transition from the current version returns the instance at the next one, if
  the tables have room for what it writes. No approval is asked for, not at a step that waits for
  one either.
\<close>

theorem open_instance_can_move:
  assumes "ask ctx ''workflow.instance.execute'' s = (Inr True, s0)" "workflow_inv env (workflows_of s0)"
    and "i \<in> set (workflow_instances s0)" "wi_status i \<notin> set INSTANCE_TERMINAL"
    and "outcome \<in> {''succeeded'', ''resume'', ''failed''}" "room_to_move env ctx i transition_key s0"
  shows "\<exists>j s'. transition_workflow env ask ctx (wi_id i) outcome (wi_version i) transition_key now s = (Inr j, s') \<and>
    wi_version j = wi_version i + 1"
proof -
  have "wp (transition_workflow env ask ctx (wi_id i) outcome (wi_version i) transition_key now)
      (\<lambda>j s'. wi_version j = wi_version i + 1) (\<lambda>_ _. False) s"
    by (rule wp_transition_moves [where ask = ask and ctx = ctx and s = s and ?s0.0 = s0]) (fact assms)+
  then show ?thesis by (blast elim: wp_cases)
qed

lemma open_instance_can_move_witness:
  "workflow_approvals (started example_context reviews_world) = [] \<and> wi_status waiting_review = INSTANCE_WAITING_APPROVAL \<and>
   (\<exists>j s'. transition_workflow review_env allow_all example_context 91 ''succeeded'' 2 ''next'' 5 (started example_context reviews_world) =
      (Inr j, s') \<and> wi_version j = 3)"
proof -
  let ?s = "started example_context reviews_world"
  have tables: "workflows_of ?s = workflows_of reviews_world" by (rule wf.V_started)
  have rows: "workflow_approvals ?s = []" "workflow_instances ?s = [waiting_review, ended_review]"
    by (simp_all add: started_def with_context_def reviews_world_def example_world_def)
  have status: "wi_status waiting_review = INSTANCE_WAITING_APPROVAL" using review_homes(16) by (simp add: place_def)
  have "[0 ..< 4] = [0, 1, 2, 3::nat]" "[0 ..< 1] = [0::nat]" "[0 ..< 3] = [0, 1, 2::nat]" by (simp_all add: upt_rec)
  moreover have "[1..2] = [1, 2::int]" "[1..4] = [1, 2, 3, 4::int]" by (simp_all add: upto.simps)
  moreover have "audit_events ?s = []" "draws ?s = 0" "outbox_events ?s = review_events waiting_review @ review_events ended_review"
    "workflow_receipts ?s = review_receipts waiting_review [INSTANCE_WAITING_APPROVAL] @
      review_receipts ended_review [INSTANCE_WAITING_APPROVAL, INSTANCE_RUNNING, INSTANCE_SUCCEEDED]"
    by (simp_all add: started_def with_context_def reviews_world_def example_world_def)
  ultimately have fresh: "fresh_ids review_env 4 ?s"
    by (simp add: fresh_ids_def review_env_def example_env_def review_events_def review_receipts_def review_homes
        transition_receipt_def workflow_outbox_row_def tenant_row.defs workflow_receipt.defs context_tenant_def atLeastLessThan_upt)
  have "session_context ?s = Some example_context" "writable 2 ?s" "workspace_exists 2 ?s"
    by (simp_all add: started_def with_context_def reviews_world_def example_world_def writable_def workspace_exists_def)
  moreover have "wi_idempotency_key waiting_review = ''key''"
    by (simp add: waiting_review_def review_instance_def started_instance_def tenant_row.defs workflow_instance.defs context_tenant_def)
  moreover have "''next'' \<notin> wc_transition_key ` set (receipts_of (workflows_of reviews_world) waiting_review)"
    unfolding review_receipts_of by (simp add: review_receipts_def transition_receipt_def tenant_row.defs workflow_receipt.defs
        context_tenant_def int_str_def nat_digits.simps)
  moreover have "(2, 91, 3) \<notin> event_number ` set (yt_events (workflows_of reviews_world))"
    using review_event_facts by (auto simp: review_tables event_number_def review_homes review_events_def workflow_outbox_row_def)
  moreover have "list_all (\<lambda>k. length k \<le> 128) (step_keys review_workflow)"
    by (simp add: step_keys_def review_workflow_def review_step_def)
  moreover have "workflow_definition_versions ?s = [review_version]"
    by (simp add: started_def with_context_def reviews_world_def example_world_def)
  ultimately have room: "room_to_move review_env example_context waiting_review ''next'' ?s"
    using fresh review_homes(1,4,9,10) review_read
    by (simp add: room_to_move_def tables context_home) (simp add: example_context_def)
  have "\<exists>j s'. transition_workflow review_env allow_all example_context (wi_id waiting_review) ''succeeded''
      (wi_version waiting_review) ''next'' 5 ?s = (Inr j, s') \<and> wi_version j = wi_version waiting_review + 1"
    by (rule open_instance_can_move [where ?s0.0 = ?s])
      (simp_all add: allow_all_def returnM_def tables review_inv rows status INSTANCE_TERMINAL_def room)
  then show ?thesis using rows(1) status by (simp add: review_homes)
qed

end
