(* ===== verification/Agent_Contracts.thy ===== *)
theory Agent_Contracts
  imports Workflow_Contracts
begin

text \<open>
  The contracts of the agent platform: \<open>app/agent_platform/contracts.py\<close>. Constructing a model of
  \<open>pydantic\<close> runs its validator, whose \<open>AgentPlatformError\<close> (a \<open>ValueError\<close>) reaches the caller
  inside a \<open>ValidationError\<close>; a \<open>TypeError\<close> passes as it is. A copy with changed fields
  (\<open>model_copy\<close>) is a changed record and is not validated.
\<close>

datatype risk_level = RISK_LOW | RISK_MEDIUM | RISK_HIGH | RISK_CRITICAL

fun risk_value :: "risk_level \<Rightarrow> string" where
  "risk_value RISK_LOW = ''low''"
| "risk_value RISK_MEDIUM = ''medium''"
| "risk_value RISK_HIGH = ''high''"
| "risk_value RISK_CRITICAL = ''critical''"

fun RISK_RANK :: "risk_level \<Rightarrow> nat" where
  "RISK_RANK RISK_LOW = 0"
| "RISK_RANK RISK_MEDIUM = 1"
| "RISK_RANK RISK_HIGH = 2"
| "RISK_RANK RISK_CRITICAL = 3"

text \<open>The keys of \<open>CLASSIFICATION_RANK\<close>; its values are not used.\<close>

definition CLASSIFICATIONS_RANKED :: "string list" where
  "CLASSIFICATIONS_RANKED = [''public'', ''internal'', ''confidential'', ''restricted'']"

text \<open>\<open>KEY.fullmatch\<close> for \<open>^[a-z][a-z0-9_.:-]{0,127}$\<close>\<close>

definition is_key :: "string \<Rightarrow> bool" where
  "is_key t \<longleftrightarrow> (case t of [] \<Rightarrow> False
     | c # r \<Rightarrow> lower_char c \<and> length r \<le> 127 \<and>
         list_all (\<lambda>x. lower_char x \<or> decimal_char x \<or> x \<in> set ''_.:-'') r)"

definition SENSITIVE_KEYS :: "string list" where
  "SENSITIVE_KEYS = [''password'', ''secret'', ''token'', ''credential'', ''raw_payload'']"

text \<open>
  \<open>str.casefold()\<close> below code point 256: the sharp s becomes two letters. The micro sign, which
  would leave the range, is left as it is; no ASCII marker can tell.
\<close>

definition casefold_char :: "char \<Rightarrow> string" where
  "casefold_char c = (let n = of_char c :: nat in
     if n = 223 then ''ss''
     else if 65 \<le> n \<and> n \<le> 90 \<or> 192 \<le> n \<and> n \<le> 222 \<and> n \<noteq> 215 then [char_of (n + 32)]
     else [c])"

definition casefold :: "string \<Rightarrow> string" where
  "casefold t = concat (map casefold_char t)"

datatype plan_status =
    PLAN_PROPOSED | PLAN_VALIDATED | PLAN_ACCEPTED | PLAN_EXECUTING | PLAN_SUCCEEDED | PLAN_FAILED
  | PLAN_CANCELLED | PLAN_UNCERTAIN

fun plan_status_value :: "plan_status \<Rightarrow> string" where
  "plan_status_value PLAN_PROPOSED = ''proposed''"
| "plan_status_value PLAN_VALIDATED = ''validated''"
| "plan_status_value PLAN_ACCEPTED = ''accepted''"
| "plan_status_value PLAN_EXECUTING = ''executing''"
| "plan_status_value PLAN_SUCCEEDED = ''succeeded''"
| "plan_status_value PLAN_FAILED = ''failed''"
| "plan_status_value PLAN_CANCELLED = ''cancelled''"
| "plan_status_value PLAN_UNCERTAIN = ''uncertain''"

datatype execution_outcome = OUTCOME_VERIFIED | OUTCOME_FAILED | OUTCOME_CANCELLED | OUTCOME_UNCERTAIN

section \<open>Models\<close>

text \<open>A model whose validator has found nothing, or the exception that leaves its construction.\<close>

definition constructed :: "py_error option \<Rightarrow> 'a \<Rightarrow> py_error + 'a" where
  "constructed fault x = (case fault of None \<Rightarrow> Inr x
     | Some e \<Rightarrow> Inl (if e = TypeError then TypeError else ValidationError e))"

abbreviation agent_fault :: "string \<Rightarrow> py_error option" where
  "agent_fault message \<equiv> Some (AgentPlatformError message)"

record budget =
  bg_max_tokens :: int
  bg_max_cost_micros :: int
  bg_max_tool_calls :: int
  bg_max_seconds :: int

definition positive_limits :: "budget \<Rightarrow> py_error option" where
  "positive_limits b =
     (if min (min (bg_max_tokens b) (bg_max_cost_micros b)) (min (bg_max_tool_calls b) (bg_max_seconds b)) < 0
      then agent_fault ''budget limits cannot be negative'' else None)"

definition make_budget :: "budget \<Rightarrow> py_error + budget" where
  "make_budget b = constructed (positive_limits b) b"

record agent_manifest =
  mf_manifest_id :: uuid
  mf_version :: int
  mf_name :: string
  mf_purpose :: string
  mf_owner_user_id :: uuid
  mf_allowed_tool_classes :: "string list"
  mf_risk_ceiling :: risk_level
  mf_budget :: budget
  mf_model_policy_key :: string
  mf_evaluation_set_key :: string
  mf_input_schema_version :: int
  mf_output_schema_version :: int
  mf_enabled :: bool

definition validate_manifest :: "agent_manifest \<Rightarrow> py_error option" where
  "validate_manifest m =
     (if mf_version m < 1 \<or> mf_input_schema_version m < 1 \<or> mf_output_schema_version m < 1
        then agent_fault ''manifest version is invalid''
      else if py_strip (mf_name m) = [] \<or> py_strip (mf_purpose m) = []
        then agent_fault ''manifest name and purpose are required''
      else if mf_allowed_tool_classes m = [] \<or> list_ex (\<lambda>x. \<not> is_key x) (mf_allowed_tool_classes m)
        then agent_fault ''manifest tool classes are invalid''
      else if \<not> is_key (mf_model_policy_key m) \<or> \<not> is_key (mf_evaluation_set_key m)
        then agent_fault ''manifest policy identity is invalid''
      else None)"

definition make_manifest :: "agent_manifest \<Rightarrow> py_error + agent_manifest" where
  "make_manifest m = constructed (validate_manifest m) m"

record tool_manifest =
  tl_tool_id :: uuid
  tl_key :: string
  tl_version :: int
  tl_command_reference :: string
  tl_permission_key :: string
  tl_risk :: risk_level
  tl_input_schema_version :: int
  tl_output_schema_version :: int
  tl_enabled :: bool

definition validate_tool :: "tool_manifest \<Rightarrow> py_error option" where
  "validate_tool t =
     (if \<not> is_key (tl_key t) \<or> tl_version t < 1 then agent_fault ''tool identity is invalid''
      else if \<not> is_reference (tl_command_reference t)
        then agent_fault ''tool must reference an application command or query''
      else if \<not> is_key (tl_permission_key t) then agent_fault ''tool permission identity is invalid''
      else if tl_input_schema_version t < 1 \<or> tl_output_schema_version t < 1
        then agent_fault ''tool schema version is invalid''
      else None)"

definition make_tool :: "tool_manifest \<Rightarrow> py_error + tool_manifest" where
  "make_tool t = constructed (validate_tool t) t"

record delegation =
  dg_delegation_id :: uuid
  dg_actor_id :: uuid
  dg_permissions :: "string list"
  dg_risk_ceiling :: risk_level
  dg_expires_at :: py_datetime
  dg_parent_delegation_id :: "uuid option"

definition validate_delegation :: "delegation \<Rightarrow> py_error option" where
  "validate_delegation d =
     (if naive_time (dg_expires_at d) then agent_fault ''delegation expiry must be timezone-aware''
      else if dg_permissions d = [] \<or> list_ex (\<lambda>x. \<not> is_key x) (dg_permissions d)
        then agent_fault ''delegation permissions are invalid''
      else None)"

definition make_delegation :: "delegation \<Rightarrow> py_error + delegation" where
  "make_delegation d = constructed (validate_delegation d) d"

text \<open>The payload of a step is a dictionary, in the order of its members.\<close>

record plan_step =
  ps_key :: string
  ps_tool_key :: string
  ps_tool_version :: int
  ps_input_payload :: "(string \<times> json) list"
  ps_expected_resource_version :: int
  ps_expected_outcome :: string
  ps_verification_reference :: string
  ps_risk :: risk_level
  ps_approval_id :: "uuid option"

definition validate_plan_step :: "plan_step \<Rightarrow> py_error option" where
  "validate_plan_step st =
     (if \<not> is_key (ps_key st) \<or> \<not> is_key (ps_tool_key st) then agent_fault ''plan step identity is invalid''
      else if ps_tool_version st < 1 \<or> ps_expected_resource_version st < 0
        then agent_fault ''plan step version is invalid''
      else if \<not> is_reference (ps_verification_reference st)
        then agent_fault ''plan verification reference is invalid''
      else if py_strip (ps_expected_outcome st) = [] then agent_fault ''plan expected outcome is required''
      else if list_ex (\<lambda>(k, v). list_ex (\<lambda>marker. py_in marker (casefold k)) SENSITIVE_KEYS) (ps_input_payload st)
        then agent_fault ''sensitive plan input is prohibited''
      else case json_dumps (JObj (ps_input_payload st)) of
          None \<Rightarrow> Some TypeError
        | Some serialized \<Rightarrow>
            if length serialized > 32768 then agent_fault ''plan step input exceeds the size limit'' else None)"

definition make_plan_step :: "plan_step \<Rightarrow> py_error + plan_step" where
  "make_plan_step st = constructed (validate_plan_step st) st"

record plan_proposal =
  pp_plan_id :: uuid
  pp_version :: int
  pp_manifest_id :: uuid
  pp_manifest_version :: int
  pp_model_policy_key :: string
  pp_classification :: string
  pp_evidence_references :: "string list"
  pp_assumptions :: "string list"
  pp_estimated_tokens :: int
  pp_estimated_cost_micros :: int
  pp_steps :: "plan_step list"
  pp_status :: plan_status

definition validate_proposal :: "plan_proposal \<Rightarrow> py_error option" where
  "validate_proposal p =
     (if pp_version p < 1 \<or> pp_manifest_version p < 1 then agent_fault ''plan version is invalid''
      else if pp_classification p \<notin> set CLASSIFICATIONS_RANKED then agent_fault ''plan classification is invalid''
      else if \<not> is_key (pp_model_policy_key p) then agent_fault ''plan model policy is invalid''
      else if pp_evidence_references p = [] \<or> pp_steps p = []
        then agent_fault ''plan evidence and steps are required''
      else if pp_estimated_tokens p < 0 \<or> pp_estimated_cost_micros p < 0 then agent_fault ''plan estimate is invalid''
      else if \<not> distinct (map ps_key (pp_steps p)) then agent_fault ''plan step keys must be unique''
      else None)"

definition make_proposal :: "plan_proposal \<Rightarrow> py_error + plan_proposal" where
  "make_proposal p = constructed (validate_proposal p) p"

text \<open>
  Validation of a proposal from plain data: every step first, where a \<open>TypeError\<close> ends the
  validation at once, then the proposal.
\<close>

definition validate_with_steps :: "plan_proposal \<Rightarrow> py_error + plan_proposal" where
  "validate_with_steps p =
     (if list_ex (\<lambda>st. validate_plan_step st = Some TypeError) (pp_steps p) then Inl TypeError
      else case List.find (\<lambda>st. validate_plan_step st \<noteq> None) (pp_steps p) of
        Some st \<Rightarrow> constructed (validate_plan_step st) p
      | None \<Rightarrow> make_proposal p)"

record tool_execution_request =
  er_orchestration_id :: uuid
  er_plan_id :: uuid
  er_plan_version :: int
  er_step_key :: string
  er_command_reference :: string
  er_permission_key :: string
  er_input_payload :: "(string \<times> json) list"
  er_expected_resource_version :: int
  er_action_digest :: string
  er_idempotency_key :: string
  er_correlation_id :: string
  er_approval_id :: "uuid option"

record tool_execution_result =
  xr_result_payload :: "(string \<times> json) list"
  xr_command_receipt_id :: uuid
  xr_verification_passed :: "bool option"

section \<open>Delegations and budgets\<close>

text \<open>\<open>a > b\<close> of times\<close>

definition later_than :: "py_datetime \<Rightarrow> py_datetime \<Rightarrow> py_error + bool" where
  "later_than a b = map_sum id Not (not_before b a)"

definition attenuate_delegation :: "delegation \<Rightarrow> uuid \<Rightarrow> string list \<Rightarrow> risk_level \<Rightarrow> py_datetime \<Rightarrow>
    py_error + delegation" where
  "attenuate_delegation parent i granted risk_ceiling expires_at =
     (if \<not> set granted \<subseteq> set (dg_permissions parent)
        then Inl (AgentPlatformError ''delegation cannot amplify permissions'')
      else if RISK_RANK risk_ceiling > RISK_RANK (dg_risk_ceiling parent)
        then Inl (AgentPlatformError ''delegation cannot amplify risk'')
      else case later_than expires_at (dg_expires_at parent) of Inl e \<Rightarrow> Inl e
      | Inr extends \<Rightarrow>
        if extends then Inl (AgentPlatformError ''delegation cannot extend expiry'')
        else make_delegation \<lparr>dg_delegation_id = i, dg_actor_id = dg_actor_id parent, dg_permissions = granted,
          dg_risk_ceiling = risk_ceiling, dg_expires_at = expires_at,
          dg_parent_delegation_id = Some (dg_delegation_id parent)\<rparr>)"

definition reserve_budget :: "budget \<Rightarrow> int \<Rightarrow> int \<Rightarrow> int \<Rightarrow> int \<Rightarrow> py_error + budget" where
  "reserve_budget available tokens cost_micros tool_calls secs =
     (if min (min tokens cost_micros) (min tool_calls secs) < 0 \<or>
         tokens > bg_max_tokens available \<or> cost_micros > bg_max_cost_micros available \<or>
         tool_calls > bg_max_tool_calls available \<or> secs > bg_max_seconds available
      then Inl (AgentPlatformError ''agent budget exhausted'')
      else make_budget \<lparr>bg_max_tokens = bg_max_tokens available - tokens,
        bg_max_cost_micros = bg_max_cost_micros available - cost_micros,
        bg_max_tool_calls = bg_max_tool_calls available - tool_calls,
        bg_max_seconds = bg_max_seconds available - secs\<rparr>)"

section \<open>Plans and executions\<close>

definition agent_action_digest :: "py_env \<Rightarrow> string \<Rightarrow> (string \<times> json) list \<Rightarrow> int \<Rightarrow> py_error + string" where
  "agent_action_digest env command payload version =
     (case json_dumps (JObj [(''command'', JStr command), (''payload'', JObj payload), (''resource_version'', JInt version)]) of
        None \<Rightarrow> Inl TypeError
      | Some normalized \<Rightarrow> Inr (sha256_hex env normalized))"

definition tool_class :: "string \<Rightarrow> string" where
  "tool_class k = takeWhile (\<lambda>c. c \<noteq> CHR ''.'') k"

fun check_plan_steps :: "agent_manifest \<Rightarrow> (string \<Rightarrow> tool_manifest option) \<Rightarrow> plan_step list \<Rightarrow> py_error option" where
  "check_plan_steps m tools [] = None"
| "check_plan_steps m tools (st # sts) =
     (case tools (ps_tool_key st) of
        None \<Rightarrow> agent_fault ''plan references an unregistered or disabled tool''
      | Some registered \<Rightarrow>
        if tl_version registered \<noteq> ps_tool_version st \<or> \<not> tl_enabled registered
          then agent_fault ''plan references an unregistered or disabled tool''
        else if tool_class (ps_tool_key st) \<notin> set (mf_allowed_tool_classes m)
          then agent_fault ''tool class is outside the manifest''
        else if ps_risk st \<noteq> tl_risk registered \<or> RISK_RANK (ps_risk st) > RISK_RANK (mf_risk_ceiling m)
          then agent_fault ''plan risk exceeds the manifest''
        else check_plan_steps m tools sts)"

definition validate_plan :: "plan_proposal \<Rightarrow> agent_manifest \<Rightarrow> (string \<Rightarrow> tool_manifest option) \<Rightarrow>
    py_error + plan_proposal" where
  "validate_plan p m tools =
     (if pp_status p \<noteq> PLAN_PROPOSED then Inl (AgentPlatformError ''only a proposed plan can be validated'')
      else if (pp_manifest_id p, pp_manifest_version p) \<noteq> (mf_manifest_id m, mf_version m) \<or> \<not> mf_enabled m
        then Inl (AgentPlatformError ''plan manifest binding is invalid'')
      else if pp_model_policy_key p \<noteq> mf_model_policy_key m
        then Inl (AgentPlatformError ''plan model policy changed'')
      else if pp_estimated_tokens p > bg_max_tokens (mf_budget m) \<or>
          pp_estimated_cost_micros p > bg_max_cost_micros (mf_budget m) \<or>
          int (length (pp_steps p)) > bg_max_tool_calls (mf_budget m)
        then Inl (AgentPlatformError ''plan exceeds manifest budget'')
      else case check_plan_steps m tools (pp_steps p) of Some e \<Rightarrow> Inl e
      | None \<Rightarrow> Inr (p\<lparr>pp_status := PLAN_VALIDATED\<rparr>))"

definition high_risk :: "risk_level \<Rightarrow> bool" where
  "high_risk r \<longleftrightarrow> r \<in> {RISK_HIGH, RISK_CRITICAL}"

definition validate_execution :: "py_env \<Rightarrow> plan_step \<Rightarrow> tool_manifest \<Rightarrow> agent_manifest \<Rightarrow> delegation \<Rightarrow> py_datetime \<Rightarrow>
    bool \<Rightarrow> bool \<Rightarrow> py_error + string" where
  "validate_execution env st tool m d now authorized approval_valid =
     (if naive_time now then Inl (AgentPlatformError ''execution clock must be timezone-aware'')
      else if \<not> mf_enabled m \<or> \<not> tl_enabled tool then Inl (AgentPlatformError ''manifest or tool is disabled'')
      else case not_before now (dg_expires_at d) of Inl e \<Rightarrow> Inl e
      | Inr expired \<Rightarrow>
        if expired then Inl (AgentPlatformError ''delegation is expired'')
        else if (ps_tool_key st, ps_tool_version st) \<noteq> (tl_key tool, tl_version tool)
          then Inl (AgentPlatformError ''tool binding changed'')
        else if tl_permission_key tool \<notin> set (dg_permissions d) \<or> \<not> authorized
          then Inl (AgentPlatformError ''execution authorization denied'')
        else if RISK_RANK (ps_risk st) > RISK_RANK (mf_risk_ceiling m) \<or>
            RISK_RANK (ps_risk st) > RISK_RANK (dg_risk_ceiling d)
          then Inl (AgentPlatformError ''execution risk exceeds the active ceiling'')
        else if high_risk (ps_risk st) \<and> (ps_approval_id st = None \<or> \<not> approval_valid)
          then Inl (AgentPlatformError ''valid digest-bound approval is required'')
        else agent_action_digest env (tl_command_reference tool) (ps_input_payload st) (ps_expected_resource_version st))"

fun verify_result :: "bool option \<Rightarrow> execution_outcome" where
  "verify_result (Some True) = OUTCOME_VERIFIED"
| "verify_result (Some False) = OUTCOME_FAILED"
| "verify_result None = OUTCOME_UNCERTAIN"

fun outcome_value :: "execution_outcome \<Rightarrow> string" where
  "outcome_value OUTCOME_VERIFIED = ''verified''"
| "outcome_value OUTCOME_FAILED = ''failed''"
| "outcome_value OUTCOME_CANCELLED = ''cancelled''"
| "outcome_value OUTCOME_UNCERTAIN = ''uncertain''"

section \<open>Models as JSON\<close>

text \<open>
  \<open>model_dump(mode="json")\<close>. How \<open>pydantic\<close> writes a time is the parameter \<open>json_time\<close>.
\<close>

definition dump_budget :: "budget \<Rightarrow> json" where
  "dump_budget b = JObj [(''max_tokens'', JInt (bg_max_tokens b)), (''max_cost_micros'', JInt (bg_max_cost_micros b)),
     (''max_tool_calls'', JInt (bg_max_tool_calls b)), (''max_seconds'', JInt (bg_max_seconds b))]"

definition dump_manifest :: "agent_manifest \<Rightarrow> json" where
  "dump_manifest m = JObj
     [(''manifest_id'', JStr (uuid_str (mf_manifest_id m))), (''version'', JInt (mf_version m)),
      (''name'', JStr (mf_name m)), (''purpose'', JStr (mf_purpose m)),
      (''owner_user_id'', JStr (uuid_str (mf_owner_user_id m))),
      (''allowed_tool_classes'', JList (map JStr (mf_allowed_tool_classes m))),
      (''risk_ceiling'', JStr (risk_value (mf_risk_ceiling m))), (''budget'', dump_budget (mf_budget m)),
      (''model_policy_key'', JStr (mf_model_policy_key m)), (''evaluation_set_key'', JStr (mf_evaluation_set_key m)),
      (''input_schema_version'', JInt (mf_input_schema_version m)),
      (''output_schema_version'', JInt (mf_output_schema_version m)), (''enabled'', JBool (mf_enabled m))]"

definition dump_tool :: "tool_manifest \<Rightarrow> json" where
  "dump_tool t = JObj
     [(''tool_id'', JStr (uuid_str (tl_tool_id t))), (''key'', JStr (tl_key t)), (''version'', JInt (tl_version t)),
      (''command_reference'', JStr (tl_command_reference t)), (''permission_key'', JStr (tl_permission_key t)),
      (''risk'', JStr (risk_value (tl_risk t))), (''input_schema_version'', JInt (tl_input_schema_version t)),
      (''output_schema_version'', JInt (tl_output_schema_version t)), (''enabled'', JBool (tl_enabled t))]"

definition dump_delegation :: "py_env \<Rightarrow> delegation \<Rightarrow> json" where
  "dump_delegation env d = JObj
     [(''delegation_id'', JStr (uuid_str (dg_delegation_id d))), (''actor_id'', JStr (uuid_str (dg_actor_id d))),
      (''permissions'', JList (map JStr (dg_permissions d))), (''risk_ceiling'', JStr (risk_value (dg_risk_ceiling d))),
      (''expires_at'', JStr (json_time env (dg_expires_at d))),
      (''parent_delegation_id'', json_opt_uuid (dg_parent_delegation_id d))]"

definition dump_plan_step :: "plan_step \<Rightarrow> json" where
  "dump_plan_step st = JObj
     [(''key'', JStr (ps_key st)), (''tool_key'', JStr (ps_tool_key st)), (''tool_version'', JInt (ps_tool_version st)),
      (''input_payload'', JObj (ps_input_payload st)), (''expected_resource_version'', JInt (ps_expected_resource_version st)),
      (''expected_outcome'', JStr (ps_expected_outcome st)),
      (''verification_reference'', JStr (ps_verification_reference st)), (''risk'', JStr (risk_value (ps_risk st))),
      (''approval_id'', json_opt_uuid (ps_approval_id st))]"

definition dump_proposal :: "plan_proposal \<Rightarrow> json" where
  "dump_proposal p = JObj
     [(''plan_id'', JStr (uuid_str (pp_plan_id p))), (''version'', JInt (pp_version p)),
      (''manifest_id'', JStr (uuid_str (pp_manifest_id p))), (''manifest_version'', JInt (pp_manifest_version p)),
      (''model_policy_key'', JStr (pp_model_policy_key p)), (''classification'', JStr (pp_classification p)),
      (''evidence_references'', JList (map JStr (pp_evidence_references p))),
      (''assumptions'', JList (map JStr (pp_assumptions p))), (''estimated_tokens'', JInt (pp_estimated_tokens p)),
      (''estimated_cost_micros'', JInt (pp_estimated_cost_micros p)), (''steps'', JList (map dump_plan_step (pp_steps p))),
      (''status'', JStr (plan_status_value (pp_status p)))]"

text \<open>\<open>AgentPlatformService._canonical\<close> and \<open>_digest\<close>\<close>

definition canonical :: "json \<Rightarrow> string" where
  "canonical v = json_text True '','' '':'' v"

definition canonical_digest :: "py_env \<Rightarrow> json \<Rightarrow> string" where
  "canonical_digest env v = sha256_hex env (canonical v)"

end
