(* ===== verification/Agent_Laws.thy ===== *)
theory Agent_Laws
  imports Agent_Contracts Workflow_Laws
begin

text \<open>
  What the contracts of the agent platform promise: delegations only lose authority, budgets only
  shrink, which plans a manifest admits, when a step may be executed, and what its digest binds.
\<close>

section \<open>Risk and authority\<close>

instantiation risk_level :: linorder
begin

definition less_eq_risk_level :: "risk_level \<Rightarrow> risk_level \<Rightarrow> bool" where
  "less_eq_risk_level a b \<longleftrightarrow> RISK_RANK a \<le> RISK_RANK b"

definition less_risk_level :: "risk_level \<Rightarrow> risk_level \<Rightarrow> bool" where
  "less_risk_level a b \<longleftrightarrow> RISK_RANK a < RISK_RANK b"

instance
proof
  fix a b :: risk_level
  show "a \<le> b \<Longrightarrow> b \<le> a \<Longrightarrow> a = b" by (cases a; cases b) (simp_all add: less_eq_risk_level_def)
qed (auto simp: less_eq_risk_level_def less_risk_level_def)

end

lemma rank_less [simp]: "RISK_RANK b < RISK_RANK a \<longleftrightarrow> \<not> a \<le> b"
  by (simp add: less_eq_risk_level_def not_le)

text \<open>Times of the same kind, in order.\<close>

lemma later_than_False: "later_than a b = Inr False \<longleftrightarrow> not_before b a = Inr True"
  by (auto simp: later_than_def map_sum_def split: sum.splits)

lemma not_before_True:
  "not_before b a = Inr True \<longleftrightarrow> (\<exists>x y. a = Aware x \<and> b = Aware y \<and> x \<le> y) \<or> (\<exists>x y. a = Naive x \<and> b = Naive y \<and> x \<le> y)"
  by (cases a; cases b) auto

lemma not_before_False:
  "not_before b a = Inr False \<longleftrightarrow> (\<exists>x y. a = Aware x \<and> b = Aware y \<and> y < x) \<or> (\<exists>x y. a = Naive x \<and> b = Naive y \<and> y < x)"
  by (cases a; cases b) auto

text \<open>\<open>narrower c p\<close>: the delegation \<open>c\<close> gives no authority that \<open>p\<close> does not give.\<close>

definition narrower :: "delegation \<Rightarrow> delegation \<Rightarrow> bool" where
  "narrower c p \<longleftrightarrow> dg_actor_id c = dg_actor_id p \<and> set (dg_permissions c) \<subseteq> set (dg_permissions p) \<and>
     dg_risk_ceiling c \<le> dg_risk_ceiling p \<and> later_than (dg_expires_at c) (dg_expires_at p) = Inr False"

lemma narrower_refl: "narrower d d"
  by (cases "dg_expires_at d") (simp_all add: narrower_def later_than_False)

lemma narrower_trans: "narrower a b \<Longrightarrow> narrower b c \<Longrightarrow> narrower a c"
  unfolding narrower_def later_than_False not_before_True by (auto intro: order_trans)

lemma attenuate_Inr:
  "attenuate_delegation p i granted ceiling expires = Inr c \<longleftrightarrow>
     c = \<lparr>dg_delegation_id = i, dg_actor_id = dg_actor_id p, dg_permissions = granted, dg_risk_ceiling = ceiling,
       dg_expires_at = expires, dg_parent_delegation_id = Some (dg_delegation_id p)\<rparr> \<and>
     narrower c p \<and> validate_delegation c = None"
  by (auto simp: attenuate_delegation_def make_delegation_def constructed_def narrower_def split: option.splits sum.splits)

text \<open>What a delegation is handed on as, over any number of attenuations.\<close>

inductive handed_on :: "delegation \<Rightarrow> delegation \<Rightarrow> bool" for root where
  root: "handed_on root root"
| attenuate: "handed_on root p \<Longrightarrow> attenuate_delegation p i granted ceiling expires = Inr c \<Longrightarrow> handed_on root c"

lemma handed_on_narrower: "handed_on root c \<Longrightarrow> narrower c root"
  by (induction rule: handed_on.induct) (auto simp: attenuate_Inr intro: narrower_refl narrower_trans)

section \<open>Budgets\<close>

text \<open>A request: tokens, cost, calls of tools, and seconds; and reservations one after the other.\<close>

type_synonym reservation = "int \<times> int \<times> int \<times> int"

fun reserve_all :: "budget \<Rightarrow> reservation list \<Rightarrow> py_error + budget" where
  "reserve_all b [] = Inr b"
| "reserve_all b ((tk, co, ca, se) # rs) = (case reserve_budget b tk co ca se of Inl e \<Rightarrow> Inl e | Inr b' \<Rightarrow> reserve_all b' rs)"

fun within_budget :: "reservation \<Rightarrow> budget \<Rightarrow> bool" where
  "within_budget (tk, co, ca, se) b \<longleftrightarrow>
     tk \<le> bg_max_tokens b \<and> co \<le> bg_max_cost_micros b \<and> ca \<le> bg_max_tool_calls b \<and> se \<le> bg_max_seconds b"

fun spent :: "reservation \<Rightarrow> budget \<Rightarrow> budget" where
  "spent (tk, co, ca, se) b = \<lparr>bg_max_tokens = bg_max_tokens b - tk, bg_max_cost_micros = bg_max_cost_micros b - co,
     bg_max_tool_calls = bg_max_tool_calls b - ca, bg_max_seconds = bg_max_seconds b - se\<rparr>"

fun nonnegative :: "reservation \<Rightarrow> bool" where
  "nonnegative (tk, co, ca, se) \<longleftrightarrow> 0 \<le> tk \<and> 0 \<le> co \<and> 0 \<le> ca \<and> 0 \<le> se"

definition total :: "reservation list \<Rightarrow> reservation" where
  "total rs = (sum_list (map fst rs), sum_list (map (fst \<circ> snd) rs), sum_list (map (fst \<circ> snd \<circ> snd) rs),
     sum_list (map (snd \<circ> snd \<circ> snd) rs))"

lemma total_simps [simp]:
  "total [] = (0, 0, 0, 0)"
  "total ((a, b, c, d) # rs) = (case total rs of (x, y, z, w) \<Rightarrow> (a + x, b + y, c + z, d + w))"
  by (simp_all add: total_def)

lemma within_budget_zero: "within_budget (0, 0, 0, 0) b \<longleftrightarrow> positive_limits b = None"
  by (auto simp: positive_limits_def)

lemma reserve_budget_Inr:
  "reserve_budget b tk co ca se = Inr b' \<longleftrightarrow>
     nonnegative (tk, co, ca, se) \<and> within_budget (tk, co, ca, se) b \<and> b' = spent (tk, co, ca, se) b"
  by (auto simp: reserve_budget_def make_budget_def constructed_def positive_limits_def)

lemma positive_spent: "within_budget r b \<Longrightarrow> positive_limits (spent r b) = None"
  by (cases r) (auto simp: positive_limits_def)

lemma nonnegative_total: "list_all nonnegative rs \<Longrightarrow> nonnegative (total rs)"
  by (induction rs) (auto split: prod.splits)

lemma reserve_all_Inr:
  assumes "positive_limits b = None"
  shows "reserve_all b rs = Inr b' \<longleftrightarrow> list_all nonnegative rs \<and> within_budget (total rs) b \<and> b' = spent (total rs) b"
  using assms
proof (induction b rs rule: reserve_all.induct)
  case (1 b)
  then show ?case by (cases b) (auto simp: within_budget_zero [symmetric])
next
  case (2 b tk co ca se rs)
  obtain x y z w where t: "total rs = (x, y, z, w)" by (cases "total rs")
  show ?case
  proof (cases "reserve_budget b tk co ca se")
    case (Inl e)
    then have "\<not> (nonnegative (tk, co, ca, se) \<and> within_budget (tk, co, ca, se) b)"
      using reserve_budget_Inr [of b tk co ca se "spent (tk, co, ca, se) b"] by auto
    then show ?thesis using Inl nonnegative_total [of rs] t by auto
  next
    case (Inr b1)
    then have b1: "nonnegative (tk, co, ca, se)" "within_budget (tk, co, ca, se) b" "b1 = spent (tk, co, ca, se) b"
      by (simp_all only: reserve_budget_Inr)
    have "reserve_all b1 rs = Inr b' \<longleftrightarrow> list_all nonnegative rs \<and> within_budget (total rs) b1 \<and> b' = spent (total rs) b1"
      using 2(1) [OF Inr] positive_spent [OF b1(2)] b1(3) by simp
    then show ?thesis using Inr b1 t by (auto simp: algebra_simps)
  qed
qed

section \<open>Plans\<close>

definition step_admitted :: "agent_manifest \<Rightarrow> (string \<Rightarrow> tool_manifest option) \<Rightarrow> plan_step \<Rightarrow> bool" where
  "step_admitted m tools st \<longleftrightarrow> (\<exists>t. tools (ps_tool_key st) = Some t \<and> tl_version t = ps_tool_version st \<and> tl_enabled t \<and>
     tool_class (ps_tool_key st) \<in> set (mf_allowed_tool_classes m) \<and> tl_risk t = ps_risk st \<and>
     ps_risk st \<le> mf_risk_ceiling m)"

lemma check_plan_steps_None: "check_plan_steps m tools sts = None \<longleftrightarrow> list_all (step_admitted m tools) sts"
  by (induction sts) (auto simp: step_admitted_def split: option.splits)

lemma validate_plan_Inr:
  "validate_plan p m tools = Inr q \<longleftrightarrow>
     q = p\<lparr>pp_status := PLAN_VALIDATED\<rparr> \<and> pp_status p = PLAN_PROPOSED \<and> pp_manifest_id p = mf_manifest_id m \<and>
     pp_manifest_version p = mf_version m \<and> mf_enabled m \<and> pp_model_policy_key p = mf_model_policy_key m \<and>
     pp_estimated_tokens p \<le> bg_max_tokens (mf_budget m) \<and> pp_estimated_cost_micros p \<le> bg_max_cost_micros (mf_budget m) \<and>
     int (length (pp_steps p)) \<le> bg_max_tool_calls (mf_budget m) \<and> list_all (step_admitted m tools) (pp_steps p)"
  unfolding validate_plan_def check_plan_steps_None [symmetric] by (auto split: option.splits)

section \<open>Executions\<close>

lemma agent_action_digest_Inr:
  "agent_action_digest env t p n = Inr x \<longleftrightarrow> (\<exists>u. json_dumps (JObj [(''command'', JStr t), (''payload'', JObj p),
     (''resource_version'', JInt n)]) = Some u \<and> x = sha256_hex env u)"
  by (auto simp: agent_action_digest_def split: option.splits)

lemma validate_execution_Inr:
  "validate_execution env st tool m d now authorized approval_valid = Inr x \<longleftrightarrow>
     (\<exists>n e. now = Aware n \<and> dg_expires_at d = Aware e \<and> n < e) \<and> mf_enabled m \<and> tl_enabled tool \<and>
     ps_tool_key st = tl_key tool \<and> ps_tool_version st = tl_version tool \<and>
     tl_permission_key tool \<in> set (dg_permissions d) \<and> authorized \<and>
     ps_risk st \<le> mf_risk_ceiling m \<and> ps_risk st \<le> dg_risk_ceiling d \<and>
     (high_risk (ps_risk st) \<longrightarrow> ps_approval_id st \<noteq> None \<and> approval_valid) \<and>
     agent_action_digest env (tl_command_reference tool) (ps_input_payload st) (ps_expected_resource_version st) = Inr x"
  by (cases now; cases "dg_expires_at d") (auto simp: validate_execution_def naive_time_def)

lemma narrower_executes:
  assumes "narrower c p" "validate_execution env st tool m c now authorized approval_valid = Inr x"
  shows "validate_execution env st tool m p now authorized approval_valid = Inr x"
  using assms by (auto simp: validate_execution_Inr narrower_def later_than_False not_before_True intro: order_trans)

section \<open>Digests of actions\<close>

lemma int_str_inject: "int_str m = int_str n \<Longrightarrow> m = n"
  by (metis option.inject parse_int_str)

lemma int_str_no_colon: "CHR '':'' \<notin> set (int_str n)"
proof
  assume "CHR '':'' \<in> set (int_str n)"
  then consider "CHR '':'' = CHR ''-''" | d where "d < 10" "CHR '':'' = digit_char d" using int_str_chars by blast
  then show False
  proof cases
    case 2
    then have "(of_char (CHR '':'') :: nat) = of_char (digit_char d)" by simp
    with 2(1) show False by (simp add: digit_char_def)
  qed simp
qed

lemma quote_plain:
  assumes "is_reference t"
  shows "json_quote True t = CHR 0x22 # t @ [CHR 0x22]"
proof -
  have "json_escape_char True c = [c]" if "c \<in> set t" for c
  proof -
    have c: "lower_char c \<or> decimal_char c \<or> c \<in> set ''_.-''" by (rule reference_chars [OF assms that])
    then have "(of_char c :: nat) < 127" by (auto simp: lower_char_def decimal_char_def in_range_def)
    then show ?thesis using stem_char_plain(1) [OF c] by (auto simp: json_escape_char_def Let_def split: if_splits)
  qed
  then have "concat (map (json_escape_char True) u) = u" if "set u \<subseteq> set t" for u using that by (induction u) auto
  then show ?thesis by (simp add: json_quote_def json_escape_def)
qed

definition members_text :: "(string \<times> json) list \<Rightarrow> string" where
  "members_text p = json_text True '','' '':'' (JObj p)"

definition agent_action_text :: "string \<Rightarrow> string \<Rightarrow> int \<Rightarrow> string" where
  "agent_action_text t p n = CHR 0x7B # json_quote True ''command'' @ '':'' @ json_quote True t @ '','' @
     json_quote True ''payload'' @ '':'' @ p @ '','' @ json_quote True ''resource_version'' @ '':'' @ int_str n @ [CHR 0x7D]"

lemma agent_digest_text:
  assumes "agent_action_digest env t p n = Inr x"
  shows "x = sha256_hex env (agent_action_text t (members_text p) n)"
proof -
  have "\<not> ''payload'' \<le> ''command''" "\<not> ''resource_version'' \<le> ''payload''" "\<not> ''resource_version'' \<le> ''command''"
    by (simp_all add: less_eq_char_def)
  then show ?thesis
    using assms by (auto simp: agent_action_digest_Inr json_dumps_def json_dumps_with_def members_text_def agent_action_text_def
        split: if_splits)
qed

lemma split_first:
  assumes "u @ c # p = v @ c # q" "c \<notin> set u" "c \<notin> set v"
  shows "u = v \<and> p = q"
proof -
  have "takeWhile (\<lambda>x. x \<noteq> c) (w @ c # r) = w" "dropWhile (\<lambda>x. x \<noteq> c) (w @ c # r) = c # r" if "c \<notin> set w" for w r
    using that by (auto simp: takeWhile_append dropWhile_append)
  then show ?thesis using assms by (metis list.inject)
qed

lemma split_last:
  assumes "p @ c # u = q @ c # v" "c \<notin> set u" "c \<notin> set v"
  shows "p = q \<and> u = v"
proof -
  have "rev u @ c # rev p = rev v @ c # rev q" using arg_cong [OF assms(1), of rev] by simp
  from split_first [OF this] show ?thesis using assms(2,3) by simp
qed

lemma agent_text_inject:
  assumes "is_reference t" "is_reference u" "agent_action_text t p m = agent_action_text u q n"
  shows "t = u \<and> p = q \<and> m = n"
proof -
  have no: "CHR 0x22 \<notin> set t" "CHR 0x22 \<notin> set u"
    using stem_char_plain(2) reference_chars assms(1,2) by blast+
  let ?mid = "\<lambda>p. '','' @ json_quote True ''payload'' @ '':'' @ p @ '','' @ json_quote True ''resource_version''"
  let ?rest = "\<lambda>p n. ?mid p @ CHR '':'' # int_str n @ [CHR 0x7D]"
  have "t @ CHR 0x22 # ?rest p m = u @ CHR 0x22 # ?rest q n"
    using assms(3) by (simp add: agent_action_text_def quote_plain assms(1,2))
  from split_first [OF this no] have t: "t = u" and r: "?rest p m = ?rest q n" by auto
  from split_last [OF r] have "?mid p = ?mid q" "int_str m @ [CHR 0x7D] = int_str n @ [CHR 0x7D]"
    using int_str_no_colon by auto
  then show ?thesis using t int_str_inject by simp
qed

text \<open>The digest of an action is that of no other, unless SHA-256 collides on their texts.\<close>

lemma agent_digest_binds:
  assumes "is_reference t" "is_reference u" "agent_action_digest env t p m = Inr x" "agent_action_digest env u q n = Inr x"
  shows "t = u \<and> m = n \<and> members_text p = members_text q \<or> (\<exists>a b. a \<noteq> b \<and> sha256_hex env a = sha256_hex env b)"
  using agent_digest_text [OF assms(3)] agent_digest_text [OF assms(4)]
    agent_text_inject [OF assms(1,2), of "members_text p" m "members_text q" n] by metis

end
