(* ===== verification/Agent_Store.thy ===== *)
theory Agent_Store
  imports Agent_Contracts Job_Store
begin

text \<open>
  The eleven tables of the agent platform and the repository on them:
  \<open>app/agent_platform/models.py\<close> with the checks that migration \<open>0031_add_agent_platform.py\<close> adds, and
  \<open>app/agent_platform/repository.py\<close>. The columns of type \<open>INTEGER\<close> hold 32 bits, signed; a larger
  number is refused.
\<close>

section \<open>Rows\<close>

record agent_manifest_record = tenant_row +
  am_id :: uuid
  am_name :: string
  am_owner_user_id :: uuid
  am_enabled :: bool
  am_created_at :: instant

record agent_manifest_version = tenant_row +
  av_manifest_id :: uuid
  av_version :: int
  av_manifest_json :: string
  av_manifest_digest :: string
  av_classification :: string
  av_policy_version :: int
  av_activated_at :: "instant option"
  av_created_at :: instant

record agent_tool_record = tenant_row +
  at_id :: uuid
  at_tool_key :: string
  at_owner_user_id :: uuid
  at_enabled :: bool
  at_created_at :: instant

record agent_tool_version = tenant_row +
  au_tool_id :: uuid
  au_version :: int
  au_tool_json :: string
  au_tool_digest :: string
  au_risk :: risk_level
  au_activated_at :: "instant option"
  au_created_at :: instant

record agent_delegation = tenant_row +
  al_id :: uuid
  al_actor_id :: uuid
  al_parent_delegation_id :: "uuid option"
  al_permissions_json :: string
  al_risk_ceiling :: risk_level
  al_expires_at :: instant
  al_revoked_at :: "instant option"
  al_delegation_digest :: string

record agent_plan = tenant_row +
  ap_id :: uuid
  ap_version :: int
  ap_manifest_id :: uuid
  ap_manifest_version :: int
  ap_plan_json :: string
  ap_plan_digest :: string
  ap_status :: plan_status
  ap_classification :: string
  ap_policy_version :: int
  ap_idempotency_key :: string
  ap_created_by_user_id :: uuid
  ap_created_at :: instant

record agent_plan_step = tenant_row +
  as_plan_id :: uuid
  as_plan_version :: int
  as_step_key :: string
  as_tool_id :: uuid
  as_tool_key :: string
  as_tool_version :: int
  as_step_json :: string
  as_action_digest :: string
  as_status :: string

record agent_budget_reservation = tenant_row +
  ab_id :: uuid
  ab_manifest_id :: uuid
  ab_manifest_version :: int
  ab_plan_id :: uuid
  ab_plan_version :: int
  ab_tokens :: int
  ab_cost_micros :: int
  ab_tool_calls :: int
  ab_seconds :: int
  ab_idempotency_key :: string
  ab_released_at :: "instant option"
  ab_created_at :: instant

record agent_orchestration = tenant_row +
  ao_id :: uuid
  ao_plan_id :: uuid
  ao_plan_version :: int
  ao_delegation_id :: uuid
  ao_status :: plan_status
  ao_current_step_key :: "string option"
  ao_idempotency_key :: string
  ao_version :: int
  ao_cancelled_at :: "instant option"
  ao_created_at :: instant

record agent_execution_receipt = tenant_row +
  rc_id :: uuid
  rc_orchestration_id :: uuid
  rc_step_key :: string
  rc_command_receipt_id :: uuid
  rc_action_digest :: string
  rc_result_digest :: string
  rc_outcome :: execution_outcome
  rc_verified :: bool
  rc_created_at :: instant

record agent_evaluation_run = tenant_row +
  en_run_id :: uuid
  en_run_key :: string
  en_manifest_id :: uuid
  en_manifest_version :: int
  en_evaluation_set_key :: string
  en_result_digest :: string
  en_passed :: bool
  en_created_at :: instant

record agent_db = core_db +
  agent_manifests :: "agent_manifest_record list"
  agent_manifest_versions :: "agent_manifest_version list"
  agent_tools :: "agent_tool_record list"
  agent_tool_versions :: "agent_tool_version list"
  agent_delegations :: "agent_delegation list"
  agent_plans :: "agent_plan list"
  agent_plan_steps :: "agent_plan_step list"
  agent_budget_reservations :: "agent_budget_reservation list"
  agent_orchestrations :: "agent_orchestration list"
  agent_execution_receipts :: "agent_execution_receipt list"
  agent_evaluation_runs :: "agent_evaluation_run list"

section \<open>Keys and constraints\<close>

definition am_pk :: "agent_manifest_record \<Rightarrow> tenant_key" where "am_pk r = tenant_pk r (am_id r)"
definition at_pk :: "agent_tool_record \<Rightarrow> tenant_key" where "at_pk r = tenant_pk r (at_id r)"
definition ao_pk :: "agent_orchestration \<Rightarrow> tenant_key" where "ao_pk r = tenant_pk r (ao_id r)"

definition av_pk :: "agent_manifest_version \<Rightarrow> tenant_key \<times> int" where
  "av_pk r = (tenant_pk r (av_manifest_id r), av_version r)"

definition au_pk :: "agent_tool_version \<Rightarrow> tenant_key \<times> int" where
  "au_pk r = (tenant_pk r (au_tool_id r), au_version r)"

definition ap_pk :: "agent_plan \<Rightarrow> tenant_key \<times> int" where
  "ap_pk r = (tenant_pk r (ap_id r), ap_version r)"

definition int4 :: "int \<Rightarrow> bool" where
  "int4 n \<longleftrightarrow> - (2 ^ 31) \<le> n \<and> n < 2 ^ 31"

definition manifest_version_exists :: "tenant_key \<times> int \<Rightarrow> 'a agent_db_scheme \<Rightarrow> bool" where
  "manifest_version_exists k s \<longleftrightarrow> list_ex (\<lambda>x. av_pk x = k) (agent_manifest_versions s)"

definition plan_exists :: "tenant_key \<times> int \<Rightarrow> 'a agent_db_scheme \<Rightarrow> bool" where
  "plan_exists k s \<longleftrightarrow> list_ex (\<lambda>x. ap_pk x = k) (agent_plans s)"

definition manifest_record_constraints ::
    "agent_manifest_record \<Rightarrow> 'a agent_db_scheme \<Rightarrow> (string \<times> bool) list" where
  "manifest_record_constraints r s =
     [(''pk_agent_manifests'', list_all (\<lambda>x. am_pk x \<noteq> am_pk r) (agent_manifests s)),
      (''uq_agent_manifest_name'', list_all (\<lambda>x. \<not> (tenant_pk x 0 = tenant_pk r 0 \<and> am_name x = am_name r))
         (agent_manifests s)),
      (''fk_agent_manifests_workspace'', tenant_exists r s),
      (''character varying(128)'', length (am_name r) \<le> 128)]"

definition manifest_version_constraints ::
    "agent_manifest_version \<Rightarrow> 'a agent_db_scheme \<Rightarrow> (string \<times> bool) list" where
  "manifest_version_constraints r s =
     [(''pk_agent_manifest_versions'', list_all (\<lambda>x. av_pk x \<noteq> av_pk r) (agent_manifest_versions s)),
      (''fk_agent_manifest_versions_manifest'', list_ex (\<lambda>x. am_pk x = tenant_pk r (av_manifest_id r)) (agent_manifests s)),
      (''version > 0'', 0 < av_version r),
      (''policy_version > 0'', 0 < av_policy_version r),
      (''integer'', int4 (av_version r) \<and> int4 (av_policy_version r)),
      (''character varying(16)'', length (av_classification r) \<le> 16)]"

definition tool_record_constraints ::
    "agent_tool_record \<Rightarrow> 'a agent_db_scheme \<Rightarrow> (string \<times> bool) list" where
  "tool_record_constraints r s =
     [(''pk_agent_tools'', list_all (\<lambda>x. at_pk x \<noteq> at_pk r) (agent_tools s)),
      (''uq_agent_tool_key'', list_all (\<lambda>x. \<not> (tenant_pk x 0 = tenant_pk r 0 \<and> at_tool_key x = at_tool_key r))
         (agent_tools s)),
      (''fk_agent_tools_workspace'', tenant_exists r s),
      (''character varying(128)'', length (at_tool_key r) \<le> 128)]"

definition tool_version_constraints ::
    "agent_tool_version \<Rightarrow> 'a agent_db_scheme \<Rightarrow> (string \<times> bool) list" where
  "tool_version_constraints r s =
     [(''pk_agent_tool_versions'', list_all (\<lambda>x. au_pk x \<noteq> au_pk r) (agent_tool_versions s)),
      (''fk_agent_tool_versions_tool'', list_ex (\<lambda>x. at_pk x = tenant_pk r (au_tool_id r)) (agent_tools s)),
      (''version > 0'', 0 < au_version r),
      (''integer'', int4 (au_version r))]"

definition delegation_constraints ::
    "agent_delegation \<Rightarrow> 'a agent_db_scheme \<Rightarrow> (string \<times> bool) list" where
  "delegation_constraints r s =
     [(''pk_agent_delegations'', list_all (\<lambda>x. tenant_pk x (al_id x) \<noteq> tenant_pk r (al_id r)) (agent_delegations s)),
      (''uq_agent_delegation_digest'', list_all (\<lambda>x. \<not> (tenant_pk x 0 = tenant_pk r 0 \<and>
         al_delegation_digest x = al_delegation_digest r)) (agent_delegations s)),
      (''fk_agent_delegations_workspace'', tenant_exists r s)]"

definition plan_constraints :: "agent_plan \<Rightarrow> 'a agent_db_scheme \<Rightarrow> (string \<times> bool) list" where
  "plan_constraints r s =
     [(''pk_agent_plans'', list_all (\<lambda>x. ap_pk x \<noteq> ap_pk r) (agent_plans s)),
      (''fk_agent_plans_manifest_version'',
         manifest_version_exists (tenant_pk r (ap_manifest_id r), ap_manifest_version r) s),
      (''uq_agent_plan_idempotency'', list_all (\<lambda>x. \<not> (tenant_pk x 0 = tenant_pk r 0 \<and>
         ap_idempotency_key x = ap_idempotency_key r)) (agent_plans s)),
      (''version > 0'', 0 < ap_version r),
      (''policy_version > 0'', 0 < ap_policy_version r),
      (''integer'', int4 (ap_version r) \<and> int4 (ap_manifest_version r) \<and> int4 (ap_policy_version r)),
      (''character varying(16)'', length (ap_classification r) \<le> 16),
      (''character varying(128)'', length (ap_idempotency_key r) \<le> 128)]"

definition plan_step_constraints :: "agent_plan_step \<Rightarrow> 'a agent_db_scheme \<Rightarrow> (string \<times> bool) list" where
  "plan_step_constraints r s =
     [(''pk_agent_plan_steps'', list_all (\<lambda>x. (tenant_pk x (as_plan_id x), as_plan_version x, as_step_key x) \<noteq>
         (tenant_pk r (as_plan_id r), as_plan_version r, as_step_key r)) (agent_plan_steps s)),
      (''fk_agent_plan_steps_plan'', plan_exists (tenant_pk r (as_plan_id r), as_plan_version r) s),
      (''fk_agent_plan_steps_tool_version'', list_ex (\<lambda>x. au_pk x = (tenant_pk r (as_tool_id r), as_tool_version r))
         (agent_tool_versions s)),
      (''integer'', int4 (as_plan_version r) \<and> int4 (as_tool_version r)),
      (''character varying(128)'', length (as_step_key r) \<le> 128 \<and> length (as_tool_key r) \<le> 128)]"

definition reservation_constraints ::
    "agent_budget_reservation \<Rightarrow> 'a agent_db_scheme \<Rightarrow> (string \<times> bool) list" where
  "reservation_constraints r s =
     [(''pk_agent_budget_reservations'', list_all (\<lambda>x. tenant_pk x (ab_id x) \<noteq> tenant_pk r (ab_id r))
         (agent_budget_reservations s)),
      (''uq_agent_budget_idempotency'', list_all (\<lambda>x. \<not> (tenant_pk x 0 = tenant_pk r 0 \<and>
         ab_idempotency_key x = ab_idempotency_key r)) (agent_budget_reservations s)),
      (''fk_agent_budget_manifest_version'',
         manifest_version_exists (tenant_pk r (ab_manifest_id r), ab_manifest_version r) s),
      (''fk_agent_budget_plan'', plan_exists (tenant_pk r (ab_plan_id r), ab_plan_version r) s),
      (''tokens >= 0'', 0 \<le> ab_tokens r \<and> 0 \<le> ab_cost_micros r \<and> 0 \<le> ab_tool_calls r \<and> 0 \<le> ab_seconds r),
      (''integer'', int4 (ab_manifest_version r) \<and> int4 (ab_plan_version r) \<and> int4 (ab_tokens r) \<and>
         int4 (ab_cost_micros r) \<and> int4 (ab_tool_calls r) \<and> int4 (ab_seconds r)),
      (''character varying(128)'', length (ab_idempotency_key r) \<le> 128)]"

definition orchestration_checks :: "agent_orchestration \<Rightarrow> (string \<times> bool) list" where
  "orchestration_checks r =
     [(''version > 0'', 0 < ao_version r),
      (''integer'', int4 (ao_version r) \<and> int4 (ao_plan_version r)),
      (''character varying(128)'', length (ao_idempotency_key r) \<le> 128 \<and>
         (case ao_current_step_key r of None \<Rightarrow> True | Some k \<Rightarrow> length k \<le> 128))]"

definition orchestration_constraints ::
    "agent_orchestration \<Rightarrow> 'a agent_db_scheme \<Rightarrow> (string \<times> bool) list" where
  "orchestration_constraints r s =
     [(''pk_agent_orchestrations'', list_all (\<lambda>x. ao_pk x \<noteq> ao_pk r) (agent_orchestrations s)),
      (''fk_agent_orchestrations_plan'', plan_exists (tenant_pk r (ao_plan_id r), ao_plan_version r) s),
      (''fk_agent_orchestrations_delegation'', list_ex (\<lambda>x. tenant_pk x (al_id x) = tenant_pk r (ao_delegation_id r))
         (agent_delegations s)),
      (''uq_agent_orchestration_idempotency'', list_all (\<lambda>x. \<not> (tenant_pk x 0 = tenant_pk r 0 \<and>
         ao_idempotency_key x = ao_idempotency_key r)) (agent_orchestrations s))] @ orchestration_checks r"

definition receipt_constraints ::
    "agent_execution_receipt \<Rightarrow> 'a agent_db_scheme \<Rightarrow> (string \<times> bool) list" where
  "receipt_constraints r s =
     [(''pk_agent_execution_receipts'', list_all (\<lambda>x. tenant_pk x (rc_id x) \<noteq> tenant_pk r (rc_id r))
         (agent_execution_receipts s)),
      (''fk_agent_receipts_orchestration'', list_ex (\<lambda>x. ao_pk x = tenant_pk r (rc_orchestration_id r))
         (agent_orchestrations s)),
      (''uq_agent_receipt_step'', list_all (\<lambda>x. (tenant_pk x (rc_orchestration_id x), rc_step_key x) \<noteq>
         (tenant_pk r (rc_orchestration_id r), rc_step_key r)) (agent_execution_receipts s)),
      (''character varying(128)'', length (rc_step_key r) \<le> 128)]"

definition evaluation_constraints ::
    "agent_evaluation_run \<Rightarrow> 'a agent_db_scheme \<Rightarrow> (string \<times> bool) list" where
  "evaluation_constraints r s =
     [(''pk_agent_evaluation_runs'', list_all (\<lambda>x. tenant_pk x (en_run_id x) \<noteq> tenant_pk r (en_run_id r))
         (agent_evaluation_runs s)),
      (''uq_agent_evaluation_run_key'', list_all (\<lambda>x. \<not> (tenant_pk x 0 = tenant_pk r 0 \<and> en_run_key x = en_run_key r))
         (agent_evaluation_runs s)),
      (''fk_agent_evaluation_manifest_version'',
         manifest_version_exists (tenant_pk r (en_manifest_id r), en_manifest_version r) s),
      (''integer'', int4 (en_manifest_version r)),
      (''character varying(128)'', length (en_run_key r) \<le> 128 \<and> length (en_evaluation_set_key r) \<le> 128)]"

section \<open>Inserts and updates\<close>

text \<open>\<open>AgentPlatformRepository.add\<close> on a row of each table.\<close>

definition add_manifest_record :: "execution_context \<Rightarrow> agent_manifest_record \<Rightarrow> ('a agent_db_scheme, unit) M" where
  "add_manifest_record ctx r = add_row ctx (workspace_id r) (manifest_record_constraints r)
     (\<lambda>s. s\<lparr>agent_manifests := agent_manifests s @ [r]\<rparr>)"

definition add_manifest_version :: "execution_context \<Rightarrow> agent_manifest_version \<Rightarrow> ('a agent_db_scheme, unit) M" where
  "add_manifest_version ctx r = add_row ctx (workspace_id r) (manifest_version_constraints r)
     (\<lambda>s. s\<lparr>agent_manifest_versions := agent_manifest_versions s @ [r]\<rparr>)"

definition add_tool_record :: "execution_context \<Rightarrow> agent_tool_record \<Rightarrow> ('a agent_db_scheme, unit) M" where
  "add_tool_record ctx r = add_row ctx (workspace_id r) (tool_record_constraints r)
     (\<lambda>s. s\<lparr>agent_tools := agent_tools s @ [r]\<rparr>)"

definition add_tool_version :: "execution_context \<Rightarrow> agent_tool_version \<Rightarrow> ('a agent_db_scheme, unit) M" where
  "add_tool_version ctx r = add_row ctx (workspace_id r) (tool_version_constraints r)
     (\<lambda>s. s\<lparr>agent_tool_versions := agent_tool_versions s @ [r]\<rparr>)"

definition add_delegation :: "execution_context \<Rightarrow> agent_delegation \<Rightarrow> ('a agent_db_scheme, unit) M" where
  "add_delegation ctx r = add_row ctx (workspace_id r) (delegation_constraints r)
     (\<lambda>s. s\<lparr>agent_delegations := agent_delegations s @ [r]\<rparr>)"

definition add_plan :: "execution_context \<Rightarrow> agent_plan \<Rightarrow> ('a agent_db_scheme, unit) M" where
  "add_plan ctx r = add_row ctx (workspace_id r) (plan_constraints r)
     (\<lambda>s. s\<lparr>agent_plans := agent_plans s @ [r]\<rparr>)"

definition add_plan_step :: "execution_context \<Rightarrow> agent_plan_step \<Rightarrow> ('a agent_db_scheme, unit) M" where
  "add_plan_step ctx r = add_row ctx (workspace_id r) (plan_step_constraints r)
     (\<lambda>s. s\<lparr>agent_plan_steps := agent_plan_steps s @ [r]\<rparr>)"

definition add_reservation :: "execution_context \<Rightarrow> agent_budget_reservation \<Rightarrow> ('a agent_db_scheme, unit) M" where
  "add_reservation ctx r = add_row ctx (workspace_id r) (reservation_constraints r)
     (\<lambda>s. s\<lparr>agent_budget_reservations := agent_budget_reservations s @ [r]\<rparr>)"

definition add_orchestration :: "execution_context \<Rightarrow> agent_orchestration \<Rightarrow> ('a agent_db_scheme, unit) M" where
  "add_orchestration ctx r = add_row ctx (workspace_id r) (orchestration_constraints r)
     (\<lambda>s. s\<lparr>agent_orchestrations := agent_orchestrations s @ [r]\<rparr>)"

definition add_receipt :: "execution_context \<Rightarrow> agent_execution_receipt \<Rightarrow> ('a agent_db_scheme, unit) M" where
  "add_receipt ctx r = add_row ctx (workspace_id r) (receipt_constraints r)
     (\<lambda>s. s\<lparr>agent_execution_receipts := agent_execution_receipts s @ [r]\<rparr>)"

definition add_evaluation :: "execution_context \<Rightarrow> agent_evaluation_run \<Rightarrow> ('a agent_db_scheme, unit) M" where
  "add_evaluation ctx r = add_row ctx (workspace_id r) (evaluation_constraints r)
     (\<lambda>s. s\<lparr>agent_evaluation_runs := agent_evaluation_runs s @ [r]\<rparr>)"

text \<open>The flush of a changed object: the write guard of its workspace, then the row.\<close>

definition save_manifest_record :: "agent_manifest_record \<Rightarrow> ('a agent_db_scheme, unit) M" where
  "save_manifest_record r = thenM (enforce_workspace_write_state (workspace_id r))
     (modifyM (\<lambda>s. s\<lparr>agent_manifests := replace_row am_pk r (agent_manifests s)\<rparr>))"

definition save_manifest_version :: "agent_manifest_version \<Rightarrow> ('a agent_db_scheme, unit) M" where
  "save_manifest_version r = thenM (enforce_workspace_write_state (workspace_id r))
     (modifyM (\<lambda>s. s\<lparr>agent_manifest_versions := replace_row av_pk r (agent_manifest_versions s)\<rparr>))"

definition save_tool_record :: "agent_tool_record \<Rightarrow> ('a agent_db_scheme, unit) M" where
  "save_tool_record r = thenM (enforce_workspace_write_state (workspace_id r))
     (modifyM (\<lambda>s. s\<lparr>agent_tools := replace_row at_pk r (agent_tools s)\<rparr>))"

definition save_tool_version :: "agent_tool_version \<Rightarrow> ('a agent_db_scheme, unit) M" where
  "save_tool_version r = thenM (enforce_workspace_write_state (workspace_id r))
     (modifyM (\<lambda>s. s\<lparr>agent_tool_versions := replace_row au_pk r (agent_tool_versions s)\<rparr>))"

definition save_plan :: "agent_plan \<Rightarrow> ('a agent_db_scheme, unit) M" where
  "save_plan r = thenM (enforce_workspace_write_state (workspace_id r))
     (modifyM (\<lambda>s. s\<lparr>agent_plans := replace_row ap_pk r (agent_plans s)\<rparr>))"

definition save_orchestration :: "agent_orchestration \<Rightarrow> ('a agent_db_scheme, unit) M" where
  "save_orchestration r = thenM (enforce_workspace_write_state (workspace_id r))
     (thenM (check_constraints (orchestration_checks r))
     (modifyM (\<lambda>s. s\<lparr>agent_orchestrations := replace_row ao_pk r (agent_orchestrations s)\<rparr>)))"

section \<open>Queries\<close>

definition find_manifest :: "execution_context \<Rightarrow> uuid \<Rightarrow> 'a agent_db_scheme \<Rightarrow> agent_manifest_record option" where
  "find_manifest ctx i s = List.find (\<lambda>r. workspace_id r = ctx_workspace ctx \<and> am_id r = i) (agent_manifests s)"

definition find_manifest_version :: "execution_context \<Rightarrow> uuid \<Rightarrow> int \<Rightarrow> 'a agent_db_scheme \<Rightarrow>
    agent_manifest_version option" where
  "find_manifest_version ctx i v s = List.find (\<lambda>r. workspace_id r = ctx_workspace ctx \<and> av_manifest_id r = i \<and>
     av_version r = v) (agent_manifest_versions s)"

definition find_tool :: "execution_context \<Rightarrow> string \<Rightarrow> 'a agent_db_scheme \<Rightarrow> agent_tool_record option" where
  "find_tool ctx k s = List.find (\<lambda>r. workspace_id r = ctx_workspace ctx \<and> at_tool_key r = k) (agent_tools s)"

definition find_tool_version :: "execution_context \<Rightarrow> uuid \<Rightarrow> int \<Rightarrow> 'a agent_db_scheme \<Rightarrow> agent_tool_version option" where
  "find_tool_version ctx i v s = List.find (\<lambda>r. workspace_id r = ctx_workspace ctx \<and> au_tool_id r = i \<and>
     au_version r = v) (agent_tool_versions s)"

definition has_passing_evaluation :: "execution_context \<Rightarrow> uuid \<Rightarrow> int \<Rightarrow> 'a agent_db_scheme \<Rightarrow> bool" where
  "has_passing_evaluation ctx i v s \<longleftrightarrow> list_ex (\<lambda>r. workspace_id r = ctx_workspace ctx \<and> en_manifest_id r = i \<and>
     en_manifest_version r = v \<and> en_passed r) (agent_evaluation_runs s)"

definition find_plan :: "execution_context \<Rightarrow> uuid \<Rightarrow> int \<Rightarrow> 'a agent_db_scheme \<Rightarrow> agent_plan option" where
  "find_plan ctx i v s = List.find (\<lambda>r. workspace_id r = ctx_workspace ctx \<and> ap_id r = i \<and> ap_version r = v) (agent_plans s)"

definition find_orchestration :: "execution_context \<Rightarrow> uuid \<Rightarrow> 'a agent_db_scheme \<Rightarrow> agent_orchestration option" where
  "find_orchestration ctx i s = List.find (\<lambda>r. workspace_id r = ctx_workspace ctx \<and> ao_id r = i) (agent_orchestrations s)"

end
