(* ===== verification/Agent_Service.thy ===== *)
theory Agent_Service
  imports Agent_Store Job_Service
begin

text \<open>
  \<open>AgentPlatformService\<close> of \<open>app/agent_platform/service.py\<close>. The authorizer, the planner, the
  executor of tools and the validator of approvals are parameters, any that keep to their protocols.
  \<open>read_plan\<close> is what \<open>pydantic\<close> makes of the plain data that a planner returns before the
  validators run: the fields at their types, or nothing. An object that the source changes in place is
  a changed record here, written where the session flushes it: with the next query or insert, or at
  the end.
\<close>

type_synonym 's planner = "string \<Rightarrow> int \<Rightarrow> ('s, json) M"
type_synonym 's tool_executor = "tool_execution_request \<Rightarrow> ('s, tool_execution_result) M"
type_synonym 's approval_validator = "execution_context \<Rightarrow> uuid \<Rightarrow> string \<Rightarrow> py_datetime \<Rightarrow> ('s, bool) M"

abbreviation agent_error :: "string \<Rightarrow> py_error" where
  "agent_error \<equiv> AgentPlatformError"

section \<open>Guards and records\<close>

definition agent_allow :: "'s authorizer \<Rightarrow> execution_context \<Rightarrow> string \<Rightarrow> ('s, unit) M" where
  "agent_allow ask ctx permission =
     bindM (ask ctx permission) (\<lambda>allowed. requireM allowed (agent_error ''agent platform authorization denied''))"

definition agent_details :: "int \<Rightarrow> string \<Rightarrow> json" where
  "agent_details sequence status = JObj [(''version'', JInt sequence), (''status'', JStr status)]"

definition agent_outbox_row :: "execution_context \<Rightarrow> string \<Rightarrow> uuid \<Rightarrow> int \<Rightarrow> string \<Rightarrow> string \<Rightarrow> instant \<Rightarrow>
    uuid \<Rightarrow> instant \<Rightarrow> outbox_event" where
  "agent_outbox_row ctx event aggregate_id sequence classification status occurred event_id written_at = \<lparr>
     oe_workspace_id = ctx_workspace ctx, oe_id = event_id, oe_event_type = event, oe_schema_version = 1,
     oe_aggregate_type = ''agent_platform'', oe_aggregate_id = aggregate_id, oe_aggregate_sequence = sequence,
     oe_payload = JObj [(''aggregate_id'', JStr (uuid_str aggregate_id)), (''status'', JStr status)],
     oe_actor_id = Some (ctx_actor ctx), oe_delegation_id = None,
     oe_correlation_id = Some (correlation_id (ec_request ctx)), oe_causation_id = None,
     oe_classification = classification, oe_schema_major = 1, oe_schema_minor = 0,
     oe_idempotency_key = None, oe_payload_digest = None, oe_available_at = written_at,
     oe_attempt_count = 0, oe_quarantined = False, oe_retention_until = None,
     oe_partition_key = Some (py_year_month occurred), oe_recorded_at = occurred,
     oe_published_at = None, oe_last_error = None\<rparr>"

definition record_agent :: "py_env \<Rightarrow> execution_context \<Rightarrow> string \<Rightarrow> uuid \<Rightarrow> int \<Rightarrow> string \<Rightarrow> string \<Rightarrow> instant \<Rightarrow>
    ('a core_db_scheme, unit) M" where
  "record_agent env ctx event aggregate_id sequence classification status occurred =
     bindM (audit_write env ctx ((audit_input event ''agent_platform'' aggregate_id ''success'')
         \<lparr>ai_classification := classification, ai_details := Some (agent_details sequence status)\<rparr>)) (\<lambda>audit.
     bindM (uuid4 env) (\<lambda>event_id.
     insert_outbox_event (agent_outbox_row ctx event aggregate_id sequence classification status occurred event_id
       (ae_recorded_at audit))))"

section \<open>Manifests\<close>

definition new_manifest_record :: "execution_context \<Rightarrow> agent_manifest \<Rightarrow> instant \<Rightarrow> agent_manifest_record" where
  "new_manifest_record ctx m now = tenant_row.extend (context_tenant ctx) (agent_manifest_record.fields
     (mf_manifest_id m) (mf_name m) (mf_owner_user_id m) False now)"

definition new_manifest_version :: "py_env \<Rightarrow> execution_context \<Rightarrow> agent_manifest \<Rightarrow> string \<Rightarrow> int \<Rightarrow> instant \<Rightarrow>
    agent_manifest_version" where
  "new_manifest_version env ctx m classification policy_version now = tenant_row.extend (context_tenant ctx)
     (agent_manifest_version.fields (mf_manifest_id m) (mf_version m) (canonical (dump_manifest m))
        (canonical_digest env (dump_manifest m)) classification policy_version None now)"

definition register_manifest :: "py_env \<Rightarrow> 'a agent_db_scheme authorizer \<Rightarrow> execution_context \<Rightarrow> agent_manifest \<Rightarrow>
    string \<Rightarrow> int \<Rightarrow> instant \<Rightarrow> ('a agent_db_scheme, agent_manifest_version) M" where
  "register_manifest env ask ctx m classification policy_version now =
     thenM (agent_allow ask ctx ''agent.manifest.manage'')
     (thenM (requireM (mf_owner_user_id m = ctx_actor ctx) (agent_error ''manifest owner must approve registration''))
     (bindM (getsM (find_manifest ctx (mf_manifest_id m))) (\<lambda>found.
      thenM (if found = None then add_manifest_record ctx (new_manifest_record ctx m now) else returnM ())
      (let value = new_manifest_version env ctx m classification policy_version now in
       thenM (add_manifest_version ctx value)
       (thenM (record_agent env ctx ''agent.manifest.registered'' (mf_manifest_id m) (mf_version m) classification
           ''registered'' now)
       (returnM value))))))"

definition activate_manifest :: "'a agent_db_scheme authorizer \<Rightarrow> execution_context \<Rightarrow> uuid \<Rightarrow> int \<Rightarrow> instant \<Rightarrow>
    ('a agent_db_scheme, agent_manifest_version) M" where
  "activate_manifest ask ctx manifest_id version now =
     thenM (agent_allow ask ctx ''agent.manifest.manage'')
     (bindM (getsM (find_manifest ctx manifest_id)) (\<lambda>found.
      bindM (getsM (find_manifest_version ctx manifest_id version)) (\<lambda>found_version.
      bindM (someM found (agent_error ''agent manifest version does not exist'')) (\<lambda>rec.
      bindM (someM found_version (agent_error ''agent manifest version does not exist'')) (\<lambda>v.
      bindM (getsM (has_passing_evaluation ctx manifest_id version)) (\<lambda>passing.
      thenM (requireM passing (agent_error ''passing synthetic evaluation is required''))
      (let value = v\<lparr>av_activated_at := Some now\<rparr> in
       thenM (save_manifest_version value)
       (thenM (save_manifest_record (rec\<lparr>am_enabled := True\<rparr>))
       (returnM value)))))))))"

definition disable_manifest :: "py_env \<Rightarrow> 'a agent_db_scheme authorizer \<Rightarrow> execution_context \<Rightarrow> uuid \<Rightarrow> instant \<Rightarrow>
    ('a agent_db_scheme, unit) M" where
  "disable_manifest env ask ctx manifest_id now =
     thenM (agent_allow ask ctx ''agent.manifest.manage'')
     (bindM (getsM (find_manifest ctx manifest_id)) (\<lambda>found.
      bindM (someM found (agent_error ''agent manifest does not exist'')) (\<lambda>rec.
      thenM (save_manifest_record (rec\<lparr>am_enabled := False\<rparr>))
      (record_agent env ctx ''agent.manifest.disabled'' manifest_id 1 ''internal'' ''disabled'' now))))"

section \<open>Tools\<close>

definition new_tool_record :: "execution_context \<Rightarrow> tool_manifest \<Rightarrow> instant \<Rightarrow> agent_tool_record" where
  "new_tool_record ctx t now = tenant_row.extend (context_tenant ctx) (agent_tool_record.fields
     (tl_tool_id t) (tl_key t) (ctx_actor ctx) False now)"

definition new_tool_version :: "py_env \<Rightarrow> execution_context \<Rightarrow> tool_manifest \<Rightarrow> instant \<Rightarrow> agent_tool_version" where
  "new_tool_version env ctx t now = tenant_row.extend (context_tenant ctx) (agent_tool_version.fields
     (tl_tool_id t) (tl_version t) (canonical (dump_tool t)) (canonical_digest env (dump_tool t)) (tl_risk t) None now)"

definition register_tool :: "py_env \<Rightarrow> 'a agent_db_scheme authorizer \<Rightarrow> execution_context \<Rightarrow> tool_manifest \<Rightarrow> instant \<Rightarrow>
    ('a agent_db_scheme, agent_tool_version) M" where
  "register_tool env ask ctx t now =
     thenM (agent_allow ask ctx ''agent.tool.manage'')
     (bindM (getsM (find_tool ctx (tl_key t))) (\<lambda>found.
      thenM (case found of
          None \<Rightarrow> add_tool_record ctx (new_tool_record ctx t now)
        | Some rec \<Rightarrow> requireM (at_id rec = tl_tool_id t) (agent_error ''tool key is already registered''))
      (let value = new_tool_version env ctx t now in
       thenM (add_tool_version ctx value)
       (thenM (record_agent env ctx ''agent.tool.registered'' (tl_tool_id t) (tl_version t) ''internal'' ''registered'' now)
       (returnM value)))))"

definition activate_tool :: "'a agent_db_scheme authorizer \<Rightarrow> execution_context \<Rightarrow> string \<Rightarrow> int \<Rightarrow> instant \<Rightarrow>
    ('a agent_db_scheme, agent_tool_version) M" where
  "activate_tool ask ctx key version now =
     thenM (agent_allow ask ctx ''agent.tool.manage'')
     (bindM (getsM (find_tool ctx key)) (\<lambda>found.
      bindM (someM found (agent_error ''registered tool does not exist'')) (\<lambda>rec.
      bindM (getsM (find_tool_version ctx (at_id rec) version)) (\<lambda>found_version.
      bindM (someM found_version (agent_error ''registered tool version does not exist'')) (\<lambda>v.
      let value = v\<lparr>au_activated_at := Some now\<rparr> in
      thenM (save_tool_version value)
      (thenM (save_tool_record (rec\<lparr>at_enabled := True\<rparr>))
      (returnM value)))))))"

definition disable_tool :: "py_env \<Rightarrow> 'a agent_db_scheme authorizer \<Rightarrow> execution_context \<Rightarrow> string \<Rightarrow> instant \<Rightarrow>
    ('a agent_db_scheme, unit) M" where
  "disable_tool env ask ctx key now =
     thenM (agent_allow ask ctx ''agent.tool.manage'')
     (bindM (getsM (find_tool ctx key)) (\<lambda>found.
      bindM (someM found (agent_error ''registered tool does not exist'')) (\<lambda>rec.
      thenM (save_tool_record (rec\<lparr>at_enabled := False\<rparr>))
      (record_agent env ctx ''agent.tool.disabled'' (at_id rec) 1 ''internal'' ''disabled'' now))))"

section \<open>Delegations and evaluations\<close>

text \<open>The expiry of a delegation is aware, which its validator has checked; the driver refuses another.\<close>

definition delegation_row :: "py_env \<Rightarrow> execution_context \<Rightarrow> delegation \<Rightarrow> instant \<Rightarrow> agent_delegation" where
  "delegation_row env ctx d expires_at = tenant_row.extend (context_tenant ctx) (agent_delegation.fields
     (dg_delegation_id d) (dg_actor_id d) (dg_parent_delegation_id d)
     (canonical (JList (map JStr (dg_permissions d)))) (dg_risk_ceiling d) expires_at None
     (canonical_digest env (dump_delegation env d)))"

definition record_delegation :: "py_env \<Rightarrow> 'a agent_db_scheme authorizer \<Rightarrow> execution_context \<Rightarrow> delegation \<Rightarrow> instant \<Rightarrow>
    ('a agent_db_scheme, agent_delegation) M" where
  "record_delegation env ask ctx d now =
     thenM (agent_allow ask ctx ''agent.delegation.create'')
     (thenM (requireM (dg_actor_id d = ctx_actor ctx) (agent_error ''delegation actor binding is invalid''))
     (bindM (liftM (case dg_expires_at d of Aware t \<Rightarrow> Inr t | Naive _ \<Rightarrow> Inl TypeError)) (\<lambda>expires_at.
      let value = delegation_row env ctx d expires_at in
      thenM (add_delegation ctx value)
      (thenM (record_agent env ctx ''agent.delegation.recorded'' (dg_delegation_id d) 1 ''internal'' ''active'' now)
      (returnM value)))))"

definition evaluation_row :: "execution_context \<Rightarrow> agent_manifest \<Rightarrow> string \<Rightarrow> string \<Rightarrow> bool \<Rightarrow> uuid \<Rightarrow> instant \<Rightarrow>
    agent_evaluation_run" where
  "evaluation_row ctx m run_key result_digest passed i now = tenant_row.extend (context_tenant ctx)
     (agent_evaluation_run.fields i run_key (mf_manifest_id m) (mf_version m) (mf_evaluation_set_key m) result_digest passed now)"

definition record_evaluation :: "py_env \<Rightarrow> 'a agent_db_scheme authorizer \<Rightarrow> execution_context \<Rightarrow> agent_manifest \<Rightarrow> string \<Rightarrow>
    (string \<times> json) list \<Rightarrow> bool \<Rightarrow> instant \<Rightarrow> ('a agent_db_scheme, agent_evaluation_run) M" where
  "record_evaluation env ask ctx m run_key result passed now =
     thenM (agent_allow ask ctx ''agent.evaluation.record'')
     (thenM (requireM (prefix ''synthetic.'' run_key)
               (agent_error ''only synthetic conformance evaluations are allowed''))
     (bindM (someM (json_dumps (JObj result)) TypeError) (\<lambda>payload.
      bindM (uuid4 env) (\<lambda>i.
      let value = evaluation_row ctx m run_key (sha256_hex env payload) passed i now in
      thenM (add_evaluation ctx value) (returnM value)))))"

section \<open>Plans\<close>

definition proposed_plan :: "py_env \<Rightarrow> execution_context \<Rightarrow> plan_proposal \<Rightarrow> string \<Rightarrow> string \<Rightarrow> int \<Rightarrow> instant \<Rightarrow> agent_plan" where
  "proposed_plan env ctx p idempotency_key classification policy_version now = tenant_row.extend (context_tenant ctx)
     (agent_plan.fields (pp_plan_id p) (pp_version p) (pp_manifest_id p) (pp_manifest_version p)
        (canonical (dump_proposal p)) (canonical_digest env (dump_proposal p)) PLAN_PROPOSED classification
        policy_version idempotency_key (ctx_actor ctx) now)"

definition read_proposal :: "(json \<Rightarrow> plan_proposal option) \<Rightarrow> json \<Rightarrow> py_error + plan_proposal" where
  "read_proposal read_plan raw = (case read_plan raw of
     None \<Rightarrow> Inl (ValidationError (ValueError ''type_error'')) | Some p \<Rightarrow> validate_with_steps p)"

definition propose :: "py_env \<Rightarrow> 'a agent_db_scheme authorizer \<Rightarrow> execution_context \<Rightarrow> 'a agent_db_scheme planner \<Rightarrow>
    (json \<Rightarrow> plan_proposal option) \<Rightarrow> string \<Rightarrow> agent_manifest \<Rightarrow> string \<Rightarrow> string \<Rightarrow> int \<Rightarrow> instant \<Rightarrow>
    ('a agent_db_scheme, plan_proposal) M" where
  "propose env ask ctx planner read_plan context_digest m idempotency_key classification policy_version now =
     thenM (agent_allow ask ctx ''agent.plan.propose'')
     (thenM (requireM (mf_enabled m) (agent_error ''agent manifest is disabled''))
     (bindM (planner context_digest (mf_input_schema_version m)) (\<lambda>raw.
      bindM (liftM (read_proposal read_plan raw)) (\<lambda>p.
      thenM (requireM ((pp_manifest_id p, pp_manifest_version p) = (mf_manifest_id m, mf_version m))
               (agent_error ''planner changed the manifest binding''))
      (thenM (add_plan ctx (proposed_plan env ctx p idempotency_key classification policy_version now))
      (returnM p))))))"

definition accepted_step :: "execution_context \<Rightarrow> plan_proposal \<Rightarrow> plan_step \<Rightarrow> tool_manifest \<Rightarrow> string \<Rightarrow> agent_plan_step" where
  "accepted_step ctx p st tool digest = tenant_row.extend (context_tenant ctx) (agent_plan_step.fields
     (pp_plan_id p) (pp_version p) (ps_key st) (tl_tool_id tool) (ps_tool_key st) (ps_tool_version st)
     (canonical (dump_plan_step st)) digest ''accepted'')"

definition accept_step :: "py_env \<Rightarrow> execution_context \<Rightarrow> plan_proposal \<Rightarrow> (string \<Rightarrow> tool_manifest option) \<Rightarrow> plan_step \<Rightarrow>
    ('a agent_db_scheme, unit) M" where
  "accept_step env ctx p tools st =
     bindM (someM (tools (ps_tool_key st)) KeyError) (\<lambda>tool.
     bindM (liftM (agent_action_digest env (tl_command_reference tool) (ps_input_payload st)
         (ps_expected_resource_version st))) (\<lambda>digest.
     add_plan_step ctx (accepted_step ctx p st tool digest)))"

definition accept_plan :: "py_env \<Rightarrow> 'a agent_db_scheme authorizer \<Rightarrow> execution_context \<Rightarrow> plan_proposal \<Rightarrow> agent_manifest \<Rightarrow>
    (string \<Rightarrow> tool_manifest option) \<Rightarrow> ('a agent_db_scheme, plan_proposal) M" where
  "accept_plan env ask ctx p m tools =
     thenM (agent_allow ask ctx ''agent.plan.accept'')
     (bindM (liftM (validate_plan p m tools)) (\<lambda>validated.
      bindM (getsM (find_plan ctx (pp_plan_id p) (pp_version p))) (\<lambda>found.
      bindM (someM found (agent_error ''persisted plan digest mismatch'')) (\<lambda>rec.
      thenM (requireM (ap_plan_digest rec = canonical_digest env (dump_proposal p))
               (agent_error ''persisted plan digest mismatch''))
      (thenM (save_plan (rec\<lparr>ap_status := PLAN_ACCEPTED\<rparr>))
      (thenM (forM (pp_steps validated) (accept_step env ctx validated tools))
      (returnM (validated\<lparr>pp_status := PLAN_ACCEPTED\<rparr>))))))))"

section \<open>Orchestrations\<close>

definition new_orchestration :: "execution_context \<Rightarrow> plan_proposal \<Rightarrow> delegation \<Rightarrow> uuid \<Rightarrow> string \<Rightarrow> string \<Rightarrow> instant \<Rightarrow>
    agent_orchestration" where
  "new_orchestration ctx p d i first idempotency_key now = tenant_row.extend (context_tenant ctx)
     (agent_orchestration.fields i (pp_plan_id p) (pp_version p) (dg_delegation_id d) PLAN_EXECUTING (Some first)
        idempotency_key 1 None now)"

definition start_orchestration :: "'a agent_db_scheme authorizer \<Rightarrow> execution_context \<Rightarrow> plan_proposal \<Rightarrow> delegation \<Rightarrow>
    uuid \<Rightarrow> string \<Rightarrow> instant \<Rightarrow> ('a agent_db_scheme, agent_orchestration) M" where
  "start_orchestration ask ctx p d i idempotency_key now =
     thenM (agent_allow ask ctx ''agent.orchestration.start'')
     (thenM (requireM (pp_status p = PLAN_ACCEPTED)
               (agent_error ''accepted plan and active delegation are required''))
     (bindM (liftM (not_before (Aware now) (dg_expires_at d))) (\<lambda>expired.
      thenM (requireM (\<not> expired) (agent_error ''accepted plan and active delegation are required''))
      (bindM (liftM (case pp_steps p of [] \<Rightarrow> Inl IndexError | st # _ \<Rightarrow> Inr (ps_key st))) (\<lambda>first.
       let value = new_orchestration ctx p d i first idempotency_key now in
       thenM (add_orchestration ctx value) (returnM value))))))"

text \<open>\<open>steps[[value.key for value in steps].index(key)]\<close>, and the step after it.\<close>

fun step_at :: "plan_step list \<Rightarrow> string option \<Rightarrow> py_error + plan_step \<times> plan_step option" where
  "step_at [] k = Inl (ValueError ''is not in list'')"
| "step_at (st # sts) k = (if Some (ps_key st) = k then Inr (st, (case sts of [] \<Rightarrow> None | st' # _ \<Rightarrow> Some st'))
     else step_at sts k)"

definition reservation_row :: "execution_context \<Rightarrow> agent_manifest \<Rightarrow> plan_proposal \<Rightarrow> string \<Rightarrow> uuid \<Rightarrow> instant \<Rightarrow>
    agent_budget_reservation" where
  "reservation_row ctx m p idempotency_key i now = tenant_row.extend (context_tenant ctx)
     (agent_budget_reservation.fields i (mf_manifest_id m) (mf_version m) (pp_plan_id p) (pp_version p)
        (pp_estimated_tokens p) (pp_estimated_cost_micros p) 1 1 idempotency_key None now)"

definition execution_request :: "execution_context \<Rightarrow> uuid \<Rightarrow> plan_proposal \<Rightarrow> plan_step \<Rightarrow> tool_manifest \<Rightarrow> string \<Rightarrow> string \<Rightarrow>
    tool_execution_request" where
  "execution_request ctx i p st tool digest idempotency_key = \<lparr>
     er_orchestration_id = i, er_plan_id = pp_plan_id p, er_plan_version = pp_version p, er_step_key = ps_key st,
     er_command_reference = tl_command_reference tool, er_permission_key = tl_permission_key tool,
     er_input_payload = ps_input_payload st, er_expected_resource_version = ps_expected_resource_version st,
     er_action_digest = digest, er_idempotency_key = idempotency_key,
     er_correlation_id = correlation_id (ec_request ctx), er_approval_id = ps_approval_id st\<rparr>"

definition receipt_row :: "execution_context \<Rightarrow> uuid \<Rightarrow> plan_step \<Rightarrow> tool_execution_result \<Rightarrow> string \<Rightarrow> string \<Rightarrow> uuid \<Rightarrow>
    instant \<Rightarrow> agent_execution_receipt" where
  "receipt_row ctx i st result digest result_digest receipt_id now =
     (let outcome = verify_result (xr_verification_passed result) in
      tenant_row.extend (context_tenant ctx) (agent_execution_receipt.fields receipt_id i (ps_key st)
        (xr_command_receipt_id result) digest result_digest outcome (outcome = OUTCOME_VERIFIED) now))"

definition advanced :: "agent_orchestration \<Rightarrow> execution_outcome \<Rightarrow> plan_step option \<Rightarrow> agent_orchestration" where
  "advanced o1 outcome following =
     (case (outcome = OUTCOME_VERIFIED, following) of
        (True, Some st) \<Rightarrow> o1\<lparr>ao_status := PLAN_EXECUTING, ao_current_step_key := Some (ps_key st),
          ao_version := ao_version o1 + 1\<rparr>
      | _ \<Rightarrow> o1\<lparr>ao_status := (if outcome = OUTCOME_VERIFIED then PLAN_SUCCEEDED
            else if outcome = OUTCOME_UNCERTAIN then PLAN_UNCERTAIN else PLAN_FAILED),
          ao_current_step_key := None, ao_version := ao_version o1 + 1\<rparr>)"

text \<open>Whether the approval of a step holds; only a step of high risk is asked about.\<close>

definition ask_approval :: "py_env \<Rightarrow> 's approval_validator \<Rightarrow> execution_context \<Rightarrow> plan_step \<Rightarrow> tool_manifest \<Rightarrow>
    py_datetime \<Rightarrow> ('s, bool) M" where
  "ask_approval env approvals ctx st tool now =
     (if high_risk (ps_risk st) then
        bindM (liftM (agent_action_digest env (tl_command_reference tool) (ps_input_payload st)
          (ps_expected_resource_version st))) (\<lambda>provisional_digest.
        case ps_approval_id st of None \<Rightarrow> returnM False
        | Some approval_id \<Rightarrow> approvals ctx approval_id provisional_digest now)
      else returnM True)"

text \<open>What is written once the tool has run.\<close>

definition settle_execution :: "py_env \<Rightarrow> execution_context \<Rightarrow> agent_orchestration \<Rightarrow> plan_proposal \<Rightarrow> plan_step \<Rightarrow>
    plan_step option \<Rightarrow> string \<Rightarrow> tool_execution_result \<Rightarrow> instant \<Rightarrow> ('a agent_db_scheme, agent_execution_receipt) M" where
  "settle_execution env ctx o1 p st following digest result now =
     bindM (someM (json_dumps (JObj (xr_result_payload result))) TypeError) (\<lambda>result_payload.
     bindM (uuid4 env) (\<lambda>receipt_id.
     let receipt = receipt_row ctx (ao_id o1) st result digest (sha256_hex env result_payload) receipt_id now;
         value = advanced o1 (rc_outcome receipt) following in
     thenM (add_receipt ctx receipt)
     (thenM (save_orchestration value)
     (thenM (record_agent env ctx ''agent.execution.receipted'' (ao_id o1) (ao_version value) (pp_classification p)
         (plan_status_value (ao_status value)) now)
     (returnM receipt)))))"

definition execute_step :: "py_env \<Rightarrow> 'a agent_db_scheme authorizer \<Rightarrow> execution_context \<Rightarrow> uuid \<Rightarrow> plan_proposal \<Rightarrow>
    agent_manifest \<Rightarrow> tool_manifest \<Rightarrow> delegation \<Rightarrow> 'a agent_db_scheme tool_executor \<Rightarrow>
    'a agent_db_scheme approval_validator \<Rightarrow> budget \<Rightarrow> string \<Rightarrow> py_datetime \<Rightarrow>
    ('a agent_db_scheme, agent_execution_receipt) M" where
  "execute_step env ask ctx i p m tool d executor approvals available idempotency_key now =
     bindM (getsM (find_orchestration ctx i)) (\<lambda>found.
     bindM (someM found (agent_error ''orchestration is unavailable'')) (\<lambda>o1.
     thenM (requireM (ao_cancelled_at o1 = None) (agent_error ''orchestration is unavailable''))
     (bindM (liftM (step_at (pp_steps p) (ao_current_step_key o1))) (\<lambda>(st, following).
      bindM (ask ctx (tl_permission_key tool)) (\<lambda>authorized.
      bindM (ask_approval env approvals ctx st tool now) (\<lambda>approval_valid.
      bindM (liftM (validate_execution env st tool m d now authorized approval_valid)) (\<lambda>digest.
      thenM (liftM (reserve_budget available (pp_estimated_tokens p) (pp_estimated_cost_micros p) 1 1))
      (bindM (uuid4 env) (\<lambda>reservation_id.
       bindM (liftM (case now of Aware t \<Rightarrow> Inr t | Naive _ \<Rightarrow> Inl TypeError)) (\<lambda>t.
       thenM (add_reservation ctx (reservation_row ctx m p idempotency_key reservation_id t))
       (bindM (executor (execution_request ctx i p st tool digest idempotency_key)) (\<lambda>result.
        settle_execution env ctx o1 p st following digest result t))))))))))))"

definition cancel_orchestration :: "'a agent_db_scheme authorizer \<Rightarrow> execution_context \<Rightarrow> uuid \<Rightarrow> instant \<Rightarrow>
    ('a agent_db_scheme, unit) M" where
  "cancel_orchestration ask ctx i now =
     thenM (agent_allow ask ctx ''agent.orchestration.cancel'')
     (bindM (getsM (find_orchestration ctx i)) (\<lambda>found.
      bindM (someM found (agent_error ''orchestration does not exist'')) (\<lambda>o1.
      thenM (requireM (ao_status o1 \<notin> {PLAN_SUCCEEDED, PLAN_FAILED})
               (agent_error ''terminal orchestration cannot be cancelled''))
      (save_orchestration (o1\<lparr>ao_status := PLAN_CANCELLED, ao_cancelled_at := Some now, ao_current_step_key := None,
         ao_version := ao_version o1 + 1\<rparr>)))))"

end
