(* ===== verification/Agent_Steps.thy ===== *)
theory Agent_Steps
  imports Agent_Laws Agent_Service Component_View
begin

text \<open>
  The agent platform as an abstract machine on its tables. A step registers a version of a manifest,
  records its evaluation, activates it, or starts, executes or cancels an orchestration.
  \<open>agent_inv\<close> is what the steps keep when every call names the plan that the orchestration was
  started with: the receipts of an orchestration are its plan, up to where it stands.
\<close>

section \<open>The tables\<close>

record agent_tables =
  gt_tenants :: "tenant list"
  gt_versions :: "agent_manifest_version list"
  gt_evaluations :: "agent_evaluation_run list"
  gt_orchestrations :: "agent_orchestration list"
  gt_receipts :: "agent_execution_receipt list"
  gt_reservations :: "agent_budget_reservation list"
  gt_events :: "outbox_event list"

definition execution_event :: "outbox_event \<Rightarrow> bool" where
  "execution_event e \<longleftrightarrow> oe_event_type e = ''agent.execution.receipted''"

definition receipts_for :: "agent_tables \<Rightarrow> agent_orchestration \<Rightarrow> agent_execution_receipt list" where
  "receipts_for t o1 = filter (\<lambda>x. tenant_pk x (rc_orchestration_id x) = ao_pk o1) (gt_receipts t)"

definition execution_events :: "agent_tables \<Rightarrow> agent_orchestration \<Rightarrow> outbox_event list" where
  "execution_events t o1 = filter (\<lambda>e. oe_workspace_id e = workspace_id o1 \<and> oe_aggregate_id e = ao_id o1) (gt_events t)"

text \<open>The plan of each orchestration, by workspace and identifier.\<close>

type_synonym plan_book = "uuid \<Rightarrow> uuid \<Rightarrow> plan_proposal"

definition planned_keys :: "plan_book \<Rightarrow> agent_orchestration \<Rightarrow> string list" where
  "planned_keys plan o1 = map ps_key (pp_steps (plan (workspace_id o1) (ao_id o1)))"

section \<open>The steps\<close>

inductive agent_step :: "plan_book \<Rightarrow> tenant \<Rightarrow> agent_tables \<Rightarrow> agent_tables \<Rightarrow> bool" for plan c t where
  version: "\<lbrakk> av_activated_at v = None \<rbrakk> \<Longrightarrow> agent_step plan c t (t\<lparr>gt_versions := gt_versions t @ [v]\<rparr>)"
| evaluate: "agent_step plan c t (t\<lparr>gt_evaluations := gt_evaluations t @ [x]\<rparr>)"
| activate: "\<lbrakk> v \<in> set (gt_versions t); v' = v\<lparr>av_activated_at := Some now\<rparr>; x \<in> set (gt_evaluations t); en_passed x;
     workspace_id x = workspace_id v; en_manifest_id x = av_manifest_id v; en_manifest_version x = av_version v \<rbrakk> \<Longrightarrow>
   agent_step plan c t (t\<lparr>gt_versions := replace_row av_pk v' (gt_versions t)\<rparr>)"
| start: "\<lbrakk> home_of o1 = c; c \<in> set (gt_tenants t); ao_pk o1 \<notin> ao_pk ` set (gt_orchestrations t);
     ao_status o1 = PLAN_EXECUTING; ao_cancelled_at o1 = None; ao_version o1 = 1;
     planned_keys plan o1 = k # ks; ao_current_step_key o1 = Some k \<rbrakk> \<Longrightarrow>
   agent_step plan c t (t\<lparr>gt_orchestrations := gt_orchestrations t @ [o1]\<rparr>)"
| execute: "\<lbrakk> o1 \<in> set (gt_orchestrations t); workspace_id o1 = fst (snd c); c \<in> set (gt_tenants t); ao_cancelled_at o1 = None;
     step_at (pp_steps (plan (workspace_id o1) (ao_id o1))) (ao_current_step_key o1) = Inr (st, following);
     home_of x = c; rc_orchestration_id x = ao_id o1; rc_step_key x = ps_key st; rc_outcome x = verify_result passed;
     rc_verified x = (rc_outcome x = OUTCOME_VERIFIED);
     (tenant_pk x (rc_orchestration_id x), rc_step_key x) \<notin>
       (\<lambda>y. (tenant_pk y (rc_orchestration_id y), rc_step_key y)) ` set (gt_receipts t);
     o' = advanced o1 (rc_outcome x) following;
     home_of b = c; ab_created_at b = rc_created_at x; ab_tool_calls b = 1; ab_seconds b = 1;
     execution_event e; oe_workspace_id e = workspace_id o1; oe_aggregate_id e = ao_id o1;
     oe_aggregate_sequence e = ao_version o' \<rbrakk> \<Longrightarrow>
   agent_step plan c t (t\<lparr>gt_orchestrations := replace_row ao_pk o' (gt_orchestrations t),
     gt_receipts := gt_receipts t @ [x], gt_reservations := gt_reservations t @ [b], gt_events := gt_events t @ [e]\<rparr>)"
| cancel: "\<lbrakk> o1 \<in> set (gt_orchestrations t); workspace_id o1 = fst (snd c); ao_status o1 \<notin> {PLAN_SUCCEEDED, PLAN_FAILED};
     o' = o1\<lparr>ao_status := PLAN_CANCELLED, ao_cancelled_at := Some now, ao_current_step_key := None,
       ao_version := ao_version o1 + 1\<rparr> \<rbrakk> \<Longrightarrow>
   agent_step plan c t (t\<lparr>gt_orchestrations := replace_row ao_pk o' (gt_orchestrations t)\<rparr>)"

inductive_cases agent_stepE: "agent_step plan c t t'"

section \<open>The invariant\<close>

text \<open>\<open>stands n keys o1 xs\<close>: where an orchestration over the step keys stands after the receipts \<open>xs\<close>.\<close>

fun stands :: "string list \<Rightarrow> plan_status \<Rightarrow> string option \<Rightarrow> instant option \<Rightarrow> execution_outcome list \<Rightarrow> bool" where
  "stands keys PLAN_EXECUTING k cancelled outs \<longleftrightarrow> cancelled = None \<and> length outs < length keys \<and>
     k = Some (keys ! length outs) \<and> set outs \<subseteq> {OUTCOME_VERIFIED}"
| "stands keys PLAN_SUCCEEDED k cancelled outs \<longleftrightarrow> cancelled = None \<and> k = None \<and> length outs = length keys \<and>
     set outs \<subseteq> {OUTCOME_VERIFIED}"
| "stands keys PLAN_FAILED k cancelled outs \<longleftrightarrow> cancelled = None \<and> k = None \<and>
     (\<exists>us. outs = us @ [OUTCOME_FAILED] \<and> set us \<subseteq> {OUTCOME_VERIFIED})"
| "stands keys PLAN_UNCERTAIN k cancelled outs \<longleftrightarrow> cancelled = None \<and> k = None \<and>
     (\<exists>us. outs = us @ [OUTCOME_UNCERTAIN] \<and> set us \<subseteq> {OUTCOME_VERIFIED})"
| "stands keys PLAN_CANCELLED k cancelled outs \<longleftrightarrow> cancelled \<noteq> None \<and> k = None \<and>
     (\<exists>us vs. outs = us @ vs \<and> set us \<subseteq> {OUTCOME_VERIFIED} \<and> (vs = [] \<or> vs = [OUTCOME_UNCERTAIN]))"
| "stands keys _ k cancelled outs \<longleftrightarrow> False"

definition orchestration_ok :: "plan_book \<Rightarrow> agent_tables \<Rightarrow> agent_orchestration \<Rightarrow> bool" where
  "orchestration_ok plan t o1 \<longleftrightarrow> (let xs = receipts_for t o1; keys = planned_keys plan o1 in
     length xs \<le> length keys \<and> map rc_step_key xs = take (length xs) keys \<and>
     stands keys (ao_status o1) (ao_current_step_key o1) (ao_cancelled_at o1) (map rc_outcome xs) \<and>
     (ao_cancelled_at o1 = None \<longrightarrow> ao_version o1 = 1 + int (length xs)) \<and> 1 + int (length xs) \<le> ao_version o1 \<and>
     map oe_aggregate_sequence (execution_events t o1) = [2..1 + int (length xs)])"

definition agent_inv :: "plan_book \<Rightarrow> agent_tables \<Rightarrow> bool" where
  "agent_inv plan t \<longleftrightarrow>
     distinct (map (\<lambda>c. fst (snd c)) (gt_tenants t)) \<and> home_of ` set (gt_orchestrations t) \<subseteq> set (gt_tenants t) \<and>
     distinct (map ao_pk (gt_orchestrations t)) \<and> (\<forall>o1 \<in> set (gt_orchestrations t). orchestration_ok plan t o1) \<and>
     (\<forall>x \<in> set (gt_receipts t). tenant_pk x (rc_orchestration_id x) \<in> ao_pk ` set (gt_orchestrations t) \<and>
        rc_verified x = (rc_outcome x = OUTCOME_VERIFIED)) \<and>
     (\<forall>e \<in> set (gt_events t). (oe_workspace_id e, oe_aggregate_id e) \<in> (\<lambda>o1. (workspace_id o1, ao_id o1)) ` set (gt_orchestrations t)) \<and>
     list_all2 (\<lambda>b x. home_of b = home_of x \<and> ab_created_at b = rc_created_at x \<and> ab_tool_calls b = 1 \<and> ab_seconds b = 1)
       (gt_reservations t) (gt_receipts t) \<and>
     (\<forall>v \<in> set (gt_versions t). av_activated_at v \<noteq> None \<longrightarrow> (\<exists>x \<in> set (gt_evaluations t). en_passed x \<and>
        workspace_id x = workspace_id v \<and> en_manifest_id x = av_manifest_id v \<and> en_manifest_version x = av_version v))"

lemma agent_invD:
  assumes "agent_inv plan t"
  shows "distinct (map (\<lambda>c. fst (snd c)) (gt_tenants t))" "home_of ` set (gt_orchestrations t) \<subseteq> set (gt_tenants t)"
    "distinct (map ao_pk (gt_orchestrations t))" "\<And>o1. o1 \<in> set (gt_orchestrations t) \<Longrightarrow> orchestration_ok plan t o1"
    "\<And>x. x \<in> set (gt_receipts t) \<Longrightarrow> tenant_pk x (rc_orchestration_id x) \<in> ao_pk ` set (gt_orchestrations t)"
    "\<And>e. e \<in> set (gt_events t) \<Longrightarrow>
       (oe_workspace_id e, oe_aggregate_id e) \<in> (\<lambda>o1. (workspace_id o1, ao_id o1)) ` set (gt_orchestrations t)"
  using assms by (simp_all add: agent_inv_def)

section \<open>Rows of a workspace\<close>

lemma ao_pk_eq: "ao_pk a = ao_pk b \<longleftrightarrow> home_of a = home_of b \<and> ao_id a = ao_id b"
  by (simp add: ao_pk_def home_pk del: tenant_pk_eq)

lemma unique_tenant:
  assumes "agent_inv plan t" "a \<in> set (gt_tenants t)" "b \<in> set (gt_tenants t)" "fst (snd a) = fst (snd b)"
  shows "a = b"
  by (rule distinct_keys_unique [OF agent_invD(1) [OF assms(1)] assms(2-4)])

text \<open>Workspace and identifier are a key of orchestrations.\<close>

lemma same_orchestration:
  assumes "agent_inv plan t" "a \<in> set (gt_orchestrations t)" "home_of b \<in> set (gt_tenants t)"
    "workspace_id a = workspace_id b" "ao_id a = ao_id b"
  shows "ao_pk a = ao_pk b"
proof -
  have "home_of a = home_of b"
    using agent_invD(2) [OF assms(1)] assms(2-4) by (intro unique_tenant [OF assms(1)]) (auto simp: workspace_tenant [symmetric])
  then show ?thesis using assms(5) by (simp add: ao_pk_eq)
qed

lemma orchestration_unique:
  "agent_inv plan t \<Longrightarrow> a \<in> set (gt_orchestrations t) \<Longrightarrow> b \<in> set (gt_orchestrations t) \<Longrightarrow> ao_pk a = ao_pk b \<Longrightarrow> a = b"
  by (rule distinct_keys_unique [OF agent_invD(3)])

lemma advanced_simps [simp]:
  "ao_pk (advanced o1 v f) = ao_pk o1" "home_of (advanced o1 v f) = home_of o1" "ao_id (advanced o1 v f) = ao_id o1"
  "workspace_id (advanced o1 v f) = workspace_id o1" "ao_version (advanced o1 v f) = ao_version o1 + 1"
  "ao_cancelled_at (advanced o1 v f) = ao_cancelled_at o1" "planned_keys plan (advanced o1 v f) = planned_keys plan o1"
  by (auto simp: advanced_def ao_pk_def home_of_def tenant_pk_def planned_keys_def split: bool.splits option.splits prod.splits)

section \<open>Steps keep the invariant\<close>

lemma orchestration_ok_frame:
  "orchestration_ok plan t o1 \<Longrightarrow> receipts_for t' o1 = receipts_for t o1 \<Longrightarrow> execution_events t' o1 = execution_events t o1 \<Longrightarrow>
   orchestration_ok plan t' o1"
  by (simp add: orchestration_ok_def)

lemma keys_replaced_orchestration:
  assumes "ao_pk o' = ao_pk o1" "workspace_id o' = workspace_id o1" "ao_id o' = ao_id o1"
  shows "ao_pk ` set (replace_row ao_pk o' rs) = ao_pk ` set rs"
    "home_of ` set (replace_row ao_pk o' rs) = home_of ` set rs"
    "(\<lambda>a. (workspace_id a, ao_id a)) ` set (replace_row ao_pk o' rs) = (\<lambda>a. (workspace_id a, ao_id a)) ` set rs"
proof -
  show "ao_pk ` set (replace_row ao_pk o' rs) = ao_pk ` set rs" by (metis list.set_map map_key_replace_row)
  have "map home_of (replace_row ao_pk o' rs) = map home_of rs"
    by (rule map_replace_row_same) (simp add: ao_pk_eq)
  from arg_cong [OF this, of set] show "home_of ` set (replace_row ao_pk o' rs) = home_of ` set rs" by simp
  have "map (\<lambda>a. (workspace_id a, ao_id a)) (replace_row ao_pk o' rs) = map (\<lambda>a. (workspace_id a, ao_id a)) rs"
    by (rule map_replace_row_same) (auto simp: ao_pk_def)
  from arg_cong [OF this, of set]
  show "(\<lambda>a. (workspace_id a, ao_id a)) ` set (replace_row ao_pk o' rs) = (\<lambda>a. (workspace_id a, ao_id a)) ` set rs" by simp
qed

text \<open>The step after the one an orchestration stands at.\<close>

lemma step_at_planned:
  assumes "step_at sts (Some k) = Inr (st, following)"
  shows "\<exists>i < length sts. sts ! i = st \<and> ps_key st = k \<and> (\<forall>j < i. ps_key (sts ! j) \<noteq> k) \<and>
    following = (if i + 1 < length sts then Some (sts ! (i + 1)) else None)"
  using assms
proof (induction sts "Some k" rule: step_at.induct)
  case (2 a sts)
  show ?case
  proof (cases "ps_key a = k")
    case True
    then show ?thesis using 2(2) by (intro exI [of _ 0]) (auto split: list.splits)
  next
    case False
    then obtain i where i: "i < length sts" "sts ! i = st" "ps_key st = k" "\<forall>j < i. ps_key (sts ! j) \<noteq> k"
      "following = (if i + 1 < length sts then Some (sts ! (i + 1)) else None)"
      using 2 by auto
    have "\<forall>j < Suc i. ps_key ((a # sts) ! j) \<noteq> k" using i(4) False by (auto simp: nth_Cons split: nat.splits)
    then show ?thesis using i by (intro exI [of _ "Suc i"]) simp
  qed
qed simp

lemma step_at_None: "step_at sts None \<noteq> Inr r"
  by (induction sts) simp_all

lemma stands_advanced:
  assumes "length outs < length sts" "set outs \<subseteq> {OUTCOME_VERIFIED}" "ao_cancelled_at o1 = None"
    "following = (if length outs + 1 < length sts then Some (sts ! (length outs + 1)) else None)"
  shows "stands (map ps_key sts) (ao_status (advanced o1 (verify_result v) following))
    (ao_current_step_key (advanced o1 (verify_result v) following)) None (outs @ [verify_result v])"
  using assms by (cases v rule: verify_result.cases) (auto simp: advanced_def)

lemma stands_open:
  assumes "stands keys st (Some k) cancelled outs"
  shows "length outs < length keys \<and> k = keys ! length outs \<and> set outs \<subseteq> {OUTCOME_VERIFIED}"
  using assms by (cases st) auto

text \<open>An execution moves the orchestration on by one receipt, for the step it stands at.\<close>

lemma executed_next:
  assumes "orchestration_ok plan t o1" "ao_cancelled_at o1 = None"
    and st: "step_at (pp_steps (plan (workspace_id o1) (ao_id o1))) (ao_current_step_key o1) = Inr (st, following)"
    and x: "rc_step_key x = ps_key st" "rc_outcome x = verify_result passed" "rc_step_key x \<notin> rc_step_key ` set (receipts_for t o1)"
    and t': "receipts_for t' (advanced o1 (rc_outcome x) following) = receipts_for t o1 @ [x]"
      "execution_events t' (advanced o1 (rc_outcome x) following) = execution_events t o1 @ [e]"
      "oe_aggregate_sequence e = ao_version (advanced o1 (rc_outcome x) following)"
  shows "orchestration_ok plan t' (advanced o1 (rc_outcome x) following)"
proof -
  define xs sts where "xs = receipts_for t o1" and "sts = pp_steps (plan (workspace_id o1) (ao_id o1))"
  have keys: "planned_keys plan o1 = map ps_key sts" by (simp add: planned_keys_def sts_def)
  have ok: "length xs \<le> length sts" "map rc_step_key xs = take (length xs) (map ps_key sts)"
    "stands (map ps_key sts) (ao_status o1) (ao_current_step_key o1) None (map rc_outcome xs)"
    "ao_version o1 = 1 + int (length xs)" "map oe_aggregate_sequence (execution_events t o1) = [2..1 + int (length xs)]"
    using assms(1,2) by (simp_all add: orchestration_ok_def Let_def keys xs_def)
  obtain k where k: "ao_current_step_key o1 = Some k" using st step_at_None by (cases "ao_current_step_key o1") auto
  have open_: "length xs < length sts" "k = map ps_key sts ! length xs" "set (map rc_outcome xs) \<subseteq> {OUTCOME_VERIFIED}"
    using stands_open [OF ok(3) [unfolded k]] by simp_all
  obtain i where i: "i < length sts" "sts ! i = st" "ps_key st = k" "\<forall>j < i. ps_key (sts ! j) \<noteq> k"
    "following = (if i + 1 < length sts then Some (sts ! (i + 1)) else None)"
    using step_at_planned [OF st [folded sts_def, unfolded k]] by blast
  have "i = length xs"
  proof (rule linorder_cases [of i "length xs"])
    assume "i < length xs"
    then have "rc_step_key (xs ! i) = ps_key (sts ! i)"
      using ok(1) arg_cong [OF ok(2), of "\<lambda>l. l ! i"] by simp
    then have "rc_step_key x \<in> rc_step_key ` set xs" using \<open>i < length xs\<close> i(2) x(1) by (metis image_eqI nth_mem)
    then show ?thesis using x(3) by (simp add: xs_def)
  next
    assume "length xs < i"
    then show ?thesis using i(4) open_(1,2) by auto
  qed
  then have st': "ps_key st = map ps_key sts ! length xs" "following = (if length xs + 1 < length sts then Some (sts ! (length xs + 1)) else None)"
    using i by simp_all
  have "take (length xs + 1) (map ps_key sts) = map rc_step_key xs @ [rc_step_key x]"
    using open_(1) ok(2) x(1) st'(1) by (simp add: take_Suc_conv_app_nth)
  moreover have "stands (map ps_key sts) (ao_status (advanced o1 (rc_outcome x) following))
      (ao_current_step_key (advanced o1 (rc_outcome x) following)) None (map rc_outcome (xs @ [x]))"
  proof -
    have "length (map rc_outcome xs) < length sts"
      "following = (if length (map rc_outcome xs) + 1 < length sts then Some (sts ! (length (map rc_outcome xs) + 1)) else None)"
      using open_(1) st'(2) by simp_all
    from stands_advanced [OF this(1) open_(3) assms(2) this(2), of passed] show ?thesis by (simp add: x(2))
  qed
  moreover have "[2..1 + int (length xs + 1)] = [2..1 + int (length xs)] @ [2 + int (length xs)]"
    using upto_rec2 [of 2 "2 + int (length xs)"] by (simp add: algebra_simps)
  ultimately show ?thesis
    using ok open_(1) assms(2) t' by (simp add: orchestration_ok_def Let_def keys xs_def [symmetric])
qed

lemma inv_execute:
  assumes inv: "agent_inv plan t"
    and o1: "o1 \<in> set (gt_orchestrations t)" "workspace_id o1 = fst (snd c)" "c \<in> set (gt_tenants t)" "ao_cancelled_at o1 = None"
      "step_at (pp_steps (plan (workspace_id o1) (ao_id o1))) (ao_current_step_key o1) = Inr (st, following)"
    and x: "home_of x = c" "rc_orchestration_id x = ao_id o1" "rc_step_key x = ps_key st" "rc_outcome x = verify_result passed"
      "rc_verified x = (rc_outcome x = OUTCOME_VERIFIED)"
      "(tenant_pk x (rc_orchestration_id x), rc_step_key x) \<notin>
         (\<lambda>y. (tenant_pk y (rc_orchestration_id y), rc_step_key y)) ` set (gt_receipts t)"
    and o': "o' = advanced o1 (rc_outcome x) following"
    and b: "home_of b = c" "ab_created_at b = rc_created_at x" "ab_tool_calls b = 1" "ab_seconds b = 1"
    and e: "oe_workspace_id e = workspace_id o1" "oe_aggregate_id e = ao_id o1" "oe_aggregate_sequence e = ao_version o'"
    and t': "t' = t\<lparr>gt_orchestrations := replace_row ao_pk o' (gt_orchestrations t), gt_receipts := gt_receipts t @ [x],
      gt_reservations := gt_reservations t @ [b], gt_events := gt_events t @ [e]\<rparr>"
  shows "agent_inv plan t'"
proof -
  note D = agent_invD [OF inv]
  have home: "home_of o1 \<in> set (gt_tenants t)" using D(2) o1(1) by blast
  then have "home_of o1 = c" using o1(2,3) by (intro unique_tenant [OF inv]) (simp_all add: workspace_tenant [symmetric])
  then have pk: "tenant_pk x (rc_orchestration_id x) = ao_pk o1" using x(1,2) by (simp add: ao_pk_def home_pk del: tenant_pk_eq)
  have "rc_step_key x \<notin> rc_step_key ` set (receipts_for t o1)" using x(6) pk by (force simp: receipts_for_def)
  moreover have "receipts_for t' o' = receipts_for t o1 @ [x]" using pk by (simp add: receipts_for_def t' o')
  moreover have "execution_events t' o' = execution_events t o1 @ [e]" using e by (simp add: execution_events_def t' o')
  ultimately have new: "orchestration_ok plan t' o'"
    using executed_next [OF D(4) [OF o1(1)] o1(4,5) x(3,4)] e(3) unfolding o' by blast
  have old: "orchestration_ok plan t' a" if "a \<in> set (gt_orchestrations t)" "ao_pk a \<noteq> ao_pk o1" for a
  proof (rule orchestration_ok_frame [OF D(4) [OF that(1)]])
    show "receipts_for t' a = receipts_for t a" using pk that(2) by (simp add: receipts_for_def t')
    have "(workspace_id a, ao_id a) \<noteq> (workspace_id o1, ao_id o1)" using same_orchestration [OF inv that(1) home] that(2) by auto
    then show "execution_events t' a = execution_events t a" using e(1,2) by (auto simp: execution_events_def t')
  qed
  have all: "\<forall>a \<in> set (gt_orchestrations t'). orchestration_ok plan t' a"
  proof
    fix a assume "a \<in> set (gt_orchestrations t')"
    then have "a = o' \<or> a \<in> set (gt_orchestrations t) \<and> ao_pk a \<noteq> ao_pk o'" unfolding t' by (auto dest: in_replace_row)
    then show "orchestration_ok plan t' a" using new old by (auto simp: o')
  qed
  have pk': "ao_pk o' = ao_pk o1" "workspace_id o' = workspace_id o1" "ao_id o' = ao_id o1" by (simp_all add: o')
  have "(workspace_id o1, ao_id o1) \<in> (\<lambda>a. (workspace_id a, ao_id a)) ` set (gt_orchestrations t)" using o1(1) by blast
  then show ?thesis
    using inv all pk o1(1) x(1,5) b e(1,2) unfolding agent_inv_def t'
    by (simp add: keys_replaced_orchestration [OF pk'] list_all2_appendI)
qed

lemma stands_cancelled:
  assumes "stands keys st k cancelled outs" "st \<notin> {PLAN_SUCCEEDED, PLAN_FAILED}"
  shows "stands keys PLAN_CANCELLED None (Some now) outs"
  using assms by (cases st) auto

lemma inv_cancel:
  assumes inv: "agent_inv plan t"
    and o1: "o1 \<in> set (gt_orchestrations t)" "ao_status o1 \<notin> {PLAN_SUCCEEDED, PLAN_FAILED}"
    and o': "o' = o1\<lparr>ao_status := PLAN_CANCELLED, ao_cancelled_at := Some now, ao_current_step_key := None,
      ao_version := ao_version o1 + 1\<rparr>"
    and t': "t' = t\<lparr>gt_orchestrations := replace_row ao_pk o' (gt_orchestrations t)\<rparr>"
  shows "agent_inv plan t'"
proof -
  note D = agent_invD [OF inv]
  have pk: "ao_pk o' = ao_pk o1" "workspace_id o' = workspace_id o1" "ao_id o' = ao_id o1"
    by (simp_all add: o' ao_pk_def tenant_pk_def)
  then have same: "receipts_for t' o' = receipts_for t o1" "execution_events t' o' = execution_events t o1"
    "planned_keys plan o' = planned_keys plan o1"
    by (simp_all add: receipts_for_def execution_events_def planned_keys_def t')
  have new: "orchestration_ok plan t' o'"
    using D(4) [OF o1(1)] stands_cancelled [OF _ o1(2)] unfolding orchestration_ok_def Let_def same
    by (auto simp: o')
  have "orchestration_ok plan t' a" if "a \<in> set (gt_orchestrations t)" for a
    by (rule orchestration_ok_frame [OF D(4) [OF that]]) (simp_all add: receipts_for_def execution_events_def t')
  then have "\<forall>a \<in> set (gt_orchestrations t'). orchestration_ok plan t' a"
    using new by (auto simp: t' dest: in_replace_row)
  then show ?thesis
    using inv o1(1) unfolding agent_inv_def t' by (simp add: keys_replaced_orchestration [OF pk])
qed

lemma inv_start_orchestration:
  assumes inv: "agent_inv plan t"
    and o1: "home_of o1 \<in> set (gt_tenants t)" "ao_pk o1 \<notin> ao_pk ` set (gt_orchestrations t)"
      "ao_status o1 = PLAN_EXECUTING" "ao_cancelled_at o1 = None" "ao_version o1 = 1" "planned_keys plan o1 = k # ks"
      "ao_current_step_key o1 = Some k"
    and t': "t' = t\<lparr>gt_orchestrations := gt_orchestrations t @ [o1]\<rparr>"
  shows "agent_inv plan t'"
proof -
  note D = agent_invD [OF inv]
  have other: "(workspace_id a, ao_id a) \<noteq> (workspace_id o1, ao_id o1)" if "a \<in> set (gt_orchestrations t)" for a
  proof
    assume "(workspace_id a, ao_id a) = (workspace_id o1, ao_id o1)"
    then have "ao_pk a = ao_pk o1" by (intro same_orchestration [OF inv that o1(1)]) simp_all
    then show False using o1(2) that by (metis image_eqI)
  qed
  have "receipts_for t' o1 = []"
    unfolding receipts_for_def filter_empty_conv
  proof (rule ballI, rule notI)
    fix x assume x': "x \<in> set (gt_receipts t')" and x: "tenant_pk x (rc_orchestration_id x) = ao_pk o1"
    have "tenant_pk x (rc_orchestration_id x) \<in> ao_pk ` set (gt_orchestrations t)" by (rule D(5)) (use x' in \<open>simp add: t'\<close>)
    then show False using o1(2) x by simp
  qed
  moreover have "execution_events t' o1 = []"
    using D(6) other by (force simp: execution_events_def filter_empty_conv t')
  ultimately have "orchestration_ok plan t' o1" using o1 by (simp add: orchestration_ok_def)
  moreover have "orchestration_ok plan t' a" if "a \<in> set (gt_orchestrations t)" for a
    by (rule orchestration_ok_frame [OF D(4) [OF that]]) (simp_all add: receipts_for_def execution_events_def t')
  ultimately have "\<forall>a \<in> set (gt_orchestrations t'). orchestration_ok plan t' a" by (simp add: t')
  then show ?thesis using inv o1(1,2) unfolding agent_inv_def t' by simp
qed

lemma agent_inv_same:
  assumes "agent_inv plan t" "t' = t\<lparr>gt_versions := vs, gt_evaluations := xs\<rparr>"
    "\<forall>v \<in> set vs. av_activated_at v \<noteq> None \<longrightarrow> (\<exists>x \<in> set xs. en_passed x \<and> workspace_id x = workspace_id v \<and>
       en_manifest_id x = av_manifest_id v \<and> en_manifest_version x = av_version v)"
  shows "agent_inv plan t'"
proof -
  have "orchestration_ok plan t' = orchestration_ok plan t"
    by (rule ext) (simp add: orchestration_ok_def receipts_for_def execution_events_def assms(2))
  then show ?thesis using assms by (simp add: agent_inv_def)
qed

theorem agent_step_inv:
  assumes "agent_step plan c t t'" "agent_inv plan t"
  shows "agent_inv plan t'"
proof -
  have vs: "\<forall>v \<in> set (gt_versions t). av_activated_at v \<noteq> None \<longrightarrow> (\<exists>x \<in> set (gt_evaluations t). en_passed x \<and>
      workspace_id x = workspace_id v \<and> en_manifest_id x = av_manifest_id v \<and> en_manifest_version x = av_version v)"
    using assms(2) by (simp add: agent_inv_def)
  show ?thesis
    using assms(1)
  proof cases
    case (version v)
    then show ?thesis using vs by (intro agent_inv_same [OF assms(2), where vs = "gt_versions t @ [v]" and xs = "gt_evaluations t"]) auto
  next
    case (evaluate x)
    then show ?thesis using vs by (intro agent_inv_same [OF assms(2), where vs = "gt_versions t" and xs = "gt_evaluations t @ [x]"]) auto
  next
    case (activate v v' now x)
    show ?thesis
    proof (rule agent_inv_same [OF assms(2), where vs = "replace_row av_pk v' (gt_versions t)" and xs = "gt_evaluations t"])
      show "\<forall>u \<in> set (replace_row av_pk v' (gt_versions t)). av_activated_at u \<noteq> None \<longrightarrow> (\<exists>x \<in> set (gt_evaluations t).
          en_passed x \<and> workspace_id x = workspace_id u \<and> en_manifest_id x = av_manifest_id u \<and> en_manifest_version x = av_version u)"
      proof (intro ballI impI)
        fix u assume u: "u \<in> set (replace_row av_pk v' (gt_versions t))" "av_activated_at u \<noteq> None"
        then consider "u = v'" | "u \<in> set (gt_versions t)" by (auto dest: in_replace_row)
        then show "\<exists>x \<in> set (gt_evaluations t). en_passed x \<and> workspace_id x = workspace_id u \<and>
            en_manifest_id x = av_manifest_id u \<and> en_manifest_version x = av_version u"
          by cases (use activate vs u(2) in \<open>auto simp: activate(3)\<close>)
      qed
    qed (simp add: activate(1))
  next
    case (start o1 k ks)
    then show ?thesis using inv_start_orchestration [OF assms(2)] by blast
  next
    case (execute o1 st following x passed o' b e)
    show ?thesis
      by (rule inv_execute [OF assms(2) execute(2-13) execute(14-17) execute(19-21) execute(1)])
  next
    case (cancel o1 o' now)
    then show ?thesis using inv_cancel [OF assms(2)] by blast
  qed
qed

section \<open>What has ended\<close>

text \<open>A succeeded or failed orchestration is as it was; a cancelled one stays cancelled and runs nothing.\<close>

definition later_orchestration :: "agent_orchestration \<Rightarrow> agent_orchestration \<Rightarrow> bool" where
  "later_orchestration a b \<longleftrightarrow> ao_pk b = ao_pk a \<and> ao_plan_id b = ao_plan_id a \<and> ao_plan_version b = ao_plan_version a \<and>
     ao_delegation_id b = ao_delegation_id a \<and> ao_version a \<le> ao_version b \<and>
     (ao_status a \<in> {PLAN_SUCCEEDED, PLAN_FAILED} \<longrightarrow> b = a) \<and>
     (ao_status a = PLAN_CANCELLED \<longrightarrow> ao_status b = PLAN_CANCELLED) \<and>
     (ao_status a = PLAN_UNCERTAIN \<longrightarrow> ao_status b \<in> {PLAN_UNCERTAIN, PLAN_CANCELLED})"

lemma later_orchestration_refl: "later_orchestration a a"
  by (simp add: later_orchestration_def)

lemma later_orchestration_trans: "later_orchestration a b \<Longrightarrow> later_orchestration b c \<Longrightarrow> later_orchestration a c"
  unfolding later_orchestration_def by auto

text \<open>What holds the step an orchestration stands at is executing.\<close>

lemma standing_executes:
  assumes "orchestration_ok plan t o1" "step_at sts (ao_current_step_key o1) = Inr r"
  shows "ao_status o1 = PLAN_EXECUTING"
proof -
  obtain k where "ao_current_step_key o1 = Some k" using assms(2) step_at_None by (cases "ao_current_step_key o1") auto
  then show ?thesis using assms(1) by (cases "ao_status o1") (auto simp: orchestration_ok_def Let_def)
qed

lemma agent_step_later:
  assumes "agent_step plan c t t'" "agent_inv plan t" "a \<in> set (gt_orchestrations t)"
  shows "\<exists>b \<in> set (gt_orchestrations t'). later_orchestration a b"
proof -
  have moved: "\<exists>b \<in> set (replace_row ao_pk o' (gt_orchestrations t)). later_orchestration a b"
    if "o1 \<in> set (gt_orchestrations t)" "later_orchestration o1 o'" for o1 o'
  proof (cases "ao_pk a = ao_pk o1")
    case True
    then have "a = o1" by (rule orchestration_unique [OF assms(2,3) that(1)])
    then show ?thesis using that True replace_row_present [OF assms(3), of ao_pk o'] by (auto simp: later_orchestration_def)
  next
    case False
    then have "ao_pk a \<noteq> ao_pk o'" using that(2) by (simp add: later_orchestration_def)
    then show ?thesis using replace_row_other [OF assms(3)] later_orchestration_refl by blast
  qed
  show ?thesis
    using assms(1)
  proof cases
    case (execute o1 st following x passed o' b e)
    have "ao_status o1 = PLAN_EXECUTING" by (rule standing_executes [OF agent_invD(4) [OF assms(2) execute(2)] execute(6)])
    then have "later_orchestration o1 o'"
      using execute(13) by (auto simp: later_orchestration_def advanced_def ao_pk_def tenant_pk_def
          split: bool.splits option.splits prod.splits)
    then show ?thesis using moved [OF execute(2)] by (simp add: execute(1))
  next
    case (cancel o1 o' now)
    then have "later_orchestration o1 o'" by (auto simp: later_orchestration_def ao_pk_def tenant_pk_def)
    then show ?thesis using moved [OF cancel(2)] by (simp add: cancel(1))
  qed (use assms(3) later_orchestration_refl in auto)
qed

end
