(* ===== verification/Agent_Refinement.thy ===== *)
theory Agent_Refinement
  imports Agent_Steps
begin

text \<open>
  The operations of \<open>AgentPlatformService\<close> are steps of the machine of \<open>Agent_Steps\<close>, or leave its
  tables alone. The authorizer is any that keeps to its interface, \<open>component_authorizer\<close> for the
  view \<open>agents_of\<close>; planner, executor and validator of approvals are any that leave this view alone.
\<close>

section \<open>The tables of a session\<close>

definition agents_of :: "'a agent_db_scheme \<Rightarrow> agent_tables" where
  "agents_of s = \<lparr>gt_tenants = map (\<lambda>w. (ws_organization_id w, ws_id w, ws_cell_id w)) (workspaces s),
     gt_versions = agent_manifest_versions s, gt_evaluations = agent_evaluation_runs s,
     gt_orchestrations = agent_orchestrations s, gt_receipts = agent_execution_receipts s,
     gt_reservations = agent_budget_reservations s,
     gt_events = filter execution_event (typed_events ''agent_platform'' s)\<rparr>"

interpretation ag: component_view "''agent_platform''" agents_of
proof
  fix s s' :: "'a agent_db_scheme"
  assume "component_part s' = component_part s" "directory_part s' = directory_part s"
    "typed_events ''agent_platform'' s' = typed_events ''agent_platform'' s"
  then show "agents_of s' = agents_of s"
    by (cases s; cases s') (simp add: agents_of_def component_part_def directory_part_def)
qed

lemma agents_of_announced:
  assumes "component_part s' = component_part s" "directory_part s' = directory_part s"
    "typed_events ''agent_platform'' s' = typed_events ''agent_platform'' s @ [e]"
  shows "agents_of s' = (agents_of s)\<lparr>gt_events := gt_events (agents_of s) @ filter execution_event [e]\<rparr>"
  using assms by (cases s; cases s') (simp add: agents_of_def component_part_def directory_part_def)

section \<open>The writes\<close>

text \<open>The tables that the machine does not look at.\<close>

lemma keeps_agent_adds:
  "keeps agents_of (add_manifest_record ctx r1)" "keeps agents_of (add_tool_record ctx r2)"
  "keeps agents_of (add_tool_version ctx r3)" "keeps agents_of (add_delegation ctx r4)"
  "keeps agents_of (add_plan ctx r5)" "keeps agents_of (add_plan_step ctx r6)"
  unfolding add_manifest_record_def add_tool_record_def add_tool_version_def add_delegation_def add_plan_def add_plan_step_def
    add_row_def
  by (intro frame_intros; simp add: agents_of_def typed_events_def)+

lemma keeps_agent_saves:
  "keeps agents_of (save_manifest_record r1)" "keeps agents_of (save_tool_record r2)"
  "keeps agents_of (save_tool_version r3)" "keeps agents_of (save_plan r4)"
  unfolding save_manifest_record_def save_tool_record_def save_tool_version_def save_plan_def
  by (intro frame_intros; simp add: agents_of_def typed_events_def)+

lemmas keeps_agent_writes = keeps_agent_adds keeps_agent_saves

lemma keeps_accept_step: "keeps agents_of (accept_step env ctx p tools st)"
  unfolding accept_step_def by (intro frame_intros keeps_agent_writes)

lemma run_add_manifest_version:
  assumes "\<And>s'. agents_of s' = (agents_of s)\<lparr>gt_versions := gt_versions (agents_of s) @ [r]\<rparr> \<Longrightarrow> Q () s'"
  shows "wp (add_manifest_version ctx r) Q any_error s"
  unfolding add_manifest_version_def by (rule run_add_row) (rule assms, simp add: agents_of_def typed_events_def)

lemma run_add_evaluation:
  assumes "\<And>s'. agents_of s' = (agents_of s)\<lparr>gt_evaluations := gt_evaluations (agents_of s) @ [r]\<rparr> \<Longrightarrow> Q () s'"
  shows "wp (add_evaluation ctx r) Q any_error s"
  unfolding add_evaluation_def by (rule run_add_row) (rule assms, simp add: agents_of_def typed_events_def)

lemma run_add_reservation:
  assumes "\<And>s'. agents_of s' = (agents_of s)\<lparr>gt_reservations := gt_reservations (agents_of s) @ [r]\<rparr> \<Longrightarrow> Q () s'"
  shows "wp (add_reservation ctx r) Q any_error s"
  unfolding add_reservation_def by (rule run_add_row) (rule assms, simp add: agents_of_def typed_events_def)

lemma run_add_orchestration:
  assumes "\<And>s'. ao_pk r \<notin> ao_pk ` set (gt_orchestrations (agents_of s)) \<Longrightarrow>
    agents_of s' = (agents_of s)\<lparr>gt_orchestrations := gt_orchestrations (agents_of s) @ [r]\<rparr> \<Longrightarrow> Q () s'"
  shows "wp (add_orchestration ctx r) Q any_error s"
  unfolding add_orchestration_def
proof (rule run_add_row)
  assume "list_all snd (orchestration_constraints r s)"
  then have "ao_pk r \<notin> ao_pk ` set (gt_orchestrations (agents_of s))"
    by (auto simp: orchestration_constraints_def agents_of_def list_all_iff)
  then show "Q () (s\<lparr>agent_orchestrations := agent_orchestrations s @ [r]\<rparr>)"
    by (rule assms) (simp add: agents_of_def typed_events_def)
qed

lemma run_add_receipt:
  assumes "\<And>s'. (tenant_pk r (rc_orchestration_id r), rc_step_key r) \<notin>
      (\<lambda>y. (tenant_pk y (rc_orchestration_id y), rc_step_key y)) ` set (gt_receipts (agents_of s)) \<Longrightarrow>
    agents_of s' = (agents_of s)\<lparr>gt_receipts := gt_receipts (agents_of s) @ [r]\<rparr> \<Longrightarrow> Q () s'"
  shows "wp (add_receipt ctx r) Q any_error s"
  unfolding add_receipt_def
proof (rule run_add_row)
  assume "list_all snd (receipt_constraints r s)"
  then have "(tenant_pk r (rc_orchestration_id r), rc_step_key r) \<notin>
      (\<lambda>y. (tenant_pk y (rc_orchestration_id y), rc_step_key y)) ` set (gt_receipts (agents_of s))"
    by (auto simp: receipt_constraints_def agents_of_def list_all_iff simp del: tenant_pk_eq)
  then show "Q () (s\<lparr>agent_execution_receipts := agent_execution_receipts s @ [r]\<rparr>)"
    by (rule assms) (simp add: agents_of_def typed_events_def)
qed

lemma run_save_manifest_version:
  assumes "\<And>s'. agents_of s' = (agents_of s)\<lparr>gt_versions := replace_row av_pk r (gt_versions (agents_of s))\<rparr> \<Longrightarrow> Q () s'"
  shows "wp (save_manifest_version r) Q any_error s"
  unfolding save_manifest_version_def
  by (simp add: wp_simps) (auto intro!: assms simp: agents_of_def typed_events_def)

lemma run_save_orchestration:
  assumes "\<And>s'. agents_of s' = (agents_of s)\<lparr>gt_orchestrations := replace_row ao_pk r (gt_orchestrations (agents_of s))\<rparr> \<Longrightarrow> Q () s'"
  shows "wp (save_orchestration r) Q any_error s"
  unfolding save_orchestration_def
  by (simp add: wp_simps violated_None_iff [symmetric] split: option.splits)
    (auto intro!: assms simp: agents_of_def typed_events_def)

lemma run_record_agent:
  assumes "\<And>e s'. oe_event_type e = event \<Longrightarrow> oe_workspace_id e = ctx_workspace ctx \<Longrightarrow> oe_aggregate_id e = i \<Longrightarrow>
    oe_aggregate_sequence e = n \<Longrightarrow>
    agents_of s' = (agents_of s)\<lparr>gt_events := gt_events (agents_of s) @ filter execution_event [e]\<rparr> \<Longrightarrow> Q () s'"
  shows "wp (record_agent env ctx event i n cl status now) Q any_error s"
  unfolding record_agent_def
proof (rule ag.run_announce)
  fix j r and s' :: "'a agent_db_scheme"
  assume "typed_events ''agent_platform'' s' = typed_events ''agent_platform'' s @ [agent_outbox_row ctx event i n cl status now j r]"
    "component_part s' = component_part s" "directory_part s' = directory_part s"
  from agents_of_announced [OF this(2,3,1)] show "Q () s'" by (rule assms [rotated 4]) (simp_all add: agent_outbox_row_def)
qed (simp add: agent_outbox_row_def)

text \<open>What is recorded of manifests, tools and delegations is not the event of an execution.\<close>

lemma run_record_registry:
  assumes "event \<noteq> ''agent.execution.receipted''" "\<And>s'. agents_of s' = agents_of s \<Longrightarrow> Q () s'"
  shows "wp (record_agent env ctx event i n cl status now) Q any_error s"
  by (rule run_record_agent, rule assms(2)) (use assms(1) in \<open>simp add: execution_event_def\<close>)

section \<open>The operations\<close>

text \<open>What a call may do to the tables: nothing, or one step of the tenant it acts for.\<close>

definition agent_effect :: "plan_book \<Rightarrow> tenant \<Rightarrow> agent_tables \<Rightarrow> agent_tables \<Rightarrow> bool" where
  "agent_effect plan c t t' \<longleftrightarrow> t' = t \<or> agent_step plan c t t'"

lemma found_orchestration:
  assumes "find_orchestration ctx i s = Some o1"
  shows "o1 \<in> set (gt_orchestrations (agents_of s))" "workspace_id o1 = ctx_workspace ctx" "ao_id o1 = i"
  using find_SomeD [OF assms [unfolded find_orchestration_def]] by (simp_all add: agents_of_def)

context component_authorizer
begin

lemma run_agent_allow:
  assumes "\<And>s'. V s' = V s \<Longrightarrow> Q () s'"
  shows "wp (agent_allow ask ctx p) Q any_error s"
  unfolding agent_allow_def by (intro run_bind run_ask run_require assms)

lemma keeps_agent_allow: "keeps V (agent_allow ask ctx p)"
  unfolding agent_allow_def by (intro frame_intros keeps_ask)

end

lemma run_if_then:
  assumes "keeps V m" "\<And>s'. V s' = V s \<Longrightarrow> Q () s'"
  shows "wp (if b then m else returnM ()) Q any_error s"
  using wp_frame [OF assms(1), of s Q any_error] assms(2) by (simp add: wp_simps)

lemma run_prod:
  "(\<And>a b. x = (a, b) \<Longrightarrow> wp (f a b) Q any_error s) \<Longrightarrow> wp (case x of (a, b) \<Rightarrow> f a b) Q any_error s"
  by (cases x) simp

locale agent_authorizer = component_authorizer "''agent_platform''" agents_of env ask
  for env :: py_env and ask :: "execution_context \<Rightarrow> string \<Rightarrow> ('a agent_db_scheme, bool) M"
begin

lemma run_kept: "keeps agents_of m \<Longrightarrow> (\<And>x s'. agents_of s' = agents_of s \<Longrightarrow> Q x s') \<Longrightarrow> wp m Q any_error s"
  by (rule ag.run_V)

lemma run_register_manifest:
  assumes "\<And>x s'. agent_step plan c (agents_of s) (agents_of s') \<Longrightarrow> Q x s'"
  shows "wp (register_manifest env ask ctx m cl pv now) Q any_error s"
  unfolding register_manifest_def Let_def
proof (intro run_then run_agent_allow, intro run_then run_require run_bind run_gets run_then
    run_if_then [OF keeps_agent_adds(1)] run_add_manifest_version run_record_registry run_return assms)
  fix s1 s2 s3 s4 :: "'a agent_db_scheme"
  let ?v = "new_manifest_version env ctx m cl pv now"
  assume "agents_of s1 = agents_of s" "agents_of s2 = agents_of s1"
    "agents_of s3 = (agents_of s2)\<lparr>gt_versions := gt_versions (agents_of s2) @ [?v]\<rparr>" "agents_of s4 = agents_of s3"
  then have "agents_of s4 = (agents_of s)\<lparr>gt_versions := gt_versions (agents_of s) @ [?v]\<rparr>" by simp
  moreover have "av_activated_at ?v = None"
    by (simp add: new_manifest_version_def agent_manifest_version.fields_def tenant_row.extend_def context_tenant_def)
  ultimately show "agent_step plan c (agents_of s) (agents_of s4)" by (simp add: agent_step.version)
qed simp

lemma run_activate_manifest:
  assumes "\<And>x s'. agent_step plan c (agents_of s) (agents_of s') \<Longrightarrow> Q x s'"
  shows "wp (activate_manifest ask ctx i n now) Q any_error s"
  unfolding activate_manifest_def Let_def
proof (intro run_then run_agent_allow, intro run_bind run_gets run_some run_then run_require
    run_save_manifest_version run_kept [OF keeps_agent_saves(1)] run_return assms)
  fix s1 s2 s3 :: "'a agent_db_scheme" and v
  assume s1: "agents_of s1 = agents_of s" and v: "find_manifest_version ctx i n s1 = Some v"
    and ev: "has_passing_evaluation ctx i n s1"
    and s2: "agents_of s2 = (agents_of s1)\<lparr>gt_versions := replace_row av_pk (v\<lparr>av_activated_at := Some now\<rparr>) (gt_versions (agents_of s1))\<rparr>"
    and s3: "agents_of s3 = agents_of s2"
  have v': "v \<in> set (gt_versions (agents_of s))" "workspace_id v = ctx_workspace ctx" "av_manifest_id v = i" "av_version v = n"
    using find_SomeD [OF v [unfolded find_manifest_version_def]] by (simp_all add: s1 [symmetric]) (simp add: agents_of_def)
  obtain x where "x \<in> set (gt_evaluations (agents_of s))" "en_passed x" "workspace_id x = ctx_workspace ctx" "en_manifest_id x = i"
    "en_manifest_version x = n"
    using ev unfolding s1 [symmetric] by (auto simp: has_passing_evaluation_def list_ex_iff agents_of_def)
  then show "agent_step plan c (agents_of s) (agents_of s3)"
    unfolding s3 s2 s1 by (intro agent_step.activate [OF v'(1) refl]) (simp_all add: v')
qed

lemma run_record_evaluation:
  assumes "\<And>x s'. agent_step plan c (agents_of s) (agents_of s') \<Longrightarrow> Q x s'"
  shows "wp (record_evaluation env ask ctx m k result passed now) Q any_error s"
  unfolding record_evaluation_def Let_def
proof (intro run_then run_agent_allow, intro run_then run_require run_bind run_some ag.run_uuid4 run_then run_add_evaluation
    run_return assms)
  fix s1 s2 s3 :: "'a agent_db_scheme" and payload i
  assume "agents_of s1 = agents_of s" "agents_of s2 = agents_of s1"
    "agents_of s3 = (agents_of s2)\<lparr>gt_evaluations := gt_evaluations (agents_of s2) @
      [evaluation_row ctx m k (sha256_hex env payload) passed i now]\<rparr>"
  then show "agent_step plan c (agents_of s) (agents_of s3)" by (simp add: agent_step.evaluate)
qed

text \<open>Tools, delegations and plans are not looked at.\<close>

lemma run_disable_manifest:
  assumes "\<And>x s'. agents_of s' = agents_of s \<Longrightarrow> Q x s'"
  shows "wp (disable_manifest env ask ctx i now) Q any_error s"
  unfolding disable_manifest_def
  by (intro run_then run_agent_allow, intro run_bind run_gets run_some run_then run_kept [OF keeps_agent_saves(1)]
      run_record_registry assms) simp_all

lemma run_register_tool:
  assumes "\<And>x s'. agents_of s' = agents_of s \<Longrightarrow> Q x s'"
  shows "wp (register_tool env ask ctx tool now) Q any_error s"
proof -
  have add: "keeps agents_of (case found of None \<Rightarrow> add_tool_record ctx r
      | Some rec \<Rightarrow> requireM (at_id rec = tl_tool_id tool) e)" for found r e
    by (intro frame_intros keeps_agent_writes)
  show ?thesis unfolding register_tool_def Let_def
    by (intro run_then run_agent_allow, intro run_bind run_gets run_then run_kept [OF add] run_kept [OF keeps_agent_adds(3)]
        run_record_registry run_return assms) simp_all
qed

lemma run_activate_tool:
  assumes "\<And>x s'. agents_of s' = agents_of s \<Longrightarrow> Q x s'"
  shows "wp (activate_tool ask ctx k n now) Q any_error s"
  unfolding activate_tool_def Let_def
  by (intro run_then run_agent_allow, intro run_bind run_gets run_some run_then run_kept [OF keeps_agent_saves(2)]
      run_kept [OF keeps_agent_saves(3)] run_return assms) simp

lemma run_disable_tool:
  assumes "\<And>x s'. agents_of s' = agents_of s \<Longrightarrow> Q x s'"
  shows "wp (disable_tool env ask ctx k now) Q any_error s"
  unfolding disable_tool_def
  by (intro run_then run_agent_allow, intro run_bind run_gets run_some run_then run_kept [OF keeps_agent_saves(2)]
      run_record_registry assms) simp_all

lemma run_record_delegation:
  assumes "\<And>x s'. agents_of s' = agents_of s \<Longrightarrow> Q x s'"
  shows "wp (record_delegation env ask ctx d now) Q any_error s"
  unfolding record_delegation_def Let_def
  by (intro run_then run_agent_allow, intro run_then run_require run_bind run_lift run_then run_kept [OF keeps_agent_adds(4)]
      run_record_registry run_return assms) simp_all

lemma run_propose:
  assumes "\<And>d n. keeps agents_of (planner d n)" "\<And>x s'. agents_of s' = agents_of s \<Longrightarrow> Q x s'"
  shows "wp (propose env ask ctx planner read_plan d m k cl pv now) Q any_error s"
  unfolding propose_def
  by (intro run_then run_agent_allow, intro run_then run_require run_bind run_kept [OF assms(1)] run_lift run_then run_require
      run_kept [OF keeps_agent_adds(5)] run_return assms(2)) simp

lemma run_accept_plan:
  assumes "\<And>x s'. agents_of s' = agents_of s \<Longrightarrow> Q x s'"
  shows "wp (accept_plan env ask ctx p m tools) Q any_error s"
proof -
  have "keeps agents_of (forM sts (accept_step env ctx q tools))" for sts q
    by (intro frame_intros keeps_accept_step)
  note run_steps = run_kept [OF this]
  show ?thesis unfolding accept_plan_def
    by (intro run_then run_agent_allow, intro run_bind run_lift run_gets run_some run_then run_require
        run_kept [OF keeps_agent_saves(4)] run_steps run_return assms) simp
qed

lemma run_start_orchestration:
  assumes "c = ctx_home ctx" "c \<in> set (gt_tenants (agents_of s))" "p = plan (ctx_workspace ctx) i"
    and "\<And>x s'. agent_step plan c (agents_of s) (agents_of s') \<Longrightarrow> Q x s'"
  shows "wp (start_orchestration ask ctx p d i k now) Q any_error s"
  unfolding start_orchestration_def Let_def
proof (intro run_then run_agent_allow, intro run_then run_require run_bind run_lift run_then run_require run_add_orchestration
    run_return assms(4))
  fix s1 s2 :: "'a agent_db_scheme" and expired first
  let ?o = "new_orchestration ctx p d i first k now"
  assume s1: "agents_of s1 = agents_of s"
    and first: "(case pp_steps p of [] \<Rightarrow> Inl IndexError | st # _ \<Rightarrow> Inr (ps_key st)) = Inr first"
    and fresh: "ao_pk ?o \<notin> ao_pk ` set (gt_orchestrations (agents_of s1))"
    and s2: "agents_of s2 = (agents_of s1)\<lparr>gt_orchestrations := gt_orchestrations (agents_of s1) @ [?o]\<rparr>"
  have o: "home_of ?o = ctx_home ctx" "workspace_id ?o = ctx_workspace ctx"
    by (simp_all add: new_orchestration_def context_tenant_def)
  have o': "ao_id ?o = i" "ao_status ?o = PLAN_EXECUTING" "ao_cancelled_at ?o = None" "ao_version ?o = 1"
    "ao_current_step_key ?o = Some first"
    by (simp_all add: new_orchestration_def agent_orchestration.fields_def tenant_row.extend_def)
  obtain st sts where "pp_steps p = st # sts" "ps_key st = first" using first by (cases "pp_steps p") auto
  then have "planned_keys plan ?o = first # map ps_key sts" using o o' assms(3) by (simp add: planned_keys_def)
  then show "agent_step plan c (agents_of s) (agents_of s2)"
    unfolding s2 s1 using o o' fresh s1 assms(1,2) by (intro agent_step.start [of _ _ _ _ first "map ps_key sts"]) simp_all
qed

lemma run_cancel_orchestration:
  assumes "c = ctx_home ctx" "\<And>x s'. agent_step plan c (agents_of s) (agents_of s') \<Longrightarrow> Q x s'"
  shows "wp (cancel_orchestration ask ctx i now) Q any_error s"
  unfolding cancel_orchestration_def
proof (intro run_then run_agent_allow, intro run_bind run_gets run_some run_then run_require run_save_orchestration assms(2))
  fix s1 s2 :: "'a agent_db_scheme" and o1
  assume s1: "agents_of s1 = agents_of s" and o1: "find_orchestration ctx i s1 = Some o1" "ao_status o1 \<notin> {PLAN_SUCCEEDED, PLAN_FAILED}"
    and s2: "agents_of s2 = (agents_of s1)\<lparr>gt_orchestrations := replace_row ao_pk (o1\<lparr>ao_status := PLAN_CANCELLED,
      ao_cancelled_at := Some now, ao_current_step_key := None, ao_version := ao_version o1 + 1\<rparr>) (gt_orchestrations (agents_of s1))\<rparr>"
  note f = found_orchestration [OF o1(1), unfolded s1]
  show "agent_step plan c (agents_of s) (agents_of s2)"
    unfolding s2 s1 by (rule agent_step.cancel [OF f(1) _ o1(2) refl]) (simp add: f(2) assms(1) context_home)
qed

lemma keeps_ask_approval:
  assumes "\<And>i digest now. keeps agents_of (approvals ctx i digest now)"
  shows "keeps agents_of (ask_approval env approvals ctx st tool now)"
  unfolding ask_approval_def by (intro frame_intros assms)

text \<open>What is written once the tool has run is the step of an execution.\<close>

lemma run_settle_execution:
  fixes s0 s :: "'a agent_db_scheme"
  assumes "find_orchestration ctx i s0 = Some o1" "agents_of s0 = t" "ao_cancelled_at o1 = None"
    and "step_at (pp_steps (plan (ctx_workspace ctx) i)) (ao_current_step_key o1) = Inr (st, following)"
    and "c = ctx_home ctx" "c \<in> set (gt_tenants t)"
    and res: "agents_of s = t\<lparr>gt_reservations := gt_reservations t @ [reservation_row ctx m p k b now]\<rparr>"
    and "\<And>x s'. agent_step plan c t (agents_of s') \<Longrightarrow> Q x s'"
  shows "wp (settle_execution env ctx o1 p st following digest result now) Q any_error s"
  unfolding settle_execution_def Let_def
proof (intro run_bind run_some ag.run_uuid4 run_then run_add_receipt run_save_orchestration run_record_agent run_return assms(8))
  fix payload j e and s1 s2 s3 s4 :: "'a agent_db_scheme"
  let ?x = "receipt_row ctx (ao_id o1) st result digest (sha256_hex env payload) j now"
  let ?b = "reservation_row ctx m p k b now"
  let ?o = "advanced o1 (rc_outcome ?x) following"
  assume s1: "agents_of s1 = agents_of s"
    and fresh: "(tenant_pk ?x (rc_orchestration_id ?x), rc_step_key ?x) \<notin>
      (\<lambda>y. (tenant_pk y (rc_orchestration_id y), rc_step_key y)) ` set (gt_receipts (agents_of s1))"
    and s2: "agents_of s2 = (agents_of s1)\<lparr>gt_receipts := gt_receipts (agents_of s1) @ [?x]\<rparr>"
    and s3: "agents_of s3 = (agents_of s2)\<lparr>gt_orchestrations := replace_row ao_pk ?o (gt_orchestrations (agents_of s2))\<rparr>"
    and e: "oe_event_type e = ''agent.execution.receipted''" "oe_workspace_id e = ctx_workspace ctx" "oe_aggregate_id e = ao_id o1"
      "oe_aggregate_sequence e = ao_version ?o"
    and s4: "agents_of s4 = (agents_of s3)\<lparr>gt_events := gt_events (agents_of s3) @ filter execution_event [e]\<rparr>"
  have rows: "home_of ?x = c" "home_of ?b = c" by (simp_all add: receipt_row_def reservation_row_def Let_def assms(5))
  have x: "rc_orchestration_id ?x = ao_id o1" "rc_step_key ?x = ps_key st" "rc_outcome ?x = verify_result (xr_verification_passed result)"
    "rc_verified ?x = (rc_outcome ?x = OUTCOME_VERIFIED)" "rc_created_at ?x = now"
    by (simp_all add: receipt_row_def Let_def agent_execution_receipt.fields_def tenant_row.extend_def)
  have b: "ab_created_at ?b = now" "ab_tool_calls ?b = 1" "ab_seconds ?b = 1"
    by (simp_all add: reservation_row_def agent_budget_reservation.fields_def tenant_row.extend_def)
  note o = found_orchestration [OF assms(1), unfolded assms(2)]
  have s4': "agents_of s4 = t\<lparr>gt_orchestrations := replace_row ao_pk ?o (gt_orchestrations t), gt_receipts := gt_receipts t @ [?x],
      gt_reservations := gt_reservations t @ [?b], gt_events := gt_events t @ [e]\<rparr>"
    using e(1) unfolding s4 s3 s2 s1 res by (simp add: execution_event_def)
  show "agent_step plan c t (agents_of s4)"
    unfolding s4'
    by (rule agent_step.execute [OF o(1) _ assms(6,3) _ rows(1) x(1-4) _ refl rows(2)])
      (use o e x b fresh assms(4,5) in \<open>simp_all add: s1 res context_home execution_event_def\<close>)
qed

lemma run_execute_step:
  assumes "\<And>r. keeps agents_of (executor r)" "\<And>i digest now. keeps agents_of (approvals ctx i digest now)"
    and "c = ctx_home ctx" "c \<in> set (gt_tenants (agents_of s))" "p = plan (ctx_workspace ctx) i"
    and "\<And>x s'. agent_step plan c (agents_of s) (agents_of s') \<Longrightarrow> Q x s'"
  shows "wp (execute_step env ask ctx i p m tool d executor approvals available k now) Q any_error s"
proof -
  have "keeps agents_of (ask_approval env approvals ctx st tool now)" for st by (rule keeps_ask_approval) (rule assms(2))
  note run_approval = run_kept [OF this]
  show ?thesis unfolding execute_step_def
  proof (intro run_bind run_gets run_some run_then run_require run_lift run_prod run_ask
      run_approval ag.run_uuid4 run_add_reservation run_kept [OF assms(1)])
    fix o1 y st following authorized valid digest left rid t result and s1 s2 s3 s4 s5 :: "'a agent_db_scheme"
    assume o1: "find_orchestration ctx i s = Some o1" "ao_cancelled_at o1 = None"
      and st: "step_at (pp_steps p) (ao_current_step_key o1) = Inr y" "y = (st, following)"
      and s: "agents_of s1 = agents_of s" "agents_of s2 = agents_of s1" "agents_of s3 = agents_of s2"
        "agents_of s4 = (agents_of s3)\<lparr>gt_reservations := gt_reservations (agents_of s3) @ [reservation_row ctx m p k rid t]\<rparr>"
        "agents_of s5 = agents_of s4"
    show "wp (settle_execution env ctx o1 p st following digest result t) Q any_error s5"
      by (rule run_settle_execution [OF o1(1) refl o1(2) _ assms(3,4) _ assms(6)]) (use st assms(5) s in simp_all)
  qed
qed

end

interpretation h1_agents: agent_authorizer env "h1_authorize env" for env
  by (intro agent_authorizer.intro component_authorizer.intro component_authorizer_axioms.intro)
    (rule ag.component_view_axioms, rule h1.authorizer_axioms, rule keeps_typed_h1_authorize, simp)

end
