(* ===== verification/Agent_Calls.thy ===== *)
theory Agent_Calls
  imports Agent_Refinement
begin

text \<open>
  Calls of the agent platform. \<open>agent_calls\<close> are the states that calls of the service reach, each in
  a transaction of its own under some execution context, with any authorizer, planner, executor and
  validator of approvals that keep to their interfaces; operations that leave the tables of agents
  alone may come in between. The service takes manifests, plans and delegations from the caller and
  does not compare them with its tables: \<open>plan\<close> names the plan that the calls on an orchestration give.
\<close>

record 's agent_ports =
  planner_port :: "'s planner"
  plan_reader :: "json \<Rightarrow> plan_proposal option"
  executor_port :: "'s tool_executor"
  approval_port :: "'s approval_validator"

definition ports_keep :: "'a agent_db_scheme agent_ports \<Rightarrow> bool" where
  "ports_keep P \<longleftrightarrow> (\<forall>d n. keeps agents_of (planner_port P d n)) \<and> (\<forall>r. keeps agents_of (executor_port P r)) \<and>
     (\<forall>ctx i d now. keeps agents_of (approval_port P ctx i d now))"

datatype agent_call =
    Register_manifest agent_manifest string int instant
  | Activate_manifest uuid int instant
  | Disable_manifest uuid instant
  | Register_tool tool_manifest instant
  | Activate_tool string int instant
  | Disable_tool string instant
  | Record_delegation delegation instant
  | Record_evaluation agent_manifest string "(string \<times> json) list" bool instant
  | Propose string agent_manifest string string int instant
  | Accept_plan plan_proposal agent_manifest "string \<Rightarrow> tool_manifest option"
  | Start_orchestration plan_proposal delegation uuid string instant
  | Execute_step uuid plan_proposal agent_manifest tool_manifest delegation budget string py_datetime
  | Cancel_orchestration uuid instant

fun run_agent_call :: "py_env \<Rightarrow> 'a agent_db_scheme authorizer \<Rightarrow> 'a agent_db_scheme agent_ports \<Rightarrow> execution_context \<Rightarrow>
    agent_call \<Rightarrow> ('a agent_db_scheme, unit) M" where
  "run_agent_call env ask P ctx (Register_manifest m cl pv now) = ignoring (register_manifest env ask ctx m cl pv now)"
| "run_agent_call env ask P ctx (Activate_manifest i n now) = ignoring (activate_manifest ask ctx i n now)"
| "run_agent_call env ask P ctx (Disable_manifest i now) = disable_manifest env ask ctx i now"
| "run_agent_call env ask P ctx (Register_tool t now) = ignoring (register_tool env ask ctx t now)"
| "run_agent_call env ask P ctx (Activate_tool k n now) = ignoring (activate_tool ask ctx k n now)"
| "run_agent_call env ask P ctx (Disable_tool k now) = disable_tool env ask ctx k now"
| "run_agent_call env ask P ctx (Record_delegation d now) = ignoring (record_delegation env ask ctx d now)"
| "run_agent_call env ask P ctx (Record_evaluation m k r b now) = ignoring (record_evaluation env ask ctx m k r b now)"
| "run_agent_call env ask P ctx (Propose d m k cl pv now) =
     ignoring (propose env ask ctx (planner_port P) (plan_reader P) d m k cl pv now)"
| "run_agent_call env ask P ctx (Accept_plan p m tools) = ignoring (accept_plan env ask ctx p m tools)"
| "run_agent_call env ask P ctx (Start_orchestration p d i k now) = ignoring (start_orchestration ask ctx p d i k now)"
| "run_agent_call env ask P ctx (Execute_step i p m t d b k now) =
     ignoring (execute_step env ask ctx i p m t d (executor_port P) (approval_port P) b k now)"
| "run_agent_call env ask P ctx (Cancel_orchestration i now) = cancel_orchestration ask ctx i now"

fun names_plan :: "plan_book \<Rightarrow> execution_context \<Rightarrow> agent_call \<Rightarrow> bool" where
  "names_plan plan ctx (Start_orchestration p d i k now) \<longleftrightarrow> p = plan (ctx_workspace ctx) i"
| "names_plan plan ctx (Execute_step i p m t d b k now) \<longleftrightarrow> p = plan (ctx_workspace ctx) i"
| "names_plan plan ctx c \<longleftrightarrow> True"

inductive agent_calls :: "py_env \<Rightarrow> 'a agent_db_scheme authorizer \<Rightarrow> 'a agent_db_scheme agent_ports \<Rightarrow> plan_book \<Rightarrow>
    'a agent_db_scheme \<Rightarrow> 'a agent_db_scheme \<Rightarrow> bool" for env ask P plan s where
  start: "agent_calls env ask P plan s s"
| call: "agent_calls env ask P plan s s' \<Longrightarrow> names_plan plan ctx c \<Longrightarrow>
    agent_calls env ask P plan s (snd (transaction ctx (run_agent_call env ask P ctx c) s'))"
| other: "agent_calls env ask P plan s s' \<Longrightarrow> keeps agents_of m \<Longrightarrow>
    agent_calls env ask P plan s (snd (transaction ctx (m :: ('a agent_db_scheme, unit) M) s'))"

context agent_authorizer
begin

lemma run_agent_call_effect:
  assumes P: "ports_keep P" and plan: "names_plan plan ctx c" and home: "ctx_home ctx \<in> set (gt_tenants (agents_of s))"
  shows "wp (run_agent_call env ask P ctx c) (\<lambda>_ s'. agent_effect plan (ctx_home ctx) (agents_of s) (agents_of s')) any_error s"
proof -
  have ports: "\<And>d n. keeps agents_of (planner_port P d n)" "\<And>r. keeps agents_of (executor_port P r)"
    "\<And>i d now. keeps agents_of (approval_port P ctx i d now)"
    using P by (simp_all add: ports_keep_def)
  note same = run_disable_manifest run_disable_tool run_register_tool run_activate_tool run_record_delegation run_accept_plan
    run_propose [where planner = "planner_port P", OF ports(1)]
  note step = run_register_manifest [where plan = plan and c = "ctx_home ctx"]
    run_activate_manifest [where plan = plan and c = "ctx_home ctx"] run_record_evaluation [where plan = plan and c = "ctx_home ctx"]
  show ?thesis
  proof (cases c)
    case (Start_orchestration p d i k now)
    show ?thesis unfolding Start_orchestration run_agent_call.simps
      by (rule run_ignoring, rule run_start_orchestration [where plan = plan, OF refl home])
        (use plan in \<open>simp_all add: Start_orchestration agent_effect_def\<close>)
  next
    case (Execute_step i p m t d b k now)
    show ?thesis unfolding Execute_step run_agent_call.simps
      by (rule run_ignoring, rule run_execute_step [where plan = plan and ctx = ctx and executor = "executor_port P" and approvals = "approval_port P", OF ports(2,3) refl home])
        (use plan in \<open>simp_all add: Execute_step agent_effect_def\<close>)
  next
    case (Cancel_orchestration i now)
    show ?thesis unfolding Cancel_orchestration run_agent_call.simps
      by (rule run_cancel_orchestration [where plan = plan, OF refl]) (simp add: agent_effect_def)
  qed (simp_all, (intro run_ignoring step same; simp add: agent_effect_def)+)
qed

lemma transaction_agent_call:
  assumes "ports_keep P" "names_plan plan ctx c"
  shows "agent_effect plan (ctx_home ctx) (agents_of s) (agents_of (snd (transaction ctx (run_agent_call env ask P ctx c) s)))"
proof -
  have "wp (run_agent_call env ask P ctx c) (\<lambda>_ s'. agent_effect plan (ctx_home ctx) (agents_of s) (agents_of s')) any_error
      (started ctx s)" if "placed ctx s"
  proof -
    have "ctx_home ctx \<in> set (gt_tenants (agents_of (started ctx s)))"
      using placed_home [OF that] by (simp add: V_started) (simp add: agents_of_def)
    from run_agent_call_effect [OF assms this] show ?thesis by (simp add: V_started)
  qed
  from transaction_effect [of ctx s "run_agent_call env ask P ctx c" "agent_effect plan (ctx_home ctx)", OF this]
  show ?thesis
    by (cases "transaction ctx (run_agent_call env ask P ctx c) s"; cases "fst (transaction ctx (run_agent_call env ask P ctx c) s)")
      (auto simp: agent_effect_def)
qed

end

section \<open>Along calls\<close>

definition agent_steps :: "plan_book \<Rightarrow> agent_tables \<Rightarrow> agent_tables \<Rightarrow> bool" where
  "agent_steps plan = (\<lambda>t t'. \<exists>c. agent_step plan c t t')\<^sup>*\<^sup>*"

lemma agent_calls_steps:
  assumes "agent_calls env ask P plan s s'" "agent_authorizer env ask" "ports_keep P"
  shows "agent_steps plan (agents_of s) (agents_of s')"
  using assms
proof (induction rule: agent_calls.induct)
  case start
  then show ?case by (simp add: agent_steps_def)
next
  case (call s' ctx c)
  then have "agent_steps plan (agents_of s) (agents_of s')" by simp
  with agent_authorizer.transaction_agent_call [OF call.prems call.hyps(2)] show ?case
    unfolding agent_effect_def agent_steps_def by (metis (mono_tags, lifting) rtranclp.rtrancl_into_rtrancl)
next
  case (other s' m ctx)
  then show ?case using ag.transaction_keeps_V [OF other.hyps(2)] by simp
qed

lemma agent_steps_inv: "agent_steps plan t t' \<Longrightarrow> agent_inv plan t \<Longrightarrow> agent_inv plan t'"
  unfolding agent_steps_def by (induction rule: rtranclp_induct) (auto intro: agent_step_inv)

lemma agent_calls_inv:
  "agent_calls env ask P plan s s' \<Longrightarrow> agent_authorizer env ask \<Longrightarrow> ports_keep P \<Longrightarrow> agent_inv plan (agents_of s) \<Longrightarrow>
   agent_inv plan (agents_of s')"
  using agent_calls_steps agent_steps_inv by blast

lemma agent_steps_later:
  assumes "agent_steps plan t t'" "agent_inv plan t" "a \<in> set (gt_orchestrations t)"
  shows "\<exists>b \<in> set (gt_orchestrations t'). later_orchestration a b"
  using assms(1) unfolding agent_steps_def
proof (induction rule: rtranclp_induct)
  case base
  then show ?case using assms(3) later_orchestration_refl by blast
next
  case (step u u')
  then obtain b c where b: "b \<in> set (gt_orchestrations u)" "later_orchestration a b" "agent_step plan c u u'" by blast
  have "agent_inv plan u" by (rule agent_steps_inv [OF _ assms(2)]) (use step(1) in \<open>unfold agent_steps_def, blast\<close>)
  then obtain d where "d \<in> set (gt_orchestrations u')" "later_orchestration b d" using agent_step_later [OF b(3) _ b(1)] by blast
  then show ?case using later_orchestration_trans [OF b(2)] by blast
qed

text \<open>Empty tables satisfy the invariant.\<close>

lemma no_agents_inv:
  assumes "distinct (map ws_id (workspaces s))" "agent_manifest_versions s = []" "agent_orchestrations s = []"
    "agent_execution_receipts s = []" "agent_budget_reservations s = []" "typed_events ''agent_platform'' s = []"
  shows "agent_inv plan (agents_of s)"
  using assms by (simp add: agent_inv_def agents_of_def comp_def)

end
