(* ===== verification/Agent_World.thy ===== *)
theory Agent_World
  imports Agent_Calls Workflow_Properties
begin

text \<open>
  The world in which the witnesses of the agent platform are evaluated: an assistant that reads and
  sends mail, with one orchestration under way and one that failed.
\<close>

definition mail_step :: "string \<Rightarrow> string \<Rightarrow> risk_level \<Rightarrow> uuid option \<Rightarrow> plan_step" where
  "mail_step k tool risk approval = \<lparr>ps_key = k, ps_tool_key = tool, ps_tool_version = 1,
     ps_input_payload = [(''subject'', JStr ''Plan'')], ps_expected_resource_version = 1, ps_expected_outcome = ''done'',
     ps_verification_reference = ''mail.check.v1'', ps_risk = risk, ps_approval_id = approval\<rparr>"

definition mail_plan :: plan_proposal where
  "mail_plan = \<lparr>pp_plan_id = 31, pp_version = 1, pp_manifest_id = 71, pp_manifest_version = 1,
     pp_model_policy_key = ''default'', pp_classification = ''internal'', pp_evidence_references = [''note.v1''],
     pp_assumptions = [], pp_estimated_tokens = 100, pp_estimated_cost_micros = 10,
     pp_steps = [mail_step ''read'' ''mail.read'' RISK_LOW None, mail_step ''send'' ''mail.send'' RISK_HIGH (Some 41)],
     pp_status = PLAN_PROPOSED\<rparr>"

definition mail_budget :: budget where
  "mail_budget = \<lparr>bg_max_tokens = 1000, bg_max_cost_micros = 100, bg_max_tool_calls = 5, bg_max_seconds = 60\<rparr>"

definition mail_manifest :: agent_manifest where
  "mail_manifest = \<lparr>mf_manifest_id = 71, mf_version = 1, mf_name = ''Mail'', mf_purpose = ''Answer mail'',
     mf_owner_user_id = 11, mf_allowed_tool_classes = [''mail''], mf_risk_ceiling = RISK_HIGH, mf_budget = mail_budget,
     mf_model_policy_key = ''default'', mf_evaluation_set_key = ''mail'', mf_input_schema_version = 1,
     mf_output_schema_version = 1, mf_enabled = True\<rparr>"

definition mail_tool :: "uuid \<Rightarrow> string \<Rightarrow> risk_level \<Rightarrow> tool_manifest" where
  "mail_tool i k risk = \<lparr>tl_tool_id = i, tl_key = k, tl_version = 1, tl_command_reference = k @ ''.v1'',
     tl_permission_key = k, tl_risk = risk, tl_input_schema_version = 1, tl_output_schema_version = 1, tl_enabled = True\<rparr>"

definition mail_tools :: "string \<Rightarrow> tool_manifest option" where
  "mail_tools = map_of [(''mail.read'', mail_tool 21 ''mail.read'' RISK_LOW), (''mail.send'', mail_tool 22 ''mail.send'' RISK_HIGH)]"

definition mail_delegation :: delegation where
  "mail_delegation = \<lparr>dg_delegation_id = 61, dg_actor_id = 11, dg_permissions = [''mail.read'', ''mail.send''],
     dg_risk_ceiling = RISK_HIGH, dg_expires_at = Aware 1000, dg_parent_delegation_id = None\<rparr>"

definition mail_orchestration :: "uuid \<Rightarrow> plan_status \<Rightarrow> string option \<Rightarrow> agent_orchestration" where
  "mail_orchestration i status k = (new_orchestration example_context mail_plan mail_delegation i ''read'' (uuid_str i) 0)
     \<lparr>ao_status := status, ao_current_step_key := k, ao_version := 2\<rparr>"

definition mail_receipt :: "uuid \<Rightarrow> uuid \<Rightarrow> bool \<Rightarrow> agent_execution_receipt" where
  "mail_receipt j i passed = receipt_row example_context i (mail_step ''read'' ''mail.read'' RISK_LOW None)
     \<lparr>xr_result_payload = [], xr_command_receipt_id = 1, xr_verification_passed = Some passed\<rparr> ''a'' ''b'' j 5"

definition mail_reservation :: "uuid \<Rightarrow> agent_budget_reservation" where
  "mail_reservation j = reservation_row example_context mail_manifest mail_plan (uuid_str j) j 5"

definition mail_event :: "uuid \<Rightarrow> uuid \<Rightarrow> plan_status \<Rightarrow> outbox_event" where
  "mail_event j i status = agent_outbox_row example_context ''agent.execution.receipted'' i 2 ''internal''
     (plan_status_value status) 5 j 5"

definition mail_version :: agent_manifest_version where
  "mail_version = (new_manifest_version example_env example_context mail_manifest ''internal'' 1 0)\<lparr>av_activated_at := Some 3\<rparr>"

definition mail_evaluation :: agent_evaluation_run where
  "mail_evaluation = evaluation_row example_context mail_manifest ''synthetic.mail'' ''c'' True 81 2"

definition agents_world :: "unit agent_db_scheme" where
  "agents_world = (example_world (agent_db_ext [(new_manifest_record example_context mail_manifest 0)\<lparr>am_enabled := True\<rparr>]
     [mail_version] [] [] [delegation_row example_env example_context mail_delegation 1000]
     [proposed_plan example_env example_context mail_plan ''key'' ''internal'' 1 0] []
     [mail_reservation 91, mail_reservation 92]
     [mail_orchestration 51 PLAN_EXECUTING (Some ''send''), mail_orchestration 52 PLAN_FAILED None]
     [mail_receipt 93 51 True, mail_receipt 94 52 False] [mail_evaluation] ()))
   \<lparr>outbox_events := [mail_event 95 51 PLAN_EXECUTING, mail_event 96 52 PLAN_FAILED]\<rparr>"

definition mail_plans :: plan_book where
  "mail_plans w i = mail_plan"

definition mail_ports :: "'s agent_ports" where
  "mail_ports = \<lparr>planner_port = \<lambda>d n. returnM (dump_proposal mail_plan), plan_reader = \<lambda>v. Some mail_plan,
     executor_port = \<lambda>r. returnM \<lparr>xr_result_payload = [], xr_command_receipt_id = 1, xr_verification_passed = Some True\<rparr>,
     approval_port = \<lambda>ctx i d now. returnM True\<rparr>"

lemma mail_ports_keep: "ports_keep mail_ports"
  by (simp add: ports_keep_def mail_ports_def frame_intros)

lemma allow_all_agents: "agent_authorizer env allow_all"
  by (intro agent_authorizer.intro component_authorizer.intro component_authorizer_axioms.intro
      authorizer.intro ag.component_view_axioms)
    (simp_all add: allow_all_def keeps_def preserves_def returnM_def)

lemma mail_step_fields [simp]:
  "ps_key (mail_step k tool risk a) = k" "ps_tool_key (mail_step k tool risk a) = tool" "ps_tool_version (mail_step k tool risk a) = 1"
  "ps_input_payload (mail_step k tool risk a) = [(''subject'', JStr ''Plan'')]" "ps_expected_resource_version (mail_step k tool risk a) = 1"
  "ps_expected_outcome (mail_step k tool risk a) = ''done''" "ps_verification_reference (mail_step k tool risk a) = ''mail.check.v1''"
  "ps_risk (mail_step k tool risk a) = risk" "ps_approval_id (mail_step k tool risk a) = a"
  by (simp_all add: mail_step_def)

lemma mail_step_valid:
  assumes "is_key k" "is_key tool"
  shows "validate_plan_step (mail_step k tool risk approval) = None"
proof -
  have ok: "is_reference ''mail.check.v1'' = True" "(py_strip ''done'' = []) = False"
    "list_ex (\<lambda>(k, v). list_ex (\<lambda>marker. py_in marker (casefold k)) SENSITIVE_KEYS) [(''subject'', JStr ''Plan'')] = False"
    by code_simp+
  have dumped: "json_dumps (JObj [(''subject'', JStr ''Plan'')]) = Some (CHR 0x7B # json_quote True ''subject'' @ '':'' @ json_quote True ''Plan'' @ [CHR 0x7D])"
    by (simp add: json_dumps_def json_dumps_with_def)
  define t where "t = CHR 0x7B # json_quote True ''subject'' @ '':'' @ json_quote True ''Plan'' @ [CHR 0x7D]"
  have "length t = 18" unfolding t_def by code_simp
  then have "\<not> 32768 < length t" by linarith
  then show ?thesis unfolding validate_plan_step_def mail_step_fields ok dumped [folded t_def] option.case using assms by simp
qed
lemma mail_plan_valid: "validate_proposal (mail_plan\<lparr>pp_plan_id := i, pp_status := st\<rparr>) = None"
proof -
  have "is_key ''default''" by code_simp
  then show ?thesis by (simp add: validate_proposal_def mail_plan_def CLASSIFICATIONS_RANKED_def)
qed

lemma mail_orchestration_simps [simp]:
  "home_of (mail_orchestration i st k) = (1, 2, 3)" "workspace_id (mail_orchestration i st k) = 2"
  "ao_pk (mail_orchestration i st k) = (1, 2, 3, i)" "ao_id (mail_orchestration i st k) = i"
  "ao_status (mail_orchestration i st k) = st" "ao_current_step_key (mail_orchestration i st k) = k"
  "ao_version (mail_orchestration i st k) = 2" "ao_cancelled_at (mail_orchestration i st k) = None"
  by (simp_all add: mail_orchestration_def new_orchestration_def agent_orchestration.fields_def tenant_row.extend_def
      context_tenant_def example_context_def home_of_def ao_pk_def tenant_pk_def)

lemma verify_Some: "verify_result (Some b) = (if b then OUTCOME_VERIFIED else OUTCOME_FAILED)"
  by (cases b) simp_all

lemma mail_receipt_simps [simp]:
  "home_of (mail_receipt j i b) = (1, 2, 3)" "tenant_pk (mail_receipt j i b) n = (1, 2, 3, n)"
  "rc_orchestration_id (mail_receipt j i b) = i" "rc_step_key (mail_receipt j i b) = ''read''"
  "rc_outcome (mail_receipt j i b) = (if b then OUTCOME_VERIFIED else OUTCOME_FAILED)"
  "rc_verified (mail_receipt j i b) = b" "rc_created_at (mail_receipt j i b) = 5"
  by (simp_all add: verify_Some mail_receipt_def receipt_row_def Let_def agent_execution_receipt.fields_def tenant_row.extend_def
      context_tenant_def example_context_def home_of_def tenant_pk_def mail_step_def)

lemma mail_row_simps [simp]:
  "home_of (mail_reservation j) = (1, 2, 3)" "ab_created_at (mail_reservation j) = 5" "ab_tool_calls (mail_reservation j) = 1"
  "ab_seconds (mail_reservation j) = 1"
  "workspace_id mail_evaluation = 2" "en_manifest_id mail_evaluation = 71" "en_manifest_version mail_evaluation = 1"
  "en_passed mail_evaluation" "workspace_id mail_version = 2" "av_manifest_id mail_version = 71" "av_version mail_version = 1"
  "av_activated_at mail_version = Some 3" "organization_id mail_version = 1" "cell_id mail_version = 3"
  by (simp_all add: mail_reservation_def reservation_row_def agent_budget_reservation.fields_def tenant_row.extend_def
      mail_evaluation_def evaluation_row_def agent_evaluation_run.fields_def mail_version_def new_manifest_version_def
      agent_manifest_version.fields_def context_tenant_def example_context_def home_of_def mail_manifest_def)

lemma mail_event_simps [simp]:
  "oe_workspace_id (mail_event j i st) = 2" "oe_aggregate_id (mail_event j i st) = i"
  "oe_aggregate_sequence (mail_event j i st) = 2" "oe_aggregate_type (mail_event j i st) = ''agent_platform''"
  "execution_event (mail_event j i st)"
  by (simp_all add: mail_event_def agent_outbox_row_def execution_event_def example_context_def)

lemma agents_world_tables: "agents_of agents_world = \<lparr>gt_tenants = [(1, 2, 3)], gt_versions = [mail_version],
   gt_evaluations = [mail_evaluation],
   gt_orchestrations = [mail_orchestration 51 PLAN_EXECUTING (Some ''send''), mail_orchestration 52 PLAN_FAILED None],
   gt_receipts = [mail_receipt 93 51 True, mail_receipt 94 52 False], gt_reservations = [mail_reservation 91, mail_reservation 92],
   gt_events = [mail_event 95 51 PLAN_EXECUTING, mail_event 96 52 PLAN_FAILED]\<rparr>"
  by (simp add: agents_of_def typed_events_def agents_world_def example_world_def)

lemma agents_world_inv: "agent_inv mail_plans (agents_of agents_world)"
proof -
  have "planned_keys mail_plans (mail_orchestration i st k) = [''read'', ''send'']" for i st k
    by (simp add: planned_keys_def mail_plans_def mail_plan_def mail_step_def)
  then have "orchestration_ok mail_plans (agents_of agents_world) (mail_orchestration 51 PLAN_EXECUTING (Some ''send''))"
    "orchestration_ok mail_plans (agents_of agents_world) (mail_orchestration 52 PLAN_FAILED None)"
    unfolding agents_world_tables by (simp_all add: orchestration_ok_def receipts_for_def execution_events_def)
  then show ?thesis unfolding agent_inv_def by (simp add: agents_world_tables)
qed

end
