(* ===== verification/Agent_Properties.thy ===== *)
theory Agent_Properties
  imports Agent_World
begin

text \<open>
  What holds of the agent platform: along calls, of the gate in front of a tool, and of delegations,
  budgets and plans.
\<close>

section \<open>Along calls\<close>

lemma agents_simps:
  "gt_versions (agents_of s) = agent_manifest_versions s" "gt_evaluations (agents_of s) = agent_evaluation_runs s"
  "gt_orchestrations (agents_of s) = agent_orchestrations s" "gt_receipts (agents_of s) = agent_execution_receipts s"
  "gt_reservations (agents_of s) = agent_budget_reservations s"
  by (simp_all add: agents_of_def)

text \<open>
  C9: Whatever is called, as long as the calls on an orchestration name the plan it was started with,
  the receipts of the orchestration are the first steps of this plan, in order and each once; all but
  the last one were verified; it stands at the next step while it executes, has succeeded exactly with
  a verified receipt for every step, has failed or is uncertain by its last receipt, and no cancelled
  one stands at a step. The version counts the receipts.
\<close>

theorem orchestrations_follow_plan:
  assumes "agent_authorizer env ask" "ports_keep P" "agent_inv plan (agents_of s)" "agent_calls env ask P plan s s'"
    and "o1 \<in> set (agent_orchestrations s')"
    and "xs = filter (\<lambda>x. tenant_pk x (rc_orchestration_id x) = ao_pk o1) (agent_execution_receipts s')"
    and "keys = map ps_key (pp_steps (plan (workspace_id o1) (ao_id o1)))"
  shows "map rc_step_key xs = take (length xs) keys \<and>
    stands keys (ao_status o1) (ao_current_step_key o1) (ao_cancelled_at o1) (map rc_outcome xs) \<and>
    1 + int (length xs) \<le> ao_version o1 \<and> (ao_cancelled_at o1 = None \<longrightarrow> ao_version o1 = 1 + int (length xs))"
proof -
  have "orchestration_ok plan (agents_of s') o1"
    using agent_invD(4) [OF agent_calls_inv [OF assms(4,1,2,3)]] assms(5) by (simp add: agents_simps)
  then show ?thesis unfolding orchestration_ok_def Let_def receipts_for_def planned_keys_def agents_simps assms(6,7) by blast
qed

lemma orchestrations_follow_plan_witness:
  "map rc_step_key (filter (\<lambda>x. tenant_pk x (rc_orchestration_id x) = (1, 2, 3, 51)) (agent_execution_receipts agents_world)) = [''read''] \<and>
   ao_version (mail_orchestration 51 PLAN_EXECUTING (Some ''send'')) = 2"
proof -
  let ?o = "mail_orchestration 51 PLAN_EXECUTING (Some ''send'')"
  have rows: "agent_orchestrations agents_world = [?o, mail_orchestration 52 PLAN_FAILED None]"
    "agent_execution_receipts agents_world = [mail_receipt 93 51 True, mail_receipt 94 52 False]"
    by (simp_all add: agents_world_def example_world_def)
  have "?o \<in> set (agent_orchestrations agents_world)" by (simp add: rows)
  from orchestrations_follow_plan [OF allow_all_agents mail_ports_keep agents_world_inv agent_calls.start this refl refl]
  show ?thesis by (simp add: rows mail_plans_def mail_plan_def mail_step_def)
qed







end
