(* ===== verification/Agent_Gate.thy ===== *)
theory Agent_Gate
  imports Agent_Properties
begin

text \<open>
  The gate in front of a tool: what an execution needs, what delegations, budgets and plans
  contribute to it, and what disabling does.
\<close>

section \<open>Delegations, budgets and plans\<close>

text \<open>
  C29: However often a delegation is handed on, it gives no authority that its origin does not give:
  it names the same actor, none but its permissions, no higher risk and no later expiry, and whatever
  may be executed under it may be executed under the origin.
\<close>

theorem delegations_never_amplify:
  assumes "handed_on root c"
  shows "dg_actor_id c = dg_actor_id root \<and> set (dg_permissions c) \<subseteq> set (dg_permissions root) \<and>
    RISK_RANK (dg_risk_ceiling c) \<le> RISK_RANK (dg_risk_ceiling root) \<and>
    later_than (dg_expires_at c) (dg_expires_at root) = Inr False \<and>
    (\<forall>x. validate_execution env st tool m c now authorized valid = Inr x \<longrightarrow>
       validate_execution env st tool m root now authorized valid = Inr x)"
  using handed_on_narrower [OF assms] narrower_executes
  unfolding narrower_def less_eq_risk_level_def by blast

lemma delegations_never_amplify_witness:
  "dg_actor_id (mail_delegation\<lparr>dg_permissions := [''mail.read''], dg_risk_ceiling := RISK_LOW, dg_expires_at := Aware 500,
     dg_delegation_id := 63, dg_parent_delegation_id := Some 62\<rparr>) = 11"
proof -
  let ?c = "mail_delegation\<lparr>dg_risk_ceiling := RISK_MEDIUM, dg_delegation_id := 62, dg_parent_delegation_id := Some 61\<rparr>"
  let ?d = "mail_delegation\<lparr>dg_permissions := [''mail.read''], dg_risk_ceiling := RISK_LOW, dg_expires_at := Aware 500,
     dg_delegation_id := 63, dg_parent_delegation_id := Some 62\<rparr>"
  have valid: "validate_delegation ?c = None" "validate_delegation ?d = None" by code_simp+
  have "attenuate_delegation mail_delegation 62 [''mail.read'', ''mail.send''] RISK_MEDIUM (Aware 1000) = Inr ?c"
    using valid(1) by (simp add: attenuate_Inr narrower_def later_than_False less_eq_risk_level_def) (simp add: mail_delegation_def)
  moreover have "attenuate_delegation ?c 63 [''mail.read''] RISK_LOW (Aware 500) = Inr ?d"
    using valid(2) by (simp add: attenuate_Inr narrower_def later_than_False less_eq_risk_level_def) (simp add: mail_delegation_def)
  ultimately have "handed_on mail_delegation ?d" by (blast intro: handed_on.intros)
  from delegations_never_amplify [OF this] show ?thesis by (simp add: mail_delegation_def)
qed

text \<open>
  Reservations made one after the other succeed exactly when none is negative and their sums are
  within the budget, and then leave the difference.
\<close>

theorem reservations_add_up:
  assumes "make_budget b = Inr b"
  shows "reserve_all b rs = Inr b' \<longleftrightarrow> list_all nonnegative rs \<and> within_budget (total rs) b \<and> b' = spent (total rs) b"
proof -
  have "positive_limits b = None" using assms by (simp add: make_budget_def constructed_def split: option.splits)
  then show ?thesis by (rule reserve_all_Inr)
qed

lemma reservations_add_up_witness:
  "reserve_all mail_budget [(600, 10, 1, 1), (500, 10, 1, 1)] \<noteq> Inr b \<and>
   reserve_all mail_budget [(600, 10, 1, 1), (400, 10, 1, 1)] = Inr \<lparr>bg_max_tokens = 0, bg_max_cost_micros = 80,
     bg_max_tool_calls = 3, bg_max_seconds = 58\<rparr>"
proof -
  have "make_budget mail_budget = Inr mail_budget" by code_simp
  note add_up = reservations_add_up [OF this]
  show ?thesis unfolding add_up by (simp add: mail_budget_def)
qed

text \<open>
  C30: For a step of a plan that the manifest admitted, with the tool that was registered for it, the
  gate asks exactly for what may change since: that the delegation has not expired, covers the
  permission and the risk, that the caller is authorized now, and that a step of high risk has a valid
  approval. The digest is that of the registered command with the payload of the step.
\<close>

theorem admitted_steps_execute_iff:
  assumes "validate_plan p m tools = Inr q" "st \<in> set (pp_steps q)" "tools (ps_tool_key st) = Some tool"
    and "tl_key tool = ps_tool_key st"
  shows "validate_execution env st tool m d (Aware n) authorized approval_valid = Inr x \<longleftrightarrow>
    (\<exists>e. dg_expires_at d = Aware e \<and> n < e) \<and> tl_permission_key tool \<in> set (dg_permissions d) \<and> authorized \<and>
    RISK_RANK (ps_risk st) \<le> RISK_RANK (dg_risk_ceiling d) \<and>
    (ps_risk st \<in> {RISK_HIGH, RISK_CRITICAL} \<longrightarrow> ps_approval_id st \<noteq> None \<and> approval_valid) \<and>
    agent_action_digest env (tl_command_reference tool) (ps_input_payload st) (ps_expected_resource_version st) = Inr x"
proof -
  have "list_all (step_admitted m tools) (pp_steps p)" "pp_steps q = pp_steps p" "mf_enabled m"
    using assms(1) by (simp_all add: validate_plan_Inr)
  then have "step_admitted m tools st" "mf_enabled m" using assms(2) by (simp_all add: list_all_iff)
  then show ?thesis
    using assms(3,4) by (auto simp: validate_execution_Inr step_admitted_def high_risk_def less_eq_risk_level_def)
qed

lemma admitted_steps_execute_iff_witness:
  "(\<exists>x. validate_execution example_env (mail_step ''send'' ''mail.send'' RISK_HIGH (Some 41)) (mail_tool 22 ''mail.send'' RISK_HIGH)
     mail_manifest mail_delegation (Aware 999) True True = Inr x) \<and>
   \<not> (\<exists>x. validate_execution example_env (mail_step ''send'' ''mail.send'' RISK_HIGH (Some 41)) (mail_tool 22 ''mail.send'' RISK_HIGH)
     mail_manifest mail_delegation (Aware 999) True False = Inr x)"
proof -
  let ?st = "mail_step ''send'' ''mail.send'' RISK_HIGH (Some 41)" and ?q = "mail_plan\<lparr>pp_status := PLAN_VALIDATED\<rparr>"
  let ?tool = "mail_tool 22 ''mail.send'' RISK_HIGH"
  have 1: "validate_plan mail_plan mail_manifest mail_tools = Inr ?q"
  proof -
    have "check_plan_steps mail_manifest mail_tools (pp_steps mail_plan) = None" by code_simp
    then show ?thesis by (simp add: validate_plan_def) (simp add: mail_plan_def mail_manifest_def mail_budget_def)
  qed
  have 2: "?st \<in> set (pp_steps ?q)" by (simp add: mail_plan_def)
  have 3: "mail_tools (ps_tool_key ?st) = Some ?tool" "tl_key ?tool = ps_tool_key ?st"
    by (simp_all add: mail_tools_def mail_step_def mail_tool_def)
  obtain x where x: "agent_action_digest example_env (tl_command_reference ?tool) (ps_input_payload ?st)
      (ps_expected_resource_version ?st) = Inr x"
    by (simp add: agent_action_digest_def json_dumps_def json_dumps_with_def mail_step_def mail_tool_def)
  have "validate_execution example_env ?st ?tool mail_manifest mail_delegation (Aware 999) True True = Inr x"
    unfolding admitted_steps_execute_iff [OF 1 2 3]
    using x by (simp add: mail_delegation_def) (simp add: mail_step_def mail_tool_def)
  moreover have "validate_execution example_env ?st ?tool mail_manifest mail_delegation (Aware 999) True False \<noteq> Inr y" for y
    using admitted_steps_execute_iff [OF 1 2 3, of example_env mail_delegation 999 True False y] by (simp add: mail_step_def)
  ultimately show ?thesis by blast
qed

section \<open>The gate\<close>

lemma bindM_cong: "(\<And>x s'. m s = (Inr x, s') \<Longrightarrow> f x s' = g x s') \<Longrightarrow> bindM m f s = bindM m g s"
  by (auto simp: bindM_def split: prod.splits sum.splits)

lemma thenM_cong: "(\<And>s'. fst (m s) \<in> range Inr \<Longrightarrow> snd (m s) = s' \<Longrightarrow> n s' = k s') \<Longrightarrow> thenM m n s = thenM m k s"
  by (auto simp: thenM_def bindM_def split: prod.splits sum.splits)

lemma outcome_simps:
  "getsM f s = (Inr x, s') \<longleftrightarrow> x = f s \<and> s' = s" "returnM y s = (Inr x, s') \<longleftrightarrow> x = y \<and> s' = s"
  "someM z e s = (Inr x, s') \<longleftrightarrow> z = Some x \<and> s' = s" "liftM r s = (Inr x, s') \<longleftrightarrow> r = Inr x \<and> s' = s"
  by (auto simp: getsM_def returnM_def someM_def liftM_def raiseM_def split: option.splits sum.splits)

text \<open>
  What a request that reaches the tool has passed: it is a step of the plan with this tool, everything
  is enabled and in time, the authorizer has said yes, the approval of a step of high risk was found
  valid for the very digest that the request carries, and the digest is that of its command, payload
  and version.
\<close>

definition may_execute :: "py_env \<Rightarrow> 's authorizer \<Rightarrow> 's approval_validator \<Rightarrow> execution_context \<Rightarrow> uuid \<Rightarrow> plan_proposal \<Rightarrow>
    agent_manifest \<Rightarrow> tool_manifest \<Rightarrow> delegation \<Rightarrow> budget \<Rightarrow> string \<Rightarrow> py_datetime \<Rightarrow> tool_execution_request \<Rightarrow> bool" where
  "may_execute env ask approvals ctx i p m tool d available k now req \<longleftrightarrow>
     (\<exists>st \<in> set (pp_steps p). \<exists>x. req = execution_request ctx i p st tool x k \<and>
        agent_action_digest env (tl_command_reference tool) (ps_input_payload st) (ps_expected_resource_version st) = Inr x \<and>
        ps_tool_key st = tl_key tool \<and> ps_tool_version st = tl_version tool \<and> mf_enabled m \<and> tl_enabled tool \<and>
        (\<exists>n e. now = Aware n \<and> dg_expires_at d = Aware e \<and> n < e) \<and>
        tl_permission_key tool \<in> set (dg_permissions d) \<and> (\<exists>s. fst (ask ctx (tl_permission_key tool) s) = Inr True) \<and>
        ps_risk st \<le> mf_risk_ceiling m \<and> ps_risk st \<le> dg_risk_ceiling d \<and>
        (ps_risk st \<in> {RISK_HIGH, RISK_CRITICAL} \<longrightarrow>
           (\<exists>a s. ps_approval_id st = Some a \<and> fst (approvals ctx a x now s) = Inr True)) \<and>
        within_budget (pp_estimated_tokens p, pp_estimated_cost_micros p, 1, 1) available)"

lemma step_at_member: "step_at sts k = Inr (st, following) \<Longrightarrow> st \<in> set sts"
  by (induction sts k rule: step_at.induct) (auto split: if_splits)

lemma asked_approval:
  assumes "ask_approval env approvals ctx st tool now s = (Inr True, s')" "high_risk (ps_risk st)"
    "agent_action_digest env (tl_command_reference tool) (ps_input_payload st) (ps_expected_resource_version st) = Inr x"
  shows "\<exists>a s. ps_approval_id st = Some a \<and> fst (approvals ctx a x now s) = Inr True"
proof (cases "ps_approval_id st")
  case None
  then show ?thesis using assms by (simp add: ask_approval_def bindM_def liftM_def returnM_def)
next
  case (Some a)
  then have "approvals ctx a x now s = (Inr True, s')" using assms by (simp add: ask_approval_def bindM_def liftM_def returnM_def)
  then show ?thesis using Some by (metis fst_conv)
qed

text \<open>
  C10: The tool only runs on a request that has passed the gate: two executors that do the same on
  these requests cannot be told apart by an execution, whatever they would do on any other.
\<close>

theorem tool_runs_only_through_gate:
  assumes "\<And>req. may_execute env ask approvals ctx i p m tool d available k now req \<Longrightarrow> run req = run' req"
  shows "execute_step env ask ctx i p m tool d run approvals available k now s =
    execute_step env ask ctx i p m tool d run' approvals available k now s"
  unfolding execute_step_def
proof (intro bindM_cong thenM_cong, clarsimp simp: outcome_simps, intro bindM_cong thenM_cong, goal_cases)
  case (1 o1 st following authorized s1 valid s2 x s3 s4 rid s5 t s6 s7)
  then have gate: "validate_execution env st tool m d now authorized valid = Inr x"
      "ask_approval env approvals ctx st tool now s1 = (Inr valid, s2)" "step_at (pp_steps p) (ao_current_step_key o1) = Inr (st, following)"
    and asked: "\<exists>s0. ask ctx (tl_permission_key tool) s0 = (Inr authorized, s1)"
    and budget: "\<exists>left. reserve_budget available (pp_estimated_tokens p) (pp_estimated_cost_micros p) 1 1 = Inr left"
    by (auto simp: outcome_simps liftM_def raiseM_def returnM_def split: sum.splits)
  note passed = gate(1) [unfolded validate_execution_Inr]
  have "\<exists>s0. fst (ask ctx (tl_permission_key tool) s0) = Inr True" using asked passed by (metis fst_conv)
  moreover have "\<exists>a s0. ps_approval_id st = Some a \<and> fst (approvals ctx a x now s0) = Inr True" if "high_risk (ps_risk st)"
    by (rule asked_approval [OF _ that]) (use gate(2) passed that in auto)
  moreover have "within_budget (pp_estimated_tokens p, pp_estimated_cost_micros p, 1, 1) available"
    using budget unfolding reserve_budget_Inr by blast
  ultimately have "may_execute env ask approvals ctx i p m tool d available k now (execution_request ctx i p st tool x k)"
    using step_at_member [OF gate(3)] passed unfolding may_execute_def high_risk_def by blast
  then show ?case using assms by metis
qed

lemma tool_runs_only_through_gate_witness:
  "execute_step example_env allow_all example_context 51 mail_plan mail_manifest (mail_tool 22 ''mail.send'' RISK_HIGH)
     mail_delegation (\<lambda>r. raiseM KeyError) (\<lambda>ctx a d now. returnM False) mail_budget ''k'' (Aware 9) (started example_context agents_world) =
   execute_step example_env allow_all example_context 51 mail_plan mail_manifest (mail_tool 22 ''mail.send'' RISK_HIGH)
     mail_delegation (executor_port mail_ports) (\<lambda>ctx a d now. returnM False) mail_budget ''k'' (Aware 9) (started example_context agents_world)"
proof (rule tool_runs_only_through_gate)
  fix req
  assume "may_execute example_env allow_all (\<lambda>ctx a d now. returnM False) example_context 51 mail_plan mail_manifest
    (mail_tool 22 ''mail.send'' RISK_HIGH) mail_delegation mail_budget ''k'' (Aware 9) req"
  then obtain st where "st \<in> set (pp_steps mail_plan)" "ps_tool_key st = ''mail.send''" "ps_risk st \<notin> {RISK_HIGH, RISK_CRITICAL}"
    by (auto simp: may_execute_def mail_tool_def returnM_def)
  then have False by (auto simp: mail_plan_def mail_step_def)
  then show "raiseM KeyError = executor_port mail_ports req" ..
qed



section \<open>Disabling\<close>

text \<open>The numbers that the events of the platform have taken.\<close>

definition announced_of :: "'a core_db_scheme \<Rightarrow> (uuid \<times> uuid \<times> int) set" where
  "announced_of s = event_number ` set (typed_events ''agent_platform'' s)"

interpretation an: component_view "''agent_platform''" announced_of
  by unfold_locales (simp add: announced_of_def)

sublocale agent_authorizer \<subseteq> numbers: component_authorizer "''agent_platform''" announced_of env ask
  by (intro component_authorizer.intro component_authorizer_axioms.intro an.component_view_axioms authorizer_axioms ask_events)

lemma run_record_announced:
  assumes "\<And>s'. (ctx_workspace ctx, i, n) \<notin> announced_of s \<Longrightarrow> (ctx_workspace ctx, i, n) \<in> announced_of s' \<Longrightarrow> Q () s'"
  shows "wp (record_agent env ctx event i n cl status now) Q any_error s"
  unfolding record_agent_def
proof (rule an.run_announce)
  fix j r and s' :: "'a core_db_scheme"
  let ?e = "agent_outbox_row ctx event i n cl status now j r"
  have e: "event_number ?e = (ctx_workspace ctx, i, n)" by (simp add: event_number_def agent_outbox_row_def)
  assume "event_number ?e \<notin> event_number ` set (typed_events ''agent_platform'' s)"
    "typed_events ''agent_platform'' s' = typed_events ''agent_platform'' s @ [?e]"
  then show "Q () s'" using e by (intro assms) (auto simp: announced_of_def)
qed (simp add: agent_outbox_row_def)

lemma keeps_announced_writes:
  "keeps announced_of (add_manifest_record ctx r1)" "keeps announced_of (add_manifest_version ctx r2)"
  "keeps announced_of (save_manifest_record r1)"
  unfolding add_manifest_record_def add_manifest_version_def save_manifest_record_def add_row_def
  by (intro frame_intros; simp add: announced_of_def typed_events_def)+

context agent_authorizer
begin

lemma register_announces:
  "wp (register_manifest env ask ctx m cl pv now)
     (\<lambda>_ s'. (ctx_workspace ctx, mf_manifest_id m, mf_version m) \<in> announced_of s') any_error s"
  unfolding register_manifest_def Let_def
  by (intro run_then numbers.run_agent_allow, intro run_then run_require run_bind run_gets run_then
      run_if_then [OF keeps_announced_writes(1)] an.run_V [OF keeps_announced_writes(2)] run_record_announced run_return) simp

lemma disable_announces:
  "wp (disable_manifest env ask ctx i now) (\<lambda>_ _. (ctx_workspace ctx, i, 1) \<notin> announced_of s) any_error s"
  unfolding disable_manifest_def
  by (intro run_then numbers.run_agent_allow, intro run_bind run_gets run_some run_then an.run_V [OF keeps_announced_writes(3)]
      run_record_announced) simp

end

text \<open>
  C32: Once version 1 of a manifest was registered, disabling the manifest raises in every later state
  that still has the events: both announce number 1 of the same aggregate.
\<close>

theorem registered_manifests_cannot_be_disabled:
  assumes "agent_authorizer env ask"
    and "transaction ctx (register_manifest env ask ctx m cl pv now) s = (Inr v, s1)" "mf_version m = 1"
    and "set (typed_events ''agent_platform'' s1) \<subseteq> set (typed_events ''agent_platform'' s2)" "ctx_workspace ctx2 = ctx_workspace ctx"
  shows "\<exists>e. fst (transaction ctx2 (disable_manifest env ask ctx2 (mf_manifest_id m) now2) s2) = Inl e"
proof -
  let ?n = "(ctx_workspace ctx, mf_manifest_id m, 1)"
  have "case transaction ctx (register_manifest env ask ctx m cl pv now) s of (Inl e, s') \<Rightarrow> announced_of s' = announced_of s
      | (Inr _, s') \<Rightarrow> ?n \<in> announced_of s'"
    by (rule an.transaction_effect [where R = "\<lambda>_ v. ?n \<in> v"])
      (use agent_authorizer.register_announces [OF assms(1), of ctx m cl pv now] assms(3) in simp)
  then have "?n \<in> announced_of s2" using assms(2,4) by (auto simp: announced_of_def)
  moreover have "case transaction ctx2 (disable_manifest env ask ctx2 (mf_manifest_id m) now2) s2 of
      (Inl e, s') \<Rightarrow> announced_of s' = announced_of s2 | (Inr _, s') \<Rightarrow> ?n \<notin> announced_of s2"
    by (rule an.transaction_effect [where R = "\<lambda>v _. ?n \<notin> v"])
      (use agent_authorizer.disable_announces [OF assms(1), of ctx2 "mf_manifest_id m" now2 "started ctx2 s2"] assms(5)
       in \<open>simp add: an.V_started\<close>)
  ultimately show ?thesis by (auto split: prod.splits sum.splits)
qed

definition bare_world :: "unit agent_db_scheme" where
  "bare_world = example_world (agent_db_ext [] [] [] [] [] [] [] [] [] [] [] ())"

lemma register_bare:
  "wp (register_manifest example_env allow_all example_context mail_manifest ''internal'' 1 0) (\<lambda>_ _. True) (\<lambda>_ _. False)
     (started example_context bare_world)"
proof -
  let ?s = "started example_context bare_world"
  let ?r = "new_manifest_record example_context mail_manifest 0"
  let ?v = "new_manifest_version example_env example_context mail_manifest ''internal'' 1 0"
  let ?s1 = "?s\<lparr>agent_manifests := [?r]\<rparr>"
  let ?s2 = "?s1\<lparr>agent_manifest_versions := [?v]\<rparr>"
  have s: "session_context ?s = Some example_context" "writable 2 ?s" "workspaces ?s = workspaces (example_world ())"
    "agent_manifests ?s = []" "agent_manifest_versions ?s = []" "audit_events ?s = []" "outbox_events ?s = []" "draws ?s = 0"
    by (simp_all add: started_def with_context_def bare_world_def example_world_def writable_def)
  have r: "workspace_id ?r = 2" "length (am_name ?r) = 4" "organization_id ?r = 1" "cell_id ?r = 3" "am_id ?r = 71"
    by (simp_all add: new_manifest_record_def context_tenant_def example_context_def tenant_row.defs agent_manifest_record.defs
      mail_manifest_def)
  have v: "workspace_id ?v = 2" "av_version ?v = 1" "av_policy_version ?v = 1" "av_manifest_id ?v = 71" "organization_id ?v = 1"
    "cell_id ?v = 3" "av_classification ?v = ''internal''"
    by (simp_all add: new_manifest_version_def context_tenant_def example_context_def tenant_row.defs agent_manifest_version.defs
      mail_manifest_def)
  have w: "ctx_workspace example_context = 2" "ctx_actor example_context = 11" by (simp_all add: example_context_def)
  have ids: "mf_manifest_id mail_manifest = 71" "mf_version mail_manifest = 1" "mf_owner_user_id mail_manifest = 11"
    by (simp_all add: mail_manifest_def)
  have add1: "wp (add_manifest_record example_context ?r) Q E ?s = Q () ?s1" for Q E
    using s(1-5) r w
    by (simp add: add_manifest_record_def add_row_def wp_simps violated_None_iff [symmetric] manifest_record_constraints_def
        tenant_exists_def example_world_def)
  have add2: "wp (add_manifest_version example_context ?v) Q E ?s1 = Q () ?s2" for Q E
    using s(1-5) v w r
    by (simp add: add_manifest_version_def add_row_def wp_simps violated_None_iff [symmetric] manifest_version_constraints_def
        writable_def am_pk_def int4_def)
  have recorded: "wp (record_agent example_env example_context ''agent.manifest.registered'' 71 1 ''internal'' ''registered'' 0)
      (\<lambda>_ _. True) (\<lambda>_ _. False) ?s2"
    unfolding record_agent_def wp_bindM
  proof (rule wp_audit_write_succeeds)
    have "messaging_safe_payload (agent_details 1 ''registered'') = Inr (agent_details 1 ''registered'')" by code_simp
    then show "messaging_safe_payload (details_or_empty (ai_details (audit_input ''agent.manifest.registered'' ''agent_platform'' 71
        ''success''\<lparr>ai_classification := ''internal'', ai_details := Some (agent_details 1 ''registered'')\<rparr>))) =
      Inr (details_or_empty (ai_details (audit_input ''agent.manifest.registered'' ''agent_platform'' 71
        ''success''\<lparr>ai_classification := ''internal'', ai_details := Some (agent_details 1 ''registered'')\<rparr>)))"
      by (simp add: details_or_empty_def)
    show "workspace_exists (ctx_workspace example_context) ?s2"
      using s(3) w by (simp add: workspace_exists_def example_world_def)
    show "list_all (\<lambda>x. ae_id x \<noteq> uuid4_stream example_env (draws ?s2)) (audit_events ?s2)" using s(6) by simp
    fix e hs
    show "wp (uuid4 example_env) (\<lambda>x. wp (insert_outbox_event (agent_outbox_row example_context ''agent.manifest.registered'' 71 1
        ''internal'' ''registered'' 0 x (ae_recorded_at e))) (\<lambda>_ _. True) (\<lambda>_ _. False)) (\<lambda>_ _. False)
      (?s2\<lparr>draws := Suc (Suc (draws ?s2)), audit_events := audit_events ?s2 @ [e], audit_chain_heads := hs\<rparr>)"
      using s(2,3,7) w by (simp add: wp_simps agent_outbox_row_def outbox_event_constraints_def workspace_exists_def writable_def
          violated_None_iff [symmetric] example_world_def)
  qed
  show ?thesis
    unfolding register_manifest_def agent_allow_def allow_all_def Let_def
    using s(4) w ids by (simp add: wp_simps find_manifest_def add1 add2 recorded)
qed

lemma registered_bare:
  "\<exists>v s1. transaction example_context (register_manifest example_env allow_all example_context mail_manifest ''internal'' 1 0)
     bare_world = (Inr v, s1)"
proof -
  have "placed example_context bare_world" "\<not> in_transaction bare_world"
    by (simp_all add: placed_def placement_rows_def bare_world_def example_world_def example_context_def)
  with register_bare show ?thesis by (auto simp: transaction_runs split: prod.splits sum.splits elim: wp_cases)
qed

lemma registered_manifests_cannot_be_disabled_witness:
  "\<exists>e. fst (transaction example_context (disable_manifest example_env allow_all example_context 71 5)
     (snd (transaction example_context (register_manifest example_env allow_all example_context mail_manifest ''internal'' 1 0)
        bare_world))) = Inl e"
proof -
  obtain v s1 where r: "transaction example_context (register_manifest example_env allow_all example_context mail_manifest ''internal'' 1 0)
      bare_world = (Inr v, s1)"
    using registered_bare by blast
  have "mf_version mail_manifest = 1" "mf_manifest_id mail_manifest = 71" by (simp_all add: mail_manifest_def)
  then show ?thesis
    using registered_manifests_cannot_be_disabled [OF allow_all_agents r _ subset_refl refl, of 5] by (simp add: r)
qed

section \<open>Acceptance\<close>

text \<open>
  A plan that the planner returns with the status accepted is executed without having been
  accepted: it can be started right away, while its row says proposed and no step of it was checked
  against the manifest or recorded.
\<close>

theorem plans_start_without_acceptance:
  assumes "\<And>p s. ask ctx p s = (Inr True, s)" "\<And>x n s. planner x n s = (Inr raw, s)"
    and "read_proposal read_plan raw = Inr p" "pp_status p = PLAN_ACCEPTED" "pp_steps p = st # sts"
    and "mf_enabled m" "pp_manifest_id p = mf_manifest_id m" "pp_manifest_version p = mf_version m"
    and "dg_expires_at d = Aware e" "now < e" "session_context s = Some ctx" "writable (ctx_workspace ctx) s"
    and "r = proposed_plan env ctx p k cl pv now" "list_all snd (plan_constraints r s)"
    and "o1 = new_orchestration ctx p d i (ps_key st) k' now"
      "list_all snd (orchestration_constraints o1 (s\<lparr>agent_plans := agent_plans s @ [r]\<rparr>))"
  shows "bindM (propose env ask ctx planner read_plan x m k cl pv now) (\<lambda>q. start_orchestration ask ctx q d i k' now) s =
      (Inr o1, s\<lparr>agent_plans := agent_plans s @ [r], agent_orchestrations := agent_orchestrations s @ [o1]\<rparr>) \<and>
    ap_status r = PLAN_PROPOSED \<and> ao_status o1 = PLAN_EXECUTING"
proof -
  have ws: "workspace_id r = ctx_workspace ctx" "workspace_id o1 = ctx_workspace ctx"
    by (simp_all add: assms(13,15) proposed_plan_def new_orchestration_def context_tenant_def)
  have st: "ap_status r = PLAN_PROPOSED" "ao_status o1 = PLAN_EXECUTING"
    by (simp_all add: assms(13,15) proposed_plan_def new_orchestration_def agent_plan.fields_def agent_orchestration.fields_def
        tenant_row.extend_def)
  have w: "writable (ctx_workspace ctx) (s\<lparr>agent_plans := ps\<rparr>)" for ps using assms(12) by (simp add: writable_def)
  have add1: "wp (add_plan ctx r) Q E s = Q () (s\<lparr>agent_plans := agent_plans s @ [r]\<rparr>)" for Q E
    using assms(11,12,14) ws by (simp add: add_plan_def add_row_def wp_simps violated_None_iff [symmetric])
  have add2: "wp (add_orchestration ctx o1) Q E (s\<lparr>agent_plans := agent_plans s @ [r]\<rparr>) =
      Q () (s\<lparr>agent_plans := agent_plans s @ [r], agent_orchestrations := agent_orchestrations s @ [o1]\<rparr>)" for Q E
    using assms(11,16) ws w by (simp add: add_orchestration_def add_row_def wp_simps violated_None_iff [symmetric])
  have allow: "wp (agent_allow ask ctx key) Q E s' = Q () s'" for key Q E s'
    using assms(1) by (simp add: agent_allow_def wp_simps) (simp add: wp_def)
  have plan: "wp (planner x n) Q E s' = Q raw s'" for n Q E s' by (simp add: wp_def assms(2))
  have "wp (bindM (propose env ask ctx planner read_plan x m k cl pv now) (\<lambda>q. start_orchestration ask ctx q d i k' now))
      (\<lambda>y s'. y = o1 \<and> s' = s\<lparr>agent_plans := agent_plans s @ [r], agent_orchestrations := agent_orchestrations s @ [o1]\<rparr>)
      (\<lambda>_ _. False) s"
    unfolding propose_def start_orchestration_def Let_def
    using assms(3-10) by (simp add: wp_simps allow plan add1 add2 assms(13) [symmetric] assms(15) [symmetric])
  then show ?thesis using st by (auto elim: wp_cases)
qed

lemma plans_start_without_acceptance_witness:
  "\<exists>o1 s'. bindM (propose example_env allow_all example_context (\<lambda>d n. returnM JNull)
       (\<lambda>v. Some (mail_plan\<lparr>pp_plan_id := 32, pp_status := PLAN_ACCEPTED\<rparr>)) ''d'' mail_manifest ''new'' ''internal'' 1 9)
     (\<lambda>q. start_orchestration allow_all example_context q mail_delegation 53 ''run'' 9) (started example_context agents_world) =
     (Inr o1, s') \<and> ao_status o1 = PLAN_EXECUTING"
proof -
  let ?p = "mail_plan\<lparr>pp_plan_id := 32, pp_status := PLAN_ACCEPTED\<rparr>" and ?s = "started example_context agents_world"
  let ?r = "proposed_plan example_env example_context ?p ''new'' ''internal'' 1 9"
  let ?o = "new_orchestration example_context ?p mail_delegation 53 ''read'' ''run'' 9"
  have "is_key ''read''" "is_key ''send''" "is_key ''mail.read''" "is_key ''mail.send''" by code_simp+
  then have "\<forall>st \<in> set (pp_steps ?p). validate_plan_step st = None" by (simp add: mail_plan_def mail_step_valid)
  then have found: "List.find (\<lambda>st. validate_plan_step st \<noteq> None) (pp_steps ?p) = None"
    "\<not> list_ex (\<lambda>st. validate_plan_step st = Some TypeError) (pp_steps ?p)"
    by (simp_all add: find_None_iff list_ex_iff)
  have read: "read_proposal (\<lambda>v. Some ?p) JNull = Inr ?p"
    unfolding read_proposal_def option.case validate_with_steps_def if_not_P [OF found(2)] found(1)
    by (simp add: make_proposal_def constructed_def mail_plan_valid)
  have s: "session_context ?s = Some example_context" "writable 2 ?s" "ctx_workspace example_context = 2"
    "agent_plans ?s = [proposed_plan example_env example_context mail_plan ''key'' ''internal'' 1 0]"
    "agent_orchestrations ?s = [mail_orchestration 51 PLAN_EXECUTING (Some ''send''), mail_orchestration 52 PLAN_FAILED None]"
    "agent_manifest_versions ?s = [mail_version]"
    "agent_delegations ?s = [delegation_row example_env example_context mail_delegation 1000]"
    by (simp_all add: started_def with_context_def agents_world_def example_world_def writable_def example_context_def)
  have "list_all snd (plan_constraints ?r ?s)"
    by (simp add: plan_constraints_def s(4,6) manifest_version_exists_def int4_def)
      (simp add: proposed_plan_def agent_plan.fields_def tenant_row.extend_def context_tenant_def example_context_def
        ap_pk_def tenant_pk_def mail_plan_def av_pk_def)
  moreover have "uuid_str 51 \<noteq> ''run''" "uuid_str 52 \<noteq> ''run''" by code_simp+
  then have "list_all snd (orchestration_constraints ?o (?s\<lparr>agent_plans := agent_plans ?s @ [?r]\<rparr>))"
    by (simp add: orchestration_constraints_def orchestration_checks_def s(4,5,7) plan_exists_def int4_def)
      (simp add: new_orchestration_def agent_orchestration.fields_def proposed_plan_def agent_plan.fields_def delegation_row_def
        agent_delegation.fields_def mail_orchestration_def tenant_row.extend_def context_tenant_def example_context_def
        ap_pk_def ao_pk_def tenant_pk_def mail_plan_def mail_delegation_def)
  ultimately have "bindM (propose example_env allow_all example_context (\<lambda>d n. returnM JNull) (\<lambda>v. Some ?p) ''d'' mail_manifest
      ''new'' ''internal'' 1 9) (\<lambda>q. start_orchestration allow_all example_context q mail_delegation 53 ''run'' 9) ?s =
      (Inr ?o, ?s\<lparr>agent_plans := agent_plans ?s @ [?r], agent_orchestrations := agent_orchestrations ?s @ [?o]\<rparr>) \<and>
    ap_status ?r = PLAN_PROPOSED \<and> ao_status ?o = PLAN_EXECUTING"
    using s read
    by (intro plans_start_without_acceptance [where raw = JNull and e = 1000 and st = "mail_step ''read'' ''mail.read'' RISK_LOW None"])
      (simp_all add: allow_all_def returnM_def mail_plan_def mail_manifest_def mail_delegation_def)
  then show ?thesis by blast
qed

end
