(* ===== verification/Service_Audit.thy ===== *)
theory Service_Audit
  imports Agent_World Messaging
begin

text \<open>
  Messaging, workflows and the agent platform never damage the audit log: they write it only through
  the audit writer and the authorizer, and so every operation keeps \<open>audit_inv\<close>, also when it
  raises. (\<open>Job_Audit\<close> and \<open>Task_Refinement\<close> have this for jobs and tasks.)
\<close>

section \<open>Messaging\<close>

lemma preserves_message_writes [inv_intros]:
  "preserves (audit_inv env) (add_quarantine ctx q)" "preserves (audit_inv env) (save_command a)"
  "preserves (audit_inv env) (save_aggregate env' b)" "preserves (audit_inv env) (save_inbox c)"
  "preserves (audit_inv env) (save_sequence env' d)" "preserves (audit_inv env) (save_quarantine q)"
  unfolding add_quarantine_def save_command_def save_aggregate_def save_inbox_def save_sequence_def save_quarantine_def
  by (intro inv_intros preserves_table_write preserves_add_row; simp)+

lemma preserves_message_reads [inv_intros]:
  "preserves (audit_inv env) (get_quarantine ctx w i)" "preserves (audit_inv env) (get_inbox ctx w c i)"
  unfolding get_quarantine_def get_inbox_def by (intro inv_intros)+

lemma preserves_message_claims [inv_intros]:
  "preserves (audit_inv env) (claim_command env' ctx c)" "preserves (audit_inv env) (lock_aggregate env' ctx w t i)"
  "preserves (audit_inv env) (claim_inbox env' ctx e n st d)" "preserves (audit_inv env) (lock_consumer_sequence env' ctx e n)"
  unfolding claim_command_def lock_aggregate_def claim_inbox_def lock_consumer_sequence_def Let_def
  by (intro inv_intros preserves_table_write; simp)+

lemma preserves_record_command: "preserves (audit_inv env) (record_command env ctx c t p major minor now)"
  unfolding record_command_def record_new_command_def complete_command_def Let_def
  by (intro inv_intros) (auto split: option.splits command_status.splits intro!: inv_intros)

lemma preserves_quarantines [inv_intros]:
  "preserves (audit_inv env) (quarantine_event env' ctx e n r x d)" "preserves (audit_inv env) (quarantine_claimed env' ctx e n r x d)"
  unfolding quarantine_event_def quarantine_claimed_def add_quarantine_row_def by (intro inv_intros)+

lemma preserves_begin_nested [inv_intros]: "preserves (audit_inv env) m \<Longrightarrow> preserves (audit_inv env) (begin_nested m)"
  unfolding preserves_def begin_nested_def by (auto split: prod.splits sum.splits intro: audit_inv_same)

lemma preserves_consume:
  assumes "\<And>h. apply = Some h \<Longrightarrow> preserves (audit_inv env) h"
  shows "preserves (audit_inv env) (consume env ctx schemas e n apply)"
  unfolding consume_def consume_expected_def run_handler_def Let_def by (intro inv_intros assms)

lemma preserves_replay_event: "preserves (audit_inv env) (replay_event env ctx schemas q d dry)"
  unfolding replay_event_def by (intro inv_intros)

section \<open>Workflows\<close>

lemma preserves_workflow_writes [inv_intros]:
  "preserves (audit_inv env) (add_workflow_record ctx a)" "preserves (audit_inv env) (add_workflow_version ctx b)"
  "preserves (audit_inv env) (add_workflow_instance ctx c)" "preserves (audit_inv env) (add_workflow_approval ctx d)"
  "preserves (audit_inv env) (add_workflow_decision ctx e)" "preserves (audit_inv env) (add_workflow_receipt ctx f)"
  unfolding add_workflow_record_def add_workflow_version_def add_workflow_instance_def add_workflow_approval_def
    add_workflow_decision_def add_workflow_receipt_def
  by (rule preserves_add_row; simp)+

lemma preserves_workflow_saves [inv_intros]:
  "preserves (audit_inv env) (save_workflow_version b)" "preserves (audit_inv env) (save_workflow_record a)"
  "preserves (audit_inv env) (save_workflow_instance c)"
  unfolding save_workflow_version_def protect_active_workflow_version_def save_workflow_record_def save_workflow_instance_def
  by (intro inv_intros preserves_table_write; simp)+

lemma preserves_record_workflow [inv_intros]: "preserves (audit_inv env) (record_workflow env ctx i e n cl st now)"
  unfolding record_workflow_def by (intro inv_intros)


section \<open>The agent platform\<close>

lemma preserves_agent_writes [inv_intros]:
  "preserves (audit_inv env) (add_manifest_record ctx a)" "preserves (audit_inv env) (add_manifest_version ctx b)"
  "preserves (audit_inv env) (add_tool_record ctx c)" "preserves (audit_inv env) (add_tool_version ctx d)"
  "preserves (audit_inv env) (add_delegation ctx e)" "preserves (audit_inv env) (add_plan ctx f)"
  "preserves (audit_inv env) (add_plan_step ctx g)" "preserves (audit_inv env) (add_reservation ctx h)"
  "preserves (audit_inv env) (add_orchestration ctx i)" "preserves (audit_inv env) (add_receipt ctx j)"
  "preserves (audit_inv env) (add_evaluation ctx k)"
  unfolding add_manifest_record_def add_manifest_version_def add_tool_record_def add_tool_version_def add_delegation_def
    add_plan_def add_plan_step_def add_reservation_def add_orchestration_def add_receipt_def add_evaluation_def
  by (rule preserves_add_row; simp)+

lemma preserves_agent_saves [inv_intros]:
  "preserves (audit_inv env) (save_manifest_record a)" "preserves (audit_inv env) (save_manifest_version b)"
  "preserves (audit_inv env) (save_tool_record c)" "preserves (audit_inv env) (save_tool_version d)"
  "preserves (audit_inv env) (save_plan e)" "preserves (audit_inv env) (save_orchestration f)"
  unfolding save_manifest_record_def save_manifest_version_def save_tool_record_def save_tool_version_def save_plan_def
    save_orchestration_def
  by (intro inv_intros preserves_table_write; simp)+

lemma preserves_record_agent [inv_intros]: "preserves (audit_inv env) (record_agent env ctx e i n cl st now)"
  unfolding record_agent_def by (intro inv_intros)

lemma preserves_agent_parts [inv_intros]:
  "preserves (audit_inv env) (settle_execution env ctx o1 p st following d r now)"
  "preserves (audit_inv env) (accept_step env' ctx p tools st)"
  unfolding settle_execution_def accept_step_def Let_def by (intro inv_intros)+



section \<open>Along calls\<close>






end
