(* ===== verification/Spec2Isabelle.thy ===== *)
theory Spec2Isabelle
  imports Foundation_Properties Messaging_Examples Job_Contract_Laws Dispatcher Job_Outcomes Task_Properties
    Workflow_Properties Agent_Gate Service_Audit
begin

text \<open>
  Verification of the durable core of Wanderra OS: the services under \<open>src/app/\<close> that every
  feature of the system runs on.

  \<^bold>\<open>The program.\<close> A request runs under an execution context (who, in which workspace of which
  organization and cell). A service method is a coroutine on one SQLAlchemy session, inside one
  transaction that is opened for that context; it reads rows, asks for a permission, mutates rows,
  and appends one audit event and one outbox event for what it did. The audit table is a hash chain
  that a trigger of the database extends; further triggers and constraints of the migrations guard
  the tables. Background work are durable jobs: rows that workers claim with leases, retry, and
  dead-letter.

  \<^bold>\<open>The model.\<close> A session is a record of its tables (lists of rows in order of insertion) and of the
  state of the session; the tables of a component extend it. A coroutine is a function from a
  session to its result, or the exception that left it, and the session (\<open>Prelude\<close>, which also has
  the weakest-precondition calculus in which the proofs run). Every \<open>raise\<close>, failed constraint and
  failing trigger is a branch. UUIDs are 128-bit words, times are microseconds, JSON is a datatype.
  What is not in the repository is a parameter (\<open>py_env\<close>): SHA-256, the text form of JSONB, the order in
  which a set is iterated, the time zone database, how JSON
  text is parsed, how pydantic prints a time in JSON (\<open>json_time\<close>), the sources of UUIDs and of the
  clock. Locks order concurrent transactions; here
  transactions run one after the other, and the rows that others hold locked are part of the state,
  since \<open>SKIP LOCKED\<close> passes over them.

  \<^bold>\<open>The theories.\<close>
  \<^item> \<open>Prelude\<close>, \<open>Py_Values\<close>, \<open>Safe_Payload\<close>: exceptions, the monad and its calculus, tables; the
    values of Python that the services use (strings, JSON, UUID and time formats); the screens for
    sensitive payloads of \<open>app/messaging/service.py\<close> and \<open>app/jobs/contracts.py\<close>.
  \<^item> \<open>Core_Tables\<close>, \<open>Audit_Chain\<close>: the shared rows, and the triggers of
    \<open>alembic/versions/0012_add_audit_messaging.py\<close> and \<open>0013_add_recovery_closure.py\<close> that chain
    audit events, verify a chain, and freeze the writes of a workspace. The invariant \<open>audit_inv\<close>
    says that the log of every workspace is linked and ends in the head of its chain; every
    operation of every component keeps it.
  \<^item> \<open>Execution_Context\<close> (\<open>app/execution_context/\<close>): contexts, their propagation into a
    transaction, rollback, and the guard of repositories.
  \<^item> \<open>Authorization\<close> (\<open>app/authorization/\<close>): deny-first decisions and their record. The locale
    \<open>authorizer\<close> is the interface that the other services use; it is interpreted by the
    authorizer of the program.
  \<^item> \<open>Audit_Writer\<close>, \<open>Messaging\<close>, \<open>Messaging_Laws\<close>, \<open>Messaging_Examples\<close> (\<open>app/messaging/\<close>):
    idempotent commands with optimistic versions, ordered consumers with an inbox, quarantine and
    replay.
  \<^item> \<open>Job_Contracts\<close>, \<open>Job_Contract_Laws\<close>, \<open>Dispatcher\<close>, \<open>Job_Store\<close>, \<open>Job_Service\<close> (\<open>app/jobs/\<close>):
    values and schedules, fair dispatch, the six tables with their constraints and queries, and every
    operation of \<open>JobService\<close>.
  \<^item> \<open>Job_Steps\<close>, \<open>Job_Refinement\<close>: the abstract machine of durable execution, eight kinds of steps
    on four tables, with the invariant \<open>job_inv\<close> that every step keeps; and the refinement: every
    operation that returns is a run of that machine, for any authorizer of the interface.
  \<^item> \<open>Durable_Worker\<close> (\<open>app/workers/durable.py\<close>): one claim through a registered handler, a
    parameter.
  \<^item> \<open>Job_Audit\<close>, \<open>Job_Properties\<close>, \<open>Job_Outcomes\<close>: durable execution keeps the audit log
    verifiable; what holds of all states that calls reach; what single operations return.
  \<^item> \<open>Task_Contracts\<close>, \<open>Task_Store\<close>, \<open>Task_Service\<close> (\<open>app/tasks/\<close>): the seven tables of tasks with
    their constraints and queries, every operation of \<open>TaskService\<close>, and the scheduler that turns a
    reminder into a durable job. The locales \<open>task_authorizer\<close> and \<open>reminder_scheduler\<close> are the
    interfaces it relies on, interpreted by the authorizer and by the job service of the program.
  \<^item> \<open>Task_Graph\<close>, \<open>Task_Steps\<close>, \<open>Task_Refinement\<close>, \<open>Task_Properties\<close>: the search for cycles of
    dependencies; tasks as an abstract machine with the invariant \<open>task_inv\<close>; every call is one step of
    it; what holds of all reachable states and of single calls.
  \<^item> \<open>Workflow_Contracts\<close>, \<open>Workflow_Store\<close>, \<open>Workflow_Service\<close> (\<open>app/workflows/\<close>): definitions of
    workflows and their JSON, transitions, approvals and action digests; six tables with the trigger
    of \<open>alembic/versions/0029_add_workflow_approval.py\<close>; every operation of \<open>WorkflowService\<close>.
    \<open>Workflow_Laws\<close> has what the contracts promise by themselves.
  \<^item> \<open>Component_View\<close>: the part of a session that a component owns, as a locale, and what a
    transaction does to it; \<open>Workflow_Steps\<close>, \<open>Workflow_Refinement\<close>, \<open>Workflow_Calls\<close>,
    \<open>Workflow_Properties\<close>: workflows as an abstract machine with the invariant \<open>workflow_inv\<close>, the
    refinement for any authorizer of the interface, what holds along calls, and the properties.
  \<^item> \<open>Agent_Contracts\<close>, \<open>Agent_Store\<close>, \<open>Agent_Service\<close> (\<open>app/agent_platform/\<close>): manifests, tools,
    delegations and plans with their validation, the gate \<open>validate_execution\<close> and budgets; the eleven
    tables with their constraints and queries; every operation of \<open>AgentPlatformService\<close>. The planner,
    the executor of tools, the validator of approvals and how the plain data of a plan is read
    (\<open>read_plan\<close>) are arguments of the operations. \<open>Agent_Laws\<close> has what the contracts promise by
    themselves: the order of authority, sums of reservations, what a validation that returns has
    checked, what a digest binds.
  \<^item> \<open>Agent_Steps\<close>, \<open>Agent_Refinement\<close>, \<open>Agent_Calls\<close>, \<open>Agent_World\<close>, \<open>Agent_Properties\<close>,
    \<open>Agent_Gate\<close>: the agent platform as an abstract machine with the invariant \<open>agent_inv\<close>, the
    refinement for any authorizer of the interface and for any executor that leaves the tables of
    agents to the service (\<open>ports_keep\<close>); what holds along calls, and of the gate in front of a tool.
    Nothing in \<open>execute_step\<close> compares the plan it is given with the plan of the orchestration, so
    what holds along calls is stated for callers that name the same plan (\<open>names_plan\<close>).
  \<^item> \<open>Service_Audit\<close>: messaging, workflows and agents keep \<open>audit_inv\<close>, as jobs (\<open>Job_Audit\<close>) and tasks
    (\<open>Task_Refinement\<close>) do.
  \<^item> \<open>Foundation_Properties\<close>, \<open>Example_World\<close>: the properties of the ground, and the small world in
    which the witnesses are evaluated.

  \<^bold>\<open>Loops.\<close> The loops of the program are recursions on the lists they run over, or (the rounds of the
  dispatcher) end by a measure; no fuel is needed. A daily schedule is searched for at most 370 days,
  as in the code.

  \<^bold>\<open>Not modelled.\<close> The tables \<open>workflow_tokens\<close> and \<open>workflow_waits\<close>, which no code reads or writes;
  the other feature services of \<open>src/app/\<close> (documents, knowledge, memory,
  connections, providers and so on), the HTTP interface, the schema changes of the migrations, and
  the interleaving of concurrent transactions.
\<close>

end
